(* ===== verification/Xia_Prelude.thy ===== *)
theory Xia_Prelude
  imports Main "HOL-Library.Word" "HOL-Library.AList"
begin

text \<open>
  Shared vocabulary of the development: the machine integer types of the C and C++ sources,
  the run-time faults a source statement can raise, little-endian byte encodings and the byte
  swapping functions of \<^verbatim>\<open>arpa/inet.h\<close>, the hexadecimal conversions of \<^verbatim>\<open>printf\<close>, and the
  three interfaces the components use: \<open>byte_codec\<close> (a fixed-width encoding of a value as
  bytes), \<open>invariant_system\<close> (a state whose operations all keep an invariant) and \<open>refinement\<close>
  (operations that answer as a specification on an abstract state does).
  The host is little endian, as \<^verbatim>\<open>CLICK_LITTLE_ENDIAN\<close> builds are.
\<close>

unbundle bit_operations_syntax

named_theorems codec \<open>facts that evaluate encoders on decoders and back\<close>

type_synonym u8 = "8 word"
type_synonym u16 = "16 word"
type_synonym u32 = "32 word"
type_synonym u64 = "64 word"

section \<open>Faults\<close>

text \<open>
  A statement of the source that dereferences a null pointer, indexes an array or a vector
  outside its bounds, writes past a buffer, fails an \<^verbatim>\<open>assert\<close>, erases an end iterator, divides by
  zero or exceeds the range of a signed type has no
  further defined behaviour. The model returns the fault instead of a value.
\<close>

datatype fault =
  Null_deref | Out_of_range | Buffer_overrun | Assert_failed | Bad_erase | Division_by_zero | Signed_overflow

type_synonym 'a run = "fault + 'a"

definition bind_run :: "'a run \<Rightarrow> ('a \<Rightarrow> 'b run) \<Rightarrow> 'b run" where
  "bind_run r f = (case r of Inl e \<Rightarrow> Inl e | Inr x \<Rightarrow> f x)"

lemma bind_run_simps [simp]:
  "bind_run (Inl e) f = Inl e"
  "bind_run (Inr x) f = f x"
  by (simp_all add: bind_run_def)

lemma bind_run_eq_Inr [simp]:
  "bind_run r f = Inr y \<longleftrightarrow> (\<exists>x. r = Inr x \<and> f x = Inr y)"
  by (cases r) simp_all

lemma bind_run_cong [fundef_cong]:
  "r = s \<Longrightarrow> (\<And>x. s = Inr x \<Longrightarrow> f x = g x) \<Longrightarrow> bind_run r f = bind_run s g"
  by (cases s) simp_all

text \<open>A computation that may also run for ever is \<^const>\<open>None\<close> where it does.\<close>

definition seq_run :: "'a run option \<Rightarrow> ('a \<Rightarrow> 'b run option) \<Rightarrow> 'b run option" where
  "seq_run m f = (case m of None \<Rightarrow> None | Some (Inl e) \<Rightarrow> Some (Inl e) | Some (Inr x) \<Rightarrow> f x)"

lemma seq_run_simps [simp]:
  "seq_run None f = None"
  "seq_run (Some (Inl e)) f = Some (Inl e)"
  "seq_run (Some (Inr x)) f = f x"
  by (simp_all add: seq_run_def)

lemma seq_run_eq_Inr [simp]:
  "seq_run m f = Some (Inr y) \<longleftrightarrow> (\<exists>x. m = Some (Inr x) \<and> f x = Some (Inr y))"
  by (auto simp: seq_run_def split: option.splits sum.splits)

text \<open>A computation that returns, with a result that meets \<open>Q\<close> when there is no fault.\<close>

definition returns :: "'a run option \<Rightarrow> ('a \<Rightarrow> bool) \<Rightarrow> bool" where
  "returns m Q \<longleftrightarrow> (\<exists>r. m = Some r \<and> (\<forall>x. r = Inr x \<longrightarrow> Q x))"

lemma returns_simps [simp]:
  "returns (Some (Inr x)) Q \<longleftrightarrow> Q x" "returns (Some (Inl f)) Q" "\<not> returns None Q"
  by (simp_all add: returns_def)

lemma returns_seq: "returns m P \<Longrightarrow> (\<And>x. P x \<Longrightarrow> returns (f x) Q) \<Longrightarrow> returns (seq_run m f) Q"
  by (auto simp: returns_def seq_run_def split: sum.splits)

lemma returns_result: "returns (Some r) (\<lambda>x. r = Inr x)"
  by (simp add: returns_def)

lemma returns_if: "(b \<Longrightarrow> returns m Q) \<Longrightarrow> (\<not> b \<Longrightarrow> returns n Q) \<Longrightarrow> returns (if b then m else n) Q"
  by simp

lemma returns_case_prod: "(\<And>a b. x = (a, b) \<Longrightarrow> returns (f a b) Q) \<Longrightarrow> returns (case x of (a, b) \<Rightarrow> f a b) Q"
  by (cases x) simp

lemma returns_mono: "returns m P \<Longrightarrow> (\<And>x. P x \<Longrightarrow> Q x) \<Longrightarrow> returns m Q"
  by (auto simp: returns_def)

definition at :: "'a list \<Rightarrow> nat \<Rightarrow> 'a run" where
  "at xs i = (if i < length xs then Inr (xs ! i) else Inl Out_of_range)"

lemma at_in [simp]: "i < length xs \<Longrightarrow> at xs i = Inr (xs ! i)"
  by (simp add: at_def)

lemma at_out [simp]: "\<not> i < length xs \<Longrightarrow> at xs i = Inl Out_of_range"
  by (simp add: at_def)

lemma at_eq_Inr [simp]: "at xs i = Inr x \<longleftrightarrow> i < length xs \<and> xs ! i = x"
  by (simp add: at_def)

text \<open>The hash tables of the source are association lists; a new key goes to the end.\<close>

lemma alist_update_new: "k \<notin> fst ` set m \<Longrightarrow> AList.update k v m = m @ [(k, v)]"
  by (induction m) auto

section \<open>Sizes and handles\<close>

text \<open>
  \<^verbatim>\<open>size_t\<close> values are natural numbers below \<open>2 ^ 64\<close>. A signed result that is stored in a
  \<^verbatim>\<open>size_t\<close> wraps, so that \<open>-1\<close> is the largest value.
\<close>

definition to_size :: "int \<Rightarrow> nat" where
  "to_size i = nat (i mod 2 ^ 64)"

lemma to_size_nonneg [simp]: "0 \<le> i \<Longrightarrow> i < 2 ^ 64 \<Longrightarrow> to_size i = nat i"
  by (simp add: to_size_def)

lemma to_size_int: "n < 2 ^ 64 \<Longrightarrow> to_size (int n) = n"
  by (subst to_size_nonneg) simp_all

section \<open>Little-endian bytes\<close>

fun le_bytes :: "nat \<Rightarrow> 'a::len word \<Rightarrow> u8 list" where
  "le_bytes 0 x = []"
| "le_bytes (Suc n) x = ucast x # le_bytes n (drop_bit 8 x)"

fun of_le_bytes :: "u8 list \<Rightarrow> 'a::len word" where
  "of_le_bytes [] = 0"
| "of_le_bytes (b # bs) = ucast b OR push_bit 8 (of_le_bytes bs)"

lemma length_le_bytes [simp]: "length (le_bytes n x) = n"
  by (induction n arbitrary: x) auto

lemma of_le_bytes_le_bytes [codec]:
  "of_le_bytes (le_bytes n x) = take_bit (8 * n) (x :: 'a::len word)"
proof (induction n arbitrary: x)
  case 0
  show ?case by simp
next
  case (Suc n)
  show ?case
    by (simp add: Suc.IH, rule bit_word_eqI) (auto simp: bit_simps)
qed

lemma bit_of_le_bytes:
  "bit (of_le_bytes bs :: 'a::len word) n \<longleftrightarrow>
     n < LENGTH('a) \<and> n div 8 < length bs \<and> bit (bs ! (n div 8)) (n mod 8)"
proof (induction bs arbitrary: n)
  case Nil
  show ?case by simp
next
  case (Cons b bs)
  show ?case
  proof (cases "n < 8")
    case True
    then show ?thesis by (auto simp: bit_simps)
  next
    case False
    then obtain m where n: "n = 8 + m"
      by (metis le_add_diff_inverse not_less)
    have d: "n div 8 = Suc (m div 8)" "n mod 8 = m mod 8"
      by (simp_all add: n)
    have "bit (of_le_bytes (b # bs) :: 'a word) n
        \<longleftrightarrow> n < LENGTH('a) \<and> bit (of_le_bytes bs :: 'a word) m"
      by (auto simp: n bit_simps dest: bit_imp_le_length)
    also have "\<dots> \<longleftrightarrow> n < LENGTH('a) \<and> n div 8 < length (b # bs)
        \<and> bit ((b # bs) ! (n div 8)) (n mod 8)"
      unfolding Cons.IH d using n by auto
    finally show ?thesis .
  qed
qed

lemma nth_le_bytes: "i < n \<Longrightarrow> le_bytes n x ! i = ucast (drop_bit (8 * i) x)"
proof (induction n arbitrary: x i)
  case (Suc n)
  then show ?case
    by (cases i) (simp_all add: drop_bit_drop_bit add.commute)
qed simp

lemma le_bytes_of_le_bytes [codec]:
  assumes "length bs = n" "8 * n \<le> LENGTH('a::len)"
  shows "le_bytes n (of_le_bytes bs :: 'a word) = bs"
proof (rule nth_equalityI)
  show "length (le_bytes n (of_le_bytes bs :: 'a word)) = length bs"
    using assms by simp
next
  fix i assume "i < length (le_bytes n (of_le_bytes bs :: 'a word))"
  then have i: "i < n" by simp
  show "le_bytes n (of_le_bytes bs :: 'a word) ! i = bs ! i"
    unfolding nth_le_bytes [OF i]
    by (rule bit_word_eqI)
      (use assms i in \<open>auto simp: bit_simps bit_of_le_bytes dest: bit_imp_le_length\<close>)
qed

lemma of_le_bytes_le_bytes_full:
  "LENGTH('a) \<le> 8 * n \<Longrightarrow> of_le_bytes (le_bytes n x) = (x :: 'a::len word)"
  by (simp add: of_le_bytes_le_bytes take_bit_word_eq_self)

lemma word_widths: "LENGTH(8) \<le> 8 * 1" "LENGTH(16) \<le> 8 * 2" "LENGTH(32) \<le> 8 * 4"
    "8 * 1 \<le> LENGTH(8)" "8 * 2 \<le> LENGTH(16)" "8 * 4 \<le> LENGTH(32)"
  by simp_all

lemma unat_less_widths:
  "unat (b :: u8) < 2 ^ 8" "unat (h :: u16) < 2 ^ 16" "unat (w :: u32) < 2 ^ 32"
  using unsigned_less [of b, where ?'a = nat] unsigned_less [of h, where ?'a = nat]
    unsigned_less [of w, where ?'a = nat]
  by simp_all

text \<open>A fixed-width encoding of values as bytes, as the header fields of a packet have.\<close>

locale byte_codec =
  fixes enc :: "'a \<Rightarrow> u8 list"
    and dec :: "u8 list \<Rightarrow> 'a"
    and width :: nat
  assumes dec_enc: "dec (enc x) = x"
    and length_enc: "length (enc x) = width"
    and enc_dec: "length bs = width \<Longrightarrow> enc (dec bs) = bs"
begin

lemma enc_inject: "enc x = enc y \<longleftrightarrow> x = y"
  by (metis dec_enc)

lemma dec_inject: "length bs = width \<Longrightarrow> length cs = width \<Longrightarrow> dec bs = dec cs \<longleftrightarrow> bs = cs"
  by (metis enc_dec)

lemma take_enc_append: "take width (enc x @ bs) = enc x"
  by (simp add: length_enc)

lemma drop_enc_append: "drop width (enc x @ bs) = bs"
  by (simp add: length_enc)

lemma dec_take_enc: "dec (take width (enc x @ bs)) = x"
  by (simp only: take_enc_append dec_enc)

end

interpretation le8: byte_codec "le_bytes 1 :: u8 \<Rightarrow> u8 list" of_le_bytes 1
proof
qed (simp_all only: of_le_bytes_le_bytes_full le_bytes_of_le_bytes length_le_bytes word_widths)

interpretation le16: byte_codec "le_bytes 2 :: u16 \<Rightarrow> u8 list" of_le_bytes 2
proof
qed (simp_all only: of_le_bytes_le_bytes_full le_bytes_of_le_bytes length_le_bytes word_widths)

interpretation le32: byte_codec "le_bytes 4 :: u32 \<Rightarrow> u8 list" of_le_bytes 4
proof
qed (simp_all only: of_le_bytes_le_bytes_full le_bytes_of_le_bytes length_le_bytes word_widths)

text \<open>
  On a little-endian host \<^verbatim>\<open>htonl\<close> and \<^verbatim>\<open>htons\<close> reverse the bytes of their argument, and
  \<^verbatim>\<open>ntohl\<close> and \<^verbatim>\<open>ntohs\<close> are the same functions.
\<close>

definition htonl :: "u32 \<Rightarrow> u32" where
  "htonl x = of_le_bytes (rev (le_bytes 4 x))"

abbreviation ntohl :: "u32 \<Rightarrow> u32" where
  "ntohl \<equiv> htonl"

definition htons :: "u16 \<Rightarrow> u16" where
  "htons x = of_le_bytes (rev (le_bytes 2 x))"

abbreviation ntohs :: "u16 \<Rightarrow> u16" where
  "ntohs \<equiv> htons"

lemma htonl_htonl [simp]: "htonl (htonl x) = x"
  by (simp add: htonl_def le32.enc_dec le32.dec_enc)

lemma htons_htons [simp]: "htons (htons x) = x"
  by (simp add: htons_def le16.enc_dec le16.dec_enc)

lemma htonl_inject [simp]: "htonl x = htonl y \<longleftrightarrow> x = y"
  by (metis htonl_htonl)

lemma htonl_eq_iff: "htonl x = y \<longleftrightarrow> x = htonl y"
  by auto

section \<open>Hexadecimal digits\<close>

definition hex_digit :: "nat \<Rightarrow> char" where
  "hex_digit n = ''0123456789abcdef'' ! (n mod 16)"

definition byte_hex :: "u8 \<Rightarrow> string" where
  "byte_hex b = [hex_digit (unat b div 16), hex_digit (unat b mod 16)]"

fun hex_nat :: "nat \<Rightarrow> string" where
  "hex_nat n = (if n < 16 then [hex_digit n] else hex_nat (n div 16) @ [hex_digit n])"

declare hex_nat.simps [simp del]

fun dec_nat :: "nat \<Rightarrow> string" where
  "dec_nat n = (if n < 10 then [hex_digit n] else dec_nat (n div 10) @ [hex_digit (n mod 10)])"

declare dec_nat.simps [simp del]

definition dec_int :: "int \<Rightarrow> string" where
  "dec_int i = (if i < 0 then CHR ''-'' # dec_nat (nat (- i)) else dec_nat (nat i))"

definition isdigit :: "char \<Rightarrow> bool" where
  "isdigit c \<longleftrightarrow> 48 \<le> (of_char c :: nat) \<and> (of_char c :: nat) \<le> 57"

definition isxdigit :: "char \<Rightarrow> bool" where
  "isxdigit c \<longleftrightarrow> isdigit c
     \<or> 65 \<le> (of_char c :: nat) \<and> (of_char c :: nat) \<le> 70
     \<or> 97 \<le> (of_char c :: nat) \<and> (of_char c :: nat) \<le> 102"

definition isspace :: "char \<Rightarrow> bool" where
  "isspace c \<longleftrightarrow> (of_char c :: nat) = 32 \<or> 9 \<le> (of_char c :: nat) \<and> (of_char c :: nat) \<le> 13"

lemma length_byte_hex [simp]: "length (byte_hex b) = 2"
  by (simp add: byte_hex_def)

lemma hex_digit_mod [simp]: "hex_digit (n mod 16) = hex_digit n"
  by (simp add: hex_digit_def)

lemma less_16_cases:
  assumes "P 0" "P 1" "P 2" "P 3" "P 4" "P 5" "P 6" "P 7" "P 8" "P 9" "P 10" "P 11" "P 12"
    "P 13" "P 14" "P 15"
  shows "P (n mod (16::nat))"
proof -
  have "\<forall>m < 16. P m"
    using assms by (simp add: numeral_eq_Suc All_less_Suc)
  then show ?thesis by simp
qed

lemma isxdigit_hex_digit [simp]: "isxdigit (hex_digit n)"
proof -
  have "isxdigit (hex_digit (n mod 16))"
    by (rule less_16_cases) (simp_all add: isxdigit_def isdigit_def hex_digit_def)
  then show ?thesis by simp
qed

lemma hex_nat_length_le: "n < 16 ^ k \<Longrightarrow> 0 < k \<Longrightarrow> length (hex_nat n) \<le> k"
proof (induction n arbitrary: k rule: hex_nat.induct)
  case (1 n)
  show ?case
  proof (cases "n < 16")
    case True
    with "1.prems" show ?thesis by (subst hex_nat.simps) simp
  next
    case False
    then obtain j where j: "k = Suc j" and "0 < j"
      using "1.prems" by (cases k; cases "k - 1") auto
    have "n div 16 < 16 ^ j"
      using "1.prems" by (simp add: j less_mult_imp_div_less mult.commute)
    with "1.IH" [OF False _ \<open>0 < j\<close>] show ?thesis
      using False by (subst hex_nat.simps) (simp add: j)
  qed
qed

lemma hex_nat_length_ge: "16 ^ k \<le> n \<Longrightarrow> Suc k \<le> length (hex_nat n)"
proof (induction n arbitrary: k rule: hex_nat.induct)
  case (1 n)
  show ?case
  proof (cases k)
    case 0
    then show ?thesis by (subst hex_nat.simps) simp
  next
    case (Suc j)
    have "16 * 16 ^ j \<le> n" using "1.prems" Suc by simp
    moreover have "16 * 1 \<le> 16 * (16::nat) ^ j" by (intro mult_le_mono) simp_all
    ultimately have n: "\<not> n < 16" "16 ^ j \<le> n div 16"
      by (linarith, simp add: less_eq_div_iff_mult_less_eq mult.commute)
    show ?thesis
      using "1.IH" [OF n] n(1) by (subst hex_nat.simps) (simp add: Suc)
  qed
qed

section \<open>Systems that keep an invariant\<close>

text \<open>
  The contract of a component whose operations are run one after another: a step per operation
  and an invariant that every step keeps.
\<close>

locale invariant_system =
  fixes step :: "'op \<Rightarrow> 's \<Rightarrow> 's"
    and inv :: "'s \<Rightarrow> bool"
  assumes inv_step: "inv s \<Longrightarrow> inv (step op s)"
begin

lemma inv_fold: "inv s \<Longrightarrow> inv (fold step ops s)"
  by (induction ops arbitrary: s) (simp_all add: inv_step)

end

text \<open>
  A component that answers every operation and changes its state, and a specification that does the same on
  an abstract state: each step of the one is a step of the other with the same answer, so whole runs agree.
\<close>

fun run_ops :: "('op \<Rightarrow> 's \<Rightarrow> 'r \<times> 's) \<Rightarrow> 'op list \<Rightarrow> 's \<Rightarrow> 'r list \<times> 's" where
  "run_ops step [] s = ([], s)"
| "run_ops step (op # ops) s =
     (let (r, s1) = step op s; (rs, s2) = run_ops step ops s1 in (r # rs, s2))"

locale refinement =
  fixes step :: "'op \<Rightarrow> 's \<Rightarrow> 'r \<times> 's"
    and spec :: "'op \<Rightarrow> 'a \<Rightarrow> 'r \<times> 'a"
    and abs :: "'s \<Rightarrow> 'a"
    and inv :: "'s \<Rightarrow> bool"
    and ok :: "'op \<Rightarrow> bool"
  assumes sim: "inv s \<Longrightarrow> ok op \<Longrightarrow> spec op (abs s) = map_prod id abs (step op s)"
    and keeps: "inv s \<Longrightarrow> ok op \<Longrightarrow> inv (snd (step op s))"
begin

lemma run_sim:
  "inv s \<Longrightarrow> list_all ok ops \<Longrightarrow> run_ops spec ops (abs s) = map_prod id abs (run_ops step ops s)"
proof (induction ops arbitrary: s)
  case (Cons op ops)
  then have "inv (snd (step op s))" by (simp add: keeps)
  with Cons show ?case
    by (auto simp: sim map_prod_def split: prod.splits)
qed simp

lemma run_keeps: "inv s \<Longrightarrow> list_all ok ops \<Longrightarrow> inv (snd (run_ops step ops s))"
proof (induction ops arbitrary: s)
  case (Cons op ops)
  from Cons.prems have "inv (snd (step op s))" by (simp add: keeps)
  with Cons show ?case by (auto split: prod.splits) (metis snd_conv)
qed simp

end

end
