(* ===== verification/Xia_Xid.thy ===== *)
theory Xia_Xid
  imports Xia_Prelude
begin

text \<open>
  Typed identifiers (XIDs): \<^verbatim>\<open>struct click_xia_xid\<close> of \<^verbatim>\<open>clicknet/xid.h\<close>, the class \<^verbatim>\<open>XID\<close> of
  \<^verbatim>\<open>click/xid.hh\<close> and \<^verbatim>\<open>lib/xid.cc\<close>, the class \<^verbatim>\<open>XIDpair\<close>, and the order on XIDs of
  \<^verbatim>\<open>xcache.cc\<close>. The field \<open>type\<close> holds the value as a little-endian host reads it from
  memory, so a type constant is stored as \<open>htonl\<close> of the constant. The array \<open>id\<close> is a
  list of bytes; \<open>wf_xid\<close> says that it has its declared length.
\<close>

section \<open>The identifier\<close>

definition CLICK_XIA_XID_ID_LEN :: nat where
  "CLICK_XIA_XID_ID_LEN = 20"

record click_xia_xid =
  xid_type :: u32
  xid_id :: "u8 list"

definition wf_xid :: "click_xia_xid \<Rightarrow> bool" where
  "wf_xid x \<longleftrightarrow> length (xid_id x) = CLICK_XIA_XID_ID_LEN"

definition CLICK_XIA_XID_TYPE_UNDEF :: u32 where
  "CLICK_XIA_XID_TYPE_UNDEF = 0"

definition CLICK_XIA_XID_TYPE_AD :: u32 where
  "CLICK_XIA_XID_TYPE_AD = 0x10"

definition CLICK_XIA_XID_TYPE_HID :: u32 where
  "CLICK_XIA_XID_TYPE_HID = 0x11"

definition CLICK_XIA_XID_TYPE_CID :: u32 where
  "CLICK_XIA_XID_TYPE_CID = 0x12"

definition CLICK_XIA_XID_TYPE_SID :: u32 where
  "CLICK_XIA_XID_TYPE_SID = 0x13"

definition CLICK_XIA_XID_TYPE_IP :: u32 where
  "CLICK_XIA_XID_TYPE_IP = 0x14"

lemmas xid_type_defs =
  CLICK_XIA_XID_TYPE_UNDEF_def CLICK_XIA_XID_TYPE_AD_def CLICK_XIA_XID_TYPE_HID_def
  CLICK_XIA_XID_TYPE_CID_def CLICK_XIA_XID_TYPE_SID_def CLICK_XIA_XID_TYPE_IP_def

text \<open>The principal types the sources give a name to.\<close>

definition known_type :: "u32 \<Rightarrow> bool" where
  "known_type t \<longleftrightarrow> t \<in> set [CLICK_XIA_XID_TYPE_UNDEF, CLICK_XIA_XID_TYPE_AD,
     CLICK_XIA_XID_TYPE_HID, CLICK_XIA_XID_TYPE_CID, CLICK_XIA_XID_TYPE_SID,
     CLICK_XIA_XID_TYPE_IP]"

definition XID_default :: click_xia_xid where
  "XID_default = \<lparr>xid_type = 0, xid_id = replicate CLICK_XIA_XID_ID_LEN 0\<rparr>"

definition XID_valid :: "click_xia_xid \<Rightarrow> bool" where
  "XID_valid x \<longleftrightarrow> ntohl (xid_type x) \<noteq> CLICK_XIA_XID_TYPE_UNDEF"

lemma wf_XID_default [simp]: "wf_xid XID_default"
  by (simp add: wf_xid_def XID_default_def)

section \<open>Comparison\<close>

text \<open>
  \<^verbatim>\<open>operator==\<close> compares the object as an array of six 32-bit words. \<open>XID_data\<close> is the memory
  of the packed object and \<open>XID_word\<close> one of its words.
\<close>

definition XID_data :: "click_xia_xid \<Rightarrow> u8 list" where
  "XID_data x = le_bytes 4 (xid_type x) @ xid_id x"

definition XID_word :: "click_xia_xid \<Rightarrow> nat \<Rightarrow> u32" where
  "XID_word x i = of_le_bytes (take 4 (drop (4 * i) (XID_data x)))"

definition XID_hashcode :: "click_xia_xid \<Rightarrow> u32" where
  "XID_hashcode x = XID_word x 4"

definition XID_eq :: "click_xia_xid \<Rightarrow> click_xia_xid \<Rightarrow> bool" where
  "XID_eq x y \<longleftrightarrow> XID_word x 0 = XID_word y 0 \<and> XID_word x 1 = XID_word y 1 \<and>
     XID_word x 2 = XID_word y 2 \<and> XID_word x 3 = XID_word y 3 \<and>
     XID_word x 4 = XID_word y 4 \<and> XID_word x 5 = XID_word y 5"

definition XID_neq :: "click_xia_xid \<Rightarrow> click_xia_xid \<Rightarrow> bool" where
  "XID_neq x y \<longleftrightarrow> XID_word x 0 \<noteq> XID_word y 0 \<or> XID_word x 1 \<noteq> XID_word y 1 \<or>
     XID_word x 2 \<noteq> XID_word y 2 \<or> XID_word x 3 \<noteq> XID_word y 3 \<or>
     XID_word x 4 \<noteq> XID_word y 4 \<or> XID_word x 5 \<noteq> XID_word y 5"

record XIDpair =
  src_xid :: click_xia_xid
  dst_xid :: click_xia_xid

definition XIDpair_default :: XIDpair where
  "XIDpair_default = \<lparr>src_xid = XID_default, dst_xid = XID_default\<rparr>"

definition XIDpair_make :: "click_xia_xid \<Rightarrow> click_xia_xid \<Rightarrow> XIDpair" where
  "XIDpair_make s d = \<lparr>src_xid = s, dst_xid = d\<rparr>"

definition XIDpair_set_src :: "click_xia_xid \<Rightarrow> XIDpair \<Rightarrow> XIDpair" where
  "XIDpair_set_src s p = p\<lparr>src_xid := s\<rparr>"

definition XIDpair_set_dst :: "click_xia_xid \<Rightarrow> XIDpair \<Rightarrow> XIDpair" where
  "XIDpair_set_dst d p = p\<lparr>dst_xid := d\<rparr>"

definition XIDpair_hashcode :: "XIDpair \<Rightarrow> u32" where
  "XIDpair_hashcode p = XID_word (src_xid p) 4 + XID_word (dst_xid p) 4"

definition XIDpair_eq :: "XIDpair \<Rightarrow> XIDpair \<Rightarrow> bool" where
  "XIDpair_eq p q \<longleftrightarrow>
     XID_word (src_xid p) 0 = XID_word (src_xid q) 0 \<and> XID_word (src_xid p) 1 = XID_word (src_xid q) 1 \<and>
     XID_word (src_xid p) 2 = XID_word (src_xid q) 2 \<and> XID_word (src_xid p) 3 = XID_word (src_xid q) 3 \<and>
     XID_word (src_xid p) 4 = XID_word (src_xid q) 4 \<and> XID_word (src_xid p) 5 = XID_word (src_xid q) 5 \<and>
     XID_word (dst_xid p) 0 = XID_word (dst_xid q) 0 \<and> XID_word (dst_xid p) 1 = XID_word (dst_xid q) 1 \<and>
     XID_word (dst_xid p) 2 = XID_word (dst_xid q) 2 \<and> XID_word (dst_xid p) 3 = XID_word (dst_xid q) 3 \<and>
     XID_word (dst_xid p) 4 = XID_word (dst_xid q) 4 \<and> XID_word (dst_xid p) 5 = XID_word (dst_xid q) 5"

definition XIDpair_neq :: "XIDpair \<Rightarrow> XIDpair \<Rightarrow> bool" where
  "XIDpair_neq p q \<longleftrightarrow>
     XID_word (src_xid p) 0 \<noteq> XID_word (src_xid q) 0 \<or> XID_word (src_xid p) 1 \<noteq> XID_word (src_xid q) 1 \<or>
     XID_word (src_xid p) 2 \<noteq> XID_word (src_xid q) 2 \<or> XID_word (src_xid p) 3 \<noteq> XID_word (src_xid q) 3 \<or>
     XID_word (src_xid p) 4 \<noteq> XID_word (src_xid q) 4 \<or> XID_word (src_xid p) 5 \<noteq> XID_word (src_xid q) 5 \<or>
     XID_word (dst_xid p) 0 \<noteq> XID_word (dst_xid q) 0 \<or> XID_word (dst_xid p) 1 \<noteq> XID_word (dst_xid q) 1 \<or>
     XID_word (dst_xid p) 2 \<noteq> XID_word (dst_xid q) 2 \<or> XID_word (dst_xid p) 3 \<noteq> XID_word (dst_xid q) 3 \<or>
     XID_word (dst_xid p) 4 \<noteq> XID_word (dst_xid q) 4 \<or> XID_word (dst_xid p) 5 \<noteq> XID_word (dst_xid q) 5"

text \<open>
  The order of \<^verbatim>\<open>xcache.cc\<close>, which its maps with XID keys use: types first, then the
  identifier bytes from the first to the last.
\<close>

fun id_less :: "u8 list \<Rightarrow> u8 list \<Rightarrow> bool" where
  "id_less (a # as) (b # bs) = (if a < b then True else if b < a then False else id_less as bs)"
| "id_less _ _ = False"

definition xid_less :: "click_xia_xid \<Rightarrow> click_xia_xid \<Rightarrow> bool" where
  "xid_less x y = (if xid_type x < xid_type y then True
     else if xid_type y < xid_type x then False
     else id_less (xid_id x) (xid_id y))"

section \<open>Printing\<close>

text \<open>
  \<^verbatim>\<open>XID::unparse\<close> prints into a buffer of 48 characters; the terminating zero is part of
  what \<^verbatim>\<open>sprintf\<close> writes.
\<close>

definition type_name :: "u32 \<Rightarrow> string" where
  "type_name t =
     (if ntohl t = CLICK_XIA_XID_TYPE_UNDEF then ''UNDEF''
      else if ntohl t = CLICK_XIA_XID_TYPE_AD then ''AD''
      else if ntohl t = CLICK_XIA_XID_TYPE_HID then ''HID''
      else if ntohl t = CLICK_XIA_XID_TYPE_CID then ''CID''
      else if ntohl t = CLICK_XIA_XID_TYPE_SID then ''SID''
      else if ntohl t = CLICK_XIA_XID_TYPE_IP then ''IP''
      else hex_nat (unat t))"

definition id_hex :: "u8 list \<Rightarrow> string" where
  "id_hex bs = concat (map byte_hex bs)"

definition XID_unparse :: "click_xia_xid \<Rightarrow> string run" where
  "XID_unparse x =
     (let s = type_name (xid_type x) @ '':'' @ id_hex (xid_id x)
      in if length s + 1 \<le> 48 then Inr s else Inl Buffer_overrun)"

text \<open>
  \<open>revquery\<close> stands for the reverse lookup of registered names (\<^verbatim>\<open>XIAXIDInfo::revquery_xid\<close>);
  it gives the empty string for an identifier without a name, and when there is no context.
\<close>

definition XID_unparse_pretty :: "(click_xia_xid \<Rightarrow> string) \<Rightarrow> click_xia_xid \<Rightarrow> string run" where
  "XID_unparse_pretty revquery x =
     (if length (revquery x) \<noteq> 0 then Inr (revquery x) else XID_unparse x)"

section \<open>Comparison is equality\<close>

lemma XID_data_inject:
  "wf_xid x \<Longrightarrow> wf_xid y \<Longrightarrow> XID_data x = XID_data y \<longleftrightarrow> x = y"
  by (cases x; cases y) (simp add: XID_data_def le32.enc_inject)

lemma length_XID_data [simp]: "wf_xid x \<Longrightarrow> length (XID_data x) = 24"
  by (simp add: XID_data_def wf_xid_def CLICK_XIA_XID_ID_LEN_def)

text \<open>Twenty-four bytes are determined by the six words they hold.\<close>

lemma bytes_from_words:
  "length bs = 24 \<Longrightarrow> bs = concat (map (\<lambda>i. take 4 (drop (4 * i) bs)) [0, 1, 2, 3, 4, 5])"
proof -
  assume len: "length bs = 24"
  have step: "drop k bs = take 4 (drop k bs) @ drop (k + 4) bs" for k
    by (metis append_take_drop_id drop_drop add.commute)
  have "bs = take 4 (drop 0 bs) @ drop 4 bs" using step [of 0] by simp
  also have "drop 4 bs = take 4 (drop 4 bs) @ drop 8 bs" using step [of 4] by simp
  also have "drop 8 bs = take 4 (drop 8 bs) @ drop 12 bs" using step [of 8] by simp
  also have "drop 12 bs = take 4 (drop 12 bs) @ drop 16 bs" using step [of 12] by simp
  also have "drop 16 bs = take 4 (drop 16 bs) @ drop 20 bs" using step [of 16] by simp
  also have "drop 20 bs = take 4 (drop 20 bs)" using len by simp
  finally show ?thesis by simp
qed

lemma XID_word_eq_slice:
  assumes "wf_xid x" "wf_xid y" "i < 6" "XID_word x i = XID_word y i"
  shows "take 4 (drop (4 * i) (XID_data x)) = take 4 (drop (4 * i) (XID_data y))"
proof -
  have "length (take 4 (drop (4 * i) (XID_data z))) = 4" if "wf_xid z" for z
    using assms(3) that by simp
  with assms show ?thesis by (auto simp: XID_word_def le32.dec_inject)
qed

lemma XID_eq_words: "XID_eq x y \<longleftrightarrow> (\<forall>i < 6. XID_word x i = XID_word y i)"
  by (auto simp: XID_eq_def numeral_eq_Suc All_less_Suc)

lemma XID_eq_imp_eq:
  assumes "wf_xid x" "wf_xid y" "XID_eq x y"
  shows "x = y"
proof -
  have slices: "take 4 (drop (4 * i) (XID_data x)) = take 4 (drop (4 * i) (XID_data y))"
    if "i < 6" for i
    using assms that by (intro XID_word_eq_slice) (auto simp: XID_eq_words)
  have "XID_data x = concat (map (\<lambda>i. take 4 (drop (4 * i) (XID_data x))) [0, 1, 2, 3, 4, 5])"
    by (rule bytes_from_words) (simp add: assms)
  also have "\<dots> = concat (map (\<lambda>i. take 4 (drop (4 * i) (XID_data y))) [0, 1, 2, 3, 4, 5])"
    by (rule arg_cong [where f = concat], rule map_cong [OF refl], rule slices) auto
  also have "\<dots> = XID_data y"
    by (rule bytes_from_words [symmetric]) (simp add: assms)
  finally show ?thesis using assms by (simp add: XID_data_inject)
qed

lemma XID_eq_iff: "wf_xid x \<Longrightarrow> wf_xid y \<Longrightarrow> XID_eq x y \<longleftrightarrow> x = y"
  using XID_eq_imp_eq by (auto simp: XID_eq_words)

lemma XID_neq_iff: "XID_neq x y \<longleftrightarrow> \<not> XID_eq x y"
  by (auto simp: XID_neq_def XID_eq_def)

lemma XIDpair_eq_XID_eq:
  "XIDpair_eq p q \<longleftrightarrow> XID_eq (src_xid p) (src_xid q) \<and> XID_eq (dst_xid p) (dst_xid q)"
  by (auto simp: XIDpair_eq_def XID_eq_def)

text \<open>
  On identifiers of the declared length, the word-wise comparison \<^verbatim>\<open>XID::operator==\<close> is
  equality of the type and of the identifier, \<^verbatim>\<open>operator!=\<close> is its negation, and equal
  identifiers have equal hash codes, as a hash table with XID keys needs.
\<close>

theorem XID_eq_correct:
  assumes "wf_xid x" and "wf_xid y"
  shows "(XID_eq x y \<longleftrightarrow> x = y) \<and> (XID_neq x y \<longleftrightarrow> x \<noteq> y)
    \<and> (XID_eq x y \<longrightarrow> XID_hashcode x = XID_hashcode y)"
  using assms by (simp add: XID_eq_iff XID_neq_iff)

theorem XID_eq_correct_witness:
  "wf_xid XID_default \<and> XID_eq XID_default XID_default
    \<and> XID_neq XID_default (XID_default\<lparr>xid_type := 1\<rparr>)"
  using XID_eq_correct [of XID_default "XID_default\<lparr>xid_type := 1\<rparr>"]
    XID_eq_correct [of XID_default XID_default]
  by (simp add: wf_xid_def XID_default_def)

text \<open>
  A pair of identifiers (\<^verbatim>\<open>XIDpair\<close>, the key of the connection tables) compares equal
  exactly when both components are equal, and \<^verbatim>\<open>operator!=\<close> is the negation.
\<close>

theorem XIDpair_eq_correct:
  assumes "wf_xid (src_xid p)" "wf_xid (dst_xid p)" "wf_xid (src_xid q)" "wf_xid (dst_xid q)"
  shows "(XIDpair_eq p q \<longleftrightarrow> src_xid p = src_xid q \<and> dst_xid p = dst_xid q)
    \<and> (XIDpair_neq p q \<longleftrightarrow> \<not> XIDpair_eq p q)
    \<and> (XIDpair_eq p q \<longrightarrow> XIDpair_hashcode p = XIDpair_hashcode q)"
proof -
  have "XIDpair_neq p q \<longleftrightarrow> \<not> XIDpair_eq p q"
    by (auto simp: XIDpair_neq_def XIDpair_eq_def)
  then show ?thesis
    using assms by (simp add: XIDpair_eq_XID_eq XID_eq_iff XIDpair_hashcode_def)
qed

theorem XIDpair_eq_correct_witness:
  "XIDpair_eq XIDpair_default XIDpair_default"
  using XIDpair_eq_correct [of XIDpair_default XIDpair_default]
  by (simp add: XIDpair_default_def)

section \<open>The order is a strict linear order\<close>

lemma id_less_irrefl: "\<not> id_less as as"
  by (induction as) auto

lemma id_less_trans: "id_less as bs \<Longrightarrow> id_less bs cs \<Longrightarrow> id_less as cs"
proof (induction as bs arbitrary: cs rule: id_less.induct)
  case (1 a as b bs)
  then show ?case by (cases cs) (auto split: if_splits)
qed auto

lemma id_less_total: "length as = length bs \<Longrightarrow> as \<noteq> bs \<Longrightarrow> id_less as bs \<or> id_less bs as"
  by (induction as bs rule: id_less.induct) auto

text \<open>
  The order \<^verbatim>\<open>operator<\<close> that \<^verbatim>\<open>xcache.cc\<close> defines for XID keys is a strict linear order on
  identifiers of the declared length: no identifier is below itself, it is transitive, and
  of two different identifiers one is below the other.
\<close>

theorem xid_less_strict_linear:
  assumes "wf_xid x" and "wf_xid y"
  shows "\<not> xid_less x x \<and> (xid_less x y \<and> xid_less y z \<longrightarrow> xid_less x z)
    \<and> (x \<noteq> y \<longrightarrow> xid_less x y \<noteq> xid_less y x)"
proof -
  have irr: "\<not> xid_less a a" for a
    by (simp add: xid_less_def id_less_irrefl)
  have trans: "xid_less a b \<Longrightarrow> xid_less b c \<Longrightarrow> xid_less a c" for a b c
    by (auto simp: xid_less_def intro: id_less_trans split: if_splits)
  have "x \<noteq> y \<Longrightarrow> xid_less x y \<or> xid_less y x"
    using assms id_less_total [of "xid_id x" "xid_id y"]
    by (cases x; cases y) (auto simp: xid_less_def wf_xid_def)
  with irr trans show ?thesis by blast
qed

theorem xid_less_strict_linear_witness:
  "xid_less XID_default (XID_default\<lparr>xid_type := 1\<rparr>)
    \<and> \<not> xid_less (XID_default\<lparr>xid_type := 1\<rparr>) XID_default"
  using xid_less_strict_linear [of XID_default "XID_default\<lparr>xid_type := 1\<rparr>" XID_default]
  by (simp add: wf_xid_def XID_default_def xid_less_def)

section \<open>What printing writes\<close>

lemma length_id_hex [simp]: "length (id_hex bs) = 2 * length bs"
  by (induction bs) (simp_all add: id_hex_def)

lemma id_hex_Cons [simp]: "id_hex (b # bs) = byte_hex b @ id_hex bs"
  by (simp add: id_hex_def)

lemma id_hex_Nil [simp]: "id_hex [] = []"
  by (simp add: id_hex_def)

lemma type_name_known:
  "known_type (ntohl t) \<Longrightarrow> length (type_name t) \<le> 5"
  by (auto simp: known_type_def type_name_def)

lemma type_name_unknown:
  "\<not> known_type (ntohl t) \<Longrightarrow> type_name t = hex_nat (unat t)"
  by (auto simp: known_type_def type_name_def)

lemma unknown_type_fits_iff: "length (hex_nat (unat (t::u32))) \<le> 6 \<longleftrightarrow> unat t < 0x1000000"
  using hex_nat_length_le [of "unat t" 6] hex_nat_length_ge [of 6 "unat t"] by force

text \<open>
  \<^verbatim>\<open>XID::unparse\<close> stays inside its 48-character buffer exactly when the type is one of
  the six named types, or the raw value of the type field is below \<open>0x1000000\<close>. For any
  other type the hexadecimal type, the colon, the forty digits and the terminating zero
  need more than 48 characters.
\<close>

theorem XID_unparse_fits_iff:
  assumes "wf_xid x"
  shows "XID_unparse x \<noteq> Inl Buffer_overrun \<longleftrightarrow>
    known_type (ntohl (xid_type x)) \<or> unat (xid_type x) < 0x1000000"
proof (cases "known_type (ntohl (xid_type x))")
  case True
  with assms type_name_known [OF True] show ?thesis
    by (simp add: XID_unparse_def wf_xid_def CLICK_XIA_XID_ID_LEN_def Let_def)
next
  case False
  with assms show ?thesis
    by (simp add: XID_unparse_def wf_xid_def CLICK_XIA_XID_ID_LEN_def Let_def
        type_name_unknown flip: unknown_type_fits_iff)
qed

theorem XID_unparse_fits_iff_witness:
  "XID_unparse XID_default \<noteq> Inl Buffer_overrun
    \<and> XID_unparse (XID_default\<lparr>xid_type := 0x15000000\<rparr>) = Inl Buffer_overrun"
proof -
  have t: "htonl 0x15000000 = 0x15" by code_simp
  have z: "htonl 0 = 0" by code_simp
  show ?thesis
    using XID_unparse_fits_iff [of XID_default]
      XID_unparse_fits_iff [of "XID_default\<lparr>xid_type := 0x15000000\<rparr>"]
    by (simp add: wf_xid_def XID_default_def known_type_def xid_type_defs t z)
qed

end
