(* ===== verification/Xia_Confparse.thy ===== *)
theory Xia_Confparse
  imports Xia_Xid
begin

text \<open>
  The parts of Click's configuration parser the XIA elements use (\<^verbatim>\<open>lib/confparse.cc\<close>,
  \<^verbatim>\<open>lib/args.cc\<close>, \<^verbatim>\<open>lib/ipaddress.cc\<close>): splitting a string at spaces and commas with quotes and
  comments, integers, dotted IP addresses, and XIDs. A pair of pointers \<open>[s, end)\<close> is the
  list of the characters between them; a pointer at or past \<open>end\<close> is the empty list.
\<close>

section \<open>Comments, quotes and words\<close>

fun skip_line_comment :: "string \<Rightarrow> string" where
  "skip_line_comment (c # d # cs) =
     (if c = CHR 0x0A then d # cs
      else if c = CHR 0x0D then (if d = CHR 0x0A then cs else d # cs)
      else skip_line_comment (d # cs))"
| "skip_line_comment _ = []"

fun skip_block_comment :: "string \<Rightarrow> string" where
  "skip_block_comment (a # b # c # cs) =
     (if a = CHR ''*'' \<and> b = CHR ''/'' then c # cs else skip_block_comment (b # c # cs))"
| "skip_block_comment _ = []"

definition skip_comment :: "string \<Rightarrow> string" where
  "skip_comment s =
     (if take 2 s = ''//'' then skip_line_comment (drop 2 s) else skip_block_comment (drop 2 s))"

definition comment_start :: "string \<Rightarrow> bool" where
  "comment_start s \<longleftrightarrow> take 2 s = ''//'' \<or> take 2 s = ''/*''"

lemma length_skip_line_comment: "length (skip_line_comment s) \<le> length s"
  by (induction s rule: skip_line_comment.induct) auto

lemma length_skip_block_comment: "length (skip_block_comment s) \<le> length s"
  by (induction s rule: skip_block_comment.induct) auto

lemma length_skip_comment: "comment_start s \<Longrightarrow> length (skip_comment s) < length s"
  using length_skip_line_comment [of "drop 2 s"] length_skip_block_comment [of "drop 2 s"]
  by (cases s) (auto simp: skip_comment_def comment_start_def)

lemmas length_skip_comment_Cons = length_skip_comment [of "c # cs" for c cs, simplified]

function skip_backslash_hex :: "string \<Rightarrow> string" where
  "skip_backslash_hex s =
     (case s of [] \<Rightarrow> []
      | c # cs \<Rightarrow> if c = CHR ''>'' then cs
          else if comment_start s then skip_backslash_hex (skip_comment s)
          else skip_backslash_hex cs)"
  by pat_completeness auto
termination
  by (relation "measure length") (auto simp: length_skip_comment_Cons)

declare skip_backslash_hex.simps [simp del]

definition skip_backslash :: "string \<Rightarrow> string" where
  "skip_backslash s =
     (if length s \<le> 1 then []
      else if s ! 1 = CHR ''<'' then skip_backslash_hex (drop 2 s)
      else if s ! 1 = CHR 0x0D \<and> 2 < length s \<and> s ! 2 = CHR 0x0A then drop 3 s
      else drop 2 s)"

lemma length_skip_backslash_hex: "length (skip_backslash_hex s) \<le> length s"
proof (induction s rule: skip_backslash_hex.induct)
  case (1 s)
  show ?case
  proof (cases s)
    case Nil
    then show ?thesis by (simp add: skip_backslash_hex.simps)
  next
    case (Cons c cs)
    with 1 length_skip_comment [of s] show ?thesis
      by (subst skip_backslash_hex.simps) force
  qed
qed

lemma length_skip_backslash: "s \<noteq> [] \<Longrightarrow> length (skip_backslash s) < length s"
  using length_skip_backslash_hex [of "drop 2 s"] by (auto simp: skip_backslash_def)

lemmas length_skip_backslash_Cons = length_skip_backslash [of "c # cs" for c cs, simplified]

function skip_double_quote_body :: "string \<Rightarrow> string" where
  "skip_double_quote_body s =
     (case s of [] \<Rightarrow> []
      | c # cs \<Rightarrow> if c = CHR 0x5C then skip_double_quote_body (skip_backslash s)
          else if c = CHR 0x22 then cs
          else skip_double_quote_body cs)"
  by pat_completeness auto
termination
  by (relation "measure length") (auto simp: length_skip_backslash_Cons)

declare skip_double_quote_body.simps [simp del]

definition cp_skip_double_quote :: "string \<Rightarrow> string" where
  "cp_skip_double_quote s = skip_double_quote_body (drop 1 s)"

fun skip_single_quote_body :: "string \<Rightarrow> string" where
  "skip_single_quote_body [] = []"
| "skip_single_quote_body (c # cs) = (if c = CHR 0x27 then cs else skip_single_quote_body cs)"

definition skip_single_quote :: "string \<Rightarrow> string" where
  "skip_single_quote s = skip_single_quote_body (drop 1 s)"

lemma length_skip_double_quote_body: "length (skip_double_quote_body s) \<le> length s"
proof (induction s rule: skip_double_quote_body.induct)
  case (1 s)
  show ?case
  proof (cases s)
    case Nil
    then show ?thesis by (simp add: skip_double_quote_body.simps)
  next
    case (Cons c cs)
    with 1 length_skip_backslash [of s] show ?thesis
      by (subst skip_double_quote_body.simps) force
  qed
qed

lemma length_cp_skip_double_quote: "s \<noteq> [] \<Longrightarrow> length (cp_skip_double_quote s) < length s"
  using length_skip_double_quote_body [of "drop 1 s"]
  by (cases s) (auto simp: cp_skip_double_quote_def)

lemma length_skip_single_quote_body: "length (skip_single_quote_body s) \<le> length s"
  by (induction s) auto

lemma length_skip_single_quote: "s \<noteq> [] \<Longrightarrow> length (skip_single_quote s) < length s"
  using length_skip_single_quote_body [of "drop 1 s"]
  by (cases s) (auto simp: skip_single_quote_def)

lemmas length_skip_quote_Cons =
  length_cp_skip_double_quote [of "c # cs" for c cs, simplified]
  length_skip_single_quote [of "c # cs" for c cs, simplified]

function cp_skip_comment_space :: "string \<Rightarrow> string" where
  "cp_skip_comment_space s =
     (case s of [] \<Rightarrow> []
      | c # cs \<Rightarrow> if isspace c then cp_skip_comment_space cs
          else if comment_start s then cp_skip_comment_space (skip_comment s)
          else s)"
  by pat_completeness auto
termination
  by (relation "measure length") (auto simp: length_skip_comment_Cons)

declare cp_skip_comment_space.simps [simp del]

text \<open>
  Inside a word a quoted string or a hexadecimal escape is skipped as a whole, any other
  character alone.
\<close>

definition skip_token :: "string \<Rightarrow> string" where
  "skip_token s =
     (if hd s = CHR 0x27 then skip_single_quote s
      else if hd s = CHR 0x22 then cp_skip_double_quote s
      else if hd s = CHR 0x5C \<and> take 1 (tl s) = ''<'' then skip_backslash s
      else tl s)"

lemma length_skip_token_Cons: "length (skip_token (c # cs)) < Suc (length cs)"
  by (simp add: skip_token_def length_skip_backslash_Cons length_skip_quote_Cons)

function skip_spacevec_item :: "string \<Rightarrow> string" where
  "skip_spacevec_item s =
     (case s of [] \<Rightarrow> []
      | c # cs \<Rightarrow> if comment_start s \<or> isspace c then s else skip_spacevec_item (skip_token s))"
  by pat_completeness auto
termination
  by (relation "measure length") (auto simp: length_skip_token_Cons)

declare skip_spacevec_item.simps [simp del]

text \<open>\<open>substring left right\<close> is the text between two positions of the same string.\<close>

definition substring :: "string \<Rightarrow> string \<Rightarrow> string" where
  "substring left right = take (length left - length right) left"

text \<open>The first word of the string, and the string after it.\<close>

definition cp_shift_spacevec :: "string \<Rightarrow> string \<times> string" where
  "cp_shift_spacevec str =
     (let item = cp_skip_comment_space str;
          item_end = skip_spacevec_item item
      in (substring item item_end, cp_skip_comment_space item_end))"

lemma length_skip_spacevec_item: "length (skip_spacevec_item s) \<le> length s"
proof (induction s rule: skip_spacevec_item.induct)
  case (1 s)
  show ?case
  proof (cases s)
    case Nil
    then show ?thesis by (simp add: skip_spacevec_item.simps)
  next
    case (Cons c cs)
    with 1 [OF Cons] length_skip_token_Cons [of c cs] show ?thesis
      by (subst skip_spacevec_item.simps) auto
  qed
qed

lemma length_cp_skip_comment_space: "length (cp_skip_comment_space s) \<le> length s"
proof (induction s rule: cp_skip_comment_space.induct)
  case (1 s)
  show ?case
  proof (cases s)
    case Nil
    then show ?thesis by (simp add: cp_skip_comment_space.simps)
  next
    case (Cons c cs)
    with 1 length_skip_comment [of s] show ?thesis
      by (subst cp_skip_comment_space.simps) force
  qed
qed

text \<open>What follows the skipped space is the end or the start of a word, which is not empty.\<close>

lemma cp_skip_comment_space_stop:
  "cp_skip_comment_space s = c # cs \<Longrightarrow> \<not> isspace c \<and> \<not> comment_start (c # cs)"
proof (induction s rule: cp_skip_comment_space.induct)
  case (1 s)
  then show ?case
    by (subst (asm) (2) cp_skip_comment_space.simps)
      (auto split: list.splits if_splits)
qed

lemma skip_spacevec_item_advances:
  "\<not> isspace c \<Longrightarrow> \<not> comment_start (c # cs) \<Longrightarrow>
    length (skip_spacevec_item (c # cs)) < Suc (length cs)"
  using length_skip_token_Cons [of c cs] length_skip_spacevec_item [of "skip_token (c # cs)"]
  by (subst skip_spacevec_item.simps) auto

text \<open>All words of a string, in the order \<^verbatim>\<open>cp_spacevec\<close> appends them to its vector.\<close>

function cp_spacevec :: "string \<Rightarrow> string list" where
  "cp_spacevec s =
     (let t = cp_skip_comment_space s in
      if t = [] then []
      else let u = skip_spacevec_item t in substring t u # cp_spacevec u)"
  by pat_completeness auto
termination
proof (relation "measure length")
  fix s t u :: string
  assume *: "t = cp_skip_comment_space s" "t \<noteq> []" "u = skip_spacevec_item t"
  from *(2) obtain c cs where t: "t = c # cs" by (cases t) auto
  then have "length t = Suc (length cs)" by simp
  with * t cp_skip_comment_space_stop [of s c cs] skip_spacevec_item_advances [of c cs]
    length_cp_skip_comment_space [of s]
  show "(u, s) \<in> measure length" by simp
qed simp

declare cp_spacevec.simps [simp del]

text \<open>
  \<^verbatim>\<open>partial_uncomment\<close> copies one comma-separated argument without its comments. The result is
  the argument and the text from the comma on (the empty list at the end of the string).
\<close>

function uncomment_loop ::
  "string \<Rightarrow> string \<Rightarrow> string \<Rightarrow> string \<Rightarrow> bool \<Rightarrow> string \<times> string" where
  "uncomment_loop s sa left right closed =
     (case s of [] \<Rightarrow> (sa @ substring left right, [])
      | c # cs \<Rightarrow>
        if isspace c then uncomment_loop cs sa left right closed
        else if comment_start s then uncomment_loop (skip_comment s) sa left right True
        else if c = CHR '','' then (sa @ substring left right, s)
        else uncomment_loop (skip_token s)
          (if closed then sa @ substring left right @ '' '' else sa)
          (if closed then s else left) (skip_token s) False)"
  by pat_completeness auto
termination
  by (relation "measure (\<lambda>(s, _). length s)")
    (auto simp: length_skip_comment_Cons length_skip_token_Cons)

declare uncomment_loop.simps [simp del]

definition partial_uncomment :: "string \<Rightarrow> string \<times> string" where
  "partial_uncomment str =
     (let s = cp_skip_comment_space str in uncomment_loop s [] s s False)"

lemma length_uncomment_loop: "length (snd (uncomment_loop s sa l r c)) \<le> length s"
proof (induction s sa l r c rule: uncomment_loop.induct)
  case (1 s sa l r cl)
  show ?case
  proof (cases s)
    case Nil
    then show ?thesis by (simp add: uncomment_loop.simps)
  next
    case (Cons c cs)
    with 1 [OF Cons] length_skip_comment_Cons [of c cs] length_skip_token_Cons [of c cs]
    show ?thesis
      by (subst uncomment_loop.simps) (auto simp del: append_assoc)
  qed
qed

lemma length_partial_uncomment: "length (snd (partial_uncomment s)) \<le> length s"
  unfolding partial_uncomment_def Let_def
  by (rule le_trans [OF length_uncomment_loop length_cp_skip_comment_space])

text \<open>
  \<^verbatim>\<open>cp_argvec\<close> splits at commas: an argument is kept when it is not empty or a comma follows
  it, and the next argument starts after that comma.
\<close>

function cp_argvec :: "string \<Rightarrow> string list" where
  "cp_argvec str =
     (if str = [] then []
      else (if fst (partial_uncomment str) \<noteq> [] \<or> snd (partial_uncomment str) \<noteq> []
            then [fst (partial_uncomment str)] else []) @
           cp_argvec (drop 1 (snd (partial_uncomment str))))"
  by pat_completeness auto
termination
proof (relation "measure length")
  fix str :: string
  assume "str \<noteq> []"
  then show "(drop 1 (snd (partial_uncomment str)), str) \<in> measure length"
    using length_partial_uncomment [of str] by (cases str) auto
qed simp

declare cp_argvec.simps [simp del]

section \<open>Integers\<close>

text \<open>
  \<^verbatim>\<open>IntArg\<close> on a 32-bit result, which is one limb. Positions are offsets from \<^verbatim>\<open>begin\<close>;
  \<open>lastdigit\<close> may be one before the first digit, so it is an integer.
\<close>

definition digit_in :: "nat \<Rightarrow> nat \<Rightarrow> char \<Rightarrow> bool" where
  "digit_in ndigits nletters c =
     (let n = (of_char c :: nat) in
      48 \<le> n \<and> n < 48 + ndigits \<or> 65 \<le> n \<and> n < 65 + nletters \<or> 97 \<le> n \<and> n < 97 + nletters)"

fun span_loop :: "nat \<Rightarrow> nat \<Rightarrow> string \<Rightarrow> int \<Rightarrow> int \<Rightarrow> int \<times> int" where
  "span_loop nd nl [] pos lastdigit = (pos, lastdigit)"
| "span_loop nd nl (c # cs) pos lastdigit =
     (if c = CHR ''_'' \<and> lastdigit = pos then span_loop nd nl cs (pos + 1) lastdigit
      else if digit_in nd nl c then span_loop nd nl cs (pos + 1) (pos + 1)
      else (pos, lastdigit))"

definition IntArg_span :: "string \<Rightarrow> bool \<Rightarrow> nat \<Rightarrow> nat \<times> nat" where
  "IntArg_span s is_signed b =
     (let p = (if s \<noteq> [] \<and> (is_signed \<and> hd s = CHR ''-'' \<or> hd s = CHR ''+'') then 1 else 0);
          t = drop p s;
          (first, base) =
            (if (b = 0 \<or> b = 16) \<and> 2 < length t \<and> t ! 0 = CHR ''0'' \<and>
                (t ! 1 = CHR ''x'' \<or> t ! 1 = CHR ''X'') then (p + 2, 16)
             else if b = 0 \<and> 2 < length t \<and> t ! 0 = CHR ''0'' \<and>
                (t ! 1 = CHR ''b'' \<or> t ! 1 = CHR ''B'') then (p + 2, 2)
             else if b = 0 \<and> t \<noteq> [] \<and> hd t = CHR ''0'' then (p, 8)
             else if b = 0 then (p, 10)
             else (p, b));
          (stop, lastdigit) =
            span_loop (if base > 10 then 10 else base) (if base > 10 then base - 10 else 0)
              (drop first s) (int first) (int first - 1)
      in (if stop \<noteq> int first then nat lastdigit else if first > 1 then first - 1 else 0, base))"

definition digit_value :: "nat \<Rightarrow> char \<Rightarrow> nat option" where
  "digit_value nletters c =
     (let n = (of_char c :: nat) in
      if 48 \<le> n \<and> n \<le> 57 then Some (n - 48)
      else if 65 \<le> n \<and> n < 65 + nletters then Some (n - 65 + 10)
      else if 97 \<le> n \<and> n < 97 + nletters then Some (n - 97 + 10)
      else None)"

definition threshold :: u32 where
  "threshold = 0xFFFFFFFF div 36"

text \<open>
  The state of the digit loop: \<^verbatim>\<open>v0\<close>, \<^verbatim>\<open>value[0]\<close> and whether a multiplication left the limb.
\<close>

definition digit_step :: "nat \<Rightarrow> char \<Rightarrow> u32 \<times> u32 \<times> bool \<Rightarrow> u32 \<times> u32 \<times> bool" where
  "digit_step b c st =
     (case st of (v0, v, oor) \<Rightarrow>
       (case digit_value (if b > 10 then b - 10 else 0) c of
          None \<Rightarrow> st
        | Some d \<Rightarrow>
            if v0 < threshold then
              (let v0' = v0 * of_nat b + of_nat d in (v0', v0', oor))
            else
              (let n = unat v * b + d in (v0, of_nat n, oor \<or> 2 ^ 32 \<le> n))))"

datatype status = status_ok | status_range | status_inval

definition IntArg_parse :: "string \<Rightarrow> bool \<Rightarrow> nat \<Rightarrow> status \<times> nat \<times> u32" where
  "IntArg_parse s is_signed base =
     (let (xend, b) = IntArg_span s is_signed base in
      if b < 2 \<or> 36 < b \<or> xend = 0 then (status_inval, 0, 0)
      else
        let (v0, v, over) = fold (digit_step b) (take xend s) (0, 0, False);
            negative = (is_signed \<and> hd s = CHR ''-'');
            oor = (over \<or>
              is_signed \<and> 2 ^ 31 + (if negative then 1 else 0) \<le> unat v);
            v1 = (if \<not> oor then v
                  else if \<not> is_signed then 0xFFFFFFFF
                  else if negative then 0x80000000 else 0x7FFFFFFF)
        in (if oor then status_range else status_ok, xend, if negative then - v1 else v1))"

text \<open>
  \<^verbatim>\<open>cp_basic_integer\<close> with \<^verbatim>\<open>cp_basic_integer_whole\<close>, as the two 32-bit \<^verbatim>\<open>cp_integer\<close> call it: an
  integer out of oor is accepted with the saturated value.
\<close>

definition cp_basic_integer :: "string \<Rightarrow> bool \<Rightarrow> u32 option" where
  "cp_basic_integer s is_signed =
     (let (st, x, v) = IntArg_parse s is_signed 0 in
      if st = status_inval \<or> x \<noteq> length s then None else Some v)"

definition cp_integer_int :: "string \<Rightarrow> int option" where
  "cp_integer_int s = map_option sint (cp_basic_integer s True)"

definition cp_integer_unsigned :: "string \<Rightarrow> u32 option" where
  "cp_integer_unsigned s = cp_basic_integer s False"

section \<open>Dotted IP addresses\<close>

fun octet_loop :: "nat \<Rightarrow> string \<Rightarrow> nat \<times> string" where
  "octet_loop part [] = (part, [])"
| "octet_loop part (c # cs) =
     (if isdigit c \<and> part \<le> 255 then octet_loop (part * 10 + (of_char c - 48)) cs
      else (part, c # cs))"

text \<open>\<open>ip_loop n first s\<close> reads at most \<open>n\<close> more octets; a dot stands before all but the first.\<close>

fun ip_loop :: "nat \<Rightarrow> bool \<Rightarrow> string \<Rightarrow> u8 list \<times> string" where
  "ip_loop 0 first s = ([], s)"
| "ip_loop (Suc n) first s =
     (if s = [] \<or> (\<not> first \<and> hd s \<noteq> CHR ''.'') then ([], s)
      else let t = (if first then s else tl s) in
        if t = [] \<or> \<not> isdigit (hd t) then ([], s)
        else let (part, t') = octet_loop (of_char (hd t) - 48) (tl t) in
          if 255 < part then ([], s)
          else let (vs, r) = ip_loop n False t' in (of_nat part # vs, r))"

definition IPAddressArg_basic_parse :: "string \<Rightarrow> u8 list \<times> string" where
  "IPAddressArg_basic_parse s = ip_loop 4 True s"

text \<open>
  The names an element sees in its context: the XID names that \<^verbatim>\<open>XIAXIDInfo\<close> has defined, innermost
  context first, and what the databases and the network devices of the host answer for the name of
  an IP address. A database never holds the empty name, and without a context there are no XID names.
\<close>

record name_ctx =
  xid_names :: "(string \<times> click_xia_xid) list"
  query_ip :: "string \<Rightarrow> u8 list option"

definition query_xid :: "name_ctx \<Rightarrow> string \<Rightarrow> click_xia_xid option" where
  "query_xid ctx s = (if s = [] then None else map_of (xid_names ctx) s)"

definition no_context :: "(string \<Rightarrow> u8 list option) \<Rightarrow> name_ctx" where
  "no_context q = \<lparr>xid_names = [], query_ip = q\<rparr>"

lemma query_xid_no_context [simp]: "query_xid (no_context q) s = None"
  by (simp add: query_xid_def no_context_def)

lemma query_ip_no_context [simp]: "query_ip (no_context q) = q"
  by (simp add: no_context_def)

definition IPAddressArg_parse :: "name_ctx \<Rightarrow> string \<Rightarrow> u8 list option" where
  "IPAddressArg_parse ctx s =
     (let (value, rest) = IPAddressArg_basic_parse s in
      if rest = [] \<and> length value = 4 then Some value else query_ip ctx s)"

section \<open>XIDs\<close>

definition xvalue :: "char \<Rightarrow> int" where
  "xvalue c =
     (let x = int (of_char c) in
      if 48 \<le> x \<and> x \<le> 57 then x - 48
      else if 65 \<le> x \<and> x \<le> 70 then x - 65 + 10
      else if 97 \<le> x \<and> x \<le> 102 then x - 97 + 10
      else - 1)"

definition cp_xid_type :: "string \<Rightarrow> u32 option" where
  "cp_xid_type str =
     (if str = ''UNDEF'' then Some (htonl CLICK_XIA_XID_TYPE_UNDEF)
      else if str = ''AD'' then Some (htonl CLICK_XIA_XID_TYPE_AD)
      else if str = ''CID'' then Some (htonl CLICK_XIA_XID_TYPE_CID)
      else if str = ''HID'' then Some (htonl CLICK_XIA_XID_TYPE_HID)
      else if str = ''SID'' then Some (htonl CLICK_XIA_XID_TYPE_SID)
      else if str = ''IP'' then Some (htonl CLICK_XIA_XID_TYPE_IP)
      else cp_integer_unsigned str)"

text \<open>The loop over the bytes of the identifier: a pair that is not hexadecimal stays and reads as 0.\<close>

fun read_id :: "nat \<Rightarrow> string \<Rightarrow> u8 list" where
  "read_id 0 s = []"
| "read_id (Suc n) (a # b # cs) =
     (if isxdigit a \<and> isxdigit b
      then of_int (xvalue a * 16 + xvalue b) # read_id n cs
      else 0 # read_id n (a # b # cs))"
| "read_id (Suc n) s = 0 # read_id n s"

definition ip_xid_id :: "u8 list \<Rightarrow> u8 list" where
  "ip_xid_id ip =
     [0x45, 0, 0, 0, 0, 0x01, 0, 0, 0xFA, 0xFA, 0, 0, 0, 0, 0, 0] @ take 4 ip"

definition cp_xid :: "name_ctx \<Rightarrow> string \<Rightarrow> click_xia_xid option" where
  "cp_xid ctx str =
     (case query_xid ctx str of
        Some x \<Rightarrow> Some x
      | None \<Rightarrow>
          if CHR '':'' \<notin> set str then None
          else
            let type_str = takeWhile (\<lambda>c. c \<noteq> CHR '':'') str;
                xid_str = drop (length type_str + 1) str
            in case cp_xid_type type_str of
                 None \<Rightarrow> None
               | Some t \<Rightarrow>
                   (case (if t = htonl CLICK_XIA_XID_TYPE_IP
                          then IPAddressArg_parse ctx xid_str else None) of
                      Some ip \<Rightarrow> Some \<lparr>xid_type = t, xid_id = ip_xid_id ip\<rparr>
                    | None \<Rightarrow> Some \<lparr>xid_type = t, xid_id = read_id 20 xid_str\<rparr>))"

definition XID_parse :: "name_ctx \<Rightarrow> string \<Rightarrow> click_xia_xid \<Rightarrow> click_xia_xid" where
  "XID_parse ctx str this =
     (case cp_xid ctx str of
        Some x \<Rightarrow> x
      | None \<Rightarrow> this\<lparr>xid_type := htonl CLICK_XIA_XID_TYPE_UNDEF\<rparr>)"

text \<open>\<^verbatim>\<open>XIDArg::parse\<close> always succeeds, with the all-zero identifier when the text is no XID.\<close>

definition XIDArg_parse :: "name_ctx \<Rightarrow> string \<Rightarrow> click_xia_xid" where
  "XIDArg_parse ctx str = XID_parse ctx str XID_default"

text \<open>
  \<^verbatim>\<open>XIAXIDInfo::configure\<close> defines names for XIDs. The result says whether no error was reported; the
  second word is read even when there is none.
\<close>

fun XIAXIDInfo_configure :: "name_ctx \<Rightarrow> string list \<Rightarrow> nat \<Rightarrow> (bool \<times> name_ctx) run" where
  "XIAXIDInfo_configure ctx [] errors = Inr (errors = 0, ctx)"
| "XIAXIDInfo_configure ctx (c # conf) errors =
     (let parts = cp_spacevec c in
      if parts = [] then XIAXIDInfo_configure ctx conf errors
      else
        let errors' = (if length parts \<noteq> 2 then errors + 1 else errors) in
        bind_run (at parts 1) (\<lambda>value.
          case cp_xid (no_context (query_ip ctx)) value of
            None \<Rightarrow> XIAXIDInfo_configure ctx conf (errors' + 1)
          | Some x \<Rightarrow>
              if query_xid ctx (parts ! 0) \<noteq> None then Inr (False, ctx)
              else if parts ! 0 = [] then XIAXIDInfo_configure ctx conf (errors' + 1)
              else XIAXIDInfo_configure (ctx\<lparr>xid_names := xid_names ctx @ [(parts ! 0, x)]\<rparr>) conf
                errors'))"

lemma XIAXIDInfo_configure_keeps:
  "XIAXIDInfo_configure ctx conf n = Inr (b, ctx') \<Longrightarrow> query_xid ctx s = Some x \<Longrightarrow>
    query_xid ctx' s = Some x"
proof (induction ctx conf n rule: XIAXIDInfo_configure.induct)
  case (2 ctx c conf errors)
  have keep: "query_xid (ctx\<lparr>xid_names := xid_names ctx @ xs\<rparr>) s = Some x" for xs
    using 2(6) by (auto simp: query_xid_def map_add_def split: if_splits)
  show ?case
  proof (cases "cp_spacevec c = []")
    case True
    with 2 show ?thesis by simp
  next
    case False
    then show ?thesis
      using 2 keep
      by (auto simp: Let_def split: if_splits option.splits)
  qed
qed simp

section \<open>Reading back printed integers\<close>

lemma of_char_hex_digit: "n < 10 \<Longrightarrow> (of_char (hex_digit n) :: nat) = 48 + n"
proof -
  have "n mod 16 < 10 \<longrightarrow> (of_char (hex_digit (n mod 16)) :: nat) = 48 + n mod 16"
    by (rule less_16_cases) (simp_all add: hex_digit_def)
  then show "n < 10 \<Longrightarrow> (of_char (hex_digit n) :: nat) = 48 + n" by simp
qed

lemma dec_nat_not_Nil [simp]: "dec_nat n \<noteq> []"
  by (subst dec_nat.simps) simp

lemma isdigit_dec_nat: "c \<in> set (dec_nat n) \<Longrightarrow> isdigit c"
proof (induction n rule: dec_nat.induct)
  case (1 n)
  then show ?case
    by (subst (asm) (2) dec_nat.simps)
      (auto simp: isdigit_def of_char_hex_digit split: if_splits)
qed

lemma hd_dec_nat: "0 < n \<Longrightarrow> hd (dec_nat n) \<noteq> CHR ''0''"
proof (induction n rule: dec_nat.induct)
  case (1 n)
  show ?case
  proof (cases "n < 10")
    case True
    then have "(of_char (hd (dec_nat n)) :: nat) \<noteq> 48"
      using 1 by (subst dec_nat.simps) (simp add: of_char_hex_digit)
    then show ?thesis by auto
  next
    case False
    with 1 show ?thesis by (subst dec_nat.simps) simp
  qed
qed

lemma span_loop_digits:
  "(\<And>c. c \<in> set ds \<Longrightarrow> isdigit c) \<Longrightarrow>
    span_loop 10 0 ds pos l = (pos + int (length ds), if ds = [] then l else pos + int (length ds))"
proof (induction ds arbitrary: pos l)
  case (Cons c ds)
  then have "isdigit c" by simp
  then have "c \<noteq> CHR ''_''" by (auto simp: isdigit_def)
  moreover have "digit_in 10 0 c"
    using \<open>isdigit c\<close> by (simp add: digit_in_def isdigit_def Let_def)
  ultimately show ?case using Cons by auto
qed simp

lemma digit_step_digit:
  "d < 10 \<Longrightarrow> digit_step 10 (hex_digit d) (v0, v, oor) =
    (if v0 < threshold
     then (v0 * 10 + of_nat d, v0 * 10 + of_nat d, oor)
     else (v0, of_nat (unat v * 10 + d), oor \<or> 2 ^ 32 \<le> unat v * 10 + d))"
  by (simp add: digit_step_def digit_value_def of_char_hex_digit Let_def)

text \<open>
  After the digits of \<open>n\<close> the limb holds \<open>n\<close>; the accumulator \<^verbatim>\<open>v0\<close> holds it too unless it has
  passed the threshold.
\<close>

lemma digit_steps_dec_nat:
  "n < 2 ^ 32 \<Longrightarrow> \<exists>v0. fold (digit_step 10) (dec_nat n) (0, 0, False) = (v0, of_nat n, False)
    \<and> (v0 < threshold \<longrightarrow> v0 = of_nat n)"
proof (induction n rule: dec_nat.induct)
  case (1 n)
  show ?case
  proof (cases "n < 10")
    case True
    then show ?thesis
      by (subst dec_nat.simps) (simp add: digit_step_digit threshold_def)
  next
    case False
    from 1(2) have "n div 10 < 2 ^ 32" by auto
    with 1(1) False obtain v0 where
      v: "fold (digit_step 10) (dec_nat (n div 10)) (0, 0, False) = (v0, of_nat (n div 10), False)"
        "v0 < threshold \<longrightarrow> v0 = of_nat (n div 10)"
      by auto
    have n: "n div 10 * 10 + n mod 10 = n" by simp
    have u: "unat (of_nat (n div 10) :: u32) = n div 10"
      using 1(2) by (simp add: unat_of_nat)
    have "of_nat (n div 10) * 10 + of_nat (n mod 10) = (of_nat n :: u32)"
      by (metis n of_nat_add of_nat_mult of_nat_numeral)
    with v u 1(2) n False show ?thesis
      by (subst dec_nat.simps) (auto simp: digit_step_digit)
  qed
qed

lemma digits_not_sign:
  assumes "\<And>c. c \<in> set ds \<Longrightarrow> isdigit c" "ds \<noteq> []"
  shows "hd ds \<noteq> CHR ''-''" "hd ds \<noteq> CHR ''+''"
  using assms(1) [of "hd ds"] assms(2) by (auto simp: isdigit_def)

lemma IntArg_span_dec_nat:
  assumes "0 < n"
  shows "IntArg_span (dec_nat n) neg_ok 0 = (length (dec_nat n), 10)"
    and "IntArg_span (CHR ''-'' # dec_nat n) True 0 = (Suc (length (dec_nat n)), 10)"
proof -
  have h: "hd (dec_nat n) \<noteq> CHR ''0''" "dec_nat n ! 0 \<noteq> CHR ''0''"
    using hd_dec_nat [OF assms] by (simp_all add: hd_conv_nth)
  show "IntArg_span (dec_nat n) neg_ok 0 = (length (dec_nat n), 10)"
    using h digits_not_sign [of "dec_nat n"] isdigit_dec_nat
    by (auto simp: IntArg_span_def Let_def span_loop_digits)
  show "IntArg_span (CHR ''-'' # dec_nat n) True 0 = (Suc (length (dec_nat n)), 10)"
    using h isdigit_dec_nat
    by (auto simp: IntArg_span_def Let_def span_loop_digits)
qed

lemma dec_nat_0: "dec_nat 0 = ''0''"
  by (subst dec_nat.simps) (simp add: hex_digit_def)

lemma cp_basic_integer_zero: "cp_basic_integer ''0'' neg_ok = Some 0"
  by (simp add: cp_basic_integer_def IntArg_parse_def IntArg_span_def digit_in_def digit_step_def
      digit_value_def Let_def)

lemma IntArg_parse_dec_nat:
  assumes "0 < n" "n < 2 ^ 32" "neg_ok \<Longrightarrow> n < 2 ^ 31"
  shows "IntArg_parse (dec_nat n) neg_ok 0 = (status_ok, length (dec_nat n), of_nat n)"
proof -
  obtain v0 where "fold (digit_step 10) (dec_nat n) (0, 0, False) = (v0, of_nat n, False)"
    using digit_steps_dec_nat [OF assms(2)] by blast
  moreover have "unat (of_nat n :: u32) = n"
    using assms(2) by (simp add: unat_of_nat)
  ultimately show ?thesis
    using assms digits_not_sign [of "dec_nat n"] isdigit_dec_nat
    by (auto simp: IntArg_parse_def IntArg_span_dec_nat)
qed

lemma IntArg_parse_neg:
  assumes "0 < n" "n \<le> 2 ^ 31"
  shows "IntArg_parse (CHR ''-'' # dec_nat n) True 0 =
    (status_ok, Suc (length (dec_nat n)), - of_nat n)"
proof -
  have n: "n < 2 ^ 32" using assms(2) by simp
  obtain v0 where "fold (digit_step 10) (dec_nat n) (0, 0, False) = (v0, of_nat n, False)"
    using digit_steps_dec_nat [OF n] by blast
  moreover have "unat (of_nat n :: u32) = n"
    using n by (simp add: unat_of_nat)
  moreover have "digit_step 10 CHR ''-'' (0, 0, False) = (0, 0, False)"
    by (simp add: digit_step_def digit_value_def)
  ultimately show ?thesis
    using assms by (auto simp: IntArg_parse_def IntArg_span_dec_nat)
qed

lemma cp_basic_integer_dec_nat:
  assumes "n < 2 ^ 32" "neg_ok \<Longrightarrow> n < 2 ^ 31"
  shows "cp_basic_integer (dec_nat n) neg_ok = Some (of_nat n)"
proof (cases "n = 0")
  case True
  then show ?thesis by (simp add: dec_nat_0 cp_basic_integer_zero)
next
  case False
  with assms show ?thesis by (simp add: cp_basic_integer_def IntArg_parse_dec_nat)
qed

lemma cp_integer_unsigned_dec_nat [codec]:
  "n < 2 ^ 32 \<Longrightarrow> cp_integer_unsigned (dec_nat n) = Some (of_nat n)"
  by (simp add: cp_integer_unsigned_def cp_basic_integer_dec_nat)

lemma sint_u32_of_nat: "n < 2 ^ 31 \<Longrightarrow> sint (of_nat n :: u32) = int n"
  by (simp add: signed_of_nat signed_take_bit_int_eq_self)

lemma sint_u32_neg_of_nat: "n \<le> 2 ^ 31 \<Longrightarrow> sint (- of_nat n :: u32) = - int n"
proof -
  assume n: "n \<le> 2 ^ 31"
  have "sint (- of_nat n :: u32) = sint (of_int (- int n) :: u32)" by simp
  also have "\<dots> = signed_take_bit 31 (- int n)"
    by (simp only: signed_of_int) simp
  also have "\<dots> = - int n"
    using n by (intro signed_take_bit_int_eq_self) auto
  finally show ?thesis .
qed

lemma cp_integer_int_dec_nat [codec]:
  "n < 2 ^ 31 \<Longrightarrow> cp_integer_int (dec_nat n) = Some (int n)"
  by (simp add: cp_integer_int_def cp_basic_integer_dec_nat sint_u32_of_nat)

lemma cp_integer_int_neg:
  "0 < n \<Longrightarrow> n \<le> 2 ^ 31 \<Longrightarrow> cp_integer_int (CHR ''-'' # dec_nat n) = Some (- int n)"
  by (simp add: cp_integer_int_def cp_basic_integer_def IntArg_parse_neg sint_u32_neg_of_nat)

lemma cp_integer_int_printed:
  "- (2 ^ 31) \<le> i \<Longrightarrow> i < 2 ^ 31 \<Longrightarrow> cp_integer_int (dec_int i) = Some i"
  using cp_integer_int_neg [of "nat (- i)"] cp_integer_int_dec_nat [of "nat i"]
  by (auto simp: dec_int_def)

text \<open>
  Every 32-bit integer printed in decimal is read back by \<^verbatim>\<open>cp_integer\<close> as itself, up to
  and including both bounds of the type.
\<close>

theorem cp_integer_int_dec_int:
  assumes "- (2 ^ 31) \<le> i" "i < 2 ^ 31"
  shows "cp_integer_int (dec_int i) = Some i"
  using assms by (rule cp_integer_int_printed)

theorem cp_integer_int_dec_int_witness:
  "cp_integer_int (dec_int (- 2147483648)) = Some (- 2147483648)
    \<and> cp_integer_int (dec_int 2147483647) = Some 2147483647"
  using cp_integer_int_dec_int [of "- 2147483648"] cp_integer_int_dec_int [of 2147483647] by simp

section \<open>Reading back printed XIDs\<close>

lemma xvalue_hex_digit: "xvalue (hex_digit n) = int (n mod 16)"
proof -
  have "xvalue (hex_digit (n mod 16)) = int (n mod 16)"
    by (rule less_16_cases) (simp_all add: xvalue_def hex_digit_def)
  then show ?thesis by simp
qed

lemma of_int_hex_byte: "(of_int (int (unat b div 16) * 16 + int (unat b mod 16)) :: u8) = b"
proof -
  have "int (unat b div 16) * 16 + int (unat b mod 16) = int (unat b)"
    by (metis div_mult_mod_eq of_nat_add of_nat_mult of_nat_numeral)
  then show ?thesis by simp
qed

lemma read_id_id_hex [codec]: "read_id (length bs) (id_hex bs) = bs"
proof (induction bs)
  case (Cons b bs)
  have "unat b div 16 < 16"
    using unat_less_widths(1) [of b] by simp
  with Cons show ?case
    using of_int_hex_byte [of b] by (simp add: byte_hex_def xvalue_hex_digit)
qed simp

lemma length_read_id [simp]: "length (read_id n s) = n"
  by (induction n s rule: read_id.induct) auto

lemma id_hex_isxdigit: "c \<in> set (id_hex bs) \<Longrightarrow> isxdigit c"
  by (induction bs) (auto simp: byte_hex_def)

lemma set_octet_loop: "set (snd (octet_loop p s)) \<subseteq> set s"
  by (induction p s rule: octet_loop.induct) auto

lemma ip_loop_no_dot_False: "CHR ''.'' \<notin> set s \<Longrightarrow> ip_loop n False s = ([], s)"
  by (cases n; cases s) auto

lemma ip_loop_no_dot:
  assumes "CHR ''.'' \<notin> set s"
  shows "length (fst (ip_loop n True s)) \<le> 1"
proof (cases n)
  case (Suc m)
  have "ip_loop m False (snd (octet_loop p (tl s))) = ([], snd (octet_loop p (tl s)))" for p
    using assms set_octet_loop [of p "tl s"]
    by (intro ip_loop_no_dot_False) (metis list.set_sel(2) list.sel(2) subsetD)
  then show ?thesis
    by (simp add: Suc Let_def split: prod.splits) (metis le_numeral_extra(4) prod.inject snd_conv length_0_conv)
qed simp

lemma IPAddressArg_parse_hex:
  "IPAddressArg_parse ctx (id_hex bs) = query_ip ctx (id_hex bs)"
proof -
  have "CHR ''.'' \<notin> set (id_hex bs)"
    using id_hex_isxdigit by (fastforce simp: isxdigit_def isdigit_def)
  then have "length (fst (IPAddressArg_basic_parse (id_hex bs))) \<le> 1"
    unfolding IPAddressArg_basic_parse_def by (rule ip_loop_no_dot)
  then show ?thesis
    by (auto simp: IPAddressArg_parse_def split: prod.splits)
qed

lemma cp_xid_type_type_name:
  "known_type (ntohl t) \<Longrightarrow> cp_xid_type (type_name t) = Some t"
  by (auto simp: known_type_def type_name_def cp_xid_type_def xid_type_defs htonl_eq_iff)

lemma type_name_no_colon: "known_type (ntohl t) \<Longrightarrow> CHR '':'' \<notin> set (type_name t)"
  by (auto simp: known_type_def type_name_def)

lemma cp_xid_printed:
  assumes "query_xid ctx (tn @ '':'' @ id_hex bs) = None" "CHR '':'' \<notin> set tn"
    and "cp_xid_type tn = Some t" "length bs = 20"
    and "t = htonl CLICK_XIA_XID_TYPE_IP \<Longrightarrow> query_ip ctx (id_hex bs) = None"
  shows "cp_xid ctx (tn @ '':'' @ id_hex bs) = Some \<lparr>xid_type = t, xid_id = bs\<rparr>"
proof -
  have "takeWhile (\<lambda>c. c \<noteq> CHR '':'') (tn @ '':'' @ id_hex bs) = tn"
    using assms(2) by (induction tn) auto
  moreover have "read_id 20 (id_hex bs) = bs"
    using read_id_id_hex [of bs] assms(4) by simp
  ultimately show ?thesis
    using assms by (auto simp: cp_xid_def IPAddressArg_parse_hex Let_def)
qed

text \<open>
  The documented invariant of \<^verbatim>\<open>XID::unparse\<close> holds for every XID of a known type: parsing
  what it prints gives the XID back, whatever the object held before, provided no name of the
  databases looks like a printed XID (and, for an IP-based XID, no host name like its 40 digits).
\<close>

theorem XID_parse_unparse:
  assumes "wf_xid x" "known_type (ntohl (xid_type x))"
    and "XID_unparse x = Inr s"
    and "query_xid ctx s = None" "query_ip ctx (id_hex (xid_id x)) = None"
  shows "XID_parse ctx s old = x"
proof -
  from assms(3) have s: "s = type_name (xid_type x) @ '':'' @ id_hex (xid_id x)"
    by (auto simp: XID_unparse_def Let_def split: if_splits)
  have "cp_xid ctx s = Some \<lparr>xid_type = xid_type x, xid_id = xid_id x\<rparr>"
    unfolding s using assms(1,2,4,5) s
    by (intro cp_xid_printed)
      (auto simp: cp_xid_type_type_name type_name_no_colon wf_xid_def CLICK_XIA_XID_ID_LEN_def)
  then show ?thesis by (simp add: XID_parse_def)
qed

theorem XID_parse_unparse_witness:
  "XID_parse (no_context (\<lambda>_. None)) (''CID:'' @ id_hex (replicate 20 0xAB)) XID_default =
    \<lparr>xid_type = htonl CLICK_XIA_XID_TYPE_CID, xid_id = replicate 20 0xAB\<rparr>"
proof -
  let ?x = "\<lparr>xid_type = htonl CLICK_XIA_XID_TYPE_CID, xid_id = replicate 20 (0xAB :: u8)\<rparr>"
  have "XID_unparse ?x = Inr (''CID:'' @ id_hex (replicate 20 0xAB))"
    by (simp add: XID_unparse_def type_name_def xid_type_defs Let_def)
  from XID_parse_unparse [OF _ _ this, of "no_context (\<lambda>_. None)" XID_default] show ?thesis
    by (simp add: wf_xid_def CLICK_XIA_XID_ID_LEN_def known_type_def)
qed

text \<open>
  For other types the invariant fails: the type is printed in hexadecimal without a prefix and
  read back as a decimal number. The type field \<open>0x20\<close> comes back as \<open>20\<close>.
\<close>

theorem XID_parse_unparse_unknown:
  assumes "length bs = 20"
  shows "\<exists>s. XID_unparse \<lparr>xid_type = 0x20, xid_id = bs\<rparr> = Inr s
    \<and> XID_parse (no_context q) s old = \<lparr>xid_type = 20, xid_id = bs\<rparr>"
proof -
  have h: "hex_nat 0x20 = ''20''" "dec_nat 20 = ''20''"
    by (simp_all add: hex_nat.simps dec_nat.simps hex_digit_def)
  have t: "htonl 0x20 = 0x20000000" "htonl CLICK_XIA_XID_TYPE_IP = 0x14000000"
    unfolding xid_type_defs by code_simp+
  have n: "type_name 0x20 = ''20''"
    using h by (simp add: type_name_def t xid_type_defs)
  have "cp_xid_type (dec_nat 20) = Some 20"
    using cp_integer_unsigned_dec_nat [of 20] h by (simp add: cp_xid_type_def)
  then have "cp_xid (no_context q) (''20'' @ '':'' @ id_hex bs) = Some \<lparr>xid_type = 20, xid_id = bs\<rparr>"
    using assms h t by (intro cp_xid_printed) auto
  then show ?thesis
    using assms n by (simp add: XID_unparse_def XID_parse_def Let_def)
qed

theorem XID_parse_unparse_unknown_witness:
  "\<exists>s. XID_unparse \<lparr>xid_type = 0x20, xid_id = replicate 20 7\<rparr> = Inr s
    \<and> XID_parse (no_context (\<lambda>_. None)) s XID_default \<noteq> \<lparr>xid_type = 0x20, xid_id = replicate 20 7\<rparr>"
  using XID_parse_unparse_unknown [of "replicate 20 7" "\<lambda>_. None" XID_default] by auto

section \<open>Words separated by spaces\<close>

text \<open>A plain word has no space, quote, backslash or slash; printed XIDs and integers are plain.\<close>

definition plain_char :: "char \<Rightarrow> bool" where
  "plain_char c \<longleftrightarrow> \<not> isspace c \<and> c \<noteq> CHR ''/'' \<and> c \<noteq> CHR 0x22 \<and> c \<noteq> CHR 0x27 \<and> c \<noteq> CHR 0x5C"

definition plain_word :: "string \<Rightarrow> bool" where
  "plain_word w \<longleftrightarrow> w \<noteq> [] \<and> (\<forall>c\<in>set w. plain_char c)"

fun unwords :: "string list \<Rightarrow> string" where
  "unwords [] = []"
| "unwords [w] = w"
| "unwords (w # ws) = w @ CHR 0x20 # unwords ws"

lemma plain_char_start: "plain_char c \<Longrightarrow> \<not> comment_start (c # cs)"
  by (auto simp: plain_char_def comment_start_def)

lemma skip_spacevec_item_plain:
  "(\<forall>c\<in>set w. plain_char c) \<Longrightarrow> rest = [] \<or> isspace (hd rest) \<Longrightarrow> skip_spacevec_item (w @ rest) = rest"
proof (induction w)
  case Nil
  then show ?case by (subst skip_spacevec_item.simps) (auto split: list.splits)
next
  case (Cons c w)
  then have "skip_token (c # w @ rest) = w @ rest" "\<not> isspace c" "\<not> comment_start (c # w @ rest)"
    using plain_char_start by (auto simp: skip_token_def plain_char_def)
  with Cons show ?case by (subst skip_spacevec_item.simps) simp
qed

lemma cp_skip_comment_space_plain:
  "plain_char c \<Longrightarrow> cp_skip_comment_space (c # cs) = c # cs"
  using plain_char_start [of c cs]
  by (subst cp_skip_comment_space.simps) (simp add: plain_char_def)

lemma cp_skip_comment_space_Nil [simp]: "cp_skip_comment_space [] = []"
  by (subst cp_skip_comment_space.simps) simp

lemma isspace_space: "isspace (CHR 0x20)"
  by (simp add: isspace_def)

lemma cp_skip_comment_space_unwords:
  assumes "\<forall>w\<in>set ws. plain_word w"
  shows "cp_skip_comment_space (unwords ws) = unwords ws"
    and "cp_skip_comment_space (CHR 0x20 # unwords ws) = unwords ws"
proof -
  show *: "cp_skip_comment_space (unwords ws) = unwords ws"
  proof (cases "unwords ws")
    case (Cons c cs)
    with assms have "plain_char c"
      by (cases ws rule: unwords.cases) (auto simp: plain_word_def neq_Nil_conv)
    then show ?thesis unfolding Cons by (rule cp_skip_comment_space_plain)
  qed simp
  show "cp_skip_comment_space (CHR 0x20 # unwords ws) = unwords ws"
    using * isspace_space by (subst cp_skip_comment_space.simps) simp
qed

lemma cp_shift_spacevec_unwords:
  assumes "plain_word w" "\<forall>v\<in>set ws. plain_word v"
  shows "cp_shift_spacevec (unwords (w # ws)) = (w, unwords ws)"
proof -
  have p: "\<forall>v\<in>set (w # ws). plain_word v" using assms by simp
  obtain rest where rest: "unwords (w # ws) = w @ rest" "rest = [] \<or> isspace (hd rest)"
      "cp_skip_comment_space rest = unwords ws"
    using cp_skip_comment_space_unwords(2) [OF assms(2)] isspace_space
    by (cases ws) auto
  have "skip_spacevec_item (w @ rest) = rest"
    using assms(1) rest(2) by (intro skip_spacevec_item_plain) (simp_all add: plain_word_def)
  then show ?thesis
    using rest cp_skip_comment_space_unwords(1) [OF p]
    by (simp add: cp_shift_spacevec_def substring_def Let_def)
qed

lemma cp_shift_spacevec_Nil [simp]: "cp_shift_spacevec [] = ([], [])"
  using skip_spacevec_item_plain [of "[]" "[]"]
  by (simp add: cp_shift_spacevec_def substring_def Let_def)

lemma cp_shift_spacevec_length:
  "length (snd (cp_shift_spacevec s)) \<le> length s"
  "fst (cp_shift_spacevec s) \<noteq> [] \<Longrightarrow> length (snd (cp_shift_spacevec s)) < length s"
  using length_cp_skip_comment_space [of s] length_skip_spacevec_item [of "cp_skip_comment_space s"]
    length_cp_skip_comment_space [of "skip_spacevec_item (cp_skip_comment_space s)"]
  by (auto simp: cp_shift_spacevec_def substring_def Let_def)

lemma butlast_words: "ws \<noteq> [] \<Longrightarrow> butlast (concat (map (\<lambda>w. w @ '' '') ws)) = unwords ws"
  by (induction ws rule: unwords.induct) (auto simp: butlast_append)

lemma isxdigit_plain: "isxdigit c \<Longrightarrow> plain_char c"
  by (auto simp: plain_char_def isxdigit_def isdigit_def isspace_def)

lemma plain_dec_nat: "plain_word (dec_nat n)"
  using isdigit_dec_nat by (auto simp: plain_word_def isxdigit_def intro: isxdigit_plain)

text \<open>
  What the text forms of a path need from printing and reading XIDs: a printed XID is one word, is not
  a punctuation word, and is read back.
\<close>

locale xid_text =
  fixes ctx :: name_ctx
    and revquery :: "click_xia_xid \<Rightarrow> string"
    and ok :: "click_xia_xid \<Rightarrow> bool"
    and pr :: "click_xia_xid \<Rightarrow> string"
  assumes printed: "ok x \<Longrightarrow> XID_unparse_pretty revquery x = Inr (pr x)"
    and printed_plain: "ok x \<Longrightarrow> plain_word (pr x)"
    and printed_word: "ok x \<Longrightarrow> pr x \<noteq> ''('' \<and> pr x \<noteq> '')''"
    and read_printed: "ok x \<Longrightarrow> cp_xid ctx (pr x) = Some x"

definition canonical_xid :: "click_xia_xid \<Rightarrow> bool" where
  "canonical_xid x \<longleftrightarrow> wf_xid x \<and> known_type (ntohl (xid_type x))"

definition print_xid :: "click_xia_xid \<Rightarrow> string" where
  "print_xid x = type_name (xid_type x) @ '':'' @ id_hex (xid_id x)"

interpretation canonical: xid_text "no_context (\<lambda>_. None)" "\<lambda>_. []" canonical_xid print_xid
proof
  fix x
  assume x: "canonical_xid x"
  then have len: "length (xid_id x) = 20" and k: "known_type (ntohl (xid_type x))"
    by (simp_all add: canonical_xid_def wf_xid_def CLICK_XIA_XID_ID_LEN_def)
  show "XID_unparse_pretty (\<lambda>_. []) x = Inr (print_xid x)"
    using type_name_known [OF k] len
    by (simp add: XID_unparse_pretty_def XID_unparse_def print_xid_def Let_def)
  have "\<forall>c\<in>set (type_name (xid_type x)). plain_char c"
    using k by (auto simp: type_name_def known_type_def plain_char_def isspace_def)
  moreover have "\<forall>c\<in>set (id_hex (xid_id x)). plain_char c"
    using id_hex_isxdigit isxdigit_plain by blast
  ultimately show "plain_word (print_xid x)"
    by (auto simp: plain_word_def print_xid_def plain_char_def isspace_def)
  have "3 \<le> length (print_xid x)" by (simp add: print_xid_def len)
  then show "print_xid x \<noteq> ''('' \<and> print_xid x \<noteq> '')''" by auto
  show "cp_xid (no_context (\<lambda>_. None)) (print_xid x) = Some x"
    unfolding print_xid_def
    using cp_xid_printed [of "no_context (\<lambda>_. None)" "type_name (xid_type x)" "xid_id x" "xid_type x"]
      cp_xid_type_type_name [OF k] type_name_no_colon [OF k] len by simp
qed

section \<open>Arguments separated by commas\<close>

definition plain_field :: "string \<Rightarrow> bool" where
  "plain_field w \<longleftrightarrow> (\<forall>c\<in>set w. plain_char c \<and> c \<noteq> CHR '','')"

lemma uncomment_loop_field:
  "plain_field w \<Longrightarrow> rest = [] \<or> hd rest = CHR '','' \<Longrightarrow>
    uncomment_loop (w @ rest) [] left (w @ rest) False = (substring left rest, rest)"
proof (induction w)
  case Nil
  have "\<not> isspace CHR '',''" "\<not> comment_start (CHR '','' # cs)" for cs
    by (simp_all add: isspace_def comment_start_def)
  with Nil show ?case by (subst uncomment_loop.simps) (auto split: list.splits)
next
  case (Cons c w)
  then have "skip_token (c # w @ rest) = w @ rest" "\<not> isspace c" "\<not> comment_start (c # w @ rest)"
    "c \<noteq> CHR '',''"
    using plain_char_start by (auto simp: skip_token_def plain_char_def plain_field_def)
  with Cons show ?case by (subst uncomment_loop.simps) (simp add: plain_field_def)
qed

lemma partial_uncomment_field:
  assumes "plain_field w" "rest = [] \<or> hd rest = CHR '',''"
  shows "partial_uncomment (w @ rest) = (w, rest)"
proof -
  have "plain_char CHR '',''" by (simp add: plain_char_def isspace_def)
  with assms have "plain_char (hd (w @ rest))" if "w @ rest \<noteq> []"
    using that by (cases w) (auto simp: plain_field_def)
  then have "cp_skip_comment_space (w @ rest) = w @ rest"
    by (cases "w @ rest") (simp_all add: cp_skip_comment_space_plain)
  then show ?thesis
    using uncomment_loop_field [OF assms, of "w @ rest"]
    by (simp add: partial_uncomment_def substring_def Let_def)
qed

lemma cp_argvec_field:
  "plain_field w \<Longrightarrow> cp_argvec (w @ CHR '','' # rest) = w # cp_argvec rest"
  "plain_field w \<Longrightarrow> w \<noteq> [] \<Longrightarrow> cp_argvec w = [w]"
  using partial_uncomment_field [of w "CHR '','' # rest"] partial_uncomment_field [of w "[]"]
  by (subst cp_argvec.simps; simp add: cp_argvec.simps [of "[]"])+

lemma plain_field_Nil [simp]: "plain_field []"
  by (simp add: plain_field_def)

lemma plain_field_dec_nat [simp]: "plain_field (dec_nat n)"
  using plain_dec_nat [of n] isdigit_dec_nat [of _ n]
  by (fastforce simp: plain_field_def plain_word_def isdigit_def)

lemma plain_field_dec_int [simp]: "plain_field (dec_int i)"
  using plain_field_dec_nat by (auto simp: dec_int_def plain_field_def plain_char_def isspace_def)

text \<open>
  Printed XIDs as arguments: no comma occurs in them and none is the word that stands for the default route.
\<close>

locale xid_field = xid_text +
  assumes printed_full: "ok x \<Longrightarrow> XID_unparse x = Inr (pr x)"
    and printed_no_comma: "ok x \<Longrightarrow> CHR '','' \<notin> set (pr x)"
    and printed_no_dash: "ok x \<Longrightarrow> pr x \<noteq> ''-''"
begin

lemma printed_field: "ok x \<Longrightarrow> plain_field (pr x)"
  using printed_plain printed_no_comma by (auto simp: plain_field_def plain_word_def)

lemma printed_not_Nil: "ok x \<Longrightarrow> pr x \<noteq> []"
  using printed_plain by (auto simp: plain_word_def)

end

lemma type_name_no_comma: "known_type (ntohl t) \<Longrightarrow> CHR '','' \<notin> set (type_name t)"
  by (auto simp: known_type_def type_name_def)

lemma hex_no_comma: "CHR '','' \<notin> set (id_hex bs)"
  using id_hex_isxdigit by (fastforce simp: isxdigit_def isdigit_def)

interpretation canonical_field: xid_field "no_context (\<lambda>_. None)" "\<lambda>_. []" canonical_xid print_xid
proof
  fix x
  assume x: "canonical_xid x"
  then have len: "length (xid_id x) = 20" and k: "known_type (ntohl (xid_type x))"
    by (simp_all add: canonical_xid_def wf_xid_def CLICK_XIA_XID_ID_LEN_def)
  show "XID_unparse x = Inr (print_xid x)"
    using type_name_known [OF k] len by (simp add: XID_unparse_def print_xid_def Let_def)
  show "CHR '','' \<notin> set (print_xid x)"
    using type_name_no_comma [OF k] hex_no_comma by (auto simp: print_xid_def)
  have "3 \<le> length (print_xid x)" by (simp add: print_xid_def len)
  then show "print_xid x \<noteq> ''-''" by auto
qed

end
