(* ===== verification/Xia_Path.thy ===== *)
theory Xia_Path
  imports Xia_Confparse
begin

text \<open>
  Paths of XIDs (\<^verbatim>\<open>include/click/xiapath.hh\<close>, \<^verbatim>\<open>lib/xiapath.cc\<close>): a directed acyclic graph with a
  source and a destination. This theory holds the graph, its editing operations, the topological
  ordering and the validity check; the text and the packet forms are in the theories that follow.
\<close>

section \<open>The graph\<close>

text \<open>A handle is the index of a node; \<^verbatim>\<open>size_t(-1)\<close> stands for no node and for no order.\<close>

definition npos :: nat where
  "npos = 2 ^ 64 - 1"

record path_node =
  pxid :: click_xia_xid
  edges :: "nat list"
  order :: nat

record XIAPath =
  nodes :: "path_node list"
  src :: nat
  dst :: nat

definition Node_default :: path_node where
  "Node_default = \<lparr>pxid = XID_default, edges = [], order = npos\<rparr>"

definition XIAPath_reset :: XIAPath where
  "XIAPath_reset = \<lparr>nodes = [], src = npos, dst = npos\<rparr>"

definition CLICK_XIA_XID_EDGE_NUM :: nat where
  "CLICK_XIA_XID_EDGE_NUM = 4"

section \<open>Editing\<close>

definition path_xid :: "XIAPath \<Rightarrow> nat \<Rightarrow> click_xia_xid run" where
  "path_xid p h = bind_run (at (nodes p) h) (\<lambda>n. Inr (pxid n))"

definition next_nodes :: "XIAPath \<Rightarrow> nat \<Rightarrow> nat list run" where
  "next_nodes p h = bind_run (at (nodes p) h) (\<lambda>n. Inr (edges n))"

definition add_node :: "click_xia_xid \<Rightarrow> XIAPath \<Rightarrow> nat \<times> XIAPath" where
  "add_node x p = (length (nodes p), p\<lparr>nodes := nodes p @ [Node_default\<lparr>pxid := x\<rparr>]\<rparr>)"

definition add_edge :: "nat \<Rightarrow> nat \<Rightarrow> nat \<Rightarrow> XIAPath \<Rightarrow> XIAPath run" where
  "add_edge from_node to_node priority p =
     bind_run (at (nodes p) from_node) (\<lambda>n.
       let es = edges n;
           es' = (if priority < length es then take priority es @ to_node # drop priority es
                  else es @ [to_node])
       in Inr (p\<lparr>nodes := (nodes p)[from_node := n\<lparr>edges := es'\<rparr>]\<rparr>))"

text \<open>The loop of \<^verbatim>\<open>remove_node\<close> over the edges of one remaining node.\<close>

fun drop_handle :: "nat \<Rightarrow> nat list \<Rightarrow> nat list" where
  "drop_handle node [] = []"
| "drop_handle node (e # es) =
     (if e = node then drop_handle node es
      else if node < e then (e - 1) # drop_handle node es
      else e # drop_handle node es)"

definition shift_handle :: "nat \<Rightarrow> nat \<Rightarrow> nat" where
  "shift_handle node h =
     (if h \<noteq> npos \<and> node \<le> h then to_size (int h - 1) else h)"

definition remove_node :: "nat \<Rightarrow> XIAPath \<Rightarrow> XIAPath run" where
  "remove_node node p =
     (if node < length (nodes p) then
        Inr \<lparr>nodes = map (\<lambda>n. n\<lparr>edges := drop_handle node (edges n)\<rparr>)
               (take node (nodes p) @ drop (Suc node) (nodes p)),
             src = shift_handle node (src p), dst = shift_handle node (dst p)\<rparr>
      else Inl Out_of_range)"

definition remove_edge :: "nat \<Rightarrow> nat \<Rightarrow> XIAPath \<Rightarrow> XIAPath run" where
  "remove_edge from_node to_node p =
     bind_run (at (nodes p) from_node) (\<lambda>n.
       Inr (p\<lparr>nodes := (nodes p)[from_node := n\<lparr>edges := remove1 to_node (edges n)\<rparr>]\<rparr>))"

definition set_source_node :: "nat \<Rightarrow> XIAPath \<Rightarrow> XIAPath" where
  "set_source_node h p = p\<lparr>src := h\<rparr>"

definition set_destination_node :: "nat \<Rightarrow> XIAPath \<Rightarrow> XIAPath" where
  "set_destination_node h p = p\<lparr>dst := h\<rparr>"

section \<open>Topological ordering and validity\<close>

text \<open>
  The array of in-degrees has one entry per node; an edge to a handle that is no node writes outside
  it. The stack of ready nodes has its back at the head of the list.
\<close>

fun inc_indegree :: "nat list \<Rightarrow> int list \<Rightarrow> int list run" where
  "inc_indegree [] ind = Inr ind"
| "inc_indegree (e # es) ind =
     (if e < length ind then inc_indegree es (ind[e := ind ! e + 1]) else Inl Out_of_range)"

fun indegree_loop :: "path_node list \<Rightarrow> int list \<Rightarrow> int list run" where
  "indegree_loop [] ind = Inr ind"
| "indegree_loop (n # ns) ind = bind_run (inc_indegree (edges n) ind) (indegree_loop ns)"

fun dec_indegree :: "nat list \<Rightarrow> int list \<Rightarrow> nat list \<Rightarrow> (int list \<times> nat list) run" where
  "dec_indegree [] ind q = Inr (ind, q)"
| "dec_indegree (e # es) ind q =
     (if e < length ind then
        dec_indegree es (ind[e := ind ! e - 1]) (if ind ! e - 1 = 0 then e # q else q)
      else Inl Out_of_range)"

definition pending :: "int list \<Rightarrow> nat" where
  "pending ind = length (filter (\<lambda>k. 0 < k) ind)"

lemma pending_split: "pending (xs @ k # ys) = pending (xs @ ys) + (if 0 < k then 1 else 0)"
  by (simp add: pending_def)

lemma pending_update:
  assumes "e < length ind"
  shows "pending (ind[e := k]) + (if 0 < ind ! e then 1 else 0) =
    pending ind + (if 0 < k then 1 else 0)"
proof -
  let ?rest = "take e ind @ drop (Suc e) ind"
  have "pending ind = pending ?rest + (if 0 < ind ! e then 1 else 0)"
    by (subst id_take_nth_drop [OF assms]) (rule pending_split)
  moreover have "pending (ind[e := k]) = pending ?rest + (if 0 < k then 1 else 0)"
    using pending_split [of "take e ind" k] assms by (simp add: upd_conv_take_nth_drop)
  ultimately show ?thesis by simp
qed

lemma dec_indegree_pending:
  "dec_indegree es ind q = Inr (ind', q') \<Longrightarrow> length q' + pending ind' \<le> length q + pending ind"
proof (induction es ind q rule: dec_indegree.induct)
  case (2 e es ind q)
  from 2(2) have e: "e < length ind" by (simp split: if_splits)
  with 2 have "length q' + pending ind' \<le>
      length (if ind ! e - 1 = 0 then e # q else q) + pending (ind[e := ind ! e - 1])"
    by simp
  then show ?case
    using pending_update [OF e, of "ind ! e - 1"] by (auto split: if_splits)
qed simp

function topo_loop ::
  "path_node list \<Rightarrow> int list \<Rightarrow> nat list \<Rightarrow> nat \<Rightarrow> nat \<Rightarrow> (path_node list \<times> nat) run" where
  "topo_loop ns ind [] next_order num_processed = Inr (ns, num_processed)"
| "topo_loop ns ind (v # q) next_order num_processed =
     bind_run (at ns v) (\<lambda>n.
     bind_run (dec_indegree (edges n) ind q) (\<lambda>(ind', q').
       topo_loop (ns[v := n\<lparr>order := next_order\<rparr>]) ind' q' (next_order + 1) (num_processed + 1)))"
  by pat_completeness auto
termination
proof (relation "measure (\<lambda>(ns, ind, q, _, _). length q + pending ind)")
  fix ns ind v q next_order num_processed n x ind' q'
  assume "dec_indegree (edges n) ind q = Inr x" "(ind', q') = x"
  then show "((ns[v := n\<lparr>order := next_order\<rparr>], ind', q', next_order + 1, num_processed + 1),
      ns, ind, v # q, next_order, num_processed)
      \<in> measure (\<lambda>(ns, ind, q, _, _). length q + pending ind)"
    using dec_indegree_pending [of "edges n" ind q ind' q'] by auto
qed simp

definition topological_ordering :: "XIAPath \<Rightarrow> (bool \<times> XIAPath) run" where
  "topological_ordering p =
     (let n = length (nodes p) in
      bind_run (indegree_loop (nodes p) (replicate n 0)) (\<lambda>ind.
      bind_run (topo_loop (nodes p) ind (rev (filter (\<lambda>i. ind ! i = 0) [0..<n])) 0 0) (\<lambda>(ns, num).
        Inr (num = n, p\<lparr>nodes := ns\<rparr>))))"

text \<open>
  The loop of \<^verbatim>\<open>is_valid\<close> over the nodes; \<open>None\<close> is its early return of false. The check updates the
  orders through a \<^verbatim>\<open>const_cast\<close>, so it returns the path too.
\<close>

fun valid_loop :: "nat \<Rightarrow> nat \<Rightarrow> path_node list \<Rightarrow> int list \<Rightarrow> int list option run" where
  "valid_loop d i [] ind = Inr (Some ind)"
| "valid_loop d i (n # ns) ind =
     (if edges n = [] \<and> i \<noteq> d then Inr None
      else if CLICK_XIA_XID_EDGE_NUM < length (edges n) then Inr None
      else bind_run (inc_indegree (edges n) ind) (valid_loop d (i + 1) ns))"

definition is_valid :: "XIAPath \<Rightarrow> (bool \<times> XIAPath) run" where
  "is_valid p =
     (let n = length (nodes p) in
      if n \<le> src p then Inr (False, p)
      else if n \<le> dst p then Inr (False, p)
      else if src p = dst p then Inr (False, p)
      else bind_run (valid_loop (dst p) 0 (nodes p) (replicate n 0)) (\<lambda>r.
        case r of None \<Rightarrow> Inr (False, p)
        | Some ind \<Rightarrow>
            if \<exists>i\<in>set [0..<n]. ind ! i = 0 \<and> i \<noteq> src p then Inr (False, p)
            else topological_ordering p))"

text \<open>\<^verbatim>\<open>incr\<close> adds one to the first byte of the identifier of the node with the given order.\<close>

definition find_order :: "nat \<Rightarrow> path_node list \<Rightarrow> nat" where
  "find_order k ns = length (takeWhile (\<lambda>n. order n \<noteq> k) ns)"

definition incr_id :: "click_xia_xid \<Rightarrow> click_xia_xid" where
  "incr_id x = x\<lparr>xid_id := (xid_id x)[0 := 1 + xid_id x ! 0]\<rparr>"

definition path_incr :: "nat \<Rightarrow> XIAPath \<Rightarrow> XIAPath run" where
  "path_incr k p =
     bind_run (topological_ordering p) (\<lambda>(ok, p').
       if \<not> ok then Inr p'
       else let i = find_order k (nodes p') in
         bind_run (at (nodes p') i) (\<lambda>n.
           if order n \<noteq> k then Inr p'
           else Inr (p'\<lparr>nodes := (nodes p')[i := n\<lparr>pxid := incr_id (pxid n)\<rparr>]\<rparr>)))"

section \<open>In-degrees\<close>

text \<open>A graph is well-formed when its edges lead to nodes of it.\<close>

definition wf_graph :: "path_node list \<Rightarrow> bool" where
  "wf_graph ns \<longleftrightarrow> (\<forall>n\<in>set ns. \<forall>e\<in>set (edges n). e < length ns)"

definition edge_rel :: "path_node list \<Rightarrow> (nat \<times> nat) set" where
  "edge_rel ns = {(u, v). u < length ns \<and> v \<in> set (edges (ns ! u))}"

definition indeg :: "path_node list \<Rightarrow> nat set \<Rightarrow> nat \<Rightarrow> nat" where
  "indeg ns U i = (\<Sum>u\<in>U. count_list (edges (ns ! u)) i)"

lemma inc_indegree_ok:
  "(\<forall>e\<in>set es. e < length ind) \<Longrightarrow>
    \<exists>ind'. inc_indegree es ind = Inr ind' \<and> length ind' = length ind
      \<and> (\<forall>i < length ind. ind' ! i = ind ! i + int (count_list es i))"
proof (induction es arbitrary: ind)
  case (Cons e es)
  from Cons.prems have e: "e < length ind" by simp
  with Cons.IH [of "ind[e := ind ! e + 1]"] Cons.prems obtain ind' where
    *: "inc_indegree es (ind[e := ind ! e + 1]) = Inr ind'" "length ind' = length ind"
      "\<forall>i < length ind. ind' ! i = ind[e := ind ! e + 1] ! i + int (count_list es i)"
    by auto
  with e show ?case by (intro exI [of _ ind']) (auto simp: nth_list_update)
qed simp

lemma inc_indegree_fault:
  "\<not> (\<forall>e\<in>set es. e < length ind) \<Longrightarrow> inc_indegree es ind = Inl Out_of_range"
  by (induction es arbitrary: ind) auto

lemma indegree_loop_ok:
  "(\<forall>n\<in>set ns. \<forall>e\<in>set (edges n). e < length ind) \<Longrightarrow>
    \<exists>ind'. indegree_loop ns ind = Inr ind' \<and> length ind' = length ind
      \<and> (\<forall>i < length ind. ind' ! i = ind ! i + int (\<Sum>n\<leftarrow>ns. count_list (edges n) i))"
proof (induction ns arbitrary: ind)
  case (Cons n ns)
  then obtain ind1 where 1: "inc_indegree (edges n) ind = Inr ind1" "length ind1 = length ind"
      "\<forall>i < length ind. ind1 ! i = ind ! i + int (count_list (edges n) i)"
    using inc_indegree_ok [of "edges n" ind] by auto
  with Cons.IH [of ind1] Cons.prems obtain ind' where "indegree_loop ns ind1 = Inr ind'"
      "length ind' = length ind1"
      "\<forall>i < length ind1. ind' ! i = ind1 ! i + int (\<Sum>n\<leftarrow>ns. count_list (edges n) i)"
    by auto
  with 1 show ?case by auto
qed simp

lemma indeg_all: "(\<Sum>n\<leftarrow>ns. count_list (edges n) i) = indeg ns {..<length ns} i"
  unfolding indeg_def by (simp add: sum_list_sum_nth atLeast0LessThan)

lemma indegree_loop_graph:
  assumes "wf_graph ns"
  shows "\<exists>ind. indegree_loop ns (replicate (length ns) 0) = Inr ind \<and> length ind = length ns
    \<and> (\<forall>i < length ns. ind ! i = int (indeg ns {..<length ns} i))"
  using indegree_loop_ok [of ns "replicate (length ns) 0"] assms
  by (auto simp: wf_graph_def indeg_all)

lemma dec_indegree_ok:
  assumes "\<forall>e\<in>set es. e < length ind" "\<forall>i < length ind. int (count_list es i) \<le> ind ! i"
    and "distinct q" "set es \<inter> set q = {}"
  shows "\<exists>ind' q'. dec_indegree es ind q = Inr (ind', q') \<and> length ind' = length ind
    \<and> (\<forall>i < length ind. ind' ! i = ind ! i - int (count_list es i))
    \<and> distinct q' \<and> set q' = set q \<union> {e \<in> set es. ind' ! e = 0}"
  using assms
proof (induction es arbitrary: ind q)
  case (Cons e es)
  let ?ind = "ind[e := ind ! e - 1]" and ?q = "if ind ! e - 1 = 0 then e # q else q"
  from Cons.prems have e: "e < length ind" and ge: "1 + int (count_list es e) \<le> ind ! e" by auto
  have "e \<notin> set es" if "ind ! e - 1 = 0"
    using that ge by (auto simp: count_list_0_iff [symmetric])
  with Cons.prems have q: "distinct ?q" "set es \<inter> set ?q = {}" by auto
  have "\<forall>i < length ?ind. int (count_list es i) \<le> ?ind ! i"
  proof (intro allI impI)
    fix i
    assume "i < length ?ind"
    then show "int (count_list es i) \<le> ?ind ! i"
      using Cons.prems(2) ge by (cases "e = i") auto
  qed
  with Cons.IH [of ?ind ?q] Cons.prems(1) q obtain ind' q' where
    *: "dec_indegree es ?ind ?q = Inr (ind', q')" "length ind' = length ind"
      "\<forall>i < length ind. ind' ! i = ?ind ! i - int (count_list es i)"
      "distinct q'" "set q' = set ?q \<union> {e \<in> set es. ind' ! e = 0}"
    by auto
  have "ind' ! e = ind ! e - 1 - int (count_list es e)"
    using *(3) e by simp
  then have "(e \<in> set ?q \<or> e \<in> set es \<and> ind' ! e = 0) \<longleftrightarrow> e \<in> set q \<or> ind' ! e = 0"
    using ge Cons.prems(4) by (auto simp: count_list_0_iff)
  then have "set q' = set q \<union> {x \<in> set (e # es). ind' ! x = 0}"
    using *(5) by (auto split: if_splits)
  with * e show ?case
    by (intro exI [of _ ind'] exI [of _ q']) (auto simp: nth_list_update)
qed simp

section \<open>The ordering is a topological one\<close>

text \<open>
  The invariant of the main loop: \<open>ps\<close> are the processed nodes in their order. An in-degree counts the
  edges from the other nodes; the stack holds the nodes whose predecessors are all processed.
\<close>

definition same_graph :: "path_node list \<Rightarrow> path_node list \<Rightarrow> bool" where
  "same_graph ns ns0 \<longleftrightarrow> length ns = length ns0 \<and>
     (\<forall>i < length ns0. pxid (ns ! i) = pxid (ns0 ! i) \<and> edges (ns ! i) = edges (ns0 ! i))"

definition topo_inv ::
  "path_node list \<Rightarrow> path_node list \<Rightarrow> int list \<Rightarrow> nat list \<Rightarrow> nat list \<Rightarrow> bool" where
  "topo_inv ns0 ns ind q ps \<longleftrightarrow>
     same_graph ns ns0 \<and> length ind = length ns0
     \<and> distinct (q @ ps) \<and> set (q @ ps) \<subseteq> {..<length ns0}
     \<and> (\<forall>i < length ns0. ind ! i = int (indeg ns0 ({..<length ns0} - set ps) i))
     \<and> (\<forall>i < length ns0. ind ! i = 0 \<longleftrightarrow> i \<in> set (q @ ps))
     \<and> (\<forall>k < length ps. order (ns ! (ps ! k)) = k)
     \<and> (\<forall>k < length ps. \<forall>u. (u, ps ! k) \<in> edge_rel ns0 \<longrightarrow> u \<in> set (take k ps))"

lemma topo_invD:
  assumes "topo_inv ns0 ns ind q ps"
  shows "same_graph ns ns0" "length ind = length ns0" "distinct (q @ ps)"
    and "set (q @ ps) \<subseteq> {..<length ns0}"
    and "i < length ns0 \<Longrightarrow> ind ! i = int (indeg ns0 ({..<length ns0} - set ps) i)"
    and "i < length ns0 \<Longrightarrow> ind ! i = 0 \<longleftrightarrow> i \<in> set (q @ ps)"
    and "k < length ps \<Longrightarrow> order (ns ! (ps ! k)) = k"
    and "k < length ps \<Longrightarrow> (u, ps ! k) \<in> edge_rel ns0 \<Longrightarrow> u \<in> set (take k ps)"
  using assms unfolding topo_inv_def by blast+

lemma indeg_remove:
  "finite U \<Longrightarrow> v \<in> U \<Longrightarrow> indeg ns U i = indeg ns (U - {v}) i + count_list (edges (ns ! v)) i"
  by (simp add: indeg_def sum.remove)

lemma indeg_zero:
  "finite U \<Longrightarrow> indeg ns U i = 0 \<Longrightarrow> u \<in> U \<Longrightarrow> i \<notin> set (edges (ns ! u))"
  by (auto simp: indeg_def count_list_0_iff)

lemma wf_graph_edges: "wf_graph ns \<Longrightarrow> v < length ns \<Longrightarrow> e \<in> set (edges (ns ! v)) \<Longrightarrow> e < length ns"
  by (auto simp: wf_graph_def)

text \<open>The node on top of the stack: the edges into it come from processed nodes, its edges from it do not
  lead to a node on the stack or to a processed one.\<close>

lemma topo_inv_top:
  assumes "topo_inv ns0 ns ind (v # q) ps"
  shows "v < length ns0" "v \<notin> set ps"
    and "(u, v) \<in> edge_rel ns0 \<Longrightarrow> u \<in> set ps"
    and "i < length ns0 \<Longrightarrow> int (count_list (edges (ns0 ! v)) i) \<le> ind ! i"
    and "i < length ns0 \<Longrightarrow> i \<in> set (edges (ns0 ! v)) \<Longrightarrow> i \<notin> set (v # q @ ps)"
proof -
  show v: "v < length ns0" "v \<notin> set ps"
    using topo_invD(3,4) [OF assms] by auto
  show "(u, v) \<in> edge_rel ns0 \<Longrightarrow> u \<in> set ps"
    using topo_invD(5,6) [OF assms v(1)] indeg_zero [of "{..<length ns0} - set ps" ns0 v u]
    by (auto simp: edge_rel_def)
  show le: "i < length ns0 \<Longrightarrow> int (count_list (edges (ns0 ! v)) i) \<le> ind ! i" for i
    using topo_invD(5) [OF assms, of i] v indeg_remove [of "{..<length ns0} - set ps" v ns0 i]
    by simp
  show "i < length ns0 \<Longrightarrow> i \<in> set (edges (ns0 ! v)) \<Longrightarrow> i \<notin> set (v # q @ ps)"
    using le [of i] topo_invD(6) [OF assms, of i] count_list_0_iff [of "edges (ns0 ! v)" i]
    by (auto simp del: count_list_0_iff)
qed

lemma topo_inv_pop:
  assumes "wf_graph ns0" "topo_inv ns0 ns ind (v # q) ps"
  shows "\<exists>ind' q'. dec_indegree (edges (ns0 ! v)) ind q = Inr (ind', q')
    \<and> length ind' = length ns0
    \<and> (\<forall>i < length ns0. ind' ! i = ind ! i - int (count_list (edges (ns0 ! v)) i))
    \<and> distinct q' \<and> set q' = set q \<union> {e \<in> set (edges (ns0 ! v)). ind' ! e = 0}"
proof -
  note top = topo_inv_top [OF assms(2)] and inv = topo_invD [OF assms(2)]
  have "\<forall>e\<in>set (edges (ns0 ! v)). e < length ind"
    using wf_graph_edges [OF assms(1) top(1)] inv(2) by simp
  moreover have "set (edges (ns0 ! v)) \<inter> set q = {}"
    using top(5) wf_graph_edges [OF assms(1) top(1)] by auto
  moreover have "distinct q" using inv(3) by simp
  ultimately show ?thesis
    using dec_indegree_ok [of "edges (ns0 ! v)" ind q] top(4) inv(2) by simp
qed

lemma same_graph_order_update:
  "same_graph ns ns0 \<Longrightarrow> same_graph (ns[v := (ns ! v)\<lparr>order := k\<rparr>]) ns0"
  by (cases "v < length ns") (auto simp: same_graph_def nth_list_update)

lemma topo_inv_step:
  assumes wf: "wf_graph ns0" and inv: "topo_inv ns0 ns ind (v # q) ps"
    and dec: "dec_indegree (edges (ns0 ! v)) ind q = Inr (ind', q')"
  shows "topo_inv ns0 (ns[v := (ns ! v)\<lparr>order := length ps\<rparr>]) ind' q' (ps @ [v])"
proof -
  note top = topo_inv_top [OF inv] and I = topo_invD [OF inv]
  note le = wf_graph_edges [OF wf top(1)]
  from topo_inv_pop [OF wf inv] dec
  have l': "length ind' = length ns0"
    and i': "\<And>i. i < length ns0 \<Longrightarrow> ind' ! i = ind ! i - int (count_list (edges (ns0 ! v)) i)"
    and q': "distinct q'" "set q' = set q \<union> {e \<in> set (edges (ns0 ! v)). ind' ! e = 0}"
    by auto
  have new: "ind' ! i = int (indeg ns0 ({..<length ns0} - set (ps @ [v])) i)"
    if "i < length ns0" for i
    using that I(5) [OF that] i' [OF that] top(1,2)
      indeg_remove [of "{..<length ns0} - set ps" v ns0 i]
    by (simp add: Diff_insert [symmetric])
  have zero: "ind' ! i = 0 \<longleftrightarrow> i \<in> set (q' @ ps @ [v])" if "i < length ns0" for i
  proof -
    have "ind' ! i = 0 \<Longrightarrow> ind ! i = 0 \<or> i \<in> set (edges (ns0 ! v))"
      using i' [OF that] count_list_0_iff [of "edges (ns0 ! v)" i] by auto
    moreover have "ind ! i = 0 \<Longrightarrow> ind' ! i = 0"
      using i' [OF that] top(4) [OF that] new [OF that] by simp
    ultimately show ?thesis using q'(2) I(6) [OF that] by auto
  qed
  have q_ps: "distinct (q' @ ps @ [v])"
    using q' I(3) top(5) le by auto
  have range: "set (q' @ ps @ [v]) \<subseteq> {..<length ns0}"
    using q'(2) I(4) le by auto
  have ord: "\<forall>k < length (ps @ [v]).
      order (ns[v := (ns ! v)\<lparr>order := length ps\<rparr>] ! ((ps @ [v]) ! k)) = k"
    using I(1,7) top(1,2) by (auto simp: same_graph_def nth_append less_Suc_eq nth_list_update)
  have "\<forall>k < length (ps @ [v]). \<forall>u. (u, (ps @ [v]) ! k) \<in> edge_rel ns0 \<longrightarrow>
      u \<in> set (take k (ps @ [v]))"
    using I(8) top(3) by (auto simp: nth_append less_Suc_eq)
  moreover have "\<forall>i < length ns0. ind' ! i = int (indeg ns0 ({..<length ns0} - set (ps @ [v])) i)"
    "\<forall>i < length ns0. ind' ! i = 0 \<longleftrightarrow> i \<in> set (q' @ ps @ [v])"
    using new zero by blast+
  ultimately show ?thesis
    unfolding topo_inv_def using q_ps range ord l' same_graph_order_update [OF I(1)]
    by (intro conjI)
qed

lemma topo_loop_inv:
  assumes "wf_graph ns0" "topo_inv ns0 ns ind q ps"
  shows "\<exists>ns' ind' ps'. topo_loop ns ind q (length ps) (length ps) = Inr (ns', length ps')
    \<and> topo_inv ns0 ns' ind' [] ps'"
  using assms(2)
proof (induction "length q + pending ind" arbitrary: ns ind q ps rule: less_induct)
  case less
  show ?case
  proof (cases q)
    case Nil
    with less.prems show ?thesis by auto
  next
    case (Cons v r)
    note inv = less.prems [unfolded Cons]
    from topo_inv_pop [OF assms(1) inv] obtain ind' q' where
      dec: "dec_indegree (edges (ns0 ! v)) ind r = Inr (ind', q')" by auto
    have v: "v < length ns0" by (rule topo_inv_top(1) [OF inv])
    with topo_invD(1) [OF inv] have n: "v < length ns" "edges (ns ! v) = edges (ns0 ! v)"
      by (auto simp: same_graph_def)
    have "length q' + pending ind' < length q + pending ind"
      using dec_indegree_pending [OF dec] Cons by simp
    from less.hyps [OF this topo_inv_step [OF assms(1) inv dec]] Cons n dec
    show ?thesis by simp
  qed
qed

text \<open>
  What the ordering promises to its callers: the graph is unchanged and the result is true exactly for
  an acyclic graph; then the orders are a topological numbering from 0.
\<close>

definition topo_numbering :: "path_node list \<Rightarrow> bool" where
  "topo_numbering ns \<longleftrightarrow>
     bij_betw (\<lambda>i. order (ns ! i)) {..<length ns} {..<length ns}
     \<and> (\<forall>(u, v)\<in>edge_rel ns. order (ns ! u) < order (ns ! v))"

lemma same_graph_edge_rel: "same_graph ns ns0 \<Longrightarrow> edge_rel ns = edge_rel ns0"
  by (auto simp: same_graph_def edge_rel_def)

lemma finite_edge_rel: "wf_graph ns \<Longrightarrow> finite (edge_rel ns)"
  by (rule finite_subset [of _ "{..<length ns} \<times> {..<length ns}"])
    (auto simp: edge_rel_def wf_graph_def)

lemma topo_inv_start:
  assumes "length ind = length ns"
    and "\<forall>i < length ns. ind ! i = int (indeg ns {..<length ns} i)"
  shows "topo_inv ns ns ind (rev (filter (\<lambda>i. ind ! i = 0) [0..<length ns])) []"
  using assms by (auto simp: topo_inv_def same_graph_def)

lemma topo_inv_all_processed:
  assumes wf: "wf_graph ns0" and inv: "topo_inv ns0 ns ind [] ps" and all: "length ps = length ns0"
  shows "topo_numbering ns"
proof -
  note I = topo_invD [OF inv]
  have ps: "set ps = {..<length ns0}"
    using I(3,4) all by (intro card_subset_eq) (auto simp: distinct_card)
  have ord: "\<And>k. k < length ns0 \<Longrightarrow> order (ns ! (ps ! k)) = k" using I(7) all by simp
  have idx: "\<exists>k < length ns0. i = ps ! k" if "i < length ns0" for i
    using that ps all by (metis in_set_conv_nth lessThan_iff)
  have l: "length ns = length ns0" using I(1) by (simp add: same_graph_def)
  have "bij_betw (\<lambda>i. order (ns ! i)) {..<length ns0} {..<length ns0}"
  proof (rule bij_betwI' [where X = "{..<length ns0}" and Y = "{..<length ns0}"])
    fix x y
    assume "x \<in> {..<length ns0}" "y \<in> {..<length ns0}"
    then show "order (ns ! x) = order (ns ! y) \<longleftrightarrow> x = y"
      using idx ord by (metis lessThan_iff)
  next
    fix x
    assume "x \<in> {..<length ns0}"
    then show "order (ns ! x) \<in> {..<length ns0}" using idx ord by (metis lessThan_iff)
  next
    fix y
    assume "y \<in> {..<length ns0}"
    then show "\<exists>x\<in>{..<length ns0}. y = order (ns ! x)"
      using ord ps all by (metis lessThan_iff nth_mem)
  qed
  moreover have "order (ns ! u) < order (ns ! v)" if "(u, v) \<in> edge_rel ns" for u v
  proof -
    have uv: "(u, v) \<in> edge_rel ns0" using that same_graph_edge_rel [OF I(1)] by simp
    then have "v < length ns0" using wf_graph_edges [OF wf] by (auto simp: edge_rel_def)
    then obtain k where k: "k < length ns0" "v = ps ! k" using idx by blast
    then have "u \<in> set (take k ps)" using I(8) uv all by simp
    then obtain j where "j < k" "u = ps ! j" by (auto simp: in_set_conv_nth)
    with k ord show ?thesis by simp
  qed
  ultimately show ?thesis using l by (auto simp: topo_numbering_def)
qed

lemma topo_inv_stuck:
  assumes "wf_graph ns0" "topo_inv ns0 ns ind [] ps" "acyclic (edge_rel ns0)"
  shows "length ps = length ns0"
proof (rule ccontr)
  note I = topo_invD [OF assms(2)]
  assume "length ps \<noteq> length ns0"
  moreover have "distinct ps" using I(3) by simp
  ultimately have "set ps \<noteq> {..<length ns0}" by (metis card_lessThan distinct_card)
  then obtain i where i: "i \<in> {..<length ns0} - set ps" using I(4) by auto
  have wf: "wf (edge_rel ns0)"
    using finite_edge_rel [OF assms(1)] assms(3) by (rule finite_acyclic_wf)
  obtain z where z: "z \<in> {..<length ns0} - set ps"
    and min: "\<And>y. (y, z) \<in> edge_rel ns0 \<Longrightarrow> y \<notin> {..<length ns0} - set ps"
    by (rule wfE_min [OF wf i]) blast
  have "indeg ns0 ({..<length ns0} - set ps) z \<noteq> 0"
    using z I(5,6) [of z] by auto
  then obtain u where "u \<in> {..<length ns0} - set ps" "count_list (edges (ns0 ! u)) z \<noteq> 0"
    unfolding indeg_def by (meson sum.not_neutral_contains_not_neutral)
  with min [of u] show False by (auto simp: edge_rel_def count_list_0_iff)
qed

lemma topo_numbering_acyclic: "topo_numbering ns \<Longrightarrow> acyclic (edge_rel ns)"
proof -
  assume "topo_numbering ns"
  then have "edge_rel ns \<subseteq> measure (\<lambda>i. order (ns ! i))"
    by (auto simp: topo_numbering_def)
  then have "wf (edge_rel ns)" by (rule wf_subset [OF wf_measure])
  then show ?thesis by (rule wf_acyclic)
qed

lemma topological_ordering_spec:
  assumes "wf_graph (nodes p)"
  shows "\<exists>ns. topological_ordering p = Inr (acyclic (edge_rel (nodes p)), p\<lparr>nodes := ns\<rparr>)
    \<and> same_graph ns (nodes p) \<and> (acyclic (edge_rel (nodes p)) \<longrightarrow> topo_numbering ns)"
proof -
  let ?ns = "nodes p"
  obtain ind where ind: "indegree_loop ?ns (replicate (length ?ns) 0) = Inr ind"
      "length ind = length ?ns" "\<forall>i < length ?ns. ind ! i = int (indeg ?ns {..<length ?ns} i)"
    using indegree_loop_graph [OF assms] by blast
  obtain ns' ind' ps where run:
      "topo_loop ?ns ind (rev (filter (\<lambda>i. ind ! i = 0) [0..<length ?ns])) 0 0 = Inr (ns', length ps)"
      and inv: "topo_inv ?ns ns' ind' [] ps"
    using topo_loop_inv [OF assms topo_inv_start [OF ind(2,3)]] by auto
  have same: "same_graph ns' ?ns" by (rule topo_invD(1) [OF inv])
  have num: "length ps = length ?ns \<Longrightarrow> topo_numbering ns'"
    by (rule topo_inv_all_processed [OF assms inv])
  moreover have "length ps = length ?ns \<longleftrightarrow> acyclic (edge_rel ?ns)"
    using topo_inv_stuck [OF assms inv] num topo_numbering_acyclic same_graph_edge_rel [OF same]
    by metis
  ultimately show ?thesis
    using ind(1) run same by (auto simp: topological_ordering_def)
qed

lemma indegree_loop_fault:
  "\<not> (\<forall>n\<in>set ns. \<forall>e\<in>set (edges n). e < length ind) \<Longrightarrow>
    indegree_loop ns ind = Inl Out_of_range"
proof (induction ns arbitrary: ind)
  case (Cons n ns)
  show ?case
  proof (cases "\<forall>e\<in>set (edges n). e < length ind")
    case True
    then obtain ind' where "inc_indegree (edges n) ind = Inr ind'" "length ind' = length ind"
      using inc_indegree_ok by blast
    with Cons True show ?thesis by simp
  next
    case False
    then show ?thesis using inc_indegree_fault [OF False] by simp
  qed
qed simp

lemma topological_ordering_fault:
  "\<not> wf_graph (nodes p) \<Longrightarrow> topological_ordering p = Inl Out_of_range"
  using indegree_loop_fault [of "nodes p" "replicate (length (nodes p)) 0"]
  by (simp add: topological_ordering_def wf_graph_def)

text \<open>
  C14. \<^verbatim>\<open>XIAPath::topological_ordering\<close> returns true exactly when the graph has no cycle, and only the
  orders of the nodes change. Then the orders are the numbers below the node count, each once, and
  every edge leads to a higher order.
\<close>

theorem topological_ordering_correct:
  assumes "wf_graph (nodes p)"
  shows "\<exists>ns. topological_ordering p = Inr (acyclic (edge_rel (nodes p)), p\<lparr>nodes := ns\<rparr>)
    \<and> same_graph ns (nodes p)
    \<and> (acyclic (edge_rel (nodes p)) \<longrightarrow>
        bij_betw (\<lambda>i. order (ns ! i)) {..<length ns} {..<length ns}
        \<and> (\<forall>u < length ns. \<forall>v\<in>set (edges (ns ! u)). order (ns ! u) < order (ns ! v)))"
  using topological_ordering_spec [OF assms]
  by (auto simp: topo_numbering_def edge_rel_def)

text \<open>A diamond: the source 3 reaches the destination 2 through 0 and 1.\<close>

definition diamond :: XIAPath where
  "diamond = \<lparr>nodes = map (\<lambda>es. \<lparr>pxid = XID_default, edges = es, order = 0\<rparr>)
     [[2], [0, 2], [], [0, 1]], src = 3, dst = 2\<rparr>"

lemma wf_diamond: "wf_graph (nodes diamond)"
  by (simp add: wf_graph_def diamond_def)

theorem topological_ordering_correct_witness:
  "wf_graph (nodes diamond) \<and>
    (\<exists>ns. topological_ordering diamond =
        Inr (acyclic (edge_rel (nodes diamond)), diamond\<lparr>nodes := ns\<rparr>)
      \<and> same_graph ns (nodes diamond))"
  using wf_diamond topological_ordering_correct [OF wf_diamond] by blast

text \<open>
  A path with an edge to a handle that is no node makes the ordering write outside the array of
  in-degrees, whatever the rest of the path is.
\<close>

theorem topological_ordering_out_of_range:
  assumes "i < length (nodes p)" "e \<in> set (edges (nodes p ! i))" "length (nodes p) \<le> e"
  shows "topological_ordering p = Inl Out_of_range"
proof -
  have "\<not> wf_graph (nodes p)"
    unfolding wf_graph_def using assms nth_mem [OF assms(1)] by (metis linorder_not_le)
  then show ?thesis by (rule topological_ordering_fault)
qed

theorem topological_ordering_out_of_range_witness:
  "topological_ordering (diamond\<lparr>nodes := [Node_default\<lparr>edges := [9]\<rparr>]\<rparr>) = Inl Out_of_range"
  by (rule topological_ordering_out_of_range [of 0 _ 9]) simp_all

section \<open>What an ordering gives its callers\<close>

text \<open>
  The contract of the ordering, and what follows from it for a graph with one source and one sink: the
  source comes first, the sink last, and every node lies between them.
\<close>

locale topological_sort =
  fixes sort_g :: "'g \<Rightarrow> (bool \<times> 'g) run"
    and ok :: "'g \<Rightarrow> bool"
    and rel :: "'g \<Rightarrow> (nat \<times> nat) set"
    and num :: "'g \<Rightarrow> nat"
    and ord :: "'g \<Rightarrow> nat \<Rightarrow> nat"
  assumes sort_result: "ok g \<Longrightarrow> \<exists>g'. sort_g g = Inr (acyclic (rel g), g')"
    and sort_keeps: "ok g \<Longrightarrow> sort_g g = Inr (b, g') \<Longrightarrow> ok g' \<and> rel g' = rel g \<and> num g' = num g"
    and sort_bij: "ok g \<Longrightarrow> sort_g g = Inr (True, g') \<Longrightarrow> bij_betw (ord g') {..<num g} {..<num g}"
    and sort_edge: "ok g \<Longrightarrow> sort_g g = Inr (True, g') \<Longrightarrow> (u, v) \<in> rel g \<Longrightarrow> ord g' u < ord g' v"
    and rel_range: "ok g \<Longrightarrow> (u, v) \<in> rel g \<Longrightarrow> u < num g \<and> v < num g"
begin

lemma ord_less: "ok g \<Longrightarrow> sort_g g = Inr (True, g') \<Longrightarrow> i < num g \<Longrightarrow> ord g' i < num g"
  using sort_bij by (fastforce simp: bij_betw_def)

lemma ord_surj:
  "ok g \<Longrightarrow> sort_g g = Inr (True, g') \<Longrightarrow> k < num g \<Longrightarrow> \<exists>i < num g. ord g' i = k"
  using sort_bij [of g g'] by (metis bij_betw_def imageE lessThan_iff)

lemma ord_inject:
  "ok g \<Longrightarrow> sort_g g = Inr (True, g') \<Longrightarrow> i < num g \<Longrightarrow> j < num g \<Longrightarrow> ord g' i = ord g' j \<longleftrightarrow> i = j"
  using sort_bij [of g g'] by (metis bij_betw_def inj_on_eq_iff lessThan_iff)

lemma source_first:
  assumes "ok g" "sort_g g = Inr (True, g')" "s < num g"
    and only: "\<And>v. v < num g \<Longrightarrow> v \<noteq> s \<Longrightarrow> \<exists>u. (u, v) \<in> rel g"
  shows "ord g' s = 0"
proof -
  obtain i where i: "i < num g" "ord g' i = 0"
    using ord_surj [OF assms(1,2), of 0] assms(3) by auto
  have "i = s"
  proof (rule ccontr)
    assume "i \<noteq> s"
    then obtain u where "(u, i) \<in> rel g" using only i(1) by blast
    then show False using sort_edge [OF assms(1,2)] i(2) by fastforce
  qed
  with i show ?thesis by simp
qed

lemma sink_last:
  assumes "ok g" "sort_g g = Inr (True, g')" "d < num g"
    and only: "\<And>v. v < num g \<Longrightarrow> v \<noteq> d \<Longrightarrow> \<exists>w. (v, w) \<in> rel g"
  shows "ord g' d = num g - 1"
proof -
  obtain i where i: "i < num g" "ord g' i = num g - 1"
    using ord_surj [OF assms(1,2), of "num g - 1"] assms(3) by auto
  have "i = d"
  proof (rule ccontr)
    assume "i \<noteq> d"
    then obtain w where w: "(i, w) \<in> rel g" using only i(1) by blast
    then have "ord g' w < num g" using ord_less [OF assms(1,2)] rel_range [OF assms(1)] by blast
    with sort_edge [OF assms(1,2) w] i(2) show False by simp
  qed
  with i show ?thesis by simp
qed

lemma reached_from_source:
  assumes "ok g" "sort_g g = Inr (True, g')"
    and only: "\<And>v. v < num g \<Longrightarrow> v \<noteq> s \<Longrightarrow> \<exists>u. (u, v) \<in> rel g"
  shows "v < num g \<Longrightarrow> (s, v) \<in> (rel g)\<^sup>*"
proof (induction "ord g' v" arbitrary: v rule: less_induct)
  case less
  show ?case
  proof (cases "v = s")
    case False
    with only less.prems obtain u where u: "(u, v) \<in> rel g" by blast
    have "(s, u) \<in> (rel g)\<^sup>*"
      using less.hyps [of u] sort_edge [OF assms(1,2) u] rel_range [OF assms(1) u] by blast
    from this u show ?thesis by (rule rtrancl_into_rtrancl)
  qed simp
qed

lemma reaches_sink:
  assumes "ok g" "sort_g g = Inr (True, g')"
    and only: "\<And>v. v < num g \<Longrightarrow> v \<noteq> d \<Longrightarrow> \<exists>w. (v, w) \<in> rel g"
  shows "v < num g \<Longrightarrow> (v, d) \<in> (rel g)\<^sup>*"
proof (induction "num g - ord g' v" arbitrary: v rule: less_induct)
  case less
  show ?case
  proof (cases "v = d")
    case False
    with only less.prems obtain w where w: "(v, w) \<in> rel g" by blast
    note w' = sort_edge [OF assms(1,2) w] rel_range [OF assms(1) w]
    have "(w, d) \<in> (rel g)\<^sup>*"
      using w' ord_less [OF assms(1,2), of w] by (intro less.hyps) auto
    with w show ?thesis by (rule converse_rtrancl_into_rtrancl)
  qed simp
qed

end

lemma same_graph_wf: "same_graph ns ns0 \<Longrightarrow> wf_graph ns0 \<Longrightarrow> wf_graph ns"
  by (simp add: same_graph_def wf_graph_def all_set_conv_all_nth)

interpretation path_sort: topological_sort topological_ordering "\<lambda>p. wf_graph (nodes p)"
  "\<lambda>p. edge_rel (nodes p)" "\<lambda>p. length (nodes p)" "\<lambda>p i. order (nodes p ! i)"
proof
  fix p p' :: XIAPath and b :: bool
  assume wf: "wf_graph (nodes p)"
  note spec = topological_ordering_spec [OF this]
  show "\<exists>p'. topological_ordering p = Inr (acyclic (edge_rel (nodes p)), p')"
    using spec by blast
  show "topological_ordering p = Inr (b, p') \<Longrightarrow> wf_graph (nodes p')
      \<and> edge_rel (nodes p') = edge_rel (nodes p) \<and> length (nodes p') = length (nodes p)"
    using spec wf same_graph_wf same_graph_edge_rel by (auto simp: same_graph_def)
  show "(u, v) \<in> edge_rel (nodes p) \<Longrightarrow> u < length (nodes p) \<and> v < length (nodes p)" for u v
    using wf_graph_edges [OF wf] by (auto simp: edge_rel_def)
  assume "topological_ordering p = Inr (True, p')"
  with spec have t: "topo_numbering (nodes p')" "same_graph (nodes p') (nodes p)" by auto
  then show "bij_betw (\<lambda>i. order (nodes p' ! i)) {..<length (nodes p)} {..<length (nodes p)}"
    by (auto simp: topo_numbering_def same_graph_def)
  show "(u, v) \<in> edge_rel (nodes p) \<Longrightarrow> order (nodes p' ! u) < order (nodes p' ! v)" for u v
    using t same_graph_edge_rel by (auto simp: topo_numbering_def)
qed

end
