(* ===== verification/Xia_Path_Valid.thy ===== *)
theory Xia_Path_Valid
  imports Xia_Path
begin

text \<open>
  What a valid path is (\<^verbatim>\<open>XIAPath::is_valid\<close>) and what the editing operations of \<^verbatim>\<open>lib/xiapath.cc\<close> keep:
  a handle stays the handle of a node.
\<close>

section \<open>The validity check\<close>

text \<open>The conditions tested before the ordering.\<close>

definition valid_shape :: "XIAPath \<Rightarrow> bool" where
  "valid_shape p \<longleftrightarrow>
     (let n = length (nodes p) in
      src p < n \<and> dst p < n \<and> src p \<noteq> dst p
      \<and> (\<forall>i < n. edges (nodes p ! i) = [] \<longrightarrow> i = dst p)
      \<and> (\<forall>i < n. length (edges (nodes p ! i)) \<le> 4)
      \<and> (\<forall>i < n. i \<noteq> src p \<longrightarrow> (\<exists>u. (u, i) \<in> edge_rel (nodes p))))"

lemma valid_loop_ok:
  assumes "\<forall>n\<in>set ns. \<forall>e\<in>set (edges n). e < length ind"
  shows "\<exists>ind'. length ind' = length ind
    \<and> (\<forall>j < length ind. ind' ! j = ind ! j + int (\<Sum>n\<leftarrow>ns. count_list (edges n) j))
    \<and> valid_loop d i ns ind =
        Inr (if \<forall>k < length ns. (edges (ns ! k) = [] \<longrightarrow> i + k = d) \<and> length (edges (ns ! k)) \<le> 4
             then Some ind' else None)"
  using assms
proof (induction ns arbitrary: i ind)
  case (Cons n ns)
  obtain ind1 where 1: "inc_indegree (edges n) ind = Inr ind1" "length ind1 = length ind"
      "\<forall>j < length ind. ind1 ! j = ind ! j + int (count_list (edges n) j)"
    using inc_indegree_ok [of "edges n" ind] Cons.prems by auto
  with Cons.prems Cons.IH [of ind1 "i + 1"] obtain ind' where 2: "length ind' = length ind"
      "\<forall>j < length ind. ind' ! j = ind1 ! j + int (\<Sum>n\<leftarrow>ns. count_list (edges n) j)"
      "valid_loop d (i + 1) ns ind1 =
        Inr (if \<forall>k < length ns. (edges (ns ! k) = [] \<longrightarrow> i + 1 + k = d) \<and> length (edges (ns ! k)) \<le> 4
             then Some ind' else None)"
    by auto
  have split: "(\<forall>k < length (n # ns). (edges ((n # ns) ! k) = [] \<longrightarrow> i + k = d)
        \<and> length (edges ((n # ns) ! k)) \<le> 4) \<longleftrightarrow>
      (edges n = [] \<longrightarrow> i = d) \<and> length (edges n) \<le> 4
      \<and> (\<forall>k < length ns. (edges (ns ! k) = [] \<longrightarrow> i + 1 + k = d) \<and> length (edges (ns ! k)) \<le> 4)"
    by (auto simp: All_less_Suc2)
  show ?case
    using 1 2 unfolding split
    by (intro exI [of _ ind']) (auto simp: CLICK_XIA_XID_EDGE_NUM_def)
qed simp

lemma indeg_pos_iff:
  "indeg ns {..<length ns} i \<noteq> 0 \<longleftrightarrow> (\<exists>u. (u, i) \<in> edge_rel ns)"
  by (auto simp: indeg_def edge_rel_def count_list_0_iff)

lemma is_valid_shape:
  assumes "wf_graph (nodes p)"
  shows "is_valid p = (if valid_shape p then topological_ordering p else Inr (False, p))"
proof -
  let ?ns = "nodes p"
  obtain ind where ind: "length ind = length ?ns"
      "\<forall>j < length ?ns. ind ! j = int (indeg ?ns {..<length ?ns} j)"
    and run: "valid_loop (dst p) 0 ?ns (replicate (length ?ns) 0) =
        Inr (if \<forall>k < length ?ns. (edges (?ns ! k) = [] \<longrightarrow> k = dst p) \<and> length (edges (?ns ! k)) \<le> 4
             then Some ind else None)"
    using valid_loop_ok [of ?ns "replicate (length ?ns) 0" "dst p" 0] assms
    by (auto simp: wf_graph_def indeg_all)
  have zero: "ind ! i = 0 \<longleftrightarrow> (\<nexists>u. (u, i) \<in> edge_rel ?ns)" if "i < length ?ns" for i
    using that ind(2) indeg_pos_iff [of ?ns i] by (metis of_nat_eq_0_iff)
  show ?thesis
    unfolding is_valid_def Let_def run valid_shape_def by (auto simp: zero)
qed

lemma is_valid_fault_or_wf: "is_valid p = Inr (True, p') \<Longrightarrow> wf_graph (nodes p)"
  using topological_ordering_fault [of p]
  by (cases "wf_graph (nodes p)")
    (auto simp: is_valid_def Let_def split: if_splits option.splits)

lemma is_valid_true:
  assumes "is_valid p = Inr (True, p')"
  shows "wf_graph (nodes p)" "valid_shape p" "topological_ordering p = Inr (True, p')"
  using is_valid_fault_or_wf [OF assms] is_valid_shape [of p] assms by (auto split: if_splits)

text \<open>
  C18. On a path whose edges lead to nodes, \<^verbatim>\<open>is_valid\<close> answers exactly whether the source and the
  destination are two nodes of it, only the destination may lack outgoing edges, no node has more
  than four, only the source may lack incoming edges, and there is no cycle.
\<close>

theorem is_valid_correct:
  assumes "wf_graph (nodes p)"
  shows "\<exists>p'. is_valid p =
    Inr (src p < length (nodes p) \<and> dst p < length (nodes p) \<and> src p \<noteq> dst p
      \<and> (\<forall>i < length (nodes p). edges (nodes p ! i) = [] \<longrightarrow> i = dst p)
      \<and> (\<forall>i < length (nodes p). length (edges (nodes p ! i)) \<le> 4)
      \<and> (\<forall>i < length (nodes p). i \<noteq> src p \<longrightarrow> (\<exists>u. (u, i) \<in> edge_rel (nodes p)))
      \<and> acyclic (edge_rel (nodes p)), p')
    \<and> same_graph (nodes p') (nodes p) \<and> src p' = src p \<and> dst p' = dst p"
proof (cases "valid_shape p")
  case True
  obtain ns where "topological_ordering p = Inr (acyclic (edge_rel (nodes p)), p\<lparr>nodes := ns\<rparr>)"
      "same_graph ns (nodes p)"
    using topological_ordering_spec [OF assms] by blast
  with True show ?thesis
    by (simp add: is_valid_shape [OF assms]) (simp add: valid_shape_def Let_def)
next
  case False
  then have "is_valid p = Inr (False, p)" by (simp add: is_valid_shape [OF assms])
  with False show ?thesis
    by (auto simp: valid_shape_def Let_def same_graph_def)
qed

theorem is_valid_correct_witness:
  "wf_graph (nodes diamond) \<and> (\<exists>b p'. is_valid diamond = Inr (b, p') \<and> dst p' = 2)"
  using wf_diamond is_valid_correct [OF wf_diamond] by (auto simp: diamond_def)

lemma valid_only_source:
  "valid_shape p \<Longrightarrow> v < length (nodes p) \<Longrightarrow> v \<noteq> src p \<Longrightarrow> \<exists>u. (u, v) \<in> edge_rel (nodes p)"
  by (simp add: valid_shape_def Let_def)

lemma valid_only_sink:
  assumes "valid_shape p" "v < length (nodes p)" "v \<noteq> dst p"
  shows "\<exists>w. (v, w) \<in> edge_rel (nodes p)"
proof -
  have "edges (nodes p ! v) \<noteq> []" using assms by (auto simp: valid_shape_def Let_def)
  then have "(v, hd (edges (nodes p ! v))) \<in> edge_rel (nodes p)"
    using assms(2) by (simp add: edge_rel_def)
  then show ?thesis by blast
qed

lemma valid_ends:
  assumes "is_valid p = Inr (True, p')"
  shows "src p < length (nodes p)" "dst p < length (nodes p)" "src p \<noteq> dst p"
    and "order (nodes p' ! src p) = 0" "order (nodes p' ! dst p) = length (nodes p) - 1"
    and "edges (nodes p ! dst p) = []" "(u, src p) \<notin> edge_rel (nodes p)"
proof -
  note v = is_valid_true [OF assms]
  show s: "src p < length (nodes p)" and d: "dst p < length (nodes p)" and "src p \<noteq> dst p"
    using v(2) by (simp_all add: valid_shape_def Let_def)
  show s0: "order (nodes p' ! src p) = 0"
    using path_sort.source_first [OF v(1,3) s] valid_only_source [OF v(2)] by blast
  show dn: "order (nodes p' ! dst p) = length (nodes p) - 1"
    using path_sort.sink_last [OF v(1,3) d] valid_only_sink [OF v(2)] by blast
  show "(u, src p) \<notin> edge_rel (nodes p)"
    using path_sort.sort_edge [OF v(1,3), of u "src p"] s0 by auto
  show "edges (nodes p ! dst p) = []"
  proof (rule ccontr)
    assume "edges (nodes p ! dst p) \<noteq> []"
    then have e: "(dst p, hd (edges (nodes p ! dst p))) \<in> edge_rel (nodes p)"
      using d by (simp add: edge_rel_def)
    show False
      using path_sort.sort_edge [OF v(1,3) e] path_sort.rel_range [OF v(1) e]
        path_sort.ord_less [OF v(1,3), of "hd (edges (nodes p ! dst p))"] dn by simp
  qed
qed

text \<open>
  In a valid path the source is the only node without a predecessor and gets order 0, the
  destination is the only node without a successor and gets the last order, and every node lies on a
  walk from the source to the destination: forwarding along the edges cannot get stuck elsewhere.
\<close>

theorem valid_path_connected:
  assumes "is_valid p = Inr (True, p')"
  shows "order (nodes p' ! src p) = 0 \<and> order (nodes p' ! dst p) = length (nodes p) - 1
    \<and> (\<forall>v < length (nodes p).
        (edges (nodes p ! v) = [] \<longleftrightarrow> v = dst p)
        \<and> ((\<nexists>u. (u, v) \<in> edge_rel (nodes p)) \<longleftrightarrow> v = src p)
        \<and> (src p, v) \<in> (edge_rel (nodes p))\<^sup>* \<and> (v, dst p) \<in> (edge_rel (nodes p))\<^sup>*)"
proof (intro conjI allI impI)
  note v = is_valid_true [OF assms] and ends = valid_ends [OF assms]
  show "order (nodes p' ! src p) = 0" "order (nodes p' ! dst p) = length (nodes p) - 1"
    by (rule ends)+
  fix w
  assume w: "w < length (nodes p)"
  show "edges (nodes p ! w) = [] \<longleftrightarrow> w = dst p"
    using ends(6) v(2) w by (auto simp: valid_shape_def Let_def)
  show "(\<nexists>u. (u, w) \<in> edge_rel (nodes p)) \<longleftrightarrow> w = src p"
    using ends(7) valid_only_source [OF v(2) w] by auto
  show "(src p, w) \<in> (edge_rel (nodes p))\<^sup>*"
    using path_sort.reached_from_source [OF v(1,3) valid_only_source [OF v(2)]] w by blast
  show "(w, dst p) \<in> (edge_rel (nodes p))\<^sup>*"
    using path_sort.reaches_sink [OF v(1,3) valid_only_sink [OF v(2)]] w by blast
qed

lemma diamond_valid: "\<exists>p'. is_valid diamond = Inr (True, p')"
proof -
  have "map_sum id fst (is_valid diamond) = Inr True" by code_simp
  then show ?thesis by (cases "is_valid diamond") auto
qed

theorem valid_path_connected_witness:
  "\<exists>p'. is_valid diamond = Inr (True, p') \<and> order (nodes p' ! 3) = 0
    \<and> (3, 2) \<in> (edge_rel (nodes diamond))\<^sup>*"
proof -
  obtain p' where p': "is_valid diamond = Inr (True, p')" using diamond_valid by blast
  from valid_path_connected [OF p'] p' show ?thesis
    by (intro exI [of _ p']) (auto simp: diamond_def)
qed

lemma is_valid_iff:
  assumes "wf_graph (nodes p)"
  shows "(\<exists>p'. is_valid p = Inr (True, p')) \<longleftrightarrow> valid_shape p \<and> acyclic (edge_rel (nodes p))"
  using is_valid_shape [OF assms] topological_ordering_spec [OF assms] by auto

text \<open>Checking again what a check has numbered gives the same answer.\<close>

lemma is_valid_again:
  assumes "is_valid p = Inr (True, p')"
  shows "same_graph (nodes p') (nodes p)" "src p' = src p" "dst p' = dst p"
    and "\<exists>p2. is_valid p' = Inr (True, p2)"
proof -
  note t = is_valid_true [OF assms]
  show same: "same_graph (nodes p') (nodes p)" and e: "src p' = src p" "dst p' = dst p"
    using topological_ordering_spec [OF t(1)] t(3) by auto
  have wf: "wf_graph (nodes p')" by (rule same_graph_wf [OF same t(1)])
  have "valid_shape p'"
    using t(2) same e same_graph_edge_rel [OF same]
    by (simp add: valid_shape_def Let_def same_graph_def)
  moreover have "acyclic (edge_rel (nodes p'))"
    using is_valid_iff [OF t(1)] assms same_graph_edge_rel [OF same] by auto
  ultimately show "\<exists>p2. is_valid p' = Inr (True, p2)"
    using is_valid_iff [OF wf] by blast
qed

section \<open>Editing\<close>

text \<open>Removing a node renames the handles above it.\<close>

definition rename_handle :: "nat \<Rightarrow> nat \<Rightarrow> nat" where
  "rename_handle k h = (if k < h then h - 1 else h)"

lemma drop_handle_eq: "drop_handle k es = map (rename_handle k) (filter (\<lambda>e. e \<noteq> k) es)"
  by (induction es) (auto simp: rename_handle_def)

lemma nth_remove:
  "k < length xs \<Longrightarrow> i < length xs - 1 \<Longrightarrow>
    (take k xs @ drop (Suc k) xs) ! i = xs ! (if i < k then i else Suc i)"
  by (auto simp: nth_append)

lemma rename_handle_skip: "rename_handle k (if i < k then i else Suc i) = i"
  by (simp add: rename_handle_def)

lemma skip_rename_handle: "u \<noteq> k \<Longrightarrow> (if rename_handle k u < k then rename_handle k u
    else Suc (rename_handle k u)) = u"
  by (auto simp: rename_handle_def)

lemma remove_node_nth:
  assumes "remove_node k p = Inr p'" "i < length (nodes p')"
  shows "length (nodes p') = length (nodes p) - 1" "k < length (nodes p)"
    and "nodes p' ! i = (let n = nodes p ! (if i < k then i else Suc i)
      in n\<lparr>edges := map (rename_handle k) (filter (\<lambda>e. e \<noteq> k) (edges n))\<rparr>)"
proof -
  from assms(1) show k: "k < length (nodes p)" by (auto simp: remove_node_def split: if_splits)
  with assms(1) have ns: "nodes p' = map (\<lambda>n. n\<lparr>edges := drop_handle k (edges n)\<rparr>)
      (take k (nodes p) @ drop (Suc k) (nodes p))"
    by (auto simp: remove_node_def)
  with k show l: "length (nodes p') = length (nodes p) - 1" by auto
  show "nodes p' ! i = (let n = nodes p ! (if i < k then i else Suc i)
      in n\<lparr>edges := map (rename_handle k) (filter (\<lambda>e. e \<noteq> k) (edges n))\<rparr>)"
    using assms(2) l k nth_remove [OF k, of i] unfolding ns
    by (simp add: drop_handle_eq Let_def del: map_append)
qed

text \<open>
  After \<^verbatim>\<open>remove_node\<close> the graph is the one without the node: its edges are the old edges between
  other nodes, renamed, in the same priority order, and the other nodes keep their XIDs.
\<close>

theorem remove_node_graph:
  assumes "remove_node k p = Inr p'" "u < length (nodes p)" "u \<noteq> k"
  shows "pxid (nodes p' ! rename_handle k u) = pxid (nodes p ! u)
    \<and> edges (nodes p' ! rename_handle k u) =
        map (rename_handle k) (filter (\<lambda>e. e \<noteq> k) (edges (nodes p ! u)))
    \<and> (wf_graph (nodes p) \<longrightarrow> wf_graph (nodes p'))"
proof -
  have k: "k < length (nodes p)" and ns: "nodes p' = map (\<lambda>n. n\<lparr>edges := drop_handle k (edges n)\<rparr>)
      (take k (nodes p) @ drop (Suc k) (nodes p))"
    using assms(1) by (auto simp: remove_node_def split: if_splits)
  have r: "rename_handle k u < length (nodes p')"
    using assms(2,3) k by (auto simp: ns rename_handle_def)
  have "edges (nodes p' ! rename_handle k u) =
      map (rename_handle k) (filter (\<lambda>e. e \<noteq> k) (edges (nodes p ! u)))"
    "pxid (nodes p' ! rename_handle k u) = pxid (nodes p ! u)"
    using remove_node_nth(3) [OF assms(1) r] by (simp_all add: skip_rename_handle assms(3) Let_def)
  moreover have "wf_graph (nodes p')" if "wf_graph (nodes p)"
    using that k unfolding wf_graph_def ns
    by (auto simp: drop_handle_eq rename_handle_def dest!: in_set_takeD in_set_dropD) fastforce+
  ultimately show ?thesis by blast
qed

theorem remove_node_graph_witness:
  "\<exists>p'. remove_node 1 diamond = Inr p' \<and> edges (nodes p' ! 2) = [0]"
proof -
  obtain p' where p': "remove_node 1 diamond = Inr p'"
    by (simp add: remove_node_def diamond_def)
  have "rename_handle 1 3 = 2" by (simp add: rename_handle_def)
  with remove_node_graph [OF p', of 3] p' show ?thesis
    by (intro exI [of _ p']) (simp add: diamond_def rename_handle_def)
qed

lemma wf_add_node: "wf_graph (nodes p) \<Longrightarrow> wf_graph (nodes (snd (add_node x p)))"
  by (auto simp: wf_graph_def add_node_def Node_default_def intro: less_SucI)

lemma wf_graph_update:
  "wf_graph ns \<Longrightarrow> set es \<subseteq> {..<length ns} \<Longrightarrow> wf_graph (ns[i := n\<lparr>edges := es\<rparr>])"
  by (auto simp: wf_graph_def dest!: set_update_subset_insert [THEN subsetD])

lemma wf_graph_subset:
  "wf_graph ns \<Longrightarrow> i < length ns \<Longrightarrow> set (edges (ns ! i)) \<subseteq> {..<length ns}"
  using wf_graph_edges by blast

lemma wf_add_edge:
  assumes wf: "wf_graph (nodes p)" and t: "to_node < length (nodes p)"
    and run: "add_edge from_node to_node pr p = Inr p'"
  shows "wf_graph (nodes p')"
proof -
  let ?es = "edges (nodes p ! from_node)"
  from run have f: "from_node < length (nodes p)" by (auto simp: add_edge_def)
  note sub = wf_graph_subset [OF wf f]
  have ins: "set (take pr ?es @ to_node # drop pr ?es) \<subseteq> {..<length (nodes p)}"
    using t order_trans [OF set_take_subset sub] order_trans [OF set_drop_subset sub] by simp
  have app: "set (?es @ [to_node]) \<subseteq> {..<length (nodes p)}"
    using t sub by simp
  show ?thesis
    using run f wf_graph_update [OF wf ins] wf_graph_update [OF wf app]
    by (auto simp: add_edge_def Let_def split: if_splits)
qed

lemma wf_remove_edge:
  assumes wf: "wf_graph (nodes p)" and run: "remove_edge from_node to_node p = Inr p'"
  shows "wf_graph (nodes p')"
proof -
  let ?es = "edges (nodes p ! from_node)"
  from run have f: "from_node < length (nodes p)" by (auto simp: remove_edge_def)
  have rm: "set (remove1 to_node ?es) \<subseteq> {..<length (nodes p)}"
    by (rule order_trans [OF set_remove1_subset wf_graph_subset [OF wf f]])
  show ?thesis
    using run f wf_graph_update [OF wf rm] by (auto simp: remove_edge_def)
qed

end
