(* ===== verification/Xia_Path_Nodes.thy ===== *)
theory Xia_Path_Nodes
  imports Xia_Path_Valid
begin

text \<open>
  The packet form of a path (\<^verbatim>\<open>include/clicknet/xia.h\<close>, and \<^verbatim>\<open>parse_node\<close> and \<^verbatim>\<open>unparse_node\<close> of
  \<^verbatim>\<open>lib/xiapath.cc\<close>): a list of nodes in topological order whose last node is the destination. The
  source has no node of its own; its edges are stored with the destination.
\<close>

section \<open>Nodes of a header\<close>

record click_xia_xid_edge =
  idx :: "7 word"
  visited :: bool

record click_xia_xid_node =
  nxid :: click_xia_xid
  nedge :: "click_xia_xid_edge list"

definition CLICK_XIA_XID_EDGE_UNUSED :: "7 word" where
  "CLICK_XIA_XID_EDGE_UNUSED = 127"

definition wf_node :: "click_xia_xid_node \<Rightarrow> bool" where
  "wf_node m \<longleftrightarrow> wf_xid (nxid m) \<and> length (nedge m) = CLICK_XIA_XID_EDGE_NUM"

section \<open>From the list to the graph\<close>

definition parse_edges :: "click_xia_xid_edge list \<Rightarrow> nat list" where
  "parse_edges es = map (\<lambda>e. unat (idx e)) (filter (\<lambda>e. idx e \<noteq> CLICK_XIA_XID_EDGE_UNUSED) es)"

definition graph_node :: "click_xia_xid_node \<Rightarrow> path_node" where
  "graph_node m = Node_default\<lparr>pxid := nxid m, edges := parse_edges (nedge m)\<rparr>"

definition parse_node :: "click_xia_xid_node list \<Rightarrow> XIAPath" where
  "parse_node ms =
     (if ms = [] then XIAPath_reset
      else
        let gs = map graph_node ms;
            gs = gs @ [last gs];
            d = length gs - 2;
            s = length gs - 1;
            gs = gs[d := (gs ! d)\<lparr>edges := []\<rparr>];
            gs = gs[s := (gs ! s)\<lparr>pxid := XID_default\<rparr>]
        in \<lparr>nodes = gs, src = s, dst = d\<rparr>)"

section \<open>From the graph to the list\<close>

definition unparse_node_size :: "XIAPath \<Rightarrow> nat" where
  "unparse_node_size p = length (nodes p) - 1"

text \<open>The edges of one node, and the loop over the nodes; \<open>buf\<close> is the buffer of the caller.\<close>

fun unparse_edges :: "path_node list \<Rightarrow> nat \<Rightarrow> nat \<Rightarrow> nat list \<Rightarrow> click_xia_xid_edge list run" where
  "unparse_edges ns total_n 0 es = Inr []"
| "unparse_edges ns total_n (Suc k) [] =
     bind_run (unparse_edges ns total_n k [])
       (\<lambda>r. Inr (\<lparr>idx = CLICK_XIA_XID_EDGE_UNUSED, visited = False\<rparr> # r))"
| "unparse_edges ns total_n (Suc k) (e # es) =
     bind_run (at ns e) (\<lambda>m.
       let next_node_order = to_size (int (order m) - 1) in
       if next_node_order < total_n then
         bind_run (unparse_edges ns total_n k es)
           (\<lambda>r. Inr (\<lparr>idx = of_nat next_node_order, visited = False\<rparr> # r))
       else Inl Assert_failed)"

definition node_slot :: "nat \<Rightarrow> path_node \<Rightarrow> nat" where
  "node_slot total_n m = (if order m = 0 then total_n - 1 else order m - 1)"

definition write_node ::
  "path_node list \<Rightarrow> nat \<Rightarrow> nat \<Rightarrow> path_node \<Rightarrow> click_xia_xid_node list \<Rightarrow> click_xia_xid_node list run"
  where
  "write_node ns total_n n m buf =
     (let index = node_slot total_n m in
      if index < n then
        let buf1 = (if 0 < order m then buf[index := (buf ! index)\<lparr>nxid := pxid m\<rparr>] else buf) in
        if order m < total_n then
          bind_run (unparse_edges ns total_n CLICK_XIA_XID_EDGE_NUM (edges m))
            (\<lambda>es. Inr (buf1[index := (buf1 ! index)\<lparr>nedge := es\<rparr>]))
        else if order m < total_n + 1 then Inr buf1
        else Inl Assert_failed
      else Inr buf)"

fun write_nodes ::
  "path_node list \<Rightarrow> nat \<Rightarrow> nat \<Rightarrow> path_node list \<Rightarrow> click_xia_xid_node list \<Rightarrow> click_xia_xid_node list run"
  where
  "write_nodes ns total_n n [] buf = Inr buf"
| "write_nodes ns total_n n (m # ms) buf =
     bind_run (write_node ns total_n n m buf) (write_nodes ns total_n n ms)"

definition unparse_node ::
  "click_xia_xid_node list \<Rightarrow> nat \<Rightarrow> XIAPath \<Rightarrow> (nat \<times> click_xia_xid_node list \<times> XIAPath) run" where
  "unparse_node buf n p =
     bind_run (topological_ordering p) (\<lambda>(ok, p').
       if \<not> ok then Inr (0, buf, p')
       else
         let total_n = unparse_node_size p';
             n' = (if total_n < n then total_n else n)
         in if total_n = 0 then Inr (0, buf, p')
            else bind_run (write_nodes (nodes p') total_n n' (nodes p') buf)
              (\<lambda>buf'. Inr (n', buf', p')))"

section \<open>Edges survive\<close>

lemma parse_edges_Nil [simp]: "parse_edges [] = []"
  by (simp add: parse_edges_def)

lemma parse_edges_Cons:
  "parse_edges (e # es) =
    (if idx e = CLICK_XIA_XID_EDGE_UNUSED then parse_edges es else unat (idx e) # parse_edges es)"
  by (simp add: parse_edges_def)

lemma idx_of_nat:
  "k < 127 \<Longrightarrow> (of_nat k :: 7 word) \<noteq> CLICK_XIA_XID_EDGE_UNUSED \<and> unat (of_nat k :: 7 word) = k"
proof -
  assume k: "k < 127"
  then have u: "unat (of_nat k :: 7 word) = k" by (simp add: unat_of_nat)
  with k show ?thesis by (auto simp: CLICK_XIA_XID_EDGE_UNUSED_def)
qed

text \<open>In what is written the unused edges come last.\<close>

definition packed :: "click_xia_xid_edge list \<Rightarrow> bool" where
  "packed es \<longleftrightarrow> parse_edges es =
     map (\<lambda>e. unat (idx e)) (takeWhile (\<lambda>e. idx e \<noteq> CLICK_XIA_XID_EDGE_UNUSED) es)"

text \<open>
  An edge is written as the order of its target less one. Below 127 nodes it is read back; the value
  127 itself means no edge.
\<close>

lemma unparse_edges_parse:
  assumes "length es \<le> k" "\<forall>e\<in>set es. e < length ns \<and> 0 < order (ns ! e) \<and> order (ns ! e) \<le> total_n"
    and "total_n \<le> 127"
  shows "\<exists>r. unparse_edges ns total_n k es = Inr r \<and> length r = k \<and> packed r
    \<and> parse_edges r = map (\<lambda>e. order (ns ! e) - 1) es"
  using assms(1,2)
proof (induction k arbitrary: es)
  case (Suc k)
  show ?case
  proof (cases es)
    case Nil
    with Suc.IH [of "[]"] show ?thesis by (auto simp: parse_edges_Cons packed_def)
  next
    case (Cons e es')
    then obtain j where j: "e < length ns" "order (ns ! e) = Suc j" "j < total_n"
      using Suc.prems by (cases "order (ns ! e)") auto
    have s: "to_size (int (Suc j) - 1) = j"
      using assms(3) j(3) by (subst to_size_nonneg) auto
    obtain r where r: "unparse_edges ns total_n k es' = Inr r" "length r = k" "packed r"
        "parse_edges r = map (\<lambda>e. order (ns ! e) - 1) es'"
      using Suc.IH [of es'] Suc.prems Cons by auto
    have "j < 127" using assms(3) j(3) by linarith
    with idx_of_nat r Cons j s show ?thesis
      by (simp add: Let_def parse_edges_Cons packed_def)
  qed
qed (simp add: packed_def)

section \<open>The list holds every node\<close>

text \<open>
  The effect of writing nodes of pairwise different orders: each XID and each list of edges is where its
  order says, and nothing else changes.
\<close>

definition written ::
  "nat \<Rightarrow> (path_node \<Rightarrow> click_xia_xid_edge list) \<Rightarrow> path_node set \<Rightarrow>
    click_xia_xid_node list \<Rightarrow> click_xia_xid_node list \<Rightarrow> bool" where
  "written T enc M buf buf' \<longleftrightarrow> length buf' = T
     \<and> (\<forall>m\<in>M. 0 < order m \<longrightarrow> nxid (buf' ! (order m - 1)) = pxid m)
     \<and> (\<forall>m\<in>M. order m < T \<longrightarrow> nedge (buf' ! node_slot T m) = enc m)
     \<and> (\<forall>k < T. (\<forall>m\<in>M. order m \<noteq> Suc k) \<longrightarrow> nxid (buf' ! k) = nxid (buf ! k))
     \<and> (\<forall>k < T. (\<forall>m\<in>M. order m < T \<longrightarrow> node_slot T m \<noteq> k) \<longrightarrow> nedge (buf' ! k) = nedge (buf ! k))"

lemma node_slot_less: "0 < T \<Longrightarrow> order m \<le> T \<Longrightarrow> node_slot T m < T"
  by (auto simp: node_slot_def)

lemma node_slot_inject:
  "order m < T \<Longrightarrow> order m' < T \<Longrightarrow> node_slot T m = node_slot T m' \<longleftrightarrow> order m = order m'"
  by (auto simp: node_slot_def split: if_splits)

lemma write_node_ok:
  assumes "0 < T" "length buf = T" "order m \<le> T"
    and "order m < T \<Longrightarrow> unparse_edges ns T CLICK_XIA_XID_EDGE_NUM (edges m) = Inr (enc m)"
  shows "\<exists>buf'. write_node ns T T m buf = Inr buf' \<and> written T enc {m} buf buf'"
proof -
  let ?i = "node_slot T m"
  let ?b = "if 0 < order m then buf[?i := (buf ! ?i)\<lparr>nxid := pxid m\<rparr>] else buf"
  let ?b' = "if order m < T then ?b[?i := (?b ! ?i)\<lparr>nedge := enc m\<rparr>] else ?b"
  have i: "?i < T" by (rule node_slot_less [OF assms(1,3)])
  have "write_node ns T T m buf = Inr ?b'"
    using i assms by (auto simp: write_node_def Let_def)
  moreover have "written T enc {m} buf ?b'"
    using i assms(1,2) by (auto simp: written_def nth_list_update node_slot_def)
  ultimately show ?thesis by blast
qed

lemma writtenD:
  assumes "written T enc M buf buf'"
  shows "length buf' = T"
    and "m \<in> M \<Longrightarrow> 0 < order m \<Longrightarrow> nxid (buf' ! (order m - 1)) = pxid m"
    and "m \<in> M \<Longrightarrow> order m < T \<Longrightarrow> nedge (buf' ! node_slot T m) = enc m"
    and "k < T \<Longrightarrow> (\<And>m. m \<in> M \<Longrightarrow> order m \<noteq> Suc k) \<Longrightarrow> nxid (buf' ! k) = nxid (buf ! k)"
    and "k < T \<Longrightarrow> (\<And>m. m \<in> M \<Longrightarrow> order m < T \<Longrightarrow> node_slot T m \<noteq> k) \<Longrightarrow>
      nedge (buf' ! k) = nedge (buf ! k)"
  using assms unfolding written_def by blast+

lemma written_trans:
  assumes w1: "written T enc {m} buf buf1" and w2: "written T enc M buf1 buf2"
    and new: "order m \<notin> order ` M" and le: "order m \<le> T" "0 < T"
  shows "written T enc (insert m M) buf buf2"
proof -
  have ne: "order m' \<noteq> order m" if "m' \<in> M" for m'
    using new that by (metis image_eqI)
  have x: "nxid (buf2 ! (order m - 1)) = nxid (buf1 ! (order m - 1))" if "0 < order m"
    using that ne le by (intro writtenD(4) [OF w2]) auto
  have e: "nedge (buf2 ! node_slot T m) = nedge (buf1 ! node_slot T m)" if "order m < T"
    using that ne node_slot_less [OF le(2,1)] by (intro writtenD(5) [OF w2]) (auto simp: node_slot_inject)
  show ?thesis
    unfolding written_def
  proof (intro conjI ballI allI impI)
    fix m' assume "m' \<in> insert m M" "0 < order m'"
    then show "nxid (buf2 ! (order m' - 1)) = pxid m'"
      using x writtenD(2) [OF w1] writtenD(2) [OF w2] by auto
  next
    fix m' assume "m' \<in> insert m M" "order m' < T"
    then show "nedge (buf2 ! node_slot T m') = enc m'"
      using e writtenD(3) [OF w1] writtenD(3) [OF w2] by auto
  next
    fix k assume "k < T" "\<forall>m'\<in>insert m M. order m' \<noteq> Suc k"
    then show "nxid (buf2 ! k) = nxid (buf ! k)"
      using writtenD(4) [OF w1, of k] writtenD(4) [OF w2, of k] by simp
  next
    fix k assume "k < T" "\<forall>m'\<in>insert m M. order m' < T \<longrightarrow> node_slot T m' \<noteq> k"
    then show "nedge (buf2 ! k) = nedge (buf ! k)"
      using writtenD(5) [OF w1, of k] writtenD(5) [OF w2, of k] by simp
  qed (rule writtenD(1) [OF w2])
qed

lemma write_nodes_ok:
  assumes "0 < T"
  shows "length buf = T \<Longrightarrow> distinct (map order ms) \<Longrightarrow> \<forall>m\<in>set ms. order m \<le> T \<Longrightarrow>
    \<forall>m\<in>set ms. order m < T \<longrightarrow>
      unparse_edges ns T CLICK_XIA_XID_EDGE_NUM (edges m) = Inr (enc m) \<Longrightarrow>
    \<exists>buf'. write_nodes ns T T ms buf = Inr buf' \<and> written T enc (set ms) buf buf'"
proof (induction ms arbitrary: buf)
  case (Cons m ms)
  obtain buf1 where 1: "write_node ns T T m buf = Inr buf1" "written T enc {m} buf buf1"
    using write_node_ok [OF assms Cons.prems(1), of m ns enc] Cons.prems by auto
  moreover have "length buf1 = T" using 1(2) by (simp add: written_def)
  ultimately obtain buf' where "write_nodes ns T T ms buf1 = Inr buf'" "written T enc (set ms) buf1 buf'"
    using Cons.IH [of buf1] Cons.prems by auto
  with 1 written_trans [OF 1(2), of "set ms" buf'] Cons.prems assms show ?case by auto
qed (simp add: written_def)

section \<open>The list describes the same graph\<close>

text \<open>Two paths are the same up to the handles \<open>f\<close>; the XID of the source is not part of the list.\<close>

definition path_iso :: "(nat \<Rightarrow> nat) \<Rightarrow> XIAPath \<Rightarrow> XIAPath \<Rightarrow> bool" where
  "path_iso f p q \<longleftrightarrow>
     bij_betw f {..<length (nodes p)} {..<length (nodes q)}
     \<and> f (src p) = src q \<and> f (dst p) = dst q
     \<and> (\<forall>i < length (nodes p). edges (nodes q ! f i) = map f (edges (nodes p ! i))
         \<and> (i \<noteq> src p \<longrightarrow> pxid (nodes q ! f i) = pxid (nodes p ! i)))"

lemma path_iso_same_graph:
  "same_graph (nodes p') (nodes p) \<Longrightarrow> src p' = src p \<Longrightarrow> dst p' = dst p \<Longrightarrow>
    path_iso f p' q \<Longrightarrow> path_iso f p q"
  by (auto simp: path_iso_def same_graph_def)

lemma parse_node_snoc:
  "parse_node (ms @ [m]) =
    \<lparr>nodes = map graph_node ms @ [(graph_node m)\<lparr>edges := []\<rparr>, (graph_node m)\<lparr>pxid := XID_default\<rparr>],
     src = Suc (length ms), dst = length ms\<rparr>"
  by (simp add: parse_node_def Let_def nth_append list_update_append)

lemma parse_node_nth:
  assumes "length ms = Suc t"
  shows "length (nodes (parse_node ms)) = Suc (Suc t)"
    and "src (parse_node ms) = Suc t" "dst (parse_node ms) = t"
    and "k \<le> t \<Longrightarrow> pxid (nodes (parse_node ms) ! k) = nxid (ms ! k)"
    and "k < t \<Longrightarrow> edges (nodes (parse_node ms) ! k) = parse_edges (nedge (ms ! k))"
    and "edges (nodes (parse_node ms) ! t) = []"
    and "edges (nodes (parse_node ms) ! Suc t) = parse_edges (nedge (ms ! t))"
  using assms
  by (auto simp: parse_node_def Let_def nth_append nth_list_update last_map last_conv_nth graph_node_def)

text \<open>The handle in the list form: the position, and the number of positions for the source.\<close>

definition list_handle :: "path_node list \<Rightarrow> nat \<Rightarrow> nat" where
  "list_handle ns i = (if order (ns ! i) = 0 then length ns - 1 else order (ns ! i) - 1)"

lemma list_handle_bij:
  assumes "bij_betw (\<lambda>i. order (ns ! i)) {..<length ns} {..<length ns}"
  shows "bij_betw (list_handle ns) {..<length ns} {..<length ns}"
proof -
  let ?g = "\<lambda>k. if k = 0 then length ns - 1 else k - 1"
  have "bij_betw ?g {..<length ns} {..<length ns}"
    by (rule bij_betw_byWitness [where f' = "\<lambda>k. if k = length ns - 1 then 0 else k + 1"]) auto
  from bij_betw_trans [OF assms this] show ?thesis
    by (simp add: list_handle_def o_def fun_eq_iff cong: bij_betw_cong)
qed

text \<open>What the ordering of a valid path gives for writing it.\<close>

lemma valid_orders:
  assumes v: "is_valid p = Inr (True, p')" and T: "length (nodes p) = Suc T"
  shows "same_graph (nodes p') (nodes p)" "distinct (map order (nodes p'))"
    and "i < length (nodes p) \<Longrightarrow> order (nodes p' ! i) \<le> T"
    and "i < length (nodes p) \<Longrightarrow> length (edges (nodes p ! i)) \<le> CLICK_XIA_XID_EDGE_NUM"
    and "i < length (nodes p) \<Longrightarrow> e \<in> set (edges (nodes p ! i)) \<Longrightarrow>
      e < length (nodes p') \<and> 0 < order (nodes p' ! e) \<and> order (nodes p' ! e) \<le> T"
proof -
  note t = is_valid_true [OF v]
  show same: "same_graph (nodes p') (nodes p)"
    using topological_ordering_spec [OF t(1)] t(3) by auto
  then have l: "length (nodes p') = length (nodes p)" by (simp add: same_graph_def)
  show "distinct (map order (nodes p'))"
    using path_sort.ord_inject [OF t(1,3)] l by (auto simp: distinct_conv_nth)
  show ord: "i < length (nodes p) \<Longrightarrow> order (nodes p' ! i) \<le> T" for i
    using path_sort.ord_less [OF t(1,3), of i] T by simp
  show "i < length (nodes p) \<Longrightarrow> length (edges (nodes p ! i)) \<le> CLICK_XIA_XID_EDGE_NUM"
    using t(2) by (simp add: valid_shape_def Let_def CLICK_XIA_XID_EDGE_NUM_def)
  assume "i < length (nodes p)" "e \<in> set (edges (nodes p ! i))"
  then have e: "(i, e) \<in> edge_rel (nodes p)" by (simp add: edge_rel_def)
  show "e < length (nodes p') \<and> 0 < order (nodes p' ! e) \<and> order (nodes p' ! e) \<le> T"
    using path_sort.sort_edge [OF t(1,3) e] path_sort.rel_range [OF t(1) e] ord [of e] l by simp
qed

lemma valid_encoded:
  assumes v: "is_valid p = Inr (True, p')" and T: "length (nodes p) = Suc T" "T \<le> 127"
    and i: "i < length (nodes p)"
  shows "\<exists>r. unparse_edges (nodes p') T CLICK_XIA_XID_EDGE_NUM (edges (nodes p' ! i)) = Inr r
    \<and> length r = CLICK_XIA_XID_EDGE_NUM \<and> packed r \<and> parse_edges r = map (list_handle (nodes p')) (edges (nodes p ! i))"
proof -
  note o = valid_orders [OF v T(1)]
  have "edges (nodes p' ! i) = edges (nodes p ! i)" using o(1) i by (simp add: same_graph_def)
  moreover obtain r where "unparse_edges (nodes p') T CLICK_XIA_XID_EDGE_NUM (edges (nodes p ! i)) = Inr r"
      "length r = CLICK_XIA_XID_EDGE_NUM" "packed r"
      "parse_edges r = map (\<lambda>e. order (nodes p' ! e) - 1) (edges (nodes p ! i))"
    using unparse_edges_parse [OF o(4) [OF i], of "nodes p'" T] o(5) [OF i] T(2) by auto
  moreover have "map (\<lambda>e. order (nodes p' ! e) - 1) (edges (nodes p ! i)) =
      map (list_handle (nodes p')) (edges (nodes p ! i))"
    by (auto simp: list_handle_def dest: o(5) [OF i])
  ultimately show ?thesis by simp
qed

lemma valid_written:
  assumes v: "is_valid p = Inr (True, p')" and T: "length (nodes p) = Suc T" "T \<le> 127" "length buf = T"
  shows "\<exists>enc ms. unparse_node buf T p = Inr (T, ms, p')
    \<and> written T enc (set (nodes p')) buf ms
    \<and> (\<forall>i < length (nodes p).
        length (enc (nodes p' ! i)) = CLICK_XIA_XID_EDGE_NUM \<and> packed (enc (nodes p' ! i))
        \<and> parse_edges (enc (nodes p' ! i)) = map (list_handle (nodes p')) (edges (nodes p ! i)))"
proof -
  note o = valid_orders [OF v T(1)]
  have l: "length (nodes p') = Suc T" using o(1) T by (simp add: same_graph_def)
  have "0 < T" using valid_ends(1-3) [OF v] T by simp
  have "\<forall>m\<in>set (nodes p'). \<exists>r. unparse_edges (nodes p') T CLICK_XIA_XID_EDGE_NUM (edges m) = Inr r"
    using valid_encoded [OF v T(1,2)] l T(1) by (fastforce simp: in_set_conv_nth)
  then obtain enc where enc: "\<forall>m\<in>set (nodes p').
      unparse_edges (nodes p') T CLICK_XIA_XID_EDGE_NUM (edges m) = Inr (enc m)"
    by metis
  have "\<forall>m\<in>set (nodes p'). order m \<le> T"
    using o(3) l T(1) by (auto simp: in_set_conv_nth)
  then obtain ms where "write_nodes (nodes p') T T (nodes p') buf = Inr ms"
      "written T enc (set (nodes p')) buf ms"
    using write_nodes_ok [OF \<open>0 < T\<close> T(3) o(2), of "nodes p'" enc] enc by blast
  moreover have "length (enc (nodes p' ! i)) = CLICK_XIA_XID_EDGE_NUM \<and> packed (enc (nodes p' ! i))
      \<and> parse_edges (enc (nodes p' ! i)) = map (list_handle (nodes p')) (edges (nodes p ! i))"
    if "i < length (nodes p)" for i
    using valid_encoded [OF v T(1,2) that] enc that l T(1) by (metis nth_mem sum.inject(2))
  ultimately show ?thesis
    using is_valid_true(3) [OF v] \<open>0 < T\<close> l
    by (intro exI [of _ enc] exI [of _ ms]) (simp add: unparse_node_def unparse_node_size_def)
qed

lemma read_back_node:
  assumes v: "is_valid p = Inr (True, p')" and k: "length (nodes p) = Suc (Suc k)"
    and w: "written (Suc k) enc (set (nodes p')) buf ms"
    and enc: "parse_edges (enc (nodes p' ! i)) = map (list_handle (nodes p')) (edges (nodes p ! i))"
    and i: "i < length (nodes p)"
  shows "edges (nodes (parse_node ms) ! list_handle (nodes p') i) =
      map (list_handle (nodes p')) (edges (nodes p ! i))
    \<and> (i \<noteq> src p \<longrightarrow> pxid (nodes (parse_node ms) ! list_handle (nodes p') i) = pxid (nodes p ! i))"
proof -
  note ends = valid_ends [OF v] and t = is_valid_true [OF v] and o = valid_orders [OF v k]
  note q = parse_node_nth [OF writtenD(1) [OF w]]
  let ?f = "list_handle (nodes p')"
  have l: "length (nodes p') = Suc (Suc k)" using o(1) k by (simp add: same_graph_def)
  have m: "nodes p' ! i \<in> set (nodes p')" using i k l by simp
  have px: "pxid (nodes p' ! i) = pxid (nodes p ! i)" using o(1) i by (simp add: same_graph_def)
  consider "i = src p" | "i = dst p" | "0 < order (nodes p' ! i)" "order (nodes p' ! i) < Suc k"
    using o(3) [OF i] path_sort.ord_inject [OF t(1,3) i] ends(1,2,4,5) k
    by (metis Suc_lessI diff_Suc_1 gr0I le_neq_implies_less)
  then show ?thesis
  proof cases
    case 1
    then have "node_slot (Suc k) (nodes p' ! i) = k" "?f i = Suc k"
      using ends(4) l by (simp_all add: node_slot_def list_handle_def)
    with 1 show ?thesis using q(7) writtenD(3) [OF w m] ends(4) enc by simp
  next
    case 2
    then have "?f i = k" using ends(5) k l by (simp add: list_handle_def)
    with 2 show ?thesis
      using q(4) [of k] q(6) writtenD(2) [OF w m] ends(5,6) k px by simp
  next
    case 3
    then have "?f i = order (nodes p' ! i) - 1" "node_slot (Suc k) (nodes p' ! i) = ?f i"
      by (simp_all add: list_handle_def node_slot_def)
    with 3 show ?thesis
      using q(4) [of "?f i"] q(5) [of "?f i"] writtenD(2,3) [OF w m] enc px by simp
  qed
qed

text \<open>Every position of the list holds the XID of a node other than the source, and packed edges.\<close>

lemma written_positions:
  assumes v: "is_valid p = Inr (True, p')" and k: "length (nodes p) = Suc (Suc k)"
    and w: "written (Suc k) enc (set (nodes p')) buf ms"
    and enc: "\<forall>i < length (nodes p).
      length (enc (nodes p' ! i)) = CLICK_XIA_XID_EDGE_NUM \<and> packed (enc (nodes p' ! i))"
    and m: "m \<in> set ms"
  shows "length (nedge m) = CLICK_XIA_XID_EDGE_NUM \<and> packed (nedge m)
    \<and> (\<exists>i < length (nodes p). i \<noteq> src p \<and> nxid m = pxid (nodes p ! i))"
proof -
  note ends = valid_ends [OF v] and t = is_valid_true [OF v] and o = valid_orders [OF v k]
  have l: "length (nodes p') = length (nodes p)" using o(1) by (simp add: same_graph_def)
  from m writtenD(1) [OF w] obtain j where j: "j < Suc k" "m = ms ! j" by (auto simp: in_set_conv_nth)
  obtain i where i: "i < length (nodes p)" "order (nodes p' ! i) = Suc j"
    using path_sort.ord_surj [OF t(1,3), of "Suc j"] j k by auto
  then have mi: "nodes p' ! i \<in> set (nodes p')" using l by simp
  have "i \<noteq> src p" using i ends(4) by auto
  moreover have "nxid m = pxid (nodes p ! i)"
    using writtenD(2) [OF w mi] i j o(1) by (simp add: same_graph_def)
  moreover have "\<exists>i < length (nodes p). nedge m = enc (nodes p' ! i)"
  proof (cases "j < k")
    case True
    then have "node_slot (Suc k) (nodes p' ! i) = j" using i by (simp add: node_slot_def)
    with True show ?thesis using writtenD(3) [OF w mi] i j by auto
  next
    case False
    then have "node_slot (Suc k) (nodes p' ! src p) = j" using ends(4) j by (simp add: node_slot_def)
    moreover have "nodes p' ! src p \<in> set (nodes p')" using ends(1) l by simp
    ultimately show ?thesis using writtenD(3) [OF w] ends(1,4) j by fastforce
  qed
  ultimately show ?thesis using enc i(1) by auto
qed

lemma valid_node_list:
  assumes v: "is_valid p = Inr (True, p')" and n: "length (nodes p) \<le> 128"
    and buf: "length buf = unparse_node_size p"
  shows "\<exists>ms f. unparse_node buf (length buf) p = Inr (length buf, ms, p')
    \<and> length ms = length buf \<and> 0 < length ms \<and> path_iso f p (parse_node ms)
    \<and> (\<forall>m\<in>set ms. length (nedge m) = CLICK_XIA_XID_EDGE_NUM \<and> packed (nedge m)
        \<and> (\<exists>i < length (nodes p). i \<noteq> src p \<and> nxid m = pxid (nodes p ! i)))"
proof -
  note ends = valid_ends [OF v] and t = is_valid_true [OF v]
  obtain k where k: "length (nodes p) = Suc (Suc k)"
    using ends(1-3) by (metis less_nat_zero_code less_one not_less_eq old.nat.exhaust)
  then have T: "length buf = Suc k" "Suc k \<le> 127" using buf n by (simp_all add: unparse_node_size_def)
  obtain enc ms where run: "unparse_node buf (Suc k) p = Inr (Suc k, ms, p')"
    and w: "written (Suc k) enc (set (nodes p')) buf ms"
    and enc: "\<forall>i < length (nodes p).
        length (enc (nodes p' ! i)) = CLICK_XIA_XID_EDGE_NUM \<and> packed (enc (nodes p' ! i))
        \<and> parse_edges (enc (nodes p' ! i)) = map (list_handle (nodes p')) (edges (nodes p ! i))"
    using valid_written [OF v k T(2,1)] by blast
  have l: "length (nodes p') = Suc (Suc k)"
    using valid_orders(1) [OF v k] k by (simp add: same_graph_def)
  have "bij_betw (list_handle (nodes p')) {..<Suc (Suc k)} {..<Suc (Suc k)}"
    using list_handle_bij [of "nodes p'"] path_sort.sort_bij [OF t(1,3)] l k by simp
  moreover have "list_handle (nodes p') (src p) = Suc k" "list_handle (nodes p') (dst p) = k"
    using ends(4,5) k l by (simp_all add: list_handle_def)
  ultimately have "path_iso (list_handle (nodes p')) p (parse_node ms)"
    using read_back_node [OF v k w] enc parse_node_nth(1-3) [OF writtenD(1) [OF w]] k
    by (simp add: path_iso_def)
  moreover have "\<forall>m\<in>set ms. length (nedge m) = CLICK_XIA_XID_EDGE_NUM \<and> packed (nedge m)
      \<and> (\<exists>i < length (nodes p). i \<noteq> src p \<and> nxid m = pxid (nodes p ! i))"
    using written_positions [OF v k w] enc by blast
  ultimately show ?thesis
    using run T writtenD(1) [OF w] by (intro exI [of _ ms] exI) auto
qed

text \<open>
  C19. A valid path with at most 128 nodes survives the packet form: writing it with \<^verbatim>\<open>unparse_node\<close> fills
  the whole buffer, whatever it held, and \<^verbatim>\<open>parse_node\<close> reads back the same graph with the same edge
  priorities, source, destination and XIDs, up to the numbering of the nodes.
\<close>

theorem parse_node_unparse_node:
  assumes "is_valid p = Inr (True, p')" "length (nodes p) \<le> 128"
    and "length buf = unparse_node_size p"
  shows "\<exists>ms f. unparse_node buf (length buf) p = Inr (length buf, ms, p')
    \<and> length ms = length buf \<and> path_iso f p (parse_node ms)"
  using valid_node_list [OF assms] by blast

theorem parse_node_unparse_node_witness:
  "\<exists>ms p' f. unparse_node (replicate 3 undefined) 3 diamond = Inr (3, ms, p')
    \<and> path_iso f diamond (parse_node ms)"
proof -
  obtain p' where v: "is_valid diamond = Inr (True, p')" using diamond_valid by blast
  from parse_node_unparse_node [OF v, of "replicate 3 undefined"] show ?thesis
    by (auto simp: diamond_def unparse_node_size_def)
qed

text \<open>
  The bound is sharp: the index of a node of order 128 is 127, the value that means no edge, so the
  edge to it is not read back.
\<close>

theorem edge_to_order_128_lost:
  assumes "e < length ns" "order (ns ! e) = 128" "128 \<le> total_n"
  shows "\<exists>r. unparse_edges ns total_n CLICK_XIA_XID_EDGE_NUM [e] = Inr r \<and> parse_edges r = []"
proof -
  have "to_size (int (order (ns ! e)) - 1) = 127"
    using assms(2) by simp
  with assms show ?thesis
    by (simp add: CLICK_XIA_XID_EDGE_NUM_def CLICK_XIA_XID_EDGE_UNUSED_def parse_edges_def numeral_eq_Suc)
qed

theorem edge_to_order_128_lost_witness:
  "\<exists>r. unparse_edges [Node_default\<lparr>order := 128\<rparr>] 200 CLICK_XIA_XID_EDGE_NUM [0] = Inr r
    \<and> parse_edges r = []"
  by (rule edge_to_order_128_lost) simp_all

end
