(* ===== verification/Xia_Path_Text.thy ===== *)
theory Xia_Path_Text
  imports Xia_Path_Nodes
begin

text \<open>
  The text forms of a path (\<^verbatim>\<open>parse\<close>, \<^verbatim>\<open>parse_dag\<close>, \<^verbatim>\<open>parse_re\<close> and their inverses in
  \<^verbatim>\<open>lib/xiapath.cc\<close>): a list of nodes with the indices of their edges, or a chain of nodes with
  fallbacks in parentheses. A parser returns whether it succeeded and the path it leaves behind.
\<close>

section \<open>Parsing a list of nodes\<close>

text \<open>The indices after the source, and after a node; the flag of the latter is the end of the text.\<close>

fun parse_src_indices :: "nat \<Rightarrow> string \<Rightarrow> (nat list \<times> string) option" where
  "parse_src_indices 0 s = Some ([], s)"
| "parse_src_indices (Suc k) s =
     (let (w, s') = cp_shift_spacevec s in
      if w = ''-'' then Some ([], s')
      else case cp_integer_int w of None \<Rightarrow> None
        | Some i \<Rightarrow> map_option (\<lambda>(es, t). (to_size i # es, t)) (parse_src_indices k s'))"

fun parse_indices :: "nat \<Rightarrow> string \<Rightarrow> (nat list \<times> string \<times> bool) option" where
  "parse_indices 0 s = Some ([], s, False)"
| "parse_indices (Suc k) s =
     (let (w, s') = cp_shift_spacevec s in
      if w = [] then Some ([], s', True)
      else if w = ''-'' then Some ([], s', False)
      else case cp_integer_int w of None \<Rightarrow> None
        | Some i \<Rightarrow> map_option (\<lambda>(es, r). (to_size i # es, r)) (parse_indices k s'))"

lemma parse_indices_length: "parse_indices k s = Some (es, t, e) \<Longrightarrow> length t \<le> length s"
proof (induction k arbitrary: s es)
  case (Suc k)
  then show ?case
    using cp_shift_spacevec_length(1) [of s]
    by (auto simp: split_beta split: if_splits option.splits) (meson le_trans)
qed simp

function parse_dag_nodes :: "name_ctx \<Rightarrow> string \<Rightarrow> path_node list \<Rightarrow> bool \<times> path_node list" where
  "parse_dag_nodes ctx s acc =
     (if fst (cp_shift_spacevec s) = [] then (True, acc)
      else case cp_xid ctx (fst (cp_shift_spacevec s)) of
        None \<Rightarrow> (False, acc)
      | Some x \<Rightarrow>
          (case parse_indices CLICK_XIA_XID_EDGE_NUM (snd (cp_shift_spacevec s)) of
             None \<Rightarrow> (False, acc)
           | Some (es, t, end_of_text) \<Rightarrow>
               let acc' = acc @ [Node_default\<lparr>pxid := x, edges := es\<rparr>] in
               if end_of_text then (True, acc') else parse_dag_nodes ctx t acc'))"
  by pat_completeness auto
termination
proof (relation "measure (\<lambda>(ctx, s, acc). length s)")
  fix ctx s acc x r es v t end_of_text acc'
  assume "fst (cp_shift_spacevec s) \<noteq> []"
    and "parse_indices CLICK_XIA_XID_EDGE_NUM (snd (cp_shift_spacevec s)) = Some r"
    and "(es, v) = r" "(t, end_of_text) = v"
  then have "parse_indices CLICK_XIA_XID_EDGE_NUM (snd (cp_shift_spacevec s)) = Some (es, t, end_of_text)"
    by simp
  from parse_indices_length [OF this] cp_shift_spacevec_length(2) [OF \<open>fst (cp_shift_spacevec s) \<noteq> []\<close>]
  show "((ctx, t, acc'), ctx, s, acc) \<in> measure (\<lambda>(ctx, s, acc). length s)" by simp
qed simp

declare parse_dag_nodes.simps [simp del]

definition parse_dag :: "name_ctx \<Rightarrow> string \<Rightarrow> bool \<times> XIAPath" where
  "parse_dag ctx s =
     (case parse_src_indices CLICK_XIA_XID_EDGE_NUM s of
        None \<Rightarrow> (False, XIAPath_reset)
      | Some (es, t) \<Rightarrow>
          let src_node = Node_default\<lparr>edges := es\<rparr>;
              (ok, ns) = parse_dag_nodes ctx t []
          in if \<not> ok then (False, XIAPath_reset\<lparr>nodes := ns\<rparr>)
             else
               let ns' = ns @ [src_node] in
               (True, \<lparr>nodes = ns', src = length ns' - 1, dst = to_size (int (length ns') - 2)\<rparr>))"

section \<open>Parsing a chain with fallbacks\<close>

lemma cp_xid_Nil: "cp_xid ctx [] = None"
  by (simp add: cp_xid_def query_xid_def)

function parse_fallback ::
  "name_ctx \<Rightarrow> string \<Rightarrow> click_xia_xid list \<Rightarrow> (click_xia_xid list \<times> string) option" where
  "parse_fallback ctx s acc =
     (if fst (cp_shift_spacevec s) = '')'' then Some (acc, snd (cp_shift_spacevec s))
      else case cp_xid ctx (fst (cp_shift_spacevec s)) of
        None \<Rightarrow> None
      | Some x \<Rightarrow> parse_fallback ctx (snd (cp_shift_spacevec s)) (acc @ [x]))"
  by pat_completeness auto
termination
proof (relation "measure (\<lambda>(ctx, s, acc). length s)")
  fix ctx s acc x
  assume "cp_xid ctx (fst (cp_shift_spacevec s)) = Some x"
  then have "fst (cp_shift_spacevec s) \<noteq> []" using cp_xid_Nil by auto
  then show "((ctx, snd (cp_shift_spacevec s), acc @ [x]), ctx, s, acc)
      \<in> measure (\<lambda>(ctx, s, acc). length s)"
    using cp_shift_spacevec_length(2) by simp
qed simp

declare parse_fallback.simps [simp del]

lemma parse_fallback_length: "parse_fallback ctx s acc = Some (fb, t) \<Longrightarrow> length t \<le> length s"
proof (induction ctx s acc rule: parse_fallback.induct)
  case (1 ctx s acc)
  then show ?case
    using cp_shift_spacevec_length(1) [of s]
    by (subst (asm) (2) parse_fallback.simps) (force split: if_splits option.splits)
qed

text \<open>The fallback path and the word of the next main node, after the first word of an iteration.\<close>

definition parse_main ::
  "name_ctx \<Rightarrow> string \<Rightarrow> string \<Rightarrow> (click_xia_xid list \<times> string \<times> string) option" where
  "parse_main ctx head s =
     (if head = ''('' then
        (case parse_fallback ctx s [] of None \<Rightarrow> None
         | Some (fb, t) \<Rightarrow> Some (fb, cp_shift_spacevec t))
      else Some ([], head, s))"

lemma parse_main_length: "parse_main ctx head s = Some (fb, w, t) \<Longrightarrow> length t \<le> length s"
  using cp_shift_spacevec_length(1) parse_fallback_length
  by (auto simp: parse_main_def split: if_splits option.splits)
    (metis (no_types, opaque_lifting) le_trans snd_conv)

text \<open>
  The nodes an iteration adds when \<open>next_idx\<close> is the index of the previous main node: that node, and the
  fallback nodes that follow it.
\<close>

definition main_edges :: "int \<Rightarrow> click_xia_xid list \<Rightarrow> nat list" where
  "main_edges next_idx fb =
     to_size (next_idx + 1 + int (length fb)) # (if 0 < length fb then [to_size (next_idx + 1)] else [])"

fun fallback_nodes :: "nat \<Rightarrow> int \<Rightarrow> click_xia_xid list \<Rightarrow> path_node list" where
  "fallback_nodes next_main_idx next_idx [] = []"
| "fallback_nodes next_main_idx next_idx (x # fb) =
     Node_default\<lparr>pxid := x, edges := next_main_idx # (if fb \<noteq> [] then [to_size (next_idx + 1)] else [])\<rparr>
     # fallback_nodes next_main_idx (next_idx + 1) fb"

function parse_re_loop ::
  "name_ctx \<Rightarrow> string \<Rightarrow> click_xia_xid \<Rightarrow> int \<Rightarrow> path_node \<Rightarrow> path_node list \<Rightarrow> bool \<times> XIAPath" where
  "parse_re_loop ctx s prev_xid next_idx src_node acc =
     (if fst (cp_shift_spacevec s) = [] then
        if next_idx = - 1 then (False, XIAPath_reset\<lparr>nodes := acc\<rparr>)
        else
          let ns = acc @ [Node_default\<lparr>pxid := prev_xid\<rparr>, src_node] in
          (True, \<lparr>nodes = ns, src = length ns - 1, dst = length ns - 2\<rparr>)
      else case parse_main ctx (fst (cp_shift_spacevec s)) (snd (cp_shift_spacevec s)) of
        None \<Rightarrow> (False, XIAPath_reset\<lparr>nodes := acc\<rparr>)
      | Some (fb, w, t) \<Rightarrow>
          (case cp_xid ctx w of
             None \<Rightarrow> (False, XIAPath_reset\<lparr>nodes := acc\<rparr>)
           | Some next_xid \<Rightarrow>
               let node = Node_default\<lparr>pxid := prev_xid, edges := main_edges next_idx fb\<rparr>;
                   fbs = fallback_nodes (to_size (next_idx + 1 + int (length fb))) (next_idx + 1) fb
               in parse_re_loop ctx t next_xid (next_idx + 1 + int (length fb))
                    (if next_idx = - 1 then node else src_node)
                    ((if next_idx = - 1 then acc else acc @ [node]) @ fbs)))"
  by pat_completeness auto
termination
proof (relation "measure (\<lambda>(ctx, s, _). length s)", goal_cases)
  case (2 ctx s prev_xid next_idx src_node acc r fb v w t next_xid node fbs)
  then have "parse_main ctx (fst (cp_shift_spacevec s)) (snd (cp_shift_spacevec s)) = Some (fb, w, t)"
    by simp
  from parse_main_length [OF this] cp_shift_spacevec_length(2) [OF 2(1)] show ?case by simp
qed simp

declare parse_re_loop.simps [simp del]

definition parse_re :: "name_ctx \<Rightarrow> string \<Rightarrow> bool \<times> XIAPath" where
  "parse_re ctx s = parse_re_loop ctx s XID_default (- 1) Node_default []"

definition XIAPath_parse :: "name_ctx \<Rightarrow> string \<Rightarrow> XIAPath \<Rightarrow> bool \<times> XIAPath" where
  "XIAPath_parse ctx s this =
     (let (type, rest) = cp_shift_spacevec s in
      if type = ''DAG'' then parse_dag ctx rest
      else if type = ''RE'' then parse_re ctx rest
      else (False, this))"

section \<open>Printing\<close>

text \<open>
  \<open>revquery\<close> gives the registered name of an XID, or the empty string. The words of a text are separated by
  single spaces: each is followed by one, and the last one is dropped.
\<close>

definition spaced :: "string list \<Rightarrow> string" where
  "spaced ws = butlast (concat (map (\<lambda>w. w @ '' '') ws))"

fun edge_words :: "click_xia_xid_edge list \<Rightarrow> string list" where
  "edge_words [] = []"
| "edge_words (e # es) =
     (if idx e \<noteq> CLICK_XIA_XID_EDGE_UNUSED then dec_nat (unat (idx e)) # edge_words es else [''-''])"

fun dag_node_words :: "(click_xia_xid \<Rightarrow> string) \<Rightarrow> click_xia_xid_node list \<Rightarrow> string list run" where
  "dag_node_words revquery [] = Inr []"
| "dag_node_words revquery (m # ms) =
     bind_run (XID_unparse_pretty revquery (nxid m)) (\<lambda>w.
     bind_run (dag_node_words revquery ms) (\<lambda>ws.
       Inr (w # (if ms = [] then [] else edge_words (nedge m)) @ ws)))"

text \<open>\<open>buf\<close> is the uninitialised array of nodes on the stack.\<close>

definition unparse_dag ::
  "(click_xia_xid \<Rightarrow> string) \<Rightarrow> click_xia_xid_node list \<Rightarrow> XIAPath \<Rightarrow> (string \<times> XIAPath) run" where
  "unparse_dag revquery buf p =
     bind_run (is_valid p) (\<lambda>(ok, p1).
       if \<not> ok then Inr (''(invalid)'', p1)
       else let n = unparse_node_size p1 in
         bind_run (unparse_node buf n p1) (\<lambda>(m, ms, p2).
           if m \<noteq> n then Inl Assert_failed
           else bind_run (dag_node_words revquery ms) (\<lambda>ws.
             Inr (spaced (edge_words (nedge (last ms)) @ ws), p2))))"

text \<open>
  The loops of \<^verbatim>\<open>unparse_re\<close> follow edges and end only when the graph lets them; the inner \<open>None\<close> is the
  answer that the path has no such text.
\<close>

partial_function (option) fallback_words ::
  "(click_xia_xid \<Rightarrow> string) \<Rightarrow> path_node list \<Rightarrow> nat \<Rightarrow> nat \<Rightarrow> string list \<Rightarrow> string list option run option"
  where
  "fallback_words revquery ns primary cur acc =
     (case at ns cur of Inl f \<Rightarrow> Some (Inl f)
      | Inr n \<Rightarrow>
        (case XID_unparse_pretty revquery (pxid n) of Inl f \<Rightarrow> Some (Inl f)
         | Inr w \<Rightarrow>
             if length (edges n) = 1 then
               (if edges n ! 0 = primary then Some (Inr (Some (acc @ [w]))) else Some (Inr None))
             else if length (edges n) = 2 then
               (if edges n ! 0 = primary
                then fallback_words revquery ns primary (edges n ! 1) (acc @ [w])
                else Some (Inr None))
             else Some (Inr None)))"

partial_function (option) re_words_loop ::
  "(click_xia_xid \<Rightarrow> string) \<Rightarrow> path_node list \<Rightarrow> nat \<Rightarrow> string list \<Rightarrow> string list option run option" where
  "re_words_loop revquery ns prev acc =
     (case at ns prev of Inl f \<Rightarrow> Some (Inl f)
      | Inr n \<Rightarrow>
          if length (edges n) = 0 then Some (Inr (Some acc))
          else if length (edges n) = 1 \<or> length (edges n) = 2 then
            Option.bind
              (if length (edges n) = 2
               then fallback_words revquery ns (edges n ! 0) (edges n ! 1) (acc @ [''('' ])
               else Some (Inr (Some acc)))
              (\<lambda>r. case r of Inl f \<Rightarrow> Some (Inl f)
                 | Inr None \<Rightarrow> Some (Inr None)
                 | Inr (Some ws) \<Rightarrow>
                     (case at ns (edges n ! 0) of Inl f \<Rightarrow> Some (Inl f)
                      | Inr n' \<Rightarrow>
                        (case XID_unparse_pretty revquery (pxid n') of Inl f \<Rightarrow> Some (Inl f)
                         | Inr w \<Rightarrow> re_words_loop revquery ns (edges n ! 0)
                             (ws @ (if length (edges n) = 2 then ['')''] else []) @ [w]))))
          else Some (Inr None))"

definition unparse_re ::
  "(click_xia_xid \<Rightarrow> string) \<Rightarrow> XIAPath \<Rightarrow> (string \<times> XIAPath) run option" where
  "unparse_re revquery p =
     (case is_valid p of Inl f \<Rightarrow> Some (Inl f)
      | Inr (ok, p1) \<Rightarrow>
          if \<not> ok then Some (Inr (''(invalid)'', p1))
          else map_option (\<lambda>r. bind_run r (\<lambda>ws.
            Inr (case ws of None \<Rightarrow> [] | Some ws \<Rightarrow> spaced ws, p1)))
            (re_words_loop revquery (nodes p1) (src p1) []))"

definition XIAPath_unparse ::
  "(click_xia_xid \<Rightarrow> string) \<Rightarrow> click_xia_xid_node list \<Rightarrow> XIAPath \<Rightarrow> (string \<times> XIAPath) run option" where
  "XIAPath_unparse revquery buf p =
     map_option (\<lambda>r. bind_run r (\<lambda>(s, p1).
       if length s \<noteq> 0 then Inr (''RE '' @ s, p1)
       else bind_run (unparse_dag revquery buf p1) (\<lambda>(t, p2). Inr (''DAG '' @ t, p2))))
       (unparse_re revquery p)"

section \<open>Printing a chain ends\<close>

lemma fallback_words_ends:
  assumes wf: "wf_graph ns" and num: "\<And>u v. (u, v) \<in> edge_rel ns \<Longrightarrow> rank u < (rank v :: nat)"
    and bound: "\<And>v. v < length ns \<Longrightarrow> rank v < B"
  shows "cur < length ns \<Longrightarrow> \<exists>r. fallback_words revquery ns primary cur acc = Some r"
proof (induction "B - rank cur" arbitrary: cur acc rule: less_induct)
  case less
  have rec: "\<exists>r. fallback_words revquery ns primary (edges (ns ! cur) ! 1) acc' = Some r"
    if "length (edges (ns ! cur)) = 2" for acc'
  proof -
    have "(cur, edges (ns ! cur) ! 1) \<in> edge_rel ns"
      using that less.prems by (simp add: edge_rel_def)
    moreover from this have "edges (ns ! cur) ! 1 < length ns"
      using wf_graph_edges [OF wf] by (auto simp: edge_rel_def)
    ultimately show ?thesis
      using less.hyps num bound [of "edges (ns ! cur) ! 1"] bound [OF less.prems]
      by (meson diff_less_mono2)
  qed
  show ?case
    using less.prems rec by (subst fallback_words.simps) (auto split: sum.splits)
qed

lemma re_words_loop_ends:
  assumes wf: "wf_graph ns" and num: "\<And>u v. (u, v) \<in> edge_rel ns \<Longrightarrow> rank u < (rank v :: nat)"
    and bound: "\<And>v. v < length ns \<Longrightarrow> rank v < B"
  shows "prev < length ns \<Longrightarrow> \<exists>r. re_words_loop revquery ns prev acc = Some r"
proof (induction "B - rank prev" arbitrary: prev acc rule: less_induct)
  case less
  note edge = wf_graph_edges [OF wf less.prems]
  have rec: "\<exists>r. re_words_loop revquery ns (edges (ns ! prev) ! 0) acc' = Some r"
    if "edges (ns ! prev) \<noteq> []" for acc'
  proof -
    have "(prev, edges (ns ! prev) ! 0) \<in> edge_rel ns"
      using that less.prems by (simp add: edge_rel_def)
    moreover have "edges (ns ! prev) ! 0 < length ns" using that edge by simp
    ultimately show ?thesis
      using less.hyps num bound [of "edges (ns ! prev) ! 0"] bound [OF less.prems]
      by (meson diff_less_mono2)
  qed
  have fb: "\<exists>r. fallback_words revquery ns (edges (ns ! prev) ! 0) (edges (ns ! prev) ! 1) acc' = Some r"
    if "length (edges (ns ! prev)) = 2" for acc'
    using that edge fallback_words_ends [OF wf num bound] by simp
  show ?case
  proof (cases "length (edges (ns ! prev)) = 1 \<or> length (edges (ns ! prev)) = 2")
    case True
    obtain r where "(if length (edges (ns ! prev)) = 2
        then fallback_words revquery ns (edges (ns ! prev) ! 0) (edges (ns ! prev) ! 1) (acc @ [''('' ])
        else Some (Inr (Some acc))) = Some r"
      using fb by (cases "length (edges (ns ! prev)) = 2") auto
    moreover have "edges (ns ! prev) \<noteq> []" using True by auto
    ultimately show ?thesis
      using True less.prems rec
      by (subst re_words_loop.simps) (simp split: sum.splits option.splits)
  next
    case False
    with less.prems show ?thesis by (subst re_words_loop.simps) simp
  qed
qed

lemma unparse_re_ends:
  assumes "wf_graph (nodes p)"
  shows "\<exists>r. unparse_re revquery p = Some r"
proof -
  obtain b p1 where v: "is_valid p = Inr (b, p1)"
    using is_valid_shape [OF assms] topological_ordering_spec [OF assms] by (auto split: if_splits)
  have "\<exists>r. re_words_loop revquery (nodes p1) (src p1) [] = Some r" if b
  proof -
    have v: "is_valid p = Inr (True, p1)" using v that by simp
    note t = is_valid_true [OF v]
    have "wf_graph (nodes p1)" "edge_rel (nodes p1) = edge_rel (nodes p)"
        "length (nodes p1) = length (nodes p)"
      using path_sort.sort_keeps [OF t(1,3)] by auto
    moreover have "src p1 = src p" using topological_ordering_spec [OF t(1)] t(3) by auto
    ultimately show ?thesis
      using path_sort.sort_edge [OF t(1,3)] path_sort.ord_less [OF t(1,3)] valid_ends(1) [OF v]
      by (intro re_words_loop_ends [where rank = "\<lambda>i. order (nodes p1 ! i)" and B = "length (nodes p)"]) auto
  qed
  with v show ?thesis by (auto simp: unparse_re_def)
qed

text \<open>
  \<^verbatim>\<open>unparse_re\<close> returns on every path whose edges lead to nodes: on a path that is not valid at once,
  and on a valid one because each step of its two loops moves to a node of higher order.
\<close>

theorem unparse_re_terminates:
  assumes "wf_graph (nodes p)"
  shows "\<exists>r. unparse_re revquery p = Some r"
  using assms by (rule unparse_re_ends)

theorem unparse_re_terminates_witness: "\<exists>r. unparse_re (\<lambda>_. []) diamond = Some r"
  by (rule unparse_re_terminates [OF wf_diamond])

section \<open>Reading back a printed list of nodes\<close>

definition used_edges :: "click_xia_xid_edge list \<Rightarrow> nat list" where
  "used_edges es = map (\<lambda>e. unat (idx e)) (takeWhile (\<lambda>e. idx e \<noteq> CLICK_XIA_XID_EDGE_UNUSED) es)"

lemma plain_dash: "plain_word ''-''"
  by (simp add: plain_word_def plain_char_def isspace_def)

lemma plain_edge_words: "\<forall>w\<in>set (edge_words es). plain_word w"
  by (induction es) (auto simp: plain_dec_nat plain_dash)

lemma dec_nat_not_dash: "dec_nat n \<noteq> ''-''"
  using isdigit_dec_nat [of "CHR ''-''" n] by (auto simp: isdigit_def)

lemma cp_integer_idx:
  "cp_integer_int (dec_nat (unat (i :: 7 word))) = Some (uint i)"
  "to_size (uint (i :: 7 word)) = unat i"
proof -
  have lt: "unat i < 2 ^ 7" using unsigned_less [of i, where ?'a = nat] by simp
  have u: "int (unat i) = uint i" by simp
  from lt show "cp_integer_int (dec_nat (unat i)) = Some (uint i)"
    using cp_integer_int_dec_nat [of "unat i"] u by simp
  have "to_size (int (unat i)) = unat i" using lt by (intro to_size_int) simp
  then show "to_size (uint i) = unat i" by (simp only: u)
qed

lemma shift_word:
  "plain_word w \<Longrightarrow> \<forall>v\<in>set ws. plain_word v \<Longrightarrow> cp_shift_spacevec (unwords ((w # vs) @ ws)) =
    (w, unwords (vs @ ws))" if "\<forall>v\<in>set vs. plain_word v"
  using cp_shift_spacevec_unwords [of w "vs @ ws"] that by auto

lemma parse_src_indices_words:
  "\<forall>w\<in>set ws. plain_word w \<Longrightarrow>
    parse_src_indices (length es) (unwords (edge_words es @ ws)) = Some (used_edges es, unwords ws)"
proof (induction es)
  case (Cons e es)
  with shift_word [OF plain_edge_words, of "dec_nat (unat (idx e))" ws es]
    shift_word [of "[]" "''-''" ws]
  show ?case
    by (simp add: plain_dec_nat plain_dash dec_nat_not_dash cp_integer_idx used_edges_def)
qed (simp add: used_edges_def)

lemma parse_indices_words:
  "\<forall>w\<in>set ws. plain_word w \<Longrightarrow>
    parse_indices (length es) (unwords (edge_words es @ ws)) = Some (used_edges es, unwords ws, False)"
proof (induction es)
  case (Cons e es)
  with shift_word [OF plain_edge_words, of "dec_nat (unat (idx e))" ws es]
    shift_word [of "[]" "''-''" ws]
  show ?case
    by (simp add: plain_dec_nat plain_dash dec_nat_not_dash cp_integer_idx used_edges_def)
qed (simp add: used_edges_def)

context xid_text
begin

lemma dag_node_words_ok:
  "\<forall>m\<in>set ms. ok (nxid m) \<Longrightarrow>
    \<exists>ws. dag_node_words revquery ms = Inr ws \<and> (\<forall>w\<in>set ws. plain_word w)"
proof (induction ms)
  case (Cons m ms)
  then show ?case
    using printed [of "nxid m"] printed_plain [of "nxid m"] plain_edge_words [of "nedge m"] by auto
qed simp

lemma parse_dag_nodes_words:
  assumes "dag_node_words revquery ms = Inr ws"
    and "\<forall>m\<in>set ms. ok (nxid m) \<and> length (nedge m) = CLICK_XIA_XID_EDGE_NUM"
    and "ms \<noteq> []"
  shows "parse_dag_nodes ctx (unwords ws) acc =
    (True, acc @ map (\<lambda>m. Node_default\<lparr>pxid := nxid m, edges := used_edges (nedge m)\<rparr>) (butlast ms)
       @ [Node_default\<lparr>pxid := nxid (last ms)\<rparr>])"
  using assms
proof (induction ms arbitrary: ws acc)
  case (Cons m ms)
  from Cons.prems have m: "ok (nxid m)" "length (nedge m) = CLICK_XIA_XID_EDGE_NUM" by auto
  obtain vs where vs: "dag_node_words revquery ms = Inr vs" "\<forall>w\<in>set vs. plain_word w"
    using dag_node_words_ok [of ms] Cons.prems by auto
  have ne: "pr (nxid m) \<noteq> []" using printed_plain [OF m(1)] by (simp add: plain_word_def)
  show ?case
  proof (cases "ms = []")
    case True
    then have "cp_shift_spacevec (unwords ws) = (pr (nxid m), [])"
      using Cons.prems(1) vs printed [OF m(1)] printed_plain [OF m(1)]
        cp_shift_spacevec_unwords [of "pr (nxid m)" "[]"] by simp
    with True ne show ?thesis
      by (subst parse_dag_nodes.simps)
        (simp add: read_printed [OF m(1)] CLICK_XIA_XID_EDGE_NUM_def numeral_eq_Suc Node_default_def)
  next
    case False
    then have ws: "ws = pr (nxid m) # edge_words (nedge m) @ vs"
      using Cons.prems(1) vs printed [OF m(1)] by auto
    have "cp_shift_spacevec (unwords ws) = (pr (nxid m), unwords (edge_words (nedge m) @ vs))"
      unfolding ws using printed_plain [OF m(1)] plain_edge_words vs(2)
      by (intro cp_shift_spacevec_unwords) auto
    moreover have "parse_indices CLICK_XIA_XID_EDGE_NUM (unwords (edge_words (nedge m) @ vs)) =
        Some (used_edges (nedge m), unwords vs, False)"
      using parse_indices_words [OF vs(2), of "nedge m"] m(2) by simp
    ultimately show ?thesis
      using Cons.IH [OF vs(1), of "acc @ [Node_default\<lparr>pxid := nxid m, edges := used_edges (nedge m)\<rparr>]"]
        Cons.prems(2) False ne
      by (subst parse_dag_nodes.simps) (simp add: read_printed [OF m(1)])
  qed
qed simp

text \<open>The printed list is read back as the packet form is.\<close>

lemma parse_dag_words:
  assumes "dag_node_words revquery ms = Inr ws" "ms \<noteq> []" "length ms < 2 ^ 64"
    and ms: "\<forall>m\<in>set ms. ok (nxid m) \<and> length (nedge m) = CLICK_XIA_XID_EDGE_NUM \<and> packed (nedge m)"
  shows "parse_dag ctx (spaced (edge_words (nedge (last ms)) @ ws)) = (True, parse_node ms)"
proof -
  have plain: "\<forall>w\<in>set ws. plain_word w"
    using dag_node_words_ok [of ms] assms(1) ms by auto
  have ws: "ws \<noteq> []"
    using assms(1,2) by (cases ms) auto
  have last: "last ms \<in> set ms" using assms(2) by simp
  have src: "parse_src_indices CLICK_XIA_XID_EDGE_NUM (unwords (edge_words (nedge (last ms)) @ ws)) =
      Some (used_edges (nedge (last ms)), unwords ws)"
    using parse_src_indices_words [OF plain, of "nedge (last ms)"] ms last by simp
  have used: "used_edges (nedge m) = parse_edges (nedge m)" if "m \<in> set ms" for m
    using ms that by (simp add: packed_def used_edges_def)
  have "map graph_node (butlast ms) =
      map (\<lambda>m. Node_default\<lparr>pxid := nxid m, edges := used_edges (nedge m)\<rparr>) (butlast ms)"
    using used by (auto simp: graph_node_def dest: in_set_butlastD)
  then have node: "parse_node ms = \<lparr>nodes =
      map (\<lambda>m. Node_default\<lparr>pxid := nxid m, edges := used_edges (nedge m)\<rparr>) (butlast ms)
      @ [Node_default\<lparr>pxid := nxid (last ms)\<rparr>, Node_default\<lparr>edges := used_edges (nedge (last ms))\<rparr>],
      src = length ms, dst = length ms - 1\<rparr>"
    using parse_node_snoc [of "butlast ms" "last ms"] assms(2) used [OF last]
    by (simp add: graph_node_def Node_default_def)
  have "spaced (edge_words (nedge (last ms)) @ ws) = unwords (edge_words (nedge (last ms)) @ ws)"
    unfolding spaced_def using ws by (intro butlast_words) simp
  moreover have "to_size (int (Suc (length ms)) - 2) = length ms - 1"
    using assms(2,3) by (subst to_size_nonneg) (auto simp: nat_diff_distrib Suc_le_eq)
  ultimately show ?thesis
    using src parse_dag_nodes_words [OF assms(1), of "[]"] ms assms(2) node
    by (simp add: parse_dag_def)
qed

lemma unparse_dag_words:
  assumes v: "is_valid p = Inr (True, p')" and n: "length (nodes p) \<le> 128"
    and buf: "length buf = unparse_node_size p"
    and xids: "\<forall>i < length (nodes p). i \<noteq> src p \<longrightarrow> ok (pxid (nodes p ! i))"
  shows "\<exists>s p2 q f. unparse_dag revquery buf p = Inr (s, p2)
    \<and> parse_dag ctx s = (True, q) \<and> path_iso f p q"
proof -
  note again = is_valid_again [OF v]
  obtain p2 where v2: "is_valid p' = Inr (True, p2)" using again(4) by blast
  have l: "length (nodes p') = length (nodes p)" using again(1) by (simp add: same_graph_def)
  then have n': "length (nodes p') \<le> 128" "length buf = unparse_node_size p'"
    using n buf by (simp_all add: unparse_node_size_def)
  obtain ms f where run: "unparse_node buf (length buf) p' = Inr (length buf, ms, p2)"
    and ms: "length ms = length buf" "0 < length ms" "path_iso f p' (parse_node ms)"
    and pos: "\<forall>m\<in>set ms. length (nedge m) = CLICK_XIA_XID_EDGE_NUM \<and> packed (nedge m)
        \<and> (\<exists>i < length (nodes p'). i \<noteq> src p' \<and> nxid m = pxid (nodes p' ! i))"
    using valid_node_list [OF v2 n'] by blast
  have good: "\<forall>m\<in>set ms. ok (nxid m) \<and> length (nedge m) = CLICK_XIA_XID_EDGE_NUM \<and> packed (nedge m)"
    using pos xids l again(1,2) by (fastforce simp: same_graph_def)
  then obtain ws where ws: "dag_node_words revquery ms = Inr ws"
    using dag_node_words_ok by blast
  have "length ms < 2 ^ 64" using ms(1) n' by (simp add: unparse_node_size_def)
  with parse_dag_words [OF ws _ _ good] ms(2)
  have "parse_dag ctx (spaced (edge_words (nedge (last ms)) @ ws)) = (True, parse_node ms)" by auto
  moreover have "unparse_dag revquery buf p = Inr (spaced (edge_words (nedge (last ms)) @ ws), p2)"
    using v run ws n'(2) by (simp add: unparse_dag_def)
  ultimately show ?thesis
    using path_iso_same_graph [OF again(1-3) ms(3)] by blast
qed

end

text \<open>
  C21. The text of a valid path whose XIDs are canonical (wellformed, with a type that has a name) and that has at most 128 nodes is
  parsed back as the same path, up to the numbering of its nodes. Edges to later nodes and types without a name do not survive.
\<close>

theorem parse_dag_unparse_dag:
  assumes "is_valid p = Inr (True, p')" "length (nodes p) \<le> 128"
    and "length buf = unparse_node_size p"
    and "\<forall>i < length (nodes p). i \<noteq> src p \<longrightarrow> canonical_xid (pxid (nodes p ! i))"
  shows "\<exists>s p2 q f. unparse_dag (\<lambda>_. []) buf p = Inr (s, p2)
    \<and> parse_dag (no_context (\<lambda>_. None)) s = (True, q) \<and> path_iso f p q"
  by (rule canonical.unparse_dag_words [OF assms])

lemma canonical_default: "canonical_xid XID_default"
proof -
  have "htonl 0 = 0" by code_simp
  then show ?thesis
    by (simp add: canonical_xid_def known_type_def CLICK_XIA_XID_TYPE_UNDEF_def) (simp add: XID_default_def)
qed

theorem parse_dag_unparse_dag_witness:
  "\<exists>s p2 q f. unparse_dag (\<lambda>_. []) (replicate 3 undefined) diamond = Inr (s, p2)
    \<and> parse_dag (no_context (\<lambda>_. None)) s = (True, q) \<and> path_iso f diamond q"
proof -
  obtain p' where v: "is_valid diamond = Inr (True, p')" using diamond_valid by blast
  have "\<forall>i < length (nodes diamond). canonical_xid (pxid (nodes diamond ! i))"
    using canonical_default by (simp add: diamond_def nth_Cons')
  then show ?thesis
    by (intro parse_dag_unparse_dag [OF v]) (simp_all add: diamond_def unparse_node_size_def)
qed

text \<open>Printing a path changes at most the orders of its nodes.\<close>

lemma same_graph_refl: "same_graph ns ns"
  by (simp add: same_graph_def)

lemma same_graph_trans: "same_graph a b \<Longrightarrow> same_graph b c \<Longrightarrow> same_graph a c"
  by (auto simp: same_graph_def)

lemma topological_ordering_same:
  "wf_graph (nodes p) \<Longrightarrow> topological_ordering p = Inr (b, q) \<Longrightarrow> same_graph (nodes q) (nodes p)"
  using topological_ordering_spec [of p] by auto

lemma is_valid_same:
  "wf_graph (nodes p) \<Longrightarrow> is_valid p = Inr (b, q) \<Longrightarrow> same_graph (nodes q) (nodes p)"
  using topological_ordering_same [of p b q]
  by (auto simp: is_valid_shape same_graph_refl split: if_splits)

lemma unparse_node_same:
  "wf_graph (nodes p) \<Longrightarrow> unparse_node buf n p = Inr (m, ms, q) \<Longrightarrow> same_graph (nodes q) (nodes p)"
  using topological_ordering_same [of p]
  by (auto simp: unparse_node_def Let_def split: if_splits)

lemma unparse_dag_same:
  assumes wf: "wf_graph (nodes p)" and u: "unparse_dag revquery buf p = Inr (s, q)"
  shows "same_graph (nodes q) (nodes p)"
proof -
  from u obtain b p1 where v: "is_valid p = Inr (b, p1)"
    and r: "(if \<not> b then Inr (''(invalid)'', p1)
       else let n = unparse_node_size p1 in
         bind_run (unparse_node buf n p1) (\<lambda>(m, ms, p2).
           if m \<noteq> n then Inl Assert_failed
           else bind_run (dag_node_words revquery ms) (\<lambda>ws.
             Inr (spaced (edge_words (nedge (last ms)) @ ws), p2)))) = Inr (s, q)"
    by (auto simp: unparse_dag_def)
  have same: "same_graph (nodes p1) (nodes p)" by (rule is_valid_same [OF wf v])
  have "same_graph (nodes q) (nodes p1)"
    using r unparse_node_same [OF same_graph_wf [OF same wf]]
    by (auto simp: same_graph_refl Let_def split: if_splits)
  with same show ?thesis by (rule same_graph_trans [rotated])
qed

lemma unparse_re_same:
  "wf_graph (nodes p) \<Longrightarrow> unparse_re revquery p = Some (Inr (s, q)) \<Longrightarrow> same_graph (nodes q) (nodes p)"
  using is_valid_same [of p] by (auto simp: unparse_re_def split: sum.splits if_splits)

lemma XIAPath_unparse_ends:
  assumes "wf_graph (nodes p)"
  shows "\<exists>r. XIAPath_unparse revquery buf p = Some r
    \<and> (\<forall>s q. r = Inr (s, q) \<longrightarrow> same_graph (nodes q) (nodes p))"
proof -
  obtain r where r: "unparse_re revquery p = Some r"
    using unparse_re_ends [OF assms] by blast
  have "same_graph (nodes q) (nodes p)"
    if "XIAPath_unparse revquery buf p = Some (Inr (s, q))" for s q
  proof -
    from that r obtain s1 p1 where 1: "r = Inr (s1, p1)" by (auto simp: XIAPath_unparse_def)
    with r assms have same: "same_graph (nodes p1) (nodes p)" by (simp add: unparse_re_same)
    show ?thesis
      using that r 1 unparse_dag_same [OF same_graph_wf [OF same assms]] same
      by (auto simp: XIAPath_unparse_def split: if_splits intro: same_graph_trans [OF _ same])
  qed
  with r show ?thesis by (auto simp: XIAPath_unparse_def)
qed

end
