(* ===== verification/Xia_Path_Re.thy ===== *)
theory Xia_Path_Re
  imports Xia_Path_Text
begin

text \<open>
  The round trip of the chain form of a path: what \<^verbatim>\<open>parse_re\<close> builds from a chain of main nodes with
  fallback nodes is a valid path, and \<^verbatim>\<open>unparse_re\<close> prints the chain again.
\<close>

section \<open>Chains and their graphs\<close>

text \<open>A chain: each main node with the fallback nodes on the way to it.\<close>

type_synonym re = "(click_xia_xid list \<times> click_xia_xid) list"

fun re_words :: "(click_xia_xid \<Rightarrow> string) \<Rightarrow> re \<Rightarrow> string list" where
  "re_words pr [] = []"
| "re_words pr ((fb, m) # c) =
     (if fb = [] then [] else ''('' # map pr fb @ ['')'' ]) @ pr m # re_words pr c"

fun re_size :: "re \<Rightarrow> nat" where
  "re_size [] = 0"
| "re_size ((fb, m) # c) = Suc (length fb + re_size c)"

text \<open>
  \<open>re_graph ns b i c\<close>: from node \<open>i\<close> the graph continues as the chain \<open>c\<close>, whose nodes are those from \<open>b\<close> on.
\<close>

fun re_graph :: "path_node list \<Rightarrow> nat \<Rightarrow> nat \<Rightarrow> re \<Rightarrow> bool" where
  "re_graph ns b i [] \<longleftrightarrow> edges (ns ! i) = []"
| "re_graph ns b i ((fb, m) # c) \<longleftrightarrow>
     edges (ns ! i) = (b + length fb) # (if fb = [] then [] else [b])
     \<and> (\<forall>k < length fb. pxid (ns ! (b + k)) = fb ! k \<and> edges (ns ! (b + k)) =
          (b + length fb) # (if Suc k < length fb then [Suc (b + k)] else []))
     \<and> pxid (ns ! (b + length fb)) = m
     \<and> re_graph ns (Suc (b + length fb)) (b + length fb) c"

lemma re_graph_same:
  "same_graph ns' ns \<Longrightarrow> b + re_size c \<le> length ns \<Longrightarrow> i < length ns \<Longrightarrow> re_graph ns b i c \<Longrightarrow>
    re_graph ns' b i c"
  by (induction c arbitrary: b i) (auto simp: same_graph_def)

section \<open>The graph of a chain is valid\<close>

text \<open>
  Edges lead upwards and stay inside the chain, only its last node has none, and every node of it is
  reached by an edge.
\<close>

definition re_step :: "nat \<Rightarrow> nat \<Rightarrow> path_node \<Rightarrow> bool" where
  "re_step j d n \<longleftrightarrow> (\<forall>e\<in>set (edges n). j < e \<and> e < d) \<and> (edges n = [] \<longleftrightarrow> Suc j = d)
     \<and> length (edges n) \<le> 2"

lemma re_graph_head:
  "re_graph ns b i c \<Longrightarrow> (\<forall>e\<in>set (edges (ns ! i)). b \<le> e \<and> e < b + re_size c)
    \<and> (edges (ns ! i) = [] \<longleftrightarrow> c = []) \<and> length (edges (ns ! i)) \<le> 2"
  by (cases c) (auto split: if_splits)

lemma re_graph_steps:
  "re_graph ns b i c \<Longrightarrow> b \<le> j \<Longrightarrow> j < b + re_size c \<Longrightarrow> re_step j (b + re_size c) (ns ! j)"
proof (induction c arbitrary: b i)
  case (Cons x c)
  obtain fb m where x: "x = (fb, m)" by force
  let ?M = "b + length fb"
  from Cons.prems x have g: "re_graph ns (Suc ?M) ?M c"
    and f: "\<And>k. k < length fb \<Longrightarrow> edges (ns ! (b + k)) =
      ?M # (if Suc k < length fb then [Suc (b + k)] else [])"
    by auto
  consider "j < ?M" | "j = ?M" | "Suc ?M \<le> j" by linarith
  then show ?case
  proof cases
    case 1
    then obtain k where "j = b + k" "k < length fb"
      using Cons.prems(2) by (metis le_Suc_ex nat_add_left_cancel_less)
    with f [of k] x show ?thesis by (auto simp: re_step_def split: if_splits)
  next
    case 2
    with re_graph_head [OF g] x show ?thesis
      by (cases c) (auto simp: re_step_def Suc_le_eq)
  next
    case 3
    with Cons.IH [OF g] Cons.prems(3) x show ?thesis by (simp add: add.commute add.left_commute)
  qed
qed simp

lemma re_graph_reached:
  "re_graph ns b i c \<Longrightarrow> b \<le> j \<Longrightarrow> j < b + re_size c \<Longrightarrow>
    \<exists>u. (u = i \<or> b \<le> u \<and> u < b + re_size c) \<and> j \<in> set (edges (ns ! u))"
proof (induction c arbitrary: b i)
  case (Cons x c)
  obtain fb m where x: "x = (fb, m)" by force
  let ?M = "b + length fb"
  from Cons.prems x have g: "re_graph ns (Suc ?M) ?M c"
    and e: "edges (ns ! i) = ?M # (if fb = [] then [] else [b])"
    and f: "\<And>k. k < length fb \<Longrightarrow> edges (ns ! (b + k)) =
      ?M # (if Suc k < length fb then [Suc (b + k)] else [])"
    by auto
  consider "j = ?M" | "j = b" "fb \<noteq> []" | k where "j = Suc (b + k)" "Suc k < length fb" | "Suc ?M \<le> j"
  proof -
    assume "j = ?M \<Longrightarrow> thesis" "j = b \<Longrightarrow> fb \<noteq> [] \<Longrightarrow> thesis"
      "\<And>k. j = Suc (b + k) \<Longrightarrow> Suc k < length fb \<Longrightarrow> thesis" "Suc ?M \<le> j \<Longrightarrow> thesis"
    moreover obtain k where "j = b + k" using Cons.prems(2) le_Suc_ex by blast
    ultimately show thesis by (cases k; cases fb) fastforce+
  qed
  then show ?case
  proof cases
    case 3
    then show ?thesis using f [of k] x by (intro exI [of _ "b + k"]) auto
  next
    case 4
    then obtain u where "u = ?M \<or> Suc ?M \<le> u \<and> u < Suc ?M + re_size c" "j \<in> set (edges (ns ! u))"
      using Cons.IH [OF g] Cons.prems(3) x by auto
    then show ?thesis using x by (intro exI [of _ u]) auto
  qed (use e in auto)
qed simp

lemma re_path_valid:
  assumes g: "re_graph ns 0 d c" and d: "d = re_size c" and c: "c \<noteq> []" and l: "length ns = Suc d"
  shows "\<exists>p'. is_valid \<lparr>nodes = ns, src = d, dst = d - 1\<rparr> = Inr (True, p')"
proof -
  let ?p = "\<lparr>nodes = ns, src = d, dst = d - 1\<rparr>"
  note head = re_graph_head [OF g] and reached = re_graph_reached [OF g]
  have pos: "0 < d" using c d by (cases c) auto
  have step: "re_step j d (ns ! j)" if "j < d" for j
    using re_graph_steps [OF g, of j] that d by simp
  have le: "e < d" if "u \<le> d" "e \<in> set (edges (ns ! u))" for u e
    using head step [of u] that d by (cases "u = d") (auto simp: re_step_def)
  have wf: "wf_graph ns"
    unfolding wf_graph_def all_set_conv_all_nth [of ns]
    using le l by (metis less_Suc_eq less_Suc_eq_le)
  have "edge_rel ns \<subseteq> measure (\<lambda>j. if j = d then 0 else Suc j)"
  proof
    fix r
    assume "r \<in> edge_rel ns"
    then obtain u v where r: "r = (u, v)" "u \<le> d" "v \<in> set (edges (ns ! u))"
      using l by (auto simp: edge_rel_def)
    with le have "v < d" by blast
    with r step [of u] show "r \<in> measure (\<lambda>j. if j = d then 0 else Suc j)"
      by (cases "u = d") (auto simp: re_step_def)
  qed
  then have "acyclic (edge_rel ns)" by (meson wf_acyclic wf_measure wf_subset)
  moreover have "valid_shape ?p"
  proof -
    have "edges (ns ! j) = [] \<longrightarrow> j = d - 1" "length (edges (ns ! j)) \<le> 4" if "j \<le> d" for j
      using head step [of j] that c by (cases "j = d"; auto simp: re_step_def)+
    moreover have "\<exists>u. (u, j) \<in> edge_rel ns" if "j < d" for j
      using reached [of j] that d l by (auto simp: edge_rel_def intro: less_SucI)
    ultimately show ?thesis
      using pos l by (simp add: valid_shape_def Let_def less_Suc_eq_le)
  qed
  ultimately show ?thesis using is_valid_iff [of ?p] wf by simp
qed

section \<open>Parsing a chain\<close>

lemma fallback_nodes_nth:
  "k < length fb \<Longrightarrow> b + length fb < 2 ^ 64 \<Longrightarrow>
    pxid (fallback_nodes M (int b) fb ! k) = fb ! k
    \<and> edges (fallback_nodes M (int b) fb ! k) = M # (if Suc k < length fb then [Suc (b + k)] else [])"
proof (induction fb arbitrary: b k)
  case (Cons x fb)
  have s: "to_size (int b + 1) = Suc b"
    using to_size_int [of "Suc b"] Cons.prems by (simp add: add.commute)
  show ?case
    using Cons.IH [of _ "Suc b"] Cons.prems s
    by (cases k) (auto simp: add.commute)
qed simp

lemma length_fallback_nodes [simp]: "length (fallback_nodes M i fb) = length fb"
  by (induction fb arbitrary: i) auto

lemma main_edges_nat:
  "b + length fb < 2 ^ 64 \<Longrightarrow>
    main_edges (int b - 1) fb = (b + length fb) # (if fb = [] then [] else [b])"
  using to_size_int [of "b + length fb"] to_size_int [of b] by (simp add: main_edges_def)

lemma plain_paren: "plain_word ''(''" "plain_word '')''"
  by (simp_all add: plain_word_def plain_char_def isspace_def)

definition re_ok :: "(click_xia_xid \<Rightarrow> bool) \<Rightarrow> re \<Rightarrow> bool" where
  "re_ok ok c \<longleftrightarrow> (\<forall>(fb, m)\<in>set c. ok m \<and> (\<forall>x\<in>set fb. ok x))"

context xid_text
begin

lemma plain_re_words: "re_ok ok c \<Longrightarrow> \<forall>w\<in>set (re_words pr c). plain_word w"
proof (induction c)
  case (Cons x c)
  then show ?case by (cases x) (auto simp: re_ok_def plain_paren printed_plain split: if_splits)
qed simp

lemma parse_fallback_words:
  "\<forall>x\<in>set fb. ok x \<Longrightarrow> \<forall>w\<in>set ws. plain_word w \<Longrightarrow>
    parse_fallback ctx (unwords (map pr fb @ '')'' # ws)) acc = Some (acc @ fb, unwords ws)"
proof (induction fb arbitrary: acc)
  case Nil
  then show ?case
    using cp_shift_spacevec_unwords [OF plain_paren(2), of ws] by (subst parse_fallback.simps) simp
next
  case (Cons x fb)
  have "cp_shift_spacevec (unwords (pr x # map pr fb @ '')'' # ws)) = (pr x, unwords (map pr fb @ '')'' # ws))"
    using Cons.prems plain_paren printed_plain by (intro cp_shift_spacevec_unwords) auto
  then show ?case
    using Cons printed_word [of x] read_printed [of x] by (subst parse_fallback.simps) simp
qed

text \<open>One iteration: the words of a main node with its fallback nodes.\<close>

lemma parse_main_words:
  assumes "ok m" "\<forall>x\<in>set fb. ok x" "re_ok ok c"
  defines "s \<equiv> unwords (re_words pr ((fb, m) # c))"
  shows "fst (cp_shift_spacevec s) \<noteq> []"
    and "parse_main ctx (fst (cp_shift_spacevec s)) (snd (cp_shift_spacevec s)) =
      Some (fb, pr m, unwords (re_words pr c))"
proof -
  have pw: "plain_word (pr m)" "pr m \<noteq> []" "pr m \<noteq> ''(''"
    using printed_plain [OF assms(1)] printed_word [OF assms(1)] by (auto simp: plain_word_def)
  have m: "cp_shift_spacevec (unwords (pr m # re_words pr c)) = (pr m, unwords (re_words pr c))"
    by (rule cp_shift_spacevec_unwords [OF pw(1) plain_re_words [OF assms(3)]])
  have p: "\<forall>w\<in>set (pr m # re_words pr c). plain_word w"
    using pw(1) plain_re_words [OF assms(3)] by simp
  have "cp_shift_spacevec (unwords (''('' # map pr fb @ '')'' # pr m # re_words pr c)) =
      (''('', unwords (map pr fb @ '')'' # pr m # re_words pr c))"
    using p plain_paren assms(2) printed_plain by (intro cp_shift_spacevec_unwords) auto
  with m pw parse_fallback_words [OF assms(2) p, of "[]"]
  show "fst (cp_shift_spacevec s) \<noteq> []"
    and "parse_main ctx (fst (cp_shift_spacevec s)) (snd (cp_shift_spacevec s)) =
      Some (fb, pr m, unwords (re_words pr c))"
    by (auto simp: s_def parse_main_def)
qed

lemma re_graph_iteration:
  assumes g: "re_graph (acc @ node # fbs @ ns @ [src_node]) (Suc (Suc (length acc) + length fb))
      (Suc (length acc) + length fb) c"
    and node: "edges node = (Suc (length acc) + length fb) # (if fb = [] then [] else [Suc (length acc)])"
    and fbs: "fbs = fallback_nodes (Suc (length acc) + length fb) (int (Suc (length acc))) fb"
    and ns: "ns \<noteq> []" "pxid (ns ! 0) = m"
    and bound: "Suc (length acc) + length fb < 2 ^ 64"
  shows "re_graph (acc @ node # fbs @ ns @ [src_node]) (Suc (length acc)) (length acc) ((fb, m) # c)"
proof -
  let ?all = "acc @ node # fbs @ ns @ [src_node]"
  have l: "length fbs = length fb" by (simp add: fbs)
  have "?all ! (Suc (length acc) + k) = fbs ! k" if "k < length fb" for k
    using that l by (simp add: nth_append)
  moreover have "?all ! (Suc (length acc) + length fb) = ns ! 0"
    using l ns(1) by (simp add: nth_append)
  moreover have "?all ! length acc = node" by simp
  ultimately show ?thesis
    using g node ns(2) fallback_nodes_nth [OF _ bound] unfolding re_graph.simps fbs by auto
qed

lemma parse_re_loop_words:
  assumes "re_ok ok c" "Suc (length acc) + re_size c < 2 ^ 64"
  shows "\<exists>ns. parse_re_loop ctx (unwords (re_words pr c)) prev (int (length acc)) src_node acc =
      (True, \<lparr>nodes = acc @ ns @ [src_node], src = length acc + length ns, dst = length acc + length ns - 1\<rparr>)
    \<and> length ns = Suc (re_size c) \<and> pxid (ns ! 0) = prev
    \<and> re_graph (acc @ ns @ [src_node]) (Suc (length acc)) (length acc) c"
  using assms
proof (induction c arbitrary: acc prev)
  case Nil
  then show ?case
    by (intro exI [of _ "[Node_default\<lparr>pxid := prev\<rparr>]"], subst parse_re_loop.simps)
      (simp add: Node_default_def)
next
  case (Cons x c)
  obtain fb m where x: "x = (fb, m)" by force
  from Cons.prems x have ok: "ok m" "\<forall>x\<in>set fb. ok x" "re_ok ok c" by (auto simp: re_ok_def)
  let ?b = "Suc (length acc)"
  let ?node = "Node_default\<lparr>pxid := prev, edges := main_edges (int (length acc)) fb\<rparr>"
  let ?fbs = "fallback_nodes (?b + length fb) (int ?b) fb"
  let ?acc = "acc @ ?node # ?fbs"
  have lt: "?b + length fb < 2 ^ 64" using Cons.prems(2) x by simp
  have M: "to_size (int (length acc) + 1 + int (length fb)) = ?b + length fb"
    using to_size_int [OF lt] by (simp add: algebra_simps)
  have me: "main_edges (int (length acc)) fb = (?b + length fb) # (if fb = [] then [] else [?b])"
    using main_edges_nat [OF lt] by simp
  have la: "length ?acc = ?b + length fb" by simp
  note w = parse_main_words [OF ok]
  have step: "parse_re_loop ctx (unwords (re_words pr (x # c))) prev (int (length acc)) src_node acc =
      parse_re_loop ctx (unwords (re_words pr c)) m (int (length ?acc)) src_node ?acc"
    using w read_printed [OF ok(1)] M unfolding x
    by (subst parse_re_loop.simps) (simp add: Let_def algebra_simps)
  obtain ns where run: "parse_re_loop ctx (unwords (re_words pr c)) m (int (length ?acc)) src_node ?acc =
        (True, \<lparr>nodes = ?acc @ ns @ [src_node], src = length ?acc + length ns,
          dst = length ?acc + length ns - 1\<rparr>)"
    and ns: "length ns = Suc (re_size c)" "pxid (ns ! 0) = m"
      "re_graph (?acc @ ns @ [src_node]) (Suc (length ?acc)) (length ?acc) c"
    using Cons.IH [OF ok(3), of ?acc m] Cons.prems(2) x la by auto
  have g: "re_graph (acc @ ?node # ?fbs @ ns @ [src_node]) ?b (length acc) ((fb, m) # c)"
    using ns me lt la by (intro re_graph_iteration) auto
  show ?case
  proof (intro exI conjI)
    show "parse_re_loop ctx (unwords (re_words pr (x # c))) prev (int (length acc)) src_node acc =
        (True, \<lparr>nodes = acc @ (?node # ?fbs @ ns) @ [src_node],
          src = length acc + length (?node # ?fbs @ ns), dst = length acc + length (?node # ?fbs @ ns) - 1\<rparr>)"
      unfolding step run by simp
    show "length (?node # ?fbs @ ns) = Suc (re_size (x # c))" by (simp add: ns x)
    show "pxid ((?node # ?fbs @ ns) ! 0) = prev" by simp
    show "re_graph (acc @ (?node # ?fbs @ ns) @ [src_node]) ?b (length acc) (x # c)"
      using g unfolding x by (simp only: append_Cons append_assoc)
  qed
qed

text \<open>The first iteration makes the source node; the nodes from 0 on are the chain.\<close>

lemma parse_re_words:
  assumes ok: "re_ok ok c" and c: "c \<noteq> []" and n: "re_size c < 2 ^ 32"
  shows "\<exists>ns. parse_re ctx (unwords (re_words pr c)) =
      (True, \<lparr>nodes = ns, src = re_size c, dst = re_size c - 1\<rparr>)
    \<and> length ns = Suc (re_size c) \<and> re_graph ns 0 (re_size c) c"
proof -
  obtain fb m r where x: "c = (fb, m) # r" using c by (metis list.exhaust surj_pair)
  from ok x have o: "ok m" "\<forall>x\<in>set fb. ok x" "re_ok ok r" by (auto simp: re_ok_def)
  let ?node = "Node_default\<lparr>pxid := XID_default, edges := main_edges (- 1) fb\<rparr>"
  let ?fbs = "fallback_nodes (length fb) 0 fb"
  have lt: "length fb < 2 ^ 64" using n x by simp
  have me: "main_edges (- 1) fb = length fb # (if fb = [] then [] else [0])"
    using main_edges_nat [of 0 fb] lt by simp
  have step: "parse_re ctx (unwords (re_words pr c)) =
      parse_re_loop ctx (unwords (re_words pr r)) m (int (length ?fbs)) ?node ?fbs"
    using parse_main_words [OF o] read_printed [OF o(1)] to_size_int [OF lt]
    unfolding parse_re_def x by (subst parse_re_loop.simps) (simp add: Let_def)
  obtain ns where run: "parse_re_loop ctx (unwords (re_words pr r)) m (int (length ?fbs)) ?node ?fbs =
        (True, \<lparr>nodes = ?fbs @ ns @ [?node], src = length ?fbs + length ns,
          dst = length ?fbs + length ns - 1\<rparr>)"
    and ns: "length ns = Suc (re_size r)" "pxid (ns ! 0) = m"
      "re_graph (?fbs @ ns @ [?node]) (Suc (length ?fbs)) (length ?fbs) r"
    using parse_re_loop_words [OF o(3), of ?fbs m ?node] n x by auto
  have "re_graph (?fbs @ ns @ [?node]) 0 (re_size c) c"
  proof -
    have "(?fbs @ ns @ [?node]) ! k = ?fbs ! k" if "k < length fb" for k
      using that by (simp add: nth_append)
    moreover have "(?fbs @ ns @ [?node]) ! length fb = ns ! 0"
      using ns(1) by (simp add: nth_append)
    moreover have "(?fbs @ ns @ [?node]) ! Suc (length fb + re_size r) = ?node"
      using ns(1) by (simp add: nth_append)
    ultimately show ?thesis
      using ns(2,3) me fallback_nodes_nth [of _ fb 0 "length fb"] lt x by simp
  qed
  with step run ns(1) x show ?thesis
    by (intro exI [of _ "?fbs @ ns @ [?node]"]) (simp del: re_graph.simps)
qed

lemma fallback_words_chain:
  assumes "\<forall>k < length fb. pxid (ns ! (b + k)) = fb ! k \<and> edges (ns ! (b + k)) =
      M # (if Suc k < length fb then [Suc (b + k)] else [])"
    and "b + length fb \<le> length ns" "\<forall>x\<in>set fb. ok x"
  shows "k < length fb \<Longrightarrow> fallback_words revquery ns M (b + k) acc =
    Some (Inr (Some (acc @ map pr (drop k fb))))"
proof (induction "length fb - k" arbitrary: k acc rule: less_induct)
  case less
  from less.prems assms have n: "at ns (b + k) = Inr (ns ! (b + k))" "pxid (ns ! (b + k)) = fb ! k"
      "edges (ns ! (b + k)) = M # (if Suc k < length fb then [Suc (b + k)] else [])"
      "XID_unparse_pretty revquery (fb ! k) = Inr (pr (fb ! k))"
    using printed by auto
  have d: "drop k fb = fb ! k # drop (Suc k) fb" using less.prems by (simp add: Cons_nth_drop_Suc)
  show ?case
  proof (cases "Suc k < length fb")
    case True
    with less.hyps [of "Suc k" "acc @ [pr (fb ! k)]"] n d show ?thesis
      by (subst fallback_words.simps) simp
  next
    case False
    with n d less.prems show ?thesis by (subst fallback_words.simps) simp
  qed
qed

lemma re_words_loop_chain:
  "re_graph ns b i c \<Longrightarrow> re_ok ok c \<Longrightarrow> b + re_size c \<le> length ns \<Longrightarrow> i < length ns \<Longrightarrow>
    re_words_loop revquery ns i acc = Some (Inr (Some (acc @ re_words pr c)))"
proof (induction c arbitrary: b i acc)
  case Nil
  then show ?case by (subst re_words_loop.simps) simp
next
  case (Cons x c)
  obtain fb m where x: "x = (fb, m)" by force
  let ?M = "b + length fb"
  from Cons.prems x have e: "edges (ns ! i) = ?M # (if fb = [] then [] else [b])"
    and f: "\<forall>k < length fb. pxid (ns ! (b + k)) = fb ! k \<and> edges (ns ! (b + k)) =
      ?M # (if Suc k < length fb then [Suc (b + k)] else [])"
    and g: "pxid (ns ! ?M) = m" "re_graph ns (Suc ?M) ?M c"
    and ok: "ok m" "\<forall>x\<in>set fb. ok x" "re_ok ok c" and M: "?M < length ns"
    by (auto simp: re_ok_def)
  have rest: "re_words_loop revquery ns ?M acc' = Some (Inr (Some (acc' @ re_words pr c)))" for acc'
    using Cons.IH [OF g(2) ok(3)] Cons.prems(3) M x by simp
  have "fb \<noteq> [] \<Longrightarrow> fallback_words revquery ns ?M b acc' = Some (Inr (Some (acc' @ map pr fb)))" for acc'
    using fallback_words_chain [OF f _ ok(2), of 0] M by simp
  with rest e g(1) ok(1) M Cons.prems(4) show ?case
    unfolding x by (subst re_words_loop.simps) (cases "fb = []"; simp add: printed)
qed

lemma unparse_re_words:
  assumes ok: "re_ok ok c" and c: "c \<noteq> []" and n: "re_size c < 2 ^ 32"
  shows "\<exists>p p'. parse_re ctx (unwords (re_words pr c)) = (True, p) \<and> is_valid p = Inr (True, p')
    \<and> unparse_re revquery p = Some (Inr (unwords (re_words pr c), p'))"
proof -
  let ?p = "\<lambda>ns. \<lparr>nodes = ns, src = re_size c, dst = re_size c - 1\<rparr>"
  obtain ns where p: "parse_re ctx (unwords (re_words pr c)) = (True, ?p ns)"
      "length ns = Suc (re_size c)" "re_graph ns 0 (re_size c) c"
    using parse_re_words [OF assms] by blast
  obtain p' where v: "is_valid (?p ns) = Inr (True, p')"
    using re_path_valid [OF p(3) refl c p(2)] by blast
  note again = is_valid_again [OF v]
  have "re_graph (nodes p') 0 (re_size c) c" "length (nodes p') = Suc (re_size c)"
    using re_graph_same [of "nodes p'" ns] again(1) p(2,3) by (auto simp: same_graph_def)
  then have "re_words_loop revquery (nodes p') (src p') [] = Some (Inr (Some (re_words pr c)))"
    using re_words_loop_chain [of "nodes p'" 0 "re_size c" c "[]"] ok again(2) by simp
  moreover have "spaced (re_words pr c) = unwords (re_words pr c)"
    unfolding spaced_def using c by (intro butlast_words) (cases c; auto)
  ultimately show ?thesis using p(1) v by (auto simp: unparse_re_def)
qed

end

text \<open>
  C23. Every chain of canonical XIDs with their fallback paths survives its text form: \<^verbatim>\<open>parse_re\<close> accepts
  the text and builds a valid path, and \<^verbatim>\<open>unparse_re\<close> prints exactly that text again.
\<close>

theorem parse_re_unparse_re:
  assumes "re_ok canonical_xid c" "c \<noteq> []" "re_size c < 2 ^ 32"
  shows "\<exists>p p'. parse_re (no_context (\<lambda>_. None)) (unwords (re_words print_xid c)) = (True, p)
    \<and> is_valid p = Inr (True, p')
    \<and> unparse_re (\<lambda>_. []) p = Some (Inr (unwords (re_words print_xid c), p'))"
  by (rule canonical.unparse_re_words [OF assms])

theorem parse_re_unparse_re_witness:
  "\<exists>p p'. parse_re (no_context (\<lambda>_. None))
      (unwords (re_words print_xid [([], XID_default), ([XID_default, XID_default], XID_default)])) = (True, p)
    \<and> is_valid p = Inr (True, p')"
  using parse_re_unparse_re [of "[([], XID_default), ([XID_default, XID_default], XID_default)]"]
    canonical_default by (auto simp: re_ok_def)

end
