(* ===== verification/Xia_Header.thy ===== *)
theory Xia_Header
  imports Xia_Path_Nodes
begin

text \<open>
  The XIA network header (\<^verbatim>\<open>include/clicknet/xia.h\<close>, \<^verbatim>\<open>include/click/xiaheader.hh\<close>,
  \<^verbatim>\<open>lib/xiaheader.cc\<close>): its layout in bytes, the accessors of \<^verbatim>\<open>XIAHeader\<close> and
  \<^verbatim>\<open>WritableXIAHeader\<close>, and \<^verbatim>\<open>XIAHeaderEncap\<close>, which builds a header from two paths.
\<close>

section \<open>The header and its bytes\<close>

text \<open>Multi-byte fields hold what the host reads from the packet; \<open>hlast\<close> is a signed byte.\<close>

record click_xia =
  ver :: u8
  nxt :: u8
  plen :: u16
  hlim :: u8
  dnode :: u8
  snode :: u8
  hlast :: u8
  hnode :: "click_xia_xid_node list"

definition CLICK_XIA_NXT_NO :: u8 where
  "CLICK_XIA_NXT_NO = 59"

definition wf_hdr :: "click_xia \<Rightarrow> bool" where
  "wf_hdr h \<longleftrightarrow> length (hnode h) = unat (dnode h) + unat (snode h) \<and> (\<forall>m\<in>set (hnode h). wf_node m)"

definition edge_byte :: "click_xia_xid_edge \<Rightarrow> u8" where
  "edge_byte e = ucast (idx e) OR (if visited e then 0x80 else 0)"

definition edge_of_byte :: "u8 \<Rightarrow> click_xia_xid_edge" where
  "edge_of_byte b = \<lparr>idx = ucast b, visited = bit b 7\<rparr>"

definition node_bytes :: "click_xia_xid_node \<Rightarrow> u8 list" where
  "node_bytes m = XID_data (nxid m) @ map edge_byte (nedge m)"

definition node_of_bytes :: "u8 list \<Rightarrow> click_xia_xid_node" where
  "node_of_bytes bs =
     \<lparr>nxid = \<lparr>xid_type = of_le_bytes (take 4 bs), xid_id = take 20 (drop 4 bs)\<rparr>,
      nedge = map edge_of_byte (take 4 (drop 24 bs))\<rparr>"

definition hdr_bytes :: "click_xia \<Rightarrow> u8 list" where
  "hdr_bytes h = [ver h, nxt h] @ le_bytes 2 (plen h) @ [hlim h, dnode h, snode h, hlast h]
     @ concat (map node_bytes (hnode h))"

fun nodes_of_bytes :: "nat \<Rightarrow> u8 list \<Rightarrow> click_xia_xid_node list" where
  "nodes_of_bytes 0 bs = []"
| "nodes_of_bytes (Suc n) bs = node_of_bytes (take 28 bs) # nodes_of_bytes n (drop 28 bs)"

text \<open>The header at the start of a packet; reading one that the packet does not hold is a fault.\<close>

definition hdr_of_bytes :: "u8 list \<Rightarrow> click_xia run" where
  "hdr_of_bytes bs =
     (if length bs < 8 then Inl Out_of_range
      else
        let n = unat (bs ! 5) + unat (bs ! 6) in
        if length bs < 8 + 28 * n then Inl Out_of_range
        else Inr \<lparr>ver = bs ! 0, nxt = bs ! 1, plen = of_le_bytes (take 2 (drop 2 bs)), hlim = bs ! 4,
          dnode = bs ! 5, snode = bs ! 6, hlast = bs ! 7, hnode = nodes_of_bytes n (drop 8 bs)\<rparr>)"

section \<open>Reading a header\<close>

text \<open>The number of nodes is passed as one byte.\<close>

definition XIAHeader_hdr_size :: "nat \<Rightarrow> nat" where
  "XIAHeader_hdr_size dsnode = 8 + 28 * (dsnode mod 256)"

definition hdr_size :: "click_xia \<Rightarrow> nat" where
  "hdr_size h = XIAHeader_hdr_size (unat (dnode h) + unat (snode h))"

definition XIAHeader_plen :: "click_xia \<Rightarrow> u16" where
  "XIAHeader_plen h = ntohs (plen h)"

definition XIAHeader_last :: "click_xia \<Rightarrow> int" where
  "XIAHeader_last h = sint (hlast h)"

definition dst_path :: "click_xia \<Rightarrow> XIAPath" where
  "dst_path h = parse_node (take (unat (dnode h)) (hnode h))"

definition src_path :: "click_xia \<Rightarrow> XIAPath" where
  "src_path h = parse_node (take (unat (snode h)) (drop (unat (dnode h)) (hnode h)))"

text \<open>
  \<^verbatim>\<open>payload\<close> walks the extension headers. \<open>bs\<close> are the bytes from the current header on; the result is the
  distance from the first one, which may lie past the end of the packet.
\<close>

function payload_loop :: "u8 \<Rightarrow> u8 list \<Rightarrow> nat \<Rightarrow> nat run" where
  "payload_loop nx bs off =
     (if nx < CLICK_XIA_NXT_NO then
        (case bs of
           a # l # _ \<Rightarrow>
             if l = 0 then Inr off
             else payload_loop a (drop (unat l) bs) (off + unat l)
         | _ \<Rightarrow> Inl Out_of_range)
      else Inr off)"
  by pat_completeness auto
termination
  by (relation "measure (\<lambda>(nx, bs, off). length bs)") (auto simp: unat_gt_0 intro!: diff_less)

declare payload_loop.simps [simp del]

definition XIAHeader_payload :: "click_xia \<Rightarrow> u8 list \<Rightarrow> nat run" where
  "XIAHeader_payload h body = payload_loop (nxt h) body 0"

definition set_nxt :: "u8 \<Rightarrow> click_xia \<Rightarrow> click_xia" where
  "set_nxt x h = h\<lparr>nxt := x\<rparr>"

definition set_plen :: "u16 \<Rightarrow> click_xia \<Rightarrow> click_xia" where
  "set_plen x h = h\<lparr>plen := htons x\<rparr>"

definition set_last :: "u8 \<Rightarrow> click_xia \<Rightarrow> click_xia" where
  "set_last x h = h\<lparr>hlast := x\<rparr>"

definition set_hlim :: "u8 \<Rightarrow> click_xia \<Rightarrow> click_xia" where
  "set_hlim x h = h\<lparr>hlim := x\<rparr>"

section \<open>Building a header\<close>

record XIAHeaderEncap =
  ehdr :: click_xia
  edst :: XIAPath
  esrc :: XIAPath

definition XIAHeaderEncap_new :: XIAHeaderEncap where
  "XIAHeaderEncap_new =
     \<lparr>ehdr = \<lparr>ver = 1, nxt = CLICK_XIA_NXT_NO, plen = 0, hlim = 250, dnode = 0, snode = 0, hlast = - 1,
        hnode = []\<rparr>,
      edst = XIAPath_reset, esrc = XIAPath_reset\<rparr>"

definition XIAHeaderEncap_of :: "click_xia \<Rightarrow> XIAHeaderEncap" where
  "XIAHeaderEncap_of h = \<lparr>ehdr = h, edst = dst_path h, esrc = src_path h\<rparr>"

text \<open>
  \<open>junk\<close> is what the fresh memory holds. The block has room for the number of nodes modulo 256; writing a
  node beyond it is an overrun.
\<close>

definition update :: "(nat \<Rightarrow> click_xia_xid_node) \<Rightarrow> XIAHeaderEncap \<Rightarrow> XIAHeaderEncap run" where
  "update junk e =
     (let dn = unparse_node_size (edst e);
          sn = unparse_node_size (esrc e);
          room = (XIAHeader_hdr_size (dn + sn) - 8) div 28
      in bind_run (unparse_node (map junk [0..<dn]) dn (edst e)) (\<lambda>(n, dms, d).
         if room < n then Inl Buffer_overrun
         else if n \<noteq> dn then Inl Assert_failed
         else bind_run (unparse_node (map junk [dn..<dn + sn]) sn (esrc e)) (\<lambda>(n, sms, s).
         if room < dn + n then Inl Buffer_overrun
         else if n \<noteq> sn then Inl Assert_failed
         else Inr \<lparr>ehdr = (ehdr e)\<lparr>dnode := of_nat dn, snode := of_nat sn, hnode := dms @ sms\<rparr>,
                edst = d, esrc = s\<rparr>)))"

definition set_dst_path ::
  "(nat \<Rightarrow> click_xia_xid_node) \<Rightarrow> XIAPath \<Rightarrow> XIAHeaderEncap \<Rightarrow> XIAHeaderEncap run" where
  "set_dst_path junk path e = update junk (e\<lparr>edst := path\<rparr>)"

definition set_src_path ::
  "(nat \<Rightarrow> click_xia_xid_node) \<Rightarrow> XIAPath \<Rightarrow> XIAHeaderEncap \<Rightarrow> XIAHeaderEncap run" where
  "set_src_path junk path e = update junk (e\<lparr>esrc := path\<rparr>)"

text \<open>\<^verbatim>\<open>encap\<close> pushes the header before the bytes of the packet.\<close>

definition encap :: "XIAHeaderEncap \<Rightarrow> bool \<Rightarrow> u8 list \<Rightarrow> click_xia \<times> u8 list" where
  "encap e adjust_plen body =
     (if adjust_plen then (ehdr e)\<lparr>plen := htons (of_nat (length body))\<rparr> else ehdr e, body)"

section \<open>Bytes and back\<close>

lemma bit_0x80: "bit (0x80 :: u8) n \<longleftrightarrow> n = 7"
proof -
  have "\<forall>n\<in>set [0..<8]. bit (0x80 :: u8) n \<longleftrightarrow> n = 7" by code_simp
  then show ?thesis by (cases "n < 8") (auto dest: bit_imp_le_length)
qed

lemma bit_edge_byte: "bit (edge_byte e) n \<longleftrightarrow> n < 7 \<and> bit (idx e) n \<or> n = 7 \<and> visited e"
proof -
  have "bit (ucast (idx e) :: u8) n \<longleftrightarrow> n < 7 \<and> bit (idx e) n"
    by (auto simp: bit_simps dest: bit_imp_le_length)
  then show ?thesis
    by (cases "visited e") (simp_all only: edge_byte_def if_True if_False bit_or_iff bit_0x80 bit_0_eq, auto)
qed

lemma edge_of_byte_edge_byte: "edge_of_byte (edge_byte e) = e"
proof -
  have "ucast (edge_byte e) = idx e"
    by (rule bit_word_eqI) (simp add: bit_simps bit_edge_byte)
  then show ?thesis by (simp add: edge_of_byte_def bit_edge_byte)
qed

lemma edge_byte_edge_of_byte: "edge_byte (edge_of_byte b) = b"
proof (rule bit_word_eqI)
  fix n
  assume "n < LENGTH(8)"
  then have "n < 7 \<or> n = 7" by auto
  then show "bit (edge_byte (edge_of_byte b)) n = bit b n"
    by (auto simp: bit_edge_byte edge_of_byte_def bit_simps)
qed

interpretation edge_codec: byte_codec "\<lambda>e. [edge_byte e]" "\<lambda>bs. edge_of_byte (hd bs)" 1
proof
  fix bs :: "u8 list"
  assume "length bs = 1"
  then show "[edge_byte (edge_of_byte (hd bs))] = bs"
    by (cases bs) (auto simp: edge_byte_edge_of_byte)
qed (simp_all add: edge_of_byte_edge_byte)

lemma length_node_bytes: "wf_node m \<Longrightarrow> length (node_bytes m) = 28"
  by (simp add: wf_node_def node_bytes_def CLICK_XIA_XID_EDGE_NUM_def)

lemma node_of_bytes_node_bytes [codec]: "wf_node m \<Longrightarrow> node_of_bytes (node_bytes m) = m"
proof -
  assume m: "wf_node m"
  then have l: "length (xid_id (nxid m)) = 20" "length (nedge m) = 4"
    by (simp_all add: wf_node_def wf_xid_def CLICK_XIA_XID_ID_LEN_def CLICK_XIA_XID_EDGE_NUM_def)
  have "map edge_of_byte (map edge_byte (nedge m)) = nedge m"
    using edge_codec.dec_enc by (simp add: o_def)
  then show ?thesis
    using l le32.dec_take_enc [of "xid_type (nxid m)"]
    by (simp add: node_of_bytes_def node_bytes_def XID_data_def)
qed

lemma nodes_of_bytes_concat [codec]:
  "\<forall>m\<in>set ms. wf_node m \<Longrightarrow> nodes_of_bytes (length ms) (concat (map node_bytes ms) @ rest) = ms"
  by (induction ms) (simp_all add: length_node_bytes node_of_bytes_node_bytes)

lemma length_nodes_bytes:
  "\<forall>m\<in>set ms. wf_node m \<Longrightarrow> length (concat (map node_bytes ms)) = 28 * length ms"
  by (induction ms) (simp_all add: length_node_bytes)

text \<open>
  The byte layout of the header loses nothing: a header whose node counts match its node list is
  read back from its bytes, whatever follows it in the packet.
\<close>

theorem hdr_of_bytes_hdr_bytes:
  assumes "wf_hdr h"
  shows "hdr_of_bytes (hdr_bytes h @ rest) = Inr h"
proof -
  let ?ns = "concat (map node_bytes (hnode h)) @ rest"
  have n: "length (hnode h) = unat (dnode h) + unat (snode h)" "\<forall>m\<in>set (hnode h). wf_node m"
    using assms by (simp_all add: wf_hdr_def)
  obtain a b where ab: "le_bytes 2 (plen h) = [a, b]"
    by (simp add: numeral_2_eq_2)
  then have p: "of_le_bytes [a, b] = plen h" using le16.dec_enc [of "plen h"] by simp
  have bytes: "hdr_bytes h @ rest = ver h # nxt h # a # b # hlim h # dnode h # snode h # hlast h # ?ns"
    by (simp add: hdr_bytes_def ab)
  show ?thesis
    using n p nodes_of_bytes_concat [OF n(2), of rest] length_nodes_bytes [OF n(2)]
    by (simp add: hdr_of_bytes_def bytes Let_def)
qed

theorem hdr_of_bytes_hdr_bytes_witness:
  "hdr_of_bytes (hdr_bytes (ehdr XIAHeaderEncap_new) @ [1, 2, 3]) = Inr (ehdr XIAHeaderEncap_new)"
  by (rule hdr_of_bytes_hdr_bytes) (simp add: wf_hdr_def XIAHeaderEncap_new_def)

section \<open>Paths in a header\<close>

text \<open>A path the packet form can hold: valid with at most 128 nodes, or without nodes.\<close>

definition path_fits :: "XIAPath \<Rightarrow> bool" where
  "path_fits p \<longleftrightarrow> nodes p = [] \<or> (\<exists>p'. is_valid p = Inr (True, p')) \<and> length (nodes p) \<le> 128"

lemma unparse_node_empty:
  "nodes p = [] \<Longrightarrow> unparse_node buf n p = Inr (0, buf, p)"
  by (simp add: unparse_node_def topological_ordering_def unparse_node_size_def)

lemma path_fits_size: "path_fits p \<Longrightarrow> unparse_node_size p \<le> 127"
  by (auto simp: path_fits_def unparse_node_size_def)

lemma unparse_node_fits:
  assumes "path_fits p" "length buf = unparse_node_size p"
  shows "\<exists>ms p'. unparse_node buf (unparse_node_size p) p = Inr (unparse_node_size p, ms, p')
    \<and> length ms = unparse_node_size p \<and> path_fits p' \<and> unparse_node_size p' = unparse_node_size p
    \<and> (\<forall>q f. path_iso f p' q \<longrightarrow> path_iso f p q)
    \<and> (nodes p \<noteq> [] \<longrightarrow> (\<exists>f. path_iso f p (parse_node ms)))"
proof (cases "nodes p = []")
  case True
  with assms show ?thesis
    using unparse_node_empty [OF True, of buf] by (auto simp: unparse_node_size_def)
next
  case False
  with assms(1) obtain p' where v: "is_valid p = Inr (True, p')" "length (nodes p) \<le> 128"
    by (auto simp: path_fits_def)
  note again = is_valid_again [OF v(1)]
  have l: "length (nodes p') = length (nodes p)" using again(1) by (simp add: same_graph_def)
  then have "path_fits p'" "unparse_node_size p' = unparse_node_size p"
    using again(4) v(2) by (auto simp: path_fits_def unparse_node_size_def)
  then show ?thesis
    using valid_node_list [OF v assms(2)] assms(2) path_iso_same_graph [OF again(1-3)] by metis
qed

text \<open>What \<^verbatim>\<open>update\<close> leaves for paths that fit: both are in the header, the other fields are kept.\<close>

definition holds_paths :: "XIAPath \<Rightarrow> XIAPath \<Rightarrow> XIAHeaderEncap \<Rightarrow> bool" where
  "holds_paths d s e \<longleftrightarrow>
     length (hnode (ehdr e)) = unat (dnode (ehdr e)) + unat (snode (ehdr e))
     \<and> path_fits (edst e) \<and> path_fits (esrc e)
     \<and> (\<forall>q f. path_iso f (edst e) q \<longrightarrow> path_iso f d q) \<and> (\<forall>q f. path_iso f (esrc e) q \<longrightarrow> path_iso f s q)
     \<and> (nodes d \<noteq> [] \<longrightarrow> (\<exists>f. path_iso f d (dst_path (ehdr e))))
     \<and> (nodes s \<noteq> [] \<longrightarrow> (\<exists>f. path_iso f s (src_path (ehdr e))))"

lemma hdr_size_room: "n < 256 \<Longrightarrow> (XIAHeader_hdr_size n - 8) div 28 = n"
  by (simp add: XIAHeader_hdr_size_def)

lemma update_fits:
  assumes d: "path_fits (edst e)" and s: "path_fits (esrc e)"
  shows "\<exists>e'. update junk e = Inr e' \<and> holds_paths (edst e) (esrc e) e'
    \<and> ehdr e' = (ehdr e)\<lparr>dnode := dnode (ehdr e'), snode := snode (ehdr e'), hnode := hnode (ehdr e')\<rparr>"
proof -
  let ?dn = "unparse_node_size (edst e)" and ?sn = "unparse_node_size (esrc e)"
  obtain dms d' where D: "unparse_node (map junk [0..<?dn]) ?dn (edst e) = Inr (?dn, dms, d')"
      "length dms = ?dn" "path_fits d'" "\<forall>q f. path_iso f d' q \<longrightarrow> path_iso f (edst e) q"
      "nodes (edst e) \<noteq> [] \<longrightarrow> (\<exists>f. path_iso f (edst e) (parse_node dms))"
    using unparse_node_fits [OF d, of "map junk [0..<?dn]"] by auto
  obtain sms s' where S: "unparse_node (map junk [?dn..<?dn + ?sn]) ?sn (esrc e) = Inr (?sn, sms, s')"
      "length sms = ?sn" "path_fits s'" "\<forall>q f. path_iso f s' q \<longrightarrow> path_iso f (esrc e) q"
      "nodes (esrc e) \<noteq> [] \<longrightarrow> (\<exists>f. path_iso f (esrc e) (parse_node sms))"
    using unparse_node_fits [OF s, of "map junk [?dn..<?dn + ?sn]"] by auto
  have lt: "?dn \<le> 127" "?sn \<le> 127" using path_fits_size d s by auto
  then have u: "unat (of_nat ?dn :: u8) = ?dn" "unat (of_nat ?sn :: u8) = ?sn"
    by (simp_all add: unat_of_nat)
  have room: "(XIAHeader_hdr_size (?dn + ?sn) - 8) div 28 = ?dn + ?sn"
    using lt by (intro hdr_size_room) simp
  let ?e = "\<lparr>ehdr = (ehdr e)\<lparr>dnode := of_nat ?dn, snode := of_nat ?sn, hnode := dms @ sms\<rparr>,
    edst = d', esrc = s'\<rparr>"
  have "update junk e = Inr ?e" using D(1) S(1) room by (simp add: update_def Let_def)
  moreover have "holds_paths (edst e) (esrc e) ?e"
    using D(2-) S(2-) u by (simp add: holds_paths_def dst_path_def src_path_def)
  ultimately show ?thesis by (intro exI [of _ ?e]) simp
qed

lemma path_fits_empty: "path_fits XIAPath_reset"
  by (simp add: path_fits_def XIAPath_reset_def)

lemma set_paths_fit:
  assumes d: "path_fits d" and s: "path_fits s" and e: "path_fits (esrc e)"
  shows "\<exists>e1 e2. set_dst_path junk d e = Inr e1 \<and> set_src_path junk' s e1 = Inr e2 \<and> holds_paths d s e2
    \<and> (\<exists>dn sn ns. ehdr e2 = (ehdr e)\<lparr>dnode := dn, snode := sn, hnode := ns\<rparr>)"
proof -
  obtain e1 where e1: "update junk (e\<lparr>edst := d\<rparr>) = Inr e1" "holds_paths d (esrc e) e1"
      "ehdr e1 = (ehdr e)\<lparr>dnode := dnode (ehdr e1), snode := snode (ehdr e1), hnode := hnode (ehdr e1)\<rparr>"
    using update_fits [of "e\<lparr>edst := d\<rparr>" junk] d e by auto
  then have d1: "path_fits (edst e1)" "\<And>q f. path_iso f (edst e1) q \<Longrightarrow> path_iso f d q"
    by (auto simp: holds_paths_def)
  obtain e2 where e2: "update junk' (e1\<lparr>esrc := s\<rparr>) = Inr e2" "holds_paths (edst e1) s e2"
      "ehdr e2 = (ehdr e1)\<lparr>dnode := dnode (ehdr e2), snode := snode (ehdr e2), hnode := hnode (ehdr e2)\<rparr>"
    using update_fits [of "e1\<lparr>esrc := s\<rparr>" junk'] d1(1) s by auto
  have "nodes d \<noteq> [] \<Longrightarrow> nodes (edst e1) \<noteq> []"
  proof
    assume "nodes d \<noteq> []" "nodes (edst e1) = []"
    have "path_iso id (edst e1) (edst e1)" by (simp add: path_iso_def)
    then have "path_iso id d (edst e1)" by (rule d1(2))
    then show False using \<open>nodes d \<noteq> []\<close> \<open>nodes (edst e1) = []\<close> by (simp add: path_iso_def bij_betw_def lessThan_empty_iff)
  qed
  then have "holds_paths d s e2"
    using e2(2) d1(2) unfolding holds_paths_def by blast
  moreover have "\<exists>dn sn ns. ehdr e2 = (ehdr e)\<lparr>dnode := dn, snode := sn, hnode := ns\<rparr>"
    by (subst e2(3), subst e1(3)) (simp, blast)
  ultimately show ?thesis
    using e1(1) e2(1) by (simp add: set_dst_path_def set_src_path_def)
qed

text \<open>
  C20. Building a header and reading it gives the two paths back: after setting a valid destination path
  and a valid source path of at most 128 nodes each on a new header, both calls succeed whatever the
  fresh memory held, the paths of the header are those paths up to numbering, and the version, next
  header, hop limit, payload length and last-node fields are the initial ones.
\<close>

theorem header_paths_round_trip:
  assumes "is_valid d = Inr (True, d')" "length (nodes d) \<le> 128"
    and "is_valid s = Inr (True, s')" "length (nodes s) \<le> 128"
  shows "\<exists>e1 e2 f g. set_dst_path junk d XIAHeaderEncap_new = Inr e1
    \<and> set_src_path junk' s e1 = Inr e2
    \<and> path_iso f d (dst_path (ehdr e2)) \<and> path_iso g s (src_path (ehdr e2))
    \<and> ver (ehdr e2) = 1 \<and> nxt (ehdr e2) = CLICK_XIA_NXT_NO \<and> hlim (ehdr e2) = 250
    \<and> plen (ehdr e2) = 0 \<and> XIAHeader_last (ehdr e2) = - 1"
proof -
  have ne: "nodes d \<noteq> []" "nodes s \<noteq> []" using valid_ends(1) [OF assms(1)] valid_ends(1) [OF assms(3)] by auto
  have fits: "path_fits d" "path_fits s" "path_fits (esrc XIAHeaderEncap_new)"
    using assms path_fits_empty by (auto simp: path_fits_def XIAHeaderEncap_new_def)
  obtain e1 e2 dn sn ns where e: "set_dst_path junk d XIAHeaderEncap_new = Inr e1"
      "set_src_path junk' s e1 = Inr e2" "holds_paths d s e2"
      "ehdr e2 = (ehdr XIAHeaderEncap_new)\<lparr>dnode := dn, snode := sn, hnode := ns\<rparr>"
    using set_paths_fit [OF fits, of junk junk'] by blast
  moreover have "XIAHeader_last (ehdr e2) = - 1"
    by (simp add: e(4) XIAHeader_last_def XIAHeaderEncap_new_def)
  ultimately show ?thesis
    using ne by (auto simp: holds_paths_def XIAHeaderEncap_new_def)
qed

theorem header_paths_round_trip_witness:
  "\<exists>e1 e2 f. set_dst_path (\<lambda>_. undefined) diamond XIAHeaderEncap_new = Inr e1
    \<and> set_src_path (\<lambda>_. undefined) diamond e1 = Inr e2 \<and> path_iso f diamond (dst_path (ehdr e2))"
proof -
  obtain d' where v: "is_valid diamond = Inr (True, d')" using diamond_valid by blast
  have "length (nodes diamond) \<le> 128" by (simp add: diamond_def)
  from header_paths_round_trip [OF v this v this] show ?thesis by blast
qed

text \<open>
  The block \<^verbatim>\<open>update\<close> allocates is computed with a one-byte node count: with 256 or more nodes in the
  two paths together no call completes, it writes past the block or stops at an assertion.
\<close>

theorem update_256_nodes_faults:
  assumes "256 \<le> unparse_node_size (edst e) + unparse_node_size (esrc e)"
  shows "\<exists>f. update junk e = Inl f"
proof -
  let ?n = "unparse_node_size (edst e) + unparse_node_size (esrc e)"
  have "?n mod 256 < 256" by simp
  then have room: "(XIAHeader_hdr_size ?n - 8) div 28 < ?n"
    using assms by (simp add: XIAHeader_hdr_size_def)
  show ?thesis
  proof (cases "update junk e")
    case (Inr e')
    then show ?thesis
      using room by (auto simp: update_def Let_def split: if_splits prod.splits)
  qed simp
qed

theorem update_256_nodes_faults_witness:
  "\<exists>f. update (\<lambda>_. undefined)
    (XIAHeaderEncap_new\<lparr>edst := XIAPath_reset\<lparr>nodes := replicate 300 Node_default\<rparr>\<rparr>) = Inl f"
  by (rule update_256_nodes_faults) (simp add: unparse_node_size_def XIAHeaderEncap_new_def)

end
