(* ===== verification/Xia_Ext_Header.thy ===== *)
theory Xia_Ext_Header
  imports Xia_Header "HOL-Library.AList" "HOL-Library.Multiset"
begin

text \<open>
  Extension headers (\<^verbatim>\<open>lib/xiaextheader.cc\<close>, \<^verbatim>\<open>lib/xiacontentheader.cc\<close>,
  \<^verbatim>\<open>lib/xiatransportheader.cc\<close> and their headers): a list of key-value pairs with one-byte lengths. The
  table of pairs is an association list in the order in which the hash table iterates.
\<close>

section \<open>Reading\<close>

type_synonym kv_map = "(u8 \<times> u8 list) list"

text \<open>The next-header and length bytes, and the bytes of memory after them.\<close>

record click_xia_ext =
  xnxt :: u8
  xhlen :: u8
  xdata :: "u8 list"

text \<open>The loop of \<^verbatim>\<open>populate_map\<close> over the bytes up to the end the length gives.\<close>

function populate_loop :: "u8 list \<Rightarrow> kv_map \<Rightarrow> kv_map" where
  "populate_loop [] m = m"
| "populate_loop (kv_len # bs) m =
     (if kv_len = 0 then m
      else if length bs < unat kv_len then m
      else populate_loop (drop (unat kv_len) bs)
        (AList.update (hd bs) (take (unat kv_len - 1) (tl bs)) m))"
  by pat_completeness auto
termination
  by (relation "measure (\<lambda>(bs, m). length bs)") auto

definition populate_map :: "click_xia_ext \<Rightarrow> kv_map run" where
  "populate_map h =
     (let n = unat (xhlen h) - 2 in
      if length (xdata h) < n then Inl Out_of_range else Inr (populate_loop (take n (xdata h)) []))"

section \<open>Writing\<close>

definition kv_too_long :: "u8 list \<Rightarrow> bool" where
  "kv_too_long v \<longleftrightarrow> 255 - 1 \<le> length v"

text \<open>The first loop of \<^verbatim>\<open>update\<close>: the size that fits and the number of pairs counted for it.\<close>

fun kv_size :: "kv_map \<Rightarrow> nat \<Rightarrow> nat \<Rightarrow> nat \<times> nat" where
  "kv_size [] size_n cnt = (size_n, cnt)"
| "kv_size ((k, v) # m) size_n cnt =
     (if kv_too_long v then kv_size m size_n cnt
      else let new_size = size_n + 2 + length v in
        if 255 \<le> new_size then (size_n, cnt) else kv_size m new_size (cnt + 1))"

definition kv_padding :: "nat \<Rightarrow> nat" where
  "kv_padding size_n = (if size_n mod 4 \<noteq> 0 then 4 - size_n mod 4 else 0)"

text \<open>The second loop: a pair that is skipped for its length counts as well.\<close>

fun kv_write :: "kv_map \<Rightarrow> nat \<Rightarrow> u8 list" where
  "kv_write [] cnt = []"
| "kv_write ((k, v) # m) cnt =
     (if cnt = 0 then []
      else if kv_too_long v then kv_write m (cnt - 1)
      else (1 + of_nat (length v)) # k # v @ kv_write m (cnt - 1))"

text \<open>\<open>junk\<close> is what the fresh block holds where nothing is written.\<close>

definition ext_update :: "u8 list \<Rightarrow> kv_map \<Rightarrow> click_xia_ext \<Rightarrow> click_xia_ext" where
  "ext_update junk m h =
     (let (size_n, cnt) = kv_size m 2 0;
          padding = kv_padding size_n;
          written = kv_write m cnt @ replicate padding 0;
          total = size_n + padding
      in \<lparr>xnxt = xnxt h, xhlen = of_nat total,
          xdata = written @ take (total - 2 - length written) junk\<rparr>)"

definition ext_new :: click_xia_ext where
  "ext_new = \<lparr>xnxt = CLICK_XIA_NXT_NO, xhlen = 2, xdata = []\<rparr>"

definition ext_bytes :: "click_xia_ext \<Rightarrow> u8 list" where
  "ext_bytes h = take (unat (xhlen h)) (xnxt h # xhlen h # xdata h)"

definition ext_encap :: "click_xia_ext \<Rightarrow> u8 list \<Rightarrow> u8 list" where
  "ext_encap h body = ext_bytes h @ body"

section \<open>Content and transport headers\<close>

text \<open>A value is read from the front of its bytes; a missing key reads as zero.\<close>

definition kv_read :: "nat \<Rightarrow> kv_map \<Rightarrow> u8 \<Rightarrow> 'a::len word run" where
  "kv_read width m key =
     (case map_of m key of None \<Rightarrow> Inr 0
      | Some v \<Rightarrow> if length v < width then Inl Out_of_range else Inr (of_le_bytes (take width v)))"

datatype content_key = OPCODE | OFFSET | CHUNK_OFFSET | CH_LENGTH | CHUNK_LENGTH | CONTEXT_ID | TTL
  | CACHE_SIZE | CACHE_POLICY

fun content_key_no :: "content_key \<Rightarrow> u8" where
  "content_key_no OPCODE = 0"
| "content_key_no OFFSET = 1"
| "content_key_no CHUNK_OFFSET = 2"
| "content_key_no CH_LENGTH = 3"
| "content_key_no CHUNK_LENGTH = 4"
| "content_key_no CONTEXT_ID = 5"
| "content_key_no TTL = 6"
| "content_key_no CACHE_SIZE = 7"
| "content_key_no CACHE_POLICY = 8"

record content_fields =
  c_opcode :: u8
  c_offset :: u16
  c_chunk_offset :: u32
  c_length :: u16
  c_chunk_length :: u32
  c_contextID :: u32
  c_ttl :: u32
  c_cacheSize :: u32
  c_cachePolicy :: u32

definition content_map :: "content_fields \<Rightarrow> kv_map" where
  "content_map c =
     [(content_key_no OFFSET, le_bytes 2 (c_offset c)),
      (content_key_no CHUNK_OFFSET, le_bytes 4 (c_chunk_offset c)),
      (content_key_no CH_LENGTH, le_bytes 2 (c_length c)),
      (content_key_no CHUNK_LENGTH, le_bytes 4 (c_chunk_length c)),
      (content_key_no OPCODE, le_bytes 1 (c_opcode c)),
      (content_key_no CONTEXT_ID, le_bytes 4 (c_contextID c)),
      (content_key_no TTL, le_bytes 4 (c_ttl c)),
      (content_key_no CACHE_SIZE, le_bytes 4 (c_cacheSize c)),
      (content_key_no CACHE_POLICY, le_bytes 4 (c_cachePolicy c))]"

text \<open>\<open>iter\<close> is the order in which the table iterates over its pairs.\<close>

definition ContentHeaderEncap :: "(kv_map \<Rightarrow> kv_map) \<Rightarrow> content_fields \<Rightarrow> click_xia_ext" where
  "ContentHeaderEncap iter c = ext_update [] (iter (content_map c)) ext_new"

definition ContentHeaderEncap_request :: "(kv_map \<Rightarrow> kv_map) \<Rightarrow> u8 \<Rightarrow> u32 \<Rightarrow> u16 \<Rightarrow> click_xia_ext" where
  "ContentHeaderEncap_request iter opcode chunk_offset len =
     ext_update [] (iter
       [(content_key_no CHUNK_OFFSET, le_bytes 4 chunk_offset),
        (content_key_no CH_LENGTH, le_bytes 2 len),
        (content_key_no OPCODE, le_bytes 1 opcode)]) ext_new"

definition ContentHeader_read :: "kv_map \<Rightarrow> content_fields run" where
  "ContentHeader_read m =
     bind_run (kv_read 1 m (content_key_no OPCODE)) (\<lambda>opcode.
     bind_run (kv_read 2 m (content_key_no OFFSET)) (\<lambda>offset.
     bind_run (kv_read 4 m (content_key_no CHUNK_OFFSET)) (\<lambda>chunk_offset.
     bind_run (kv_read 2 m (content_key_no CH_LENGTH)) (\<lambda>len.
     bind_run (kv_read 4 m (content_key_no CHUNK_LENGTH)) (\<lambda>chunk_length.
     bind_run (kv_read 4 m (content_key_no CONTEXT_ID)) (\<lambda>contextID.
     bind_run (kv_read 4 m (content_key_no TTL)) (\<lambda>ttl.
     bind_run (kv_read 4 m (content_key_no CACHE_SIZE)) (\<lambda>cacheSize.
     bind_run (kv_read 4 m (content_key_no CACHE_POLICY)) (\<lambda>cachePolicy.
       Inr \<lparr>c_opcode = opcode, c_offset = offset, c_chunk_offset = chunk_offset, c_length = len,
         c_chunk_length = chunk_length, c_contextID = contextID, c_ttl = ttl, c_cacheSize = cacheSize,
         c_cachePolicy = cachePolicy\<rparr>)))))))))"

datatype transport_key = TH_TYPE | PKT_INFO | SRC_XID | DST_XID | SEQ_NUM | ACK_NUM | TH_LENGTH

fun transport_key_no :: "transport_key \<Rightarrow> u8" where
  "transport_key_no TH_TYPE = 0"
| "transport_key_no PKT_INFO = 1"
| "transport_key_no SRC_XID = 2"
| "transport_key_no DST_XID = 3"
| "transport_key_no SEQ_NUM = 4"
| "transport_key_no ACK_NUM = 5"
| "transport_key_no TH_LENGTH = 6"

record transport_fields =
  t_type :: u8
  t_pkt_info :: u8
  t_seq_num :: u32
  t_ack_num :: u32
  t_length :: u16

definition transport_map :: "transport_fields \<Rightarrow> kv_map" where
  "transport_map t =
     [(transport_key_no TH_TYPE, le_bytes 1 (t_type t)),
      (transport_key_no PKT_INFO, le_bytes 1 (t_pkt_info t)),
      (transport_key_no SEQ_NUM, le_bytes 4 (t_seq_num t)),
      (transport_key_no ACK_NUM, le_bytes 4 (t_ack_num t)),
      (transport_key_no TH_LENGTH, le_bytes 2 (t_length t))]"

definition TransportHeaderEncap :: "(kv_map \<Rightarrow> kv_map) \<Rightarrow> transport_fields \<Rightarrow> click_xia_ext" where
  "TransportHeaderEncap iter t = ext_update [] (iter (transport_map t)) ext_new"

definition TransportHeader_read :: "kv_map \<Rightarrow> transport_fields run" where
  "TransportHeader_read m =
     bind_run (kv_read 1 m (transport_key_no TH_TYPE)) (\<lambda>ty.
     bind_run (kv_read 1 m (transport_key_no PKT_INFO)) (\<lambda>info.
     bind_run (kv_read 4 m (transport_key_no SEQ_NUM)) (\<lambda>seq_num.
     bind_run (kv_read 4 m (transport_key_no ACK_NUM)) (\<lambda>ack_num.
     bind_run (kv_read 2 m (transport_key_no TH_LENGTH)) (\<lambda>len.
       Inr \<lparr>t_type = ty, t_pkt_info = info, t_seq_num = seq_num, t_ack_num = ack_num, t_length = len\<rparr>)))))"

definition XSOCK_STREAM :: u8 where
  "XSOCK_STREAM = 1"

definition XSOCK_DGRAM :: u8 where
  "XSOCK_DGRAM = 2"

datatype pkt_info = SYN | SYNACK | DATA | ACK | FIN

fun pkt_info_no :: "pkt_info \<Rightarrow> u8" where
  "pkt_info_no SYN = 1"
| "pkt_info_no SYNACK = 2"
| "pkt_info_no DATA = 3"
| "pkt_info_no ACK = 4"
| "pkt_info_no FIN = 5"

definition MakeStreamHeader ::
  "(kv_map \<Rightarrow> kv_map) \<Rightarrow> pkt_info \<Rightarrow> u32 \<Rightarrow> u32 \<Rightarrow> u16 \<Rightarrow> click_xia_ext" where
  "MakeStreamHeader iter info seq_num ack_num len = TransportHeaderEncap iter
     \<lparr>t_type = XSOCK_STREAM, t_pkt_info = pkt_info_no info, t_seq_num = seq_num, t_ack_num = ack_num,
      t_length = len\<rparr>"

definition MakeDGRAMHeader :: "(kv_map \<Rightarrow> kv_map) \<Rightarrow> u16 \<Rightarrow> click_xia_ext" where
  "MakeDGRAMHeader iter len = TransportHeaderEncap iter
     \<lparr>t_type = XSOCK_DGRAM, t_pkt_info = pkt_info_no DATA, t_seq_num = - 1, t_ack_num = - 1, t_length = len\<rparr>"

section \<open>What is written is read back\<close>

definition kv_total :: "kv_map \<Rightarrow> nat" where
  "kv_total m = 2 + (\<Sum>(k, v)\<leftarrow>m. 2 + length v)"

definition kv_bytes :: "kv_map \<Rightarrow> u8 list" where
  "kv_bytes m = concat (map (\<lambda>(k, v). (1 + of_nat (length v)) # k # v) m)"

lemma kv_size_all:
  "(\<forall>(k, v)\<in>set m. \<not> kv_too_long v) \<Longrightarrow> n + (\<Sum>(k, v)\<leftarrow>m. 2 + length v) < 255 \<Longrightarrow>
    kv_size m n c = (n + (\<Sum>(k, v)\<leftarrow>m. 2 + length v), c + length m)"
  by (induction m n c rule: kv_size.induct) (auto simp: Let_def)

lemma kv_write_all:
  "(\<forall>(k, v)\<in>set m. \<not> kv_too_long v) \<Longrightarrow> kv_write m (length m) = kv_bytes m"
  by (induction m) (auto simp: kv_bytes_def)

lemma length_kv_bytes: "length (kv_bytes m) + 2 = kv_total m"
  by (induction m) (auto simp: kv_bytes_def kv_total_def)

lemma kv_total_short: "kv_total m < 255 \<Longrightarrow> (k, v) \<in> set m \<Longrightarrow> length v < 252"
  by (induction m) (auto simp: kv_total_def)

lemma populate_loop_bytes:
  assumes "distinct (map fst (acc @ m))" "\<forall>(k, v)\<in>set m. length v < 252"
    and "pad = [] \<or> hd pad = 0"
  shows "populate_loop (kv_bytes m @ pad) acc = acc @ m"
  using assms
proof (induction m arbitrary: acc)
  case Nil
  then show ?case by (cases pad) (auto simp: kv_bytes_def)
next
  case (Cons x m)
  obtain k v where x: "x = (k, v)" by force
  with Cons.prems have v: "length v < 252" and k: "k \<notin> fst ` set acc" by auto
  have "unat (of_nat (Suc (length v)) :: u8) = Suc (length v)"
    using v by (simp only: unat_of_nat) simp
  then have u: "unat (1 + of_nat (length v) :: u8) = Suc (length v)" by (simp add: add.commute)
  then have nz: "(1 + of_nat (length v) :: u8) \<noteq> 0" by (metis unat_0 nat.distinct(1))
  have "populate_loop (kv_bytes (x # m) @ pad) acc = populate_loop (kv_bytes m @ pad) (acc @ [(k, v)])"
    using u nz k by (simp add: x kv_bytes_def alist_update_new)
  also have "\<dots> = (acc @ [(k, v)]) @ m"
    using Cons.prems x by (intro Cons.IH) auto
  finally show ?case by (simp add: x)
qed

lemma ext_update_all:
  assumes "\<forall>(k, v)\<in>set m. \<not> kv_too_long v" "kv_total m < 255"
  shows "ext_update junk m h = \<lparr>xnxt = xnxt h, xhlen = of_nat (kv_total m + kv_padding (kv_total m)),
    xdata = kv_bytes m @ replicate (kv_padding (kv_total m)) 0\<rparr>"
proof -
  have "kv_size m 2 0 = (kv_total m, length m)"
    using kv_size_all [of m 2 0] assms by (simp add: kv_total_def)
  then show ?thesis
    using kv_write_all [OF assms(1)] length_kv_bytes [of m] by (simp add: ext_update_def Let_def)
qed

lemma kv_padding_bound: "kv_total m \<le> 252 \<Longrightarrow> kv_total m + kv_padding (kv_total m) \<le> 252"
  by (auto simp: kv_padding_def) presburger

lemma populate_ext_update:
  assumes "distinct (map fst m)" "kv_total m \<le> 252"
  shows "populate_map (ext_update junk m h) = Inr m"
proof -
  let ?t = "kv_total m + kv_padding (kv_total m)"
  have short: "\<forall>(k, v)\<in>set m. length v < 252" using kv_total_short [of m] assms(2) by auto
  then have long: "\<forall>(k, v)\<in>set m. \<not> kv_too_long v" by (auto simp: kv_too_long_def)
  have t: "unat (of_nat ?t :: u8) = ?t"
    using kv_padding_bound [OF assms(2)] by (simp add: unat_of_nat del: of_nat_add)
  have "populate_loop (kv_bytes m @ replicate (kv_padding (kv_total m)) 0) [] = m"
    using populate_loop_bytes [of "[]" m] assms(1) short by (simp add: kv_padding_def)
  then show ?thesis
    using ext_update_all [OF long] assms(2) t length_kv_bytes [of m]
    by (simp add: populate_map_def Let_def)
qed

text \<open>
  C32. A table of pairs with different keys whose encoding takes at most 252 bytes is read back exactly
  from the extension header \<^verbatim>\<open>update\<close> writes, padding included.
\<close>

theorem ext_header_round_trip:
  assumes "distinct (map fst m)" "kv_total m \<le> 252"
  shows "populate_map (ext_update junk m h) = Inr m"
  by (rule populate_ext_update [OF assms])

theorem ext_header_round_trip_witness:
  "populate_map (ext_update [] [(7, [1, 2, 3]), (9, [])] ext_new) = Inr [(7, [1, 2, 3]), (9, [])]"
  by (rule ext_header_round_trip) (simp_all add: kv_total_def)

text \<open>
  Larger tables are lost: when the pairs take 253 or 254 bytes they are accepted, the padded size is
  256, the length byte becomes 0, and a reader finds no pair at all.
\<close>

theorem ext_header_length_wraps:
  assumes "kv_total m = 253 \<or> kv_total m = 254"
  shows "xhlen (ext_update junk m h) = 0 \<and> populate_map (ext_update junk m h) = Inr []"
proof -
  have "\<forall>(k, v)\<in>set m. \<not> kv_too_long v"
    using kv_total_short [of m] assms by (fastforce simp: kv_too_long_def)
  then have "xhlen (ext_update junk m h) = of_nat (kv_total m + kv_padding (kv_total m))"
    using ext_update_all [of m junk h] assms by auto
  moreover have "kv_total m + kv_padding (kv_total m) = 256"
    using assms by (auto simp: kv_padding_def)
  ultimately show ?thesis by (simp add: populate_map_def)
qed

theorem ext_header_length_wraps_witness:
  "xhlen (ext_update [] [(0, replicate 250 1)] ext_new) = 0
    \<and> populate_map (ext_update [] [(0, replicate 250 1)] ext_new) = Inr []"
  by (rule ext_header_length_wraps) (simp add: kv_total_def)

section \<open>Fields of content and transport headers\<close>

lemma kv_total_mset: "mset m' = mset m \<Longrightarrow> kv_total m' = kv_total m"
proof -
  let ?f = "\<lambda>(k :: u8, v :: u8 list). 2 + length v"
  assume "mset m' = mset m"
  then have "sum_mset (mset (map ?f m')) = sum_mset (mset (map ?f m))" by simp
  then show ?thesis by (simp only: kv_total_def sum_mset_sum_list)
qed

lemma distinct_fst_mset: "mset m' = mset m \<Longrightarrow> distinct (map fst m') \<longleftrightarrow> distinct (map fst m)"
  by (metis mset_eq_imp_distinct_iff mset_map)

lemma map_of_mset:
  "mset m' = mset m \<Longrightarrow> distinct (map fst m) \<Longrightarrow> map_of m' = map_of m"
  by (metis distinct_fst_mset map_of_inject_set mset_eq_setD)

lemma populate_iter:
  assumes "mset (iter m) = mset m" "distinct (map fst m)" "kv_total m \<le> 252"
  shows "\<exists>m'. populate_map (ext_update junk (iter m) h) = Inr m' \<and> map_of m' = map_of m"
  using populate_ext_update [of "iter m" junk h] kv_total_mset [OF assms(1)]
    distinct_fst_mset [OF assms(1)] map_of_mset [OF assms(1,2)] assms(2,3) by auto

lemma kv_read_word:
  "map_of m key = Some (le_bytes 4 (x :: u32)) \<Longrightarrow> kv_read 4 m key = Inr x"
  "map_of m key = Some (le_bytes 2 (y :: u16)) \<Longrightarrow> kv_read 2 m key = Inr y"
  "map_of m key = Some (le_bytes 1 (z :: u8)) \<Longrightarrow> kv_read 1 m key = Inr z"
  using le32.dec_enc le16.dec_enc le8.dec_enc by (simp_all add: kv_read_def del: le_bytes.simps)

text \<open>
  The fields of a content header come back unchanged, whatever the order in which the table
  iterates over its pairs; so do those of a transport header.
\<close>

theorem content_transport_round_trip:
  assumes "\<And>m. mset (iter m) = mset m"
  shows "bind_run (populate_map (ContentHeaderEncap iter c)) ContentHeader_read = Inr c
    \<and> bind_run (populate_map (TransportHeaderEncap iter t)) TransportHeader_read = Inr t"
proof
  obtain m where m: "populate_map (ContentHeaderEncap iter c) = Inr m" "map_of m = map_of (content_map c)"
    using populate_iter [of iter "content_map c" "[]" ext_new] assms
    by (auto simp: ContentHeaderEncap_def content_map_def kv_total_def simp del: le_bytes.simps)
  then show "bind_run (populate_map (ContentHeaderEncap iter c)) ContentHeader_read = Inr c"
    by (simp add: ContentHeader_read_def kv_read_word [unfolded One_nat_def] content_map_def del: le_bytes.simps)
  obtain m where m: "populate_map (TransportHeaderEncap iter t) = Inr m" "map_of m = map_of (transport_map t)"
    using populate_iter [of iter "transport_map t" "[]" ext_new] assms
    by (auto simp: TransportHeaderEncap_def transport_map_def kv_total_def simp del: le_bytes.simps)
  then show "bind_run (populate_map (TransportHeaderEncap iter t)) TransportHeader_read = Inr t"
    by (simp add: TransportHeader_read_def kv_read_word [unfolded One_nat_def] transport_map_def del: le_bytes.simps)
qed

theorem content_transport_round_trip_witness:
  "bind_run (populate_map (MakeStreamHeader rev SYN 5 6 7)) TransportHeader_read =
    Inr \<lparr>t_type = 1, t_pkt_info = 1, t_seq_num = 5, t_ack_num = 6, t_length = 7\<rparr>"
  using content_transport_round_trip [of rev _
      "\<lparr>t_type = 1, t_pkt_info = 1, t_seq_num = 5, t_ack_num = 6, t_length = 7\<rparr>"]
  by (simp add: MakeStreamHeader_def XSOCK_STREAM_def)

end
