(* ===== verification/Xia_Packet.thy ===== *)
theory Xia_Packet
  imports Xia_Header
begin

text \<open>
  Packets as the XIA elements of Click see them: the network header, the bytes behind it, and the three XIA
  annotations of \<^verbatim>\<open>include/click/packet_anno.hh\<close>. An element returns the packets it pushes, each with the
  number of the output port, in the order of the calls.
\<close>

record packet =
  phdr :: click_xia
  body :: "u8 list"
  next_path_anno :: u8
  paint_anno :: u16
  neighbor_anno :: click_xia_xid

type_synonym pushed = "(nat \<times> packet) list"

definition XIA_NEXT_PATH_ANNO :: "packet \<Rightarrow> nat" where
  "XIA_NEXT_PATH_ANNO p = unat (next_path_anno p)"

definition SET_XIA_NEXT_PATH_ANNO :: "nat \<Rightarrow> packet \<Rightarrow> packet" where
  "SET_XIA_NEXT_PATH_ANNO v p = p\<lparr>next_path_anno := of_nat v\<rparr>"

definition XIA_PAINT_ANNO :: "packet \<Rightarrow> int" where
  "XIA_PAINT_ANNO p = sint (paint_anno p)"

definition SET_XIA_PAINT_ANNO :: "int \<Rightarrow> packet \<Rightarrow> packet" where
  "SET_XIA_PAINT_ANNO v p = p\<lparr>paint_anno := word_of_int v\<rparr>"

definition set_nexthop_neighbor_xid_anno :: "click_xia_xid \<Rightarrow> packet \<Rightarrow> packet" where
  "set_nexthop_neighbor_xid_anno x p = p\<lparr>neighbor_anno := x\<rparr>"

definition nexthop_neighbor_xid_anno :: "packet \<Rightarrow> click_xia_xid" where
  "nexthop_neighbor_xid_anno p = neighbor_anno p"

lemmas anno_defs = XIA_NEXT_PATH_ANNO_def SET_XIA_NEXT_PATH_ANNO_def XIA_PAINT_ANNO_def
  SET_XIA_PAINT_ANNO_def set_nexthop_neighbor_xid_anno_def nexthop_neighbor_xid_anno_def

text \<open>
  The node the packet is at: the last visited one, and the source, whose edges are kept in the destination node,
  while the field is negative. An index outside the node list reads memory behind the header.
\<close>

definition int_at :: "'a list \<Rightarrow> int \<Rightarrow> 'a run" where
  "int_at xs i = (if i < 0 then Inl Out_of_range else at xs (nat i))"

definition current_index :: "click_xia \<Rightarrow> int" where
  "current_index h =
     (let last_node = sint (hlast h)
      in if last_node < 0 then last_node + int (unat (dnode h)) else last_node)"

definition current_node :: "click_xia \<Rightarrow> click_xia_xid_node run" where
  "current_node h = int_at (hnode h) (current_index h)"

definition current_edge :: "packet \<Rightarrow> click_xia_xid_edge run" where
  "current_edge p = bind_run (current_node (phdr p)) (\<lambda>m. at (nedge m) (XIA_NEXT_PATH_ANNO p))"

lemma int_at_nat [simp]: "int_at xs (int n) = at xs n"
  by (simp add: int_at_def)

lemma int_at_eq_Inr: "int_at xs i = Inr x \<longleftrightarrow> 0 \<le> i \<and> nat i < length xs \<and> xs ! nat i = x"
  by (auto simp: int_at_def)

lemma sint_16_bounds: "- 32768 \<le> sint (w :: u16)" "sint (w :: u16) < 32768"
  using sint_greater_eq [of w] sint_less [of w] by simp_all

lemma sint_16_of_int: "- 32768 \<le> i \<Longrightarrow> i < 32768 \<Longrightarrow> sint (word_of_int i :: u16) = i"
  by (subst sint_sbintrunc') (simp add: signed_take_bit_int_eq_self)

lemma paint_paint:
  "- 32768 \<le> v \<Longrightarrow> v < 32768 \<Longrightarrow> XIA_PAINT_ANNO (SET_XIA_PAINT_ANNO v p) = v"
  by (simp add: anno_defs sint_16_of_int)

end
