(* ===== verification/Xia_Route_Table.thy ===== *)
theory Xia_Route_Table
  imports Xia_Packet Xia_Path_Text "HOL-Library.AList"
begin

text \<open>
  The route table of one principal type (\<^verbatim>\<open>elements/xia/xiaxidroutetable.cc\<close>): its configuration, the
  handlers that print and change it, the lookup of a packet, the learning of neighbours from broadcasts and
  redirects, and the choice of output ports. The hash table is an association list in iteration order; keys
  are compared as \<^verbatim>\<open>XID::operator==\<close> does, which is equality on XIDs of full length. Routes are values: no
  two entries of the code share one.
\<close>

section \<open>State\<close>

definition TOTAL_SPECIAL_CASES :: int where "TOTAL_SPECIAL_CASES = 8"
definition DESTINED_FOR_DISCARD :: int where "DESTINED_FOR_DISCARD = - 1"
definition DESTINED_FOR_LOCALHOST :: int where "DESTINED_FOR_LOCALHOST = - 2"
definition DESTINED_FOR_DHCP :: int where "DESTINED_FOR_DHCP = - 3"
definition DESTINED_FOR_BROADCAST :: int where "DESTINED_FOR_BROADCAST = - 4"
definition REDIRECT :: int where "REDIRECT = - 5"
definition FALLBACK :: int where "FALLBACK = - 7"

lemmas special_ports = TOTAL_SPECIAL_CASES_def DESTINED_FOR_DISCARD_def DESTINED_FOR_LOCALHOST_def
  DESTINED_FOR_DHCP_def DESTINED_FOR_BROADCAST_def REDIRECT_def FALLBACK_def

definition BHID :: string where
  "BHID = ''HID:FFFFFFFFFFFFFFFFFFFFFFFFFFFFFFFFFFFFFFFF''"

record XIARouteData =
  rport :: int
  rflags :: u32
  rnexthop :: "click_xia_xid option"

record XIAXIDRouteTable =
  rts :: "(click_xia_xid \<times> XIARouteData) list"
  rtdata :: XIARouteData
  principal_type_enabled :: int
  num_ports :: int
  local_addr :: XIAPath
  local_hid :: click_xia_xid
  bcast_xid :: click_xia_xid

definition no_route :: XIARouteData where
  "no_route = \<lparr>rport = - 1, rflags = 0, rnexthop = None\<rparr>"

text \<open>The two arguments are \<^verbatim>\<open>LOCAL_ADDR\<close> and \<^verbatim>\<open>NUM_PORT\<close>, by position.\<close>

definition route_table_configure ::
  "name_ctx \<Rightarrow> string list \<Rightarrow> XIAXIDRouteTable \<Rightarrow> (bool \<times> XIAXIDRouteTable) run" where
  "route_table_configure ctx conf t =
     (let t1 = t\<lparr>principal_type_enabled := 1, num_ports := 0, rtdata := no_route\<rparr> in
      case conf of
        [addr, n] \<Rightarrow>
          (case (XIAPath_parse ctx addr XIAPath_reset, cp_integer_int n) of
             ((True, path), Some k) \<Rightarrow>
               bind_run (path_xid path (dst path)) (\<lambda>hid.
               Inr (True, t1\<lparr>num_ports := k, local_addr := path, local_hid := hid,
                 bcast_xid := XID_parse (no_context (query_ip ctx)) BHID (bcast_xid t1)\<rparr>))
           | _ \<Rightarrow> Inr (False, t1))
      | _ \<Rightarrow> Inr (False, t1))"

section \<open>Handlers\<close>

definition set_enabled :: "int \<Rightarrow> XIAXIDRouteTable \<Rightarrow> XIAXIDRouteTable" where
  "set_enabled v t = t\<lparr>principal_type_enabled := v\<rparr>"

definition get_enabled :: "XIAXIDRouteTable \<Rightarrow> int" where
  "get_enabled t = principal_type_enabled t"

definition read_handler :: "XIAXIDRouteTable \<Rightarrow> string" where
  "read_handler t = dec_int (get_enabled t)"

text \<open>A number outside the range of \<^verbatim>\<open>int\<close> has no defined result in C; here it is the number itself.\<close>

definition atoi :: "string \<Rightarrow> int" where
  "atoi s =
     (let s1 = dropWhile isspace s;
          s2 = (if s1 \<noteq> [] \<and> (hd s1 = CHR ''-'' \<or> hd s1 = CHR ''+'') then tl s1 else s1);
          v = foldl (\<lambda>a c. 10 * a + (int (of_char c) - 48)) 0 (takeWhile isdigit s2)
      in if s1 \<noteq> [] \<and> hd s1 = CHR ''-'' then - v else v)"

definition write_handler :: "string \<Rightarrow> XIAXIDRouteTable \<Rightarrow> XIAXIDRouteTable" where
  "write_handler str t = set_enabled (atoi str) t"

definition nexthop_text :: "XIARouteData \<Rightarrow> string run" where
  "nexthop_text r = (case rnexthop r of None \<Rightarrow> Inr [] | Some x \<Rightarrow> XID_unparse x)"

definition route_line :: "string \<Rightarrow> XIARouteData \<Rightarrow> string run" where
  "route_line xid r =
     bind_run (nexthop_text r) (\<lambda>nh.
       Inr (xid @ '','' @ dec_int (rport r) @ '','' @ nh @ '','' @ dec_nat (unat (rflags r)) @ [CHR 0x0A]))"

fun list_routes_loop :: "(click_xia_xid \<times> XIARouteData) list \<Rightarrow> string run" where
  "list_routes_loop [] = Inr []"
| "list_routes_loop ((x, r) # es) =
     bind_run (XID_unparse x) (\<lambda>xid.
     bind_run (route_line xid r) (\<lambda>l.
     bind_run (list_routes_loop es) (\<lambda>tbl. Inr (l @ tbl))))"

definition list_routes_handler :: "XIAXIDRouteTable \<Rightarrow> string run" where
  "list_routes_handler t =
     bind_run (route_line ''-'' (rtdata t)) (\<lambda>l.
     bind_run (list_routes_loop (rts t)) (\<lambda>tbl. Inr (l @ tbl)))"

text \<open>
  A handler answers whether it succeeded. The outer option of \<open>nexthop_arg\<close> is the error of an XID that does
  not parse or has no type.
\<close>

definition nexthop_arg :: "name_ctx \<Rightarrow> string list \<Rightarrow> click_xia_xid option option" where
  "nexthop_arg ctx args =
     (if 3 \<le> length args \<and> args ! 2 \<noteq> [] then
        (case cp_xid ctx (args ! 2) of
           Some x \<Rightarrow> if XID_valid x then Some (Some x) else None
         | None \<Rightarrow> if XID_valid XID_default then Some (Some XID_default) else None)
      else Some None)"

definition store_route :: "click_xia_xid \<Rightarrow> XIARouteData \<Rightarrow> XIAXIDRouteTable \<Rightarrow> XIAXIDRouteTable" where
  "store_route x r t = t\<lparr>rts := AList.update x r (rts t)\<rparr>"

definition set_handler4 :: "name_ctx \<Rightarrow> bool \<Rightarrow> string \<Rightarrow> XIAXIDRouteTable \<Rightarrow> bool \<times> XIAXIDRouteTable" where
  "set_handler4 ctx add_mode conf t =
     (let args = cp_argvec conf in
      if length args < 2 \<or> 4 < length args then (False, t)
      else case cp_integer_int (args ! 1) of
        None \<Rightarrow> (False, t)
      | Some port \<Rightarrow>
          (case (if length args = 4 then cp_integer_unsigned (args ! 3) else Some 0) of
             None \<Rightarrow> (False, t)
           | Some flags \<Rightarrow>
               (case nexthop_arg ctx args of
                  None \<Rightarrow> (False, t)
                | Some nexthop \<Rightarrow>
                    let r = \<lparr>rport = port, rflags = flags, rnexthop = nexthop\<rparr> in
                    if args ! 0 = ''-'' then
                      (if add_mode \<and> rport (rtdata t) \<noteq> - 1 then (False, t)
                       else (True, t\<lparr>rtdata := r\<rparr>))
                    else case cp_xid ctx (args ! 0) of
                      None \<Rightarrow> (False, t)
                    | Some x \<Rightarrow>
                        if add_mode \<and> map_of (rts t) x \<noteq> None then (False, t)
                        else (True, store_route x r t))))"

definition set_handler :: "name_ctx \<Rightarrow> bool \<Rightarrow> string \<Rightarrow> XIAXIDRouteTable \<Rightarrow> bool \<times> XIAXIDRouteTable" where
  "set_handler ctx add_mode conf t =
     (let (xid_str, rest) = cp_shift_spacevec conf in
      if xid_str = [] then (True, t)
      else case cp_integer_int rest of
        None \<Rightarrow> (False, t)
      | Some port \<Rightarrow> set_handler4 ctx add_mode (xid_str @ '','' @ dec_int port @ '',,0'') t)"

definition remove_handler :: "name_ctx \<Rightarrow> string \<Rightarrow> XIAXIDRouteTable \<Rightarrow> bool \<times> XIAXIDRouteTable" where
  "remove_handler ctx xid_str t =
     (if xid_str = [] then (True, t)
      else if xid_str = ''-'' then (True, t\<lparr>rtdata := no_route\<rparr>)
      else case cp_xid ctx xid_str of
        None \<Rightarrow> (False, t)
      | Some x \<Rightarrow>
          if map_of (rts t) x = None then (False, t)
          else (True, t\<lparr>rts := AList.delete x (rts t)\<rparr>))"

text \<open>
  \<^verbatim>\<open>load_routes_handler\<close> reads the file with \<^verbatim>\<open>getline\<close> into 1,024 characters. A line of more than 1,023
  characters fills the buffer and puts the stream into its failed state without reaching the end of the file;
  every later read gives the empty line, so the loop does not end and the result is \<open>None\<close>.
\<close>

function load_routes_loop ::
  "name_ctx \<Rightarrow> string \<Rightarrow> XIAXIDRouteTable \<Rightarrow> (bool \<times> XIAXIDRouteTable) option" where
  "load_routes_loop ctx content t =
     (let line = takeWhile (\<lambda>c. c \<noteq> CHR 0x0A) content;
          buf = takeWhile (\<lambda>c. c \<noteq> CHR 0x00) (take 1023 line);
          (ok, t1) = (if buf = [] then (True, t) else set_handler ctx True buf t)
      in if \<not> ok then Some (False, t1)
         else if 1023 < length line then None
         else if CHR 0x0A \<in> set content then load_routes_loop ctx (drop (Suc (length line)) content) t1
         else Some (True, t1))"
  by pat_completeness auto
termination
  by (relation "measure (\<lambda>(ctx, content, t). length content)") (auto intro!: diff_less)

declare load_routes_loop.simps [simp del]

definition load_routes_handler ::
  "name_ctx \<Rightarrow> string option \<Rightarrow> XIAXIDRouteTable \<Rightarrow> (bool \<times> XIAXIDRouteTable) option" where
  "load_routes_handler ctx file t =
     (case file of None \<Rightarrow> Some (False, t) | Some content \<Rightarrow> load_routes_loop ctx content t)"

text \<open>\<^verbatim>\<open>nrand48\<close> steps the 48-bit linear congruential generator of POSIX and returns its 31 high bits.\<close>

definition nrand48 :: "u16 \<times> u16 \<times> u16 \<Rightarrow> u32 \<times> u16 \<times> u16 \<times> u16" where
  "nrand48 xsubi =
     (case xsubi of (x0, x1, x2) \<Rightarrow>
        let x = unat x0 + 2 ^ 16 * unat x1 + 2 ^ 32 * unat x2;
            y = (0x5DEECE66D * x + 0xB) mod 2 ^ 48
        in (of_nat (y div 2 ^ 17), of_nat y, of_nat (y div 2 ^ 16), of_nat (y div 2 ^ 32)))"

fun random_id :: "nat \<Rightarrow> u16 \<times> u16 \<times> u16 \<Rightarrow> u8 list" where
  "random_id 0 xsubi = []"
| "random_id (Suc n) xsubi = (let (r, s) = nrand48 xsubi in le_bytes 4 r @ random_id n s)"

definition generated_xid :: "u32 \<Rightarrow> nat \<Rightarrow> click_xia_xid" where
  "generated_xid ty i =
     (let lo = of_nat i; hi = of_nat (i div 2 ^ 16)
      in \<lparr>xid_type = ty, xid_id = random_id 5 (hi + lo, lo, hi)\<rparr>)"

text \<open>
  \<open>rnd i\<close> is the value of \<^verbatim>\<open>rand()\<close> in round \<open>i\<close>. Every 5000th XID is printed when the ports are random, with the
  names \<open>revquery\<close> knows, which overruns the buffer of \<^verbatim>\<open>XID::unparse\<close> for some types without a name. The negation of the
  least port wraps around to itself in C and gives the same remainders.
\<close>

fun generate_loop ::
  "(click_xia_xid \<Rightarrow> string) \<Rightarrow> (nat \<Rightarrow> int) \<Rightarrow> u32 \<Rightarrow> int \<Rightarrow> nat \<Rightarrow> nat \<Rightarrow> XIAXIDRouteTable \<Rightarrow> XIAXIDRouteTable run" where
  "generate_loop revquery rnd ty port i 0 t = Inr t"
| "generate_loop revquery rnd ty port i (Suc n) t =
     bind_run (if port < 0 \<and> i mod 5000 = 0 then XID_unparse_pretty revquery (generated_xid ty i) else Inr []) (\<lambda>_.
       generate_loop revquery rnd ty port (Suc i) n
         (store_route (generated_xid ty i)
            \<lparr>rport = (if port < 0 then rnd i mod (- port) else port), rflags = 0, rnexthop = None\<rparr> t))"

definition generate_routes_handler ::
  "(click_xia_xid \<Rightarrow> string) \<Rightarrow> (nat \<Rightarrow> int) \<Rightarrow> string \<Rightarrow> XIAXIDRouteTable \<Rightarrow> (bool \<times> XIAXIDRouteTable) run" where
  "generate_routes_handler revquery rnd conf t =
     (let (type_str, conf1) = cp_shift_spacevec conf;
          (count_str, conf2) = cp_shift_spacevec conf1;
          (port_str, conf3) = cp_shift_spacevec conf2
      in case cp_xid_type type_str of
           None \<Rightarrow> Inr (False, t)
         | Some ty \<Rightarrow>
             (case cp_integer_int count_str of
                None \<Rightarrow> Inr (False, t)
              | Some n \<Rightarrow>
                  (case cp_integer_int port_str of
                     None \<Rightarrow> Inr (False, t)
                   | Some port \<Rightarrow>
                       bind_run (generate_loop revquery rnd ty port 0 (nat n) t) (\<lambda>t1. Inr (True, t1)))))"

section \<open>Packets\<close>

definition xid_of_bytes :: "u8 list \<Rightarrow> click_xia_xid" where
  "xid_of_bytes bs = \<lparr>xid_type = of_le_bytes (take 4 bs), xid_id = take 20 (drop 4 bs)\<rparr>"

fun strstr :: "string \<Rightarrow> string \<Rightarrow> bool" where
  "strstr [] needle \<longleftrightarrow> needle = []"
| "strstr (c # cs) needle \<longleftrightarrow> take (length needle) (c # cs) = needle \<or> strstr cs needle"

text \<open>
  A redirect changes the next hop of a known route, and makes a new route to the default port otherwise, or
  to the local host when the text of the local address contains that of the XID. \<open>junk\<close> is the uninitialised
  node array of the printing function; a path that is printed keeps its graph and gets orders.
\<close>

definition process_xcmp_redirect ::
  "(nat \<Rightarrow> click_xia_xid_node) \<Rightarrow> packet \<Rightarrow> XIAXIDRouteTable \<Rightarrow> XIAXIDRouteTable run option" where
  "process_xcmp_redirect junk p t =
     (case XIAHeader_payload (phdr p) (body p) of
        Inl f \<Rightarrow> Some (Inl f)
      | Inr off \<Rightarrow>
          if length (body p) < off + 52 then Some (Inl Out_of_range)
          else
            let dest = xid_of_bytes (drop (off + 4) (body p));
                newroute = xid_of_bytes (drop (off + 28) (body p))
            in case map_of (rts t) dest of
                 Some r \<Rightarrow> Some (Inr (store_route dest (r\<lparr>rnexthop := Some newroute\<rparr>) t))
               | None \<Rightarrow>
                   map_option (\<lambda>r.
                     bind_run r (\<lambda>(addr, path).
                     bind_run (XID_unparse dest) (\<lambda>d.
                     let port = (if strstr addr d then DESTINED_FOR_LOCALHOST else rport (rtdata t))
                     in Inr (store_route dest \<lparr>rport = port, rflags = 0, rnexthop = Some newroute\<rparr>
                          (t\<lparr>local_addr := path\<rparr>)))))
                     (XIAPath_unparse (\<lambda>_. []) (map junk [0..<unparse_node_size (local_addr t)])
                       (local_addr t)))"

text \<open>The next-hop annotation is set for a route that leads out of the host and has a next hop.\<close>

definition annotate_nexthop :: "XIARouteData \<Rightarrow> packet \<Rightarrow> packet" where
  "annotate_nexthop r p =
     (if rport r \<noteq> DESTINED_FOR_LOCALHOST \<and> rport r \<noteq> FALLBACK
      then (case rnexthop r of None \<Rightarrow> p | Some x \<Rightarrow> set_nexthop_neighbor_xid_anno x p) else p)"

definition broadcast_source :: "click_xia \<Rightarrow> click_xia_xid run" where
  "broadcast_source h =
     (let s = src_path h in bind_run (remove_node (dst s) s) (\<lambda>s1. path_xid s1 (dst s1)))"

definition learn_neighbor :: "int \<Rightarrow> click_xia_xid \<Rightarrow> XIAXIDRouteTable \<Rightarrow> XIAXIDRouteTable" where
  "learn_neighbor in_port source t =
     (case map_of (rts t) source of
        Some r \<Rightarrow> if rport r \<noteq> in_port then store_route source (r\<lparr>rport := in_port\<rparr>) t else t
      | None \<Rightarrow> store_route source \<lparr>rport = in_port, rflags = 0, rnexthop = Some source\<rparr> t)"

definition lookup_route ::
  "int \<Rightarrow> packet \<Rightarrow> XIAXIDRouteTable \<Rightarrow> (int \<times> packet \<times> XIAXIDRouteTable) run" where
  "lookup_route in_port p t =
     bind_run (current_edge p) (\<lambda>e.
       if idx e = CLICK_XIA_XID_EDGE_UNUSED then Inr (rport (rtdata t), p, t)
       else bind_run (at (hnode (phdr p)) (unat (idx e))) (\<lambda>m.
         if bcast_xid t = nxid m then
           bind_run (broadcast_source (phdr p)) (\<lambda>source.
             if local_hid t = source
             then Inr (DESTINED_FOR_BROADCAST, set_nexthop_neighbor_xid_anno (bcast_xid t) p, t)
             else Inr (DESTINED_FOR_LOCALHOST, p, learn_neighbor in_port source t))
         else
           let r = (case map_of (rts t) (nxid m) of Some r \<Rightarrow> r | None \<Rightarrow> rtdata t)
           in Inr (rport r, annotate_nexthop r p, t)))"

definition redirect_notice :: "int \<Rightarrow> int \<Rightarrow> packet \<Rightarrow> pushed" where
  "redirect_notice in_port port p =
     (if port = in_port \<and> in_port \<noteq> DESTINED_FOR_LOCALHOST \<and> in_port \<noteq> DESTINED_FOR_DISCARD
      then [(4, SET_XIA_PAINT_ANNO (- (XIA_PAINT_ANNO p + TOTAL_SPECIAL_CASES)) p)] else [])"

definition forward_port :: "int \<Rightarrow> int \<Rightarrow> packet \<Rightarrow> pushed" where
  "forward_port ports port p =
     (if 0 \<le> port then [(0, SET_XIA_PAINT_ANNO port p)]
      else if port = DESTINED_FOR_LOCALHOST then [(1, p)]
      else if port = DESTINED_FOR_DHCP then [(3, SET_XIA_PAINT_ANNO port p)]
      else if port = DESTINED_FOR_BROADCAST then map (\<lambda>i. (0, SET_XIA_PAINT_ANNO i p)) [0..ports]
      else [(2, p)])"

definition route_table_push ::
  "(nat \<Rightarrow> click_xia_xid_node) \<Rightarrow> packet \<Rightarrow> XIAXIDRouteTable \<Rightarrow> (pushed \<times> XIAXIDRouteTable) run option" where
  "route_table_push junk p t =
     (let in_port = XIA_PAINT_ANNO p in
      if principal_type_enabled t = 0 then Some (Inr ([(2, p)], t))
      else if in_port = REDIRECT
      then map_option (\<lambda>r. bind_run r (\<lambda>t1. Inr ([], t1))) (process_xcmp_redirect junk p t)
      else Some (bind_run (lookup_route in_port p t) (\<lambda>(port, p1, t1).
        Inr (redirect_notice in_port port p1 @ forward_port (num_ports t1) port p1, t1))))"

end
