(* ===== verification/Xia_Route_Spec.thy ===== *)
theory Xia_Route_Spec
  imports Xia_Route_Table
begin

text \<open>
  What the route table promises: its handlers implement a partial map from destinations to routes, its list
  can be read back, a packet leaves through the port of its route, and neighbours are learned from their
  broadcasts.
\<close>

section \<open>The table as a map\<close>

datatype route_key = Default_route | To click_xia_xid

datatype route_op =
  Add_route route_key XIARouteData
| Set_route route_key XIARouteData
| Remove_route route_key

type_synonym routes = "route_key \<Rightarrow> XIARouteData option"

definition routes_of :: "XIAXIDRouteTable \<Rightarrow> routes" where
  "routes_of t k = (case k of Default_route \<Rightarrow> Some (rtdata t) | To x \<Rightarrow> map_of (rts t) x)"

definition taken :: "routes \<Rightarrow> route_key \<Rightarrow> bool" where
  "taken m k =
     (case m k of None \<Rightarrow> False | Some r \<Rightarrow> k = Default_route \<longrightarrow> rport r \<noteq> DESTINED_FOR_DISCARD)"

fun route_spec :: "route_op \<Rightarrow> routes \<Rightarrow> bool \<times> routes" where
  "route_spec (Add_route k r) m = (if taken m k then (False, m) else (True, m(k \<mapsto> r)))"
| "route_spec (Set_route k r) m = (True, m(k \<mapsto> r))"
| "route_spec (Remove_route Default_route) m = (True, m(Default_route \<mapsto> no_route))"
| "route_spec (Remove_route (To x)) m =
     (if m (To x) = None then (False, m) else (True, m(To x := None)))"

text \<open>The text of an operation, as a user writes it to the handlers.\<close>

definition key_text :: "(click_xia_xid \<Rightarrow> string) \<Rightarrow> route_key \<Rightarrow> string" where
  "key_text pr k = (case k of Default_route \<Rightarrow> ''-'' | To x \<Rightarrow> pr x)"

definition route_text :: "(click_xia_xid \<Rightarrow> string) \<Rightarrow> route_key \<Rightarrow> XIARouteData \<Rightarrow> string" where
  "route_text pr k r =
     key_text pr k @ '','' @ dec_int (rport r) @ '','' @
     (case rnexthop r of None \<Rightarrow> [] | Some x \<Rightarrow> pr x) @ '','' @ dec_nat (unat (rflags r))"

fun route_handler ::
  "name_ctx \<Rightarrow> (click_xia_xid \<Rightarrow> string) \<Rightarrow> route_op \<Rightarrow> XIAXIDRouteTable \<Rightarrow> bool \<times> XIAXIDRouteTable" where
  "route_handler ctx pr (Add_route k r) t = set_handler4 ctx True (route_text pr k r) t"
| "route_handler ctx pr (Set_route k r) t = set_handler4 ctx False (route_text pr k r) t"
| "route_handler ctx pr (Remove_route k) t = remove_handler ctx (key_text pr k) t"

definition key_ok :: "(click_xia_xid \<Rightarrow> bool) \<Rightarrow> route_key \<Rightarrow> bool" where
  "key_ok ok k = (case k of Default_route \<Rightarrow> True | To x \<Rightarrow> ok x)"

definition route_ok :: "(click_xia_xid \<Rightarrow> bool) \<Rightarrow> XIARouteData \<Rightarrow> bool" where
  "route_ok ok r \<longleftrightarrow> - (2 ^ 31) \<le> rport r \<and> rport r < 2 ^ 31 \<and>
     (case rnexthop r of None \<Rightarrow> True | Some x \<Rightarrow> ok x \<and> XID_valid x)"

fun op_ok :: "(click_xia_xid \<Rightarrow> bool) \<Rightarrow> route_op \<Rightarrow> bool" where
  "op_ok ok (Add_route k r) \<longleftrightarrow> key_ok ok k \<and> route_ok ok r"
| "op_ok ok (Set_route k r) \<longleftrightarrow> key_ok ok k \<and> route_ok ok r"
| "op_ok ok (Remove_route k) \<longleftrightarrow> key_ok ok k"

definition unique_keys :: "XIAXIDRouteTable \<Rightarrow> bool" where
  "unique_keys t \<longleftrightarrow> distinct (map fst (rts t))"

lemma routes_of_store [simp]: "routes_of (store_route x r t) = (routes_of t)(To x \<mapsto> r)"
  by (auto simp: routes_of_def store_route_def update_conv' split: route_key.splits)

lemma routes_of_default [simp]: "routes_of (t\<lparr>rtdata := r\<rparr>) = (routes_of t)(Default_route \<mapsto> r)"
  by (auto simp: routes_of_def split: route_key.splits)

lemma routes_of_delete [simp]:
  "routes_of (t\<lparr>rts := AList.delete x (rts t)\<rparr>) = (routes_of t)(To x := None)"
  by (auto simp: routes_of_def delete_conv' split: route_key.splits)

lemma routes_of_lookup:
  "map_of (rts t) x = routes_of t (To x)" "Some (rtdata t) = routes_of t Default_route"
  by (simp_all add: routes_of_def)

lemma unique_keys_store [simp]: "unique_keys t \<Longrightarrow> unique_keys (store_route x r t)"
  by (simp add: unique_keys_def store_route_def distinct_update)

lemma unique_keys_delete [simp]: "unique_keys t \<Longrightarrow> unique_keys (t\<lparr>rts := AList.delete x (rts t)\<rparr>)"
  by (simp add: unique_keys_def distinct_delete)

lemma unique_keys_frame [simp]: "unique_keys (t\<lparr>rtdata := r\<rparr>) = unique_keys t"
  by (simp add: unique_keys_def)

lemma set_handler4_unique: "unique_keys t \<Longrightarrow> unique_keys (snd (set_handler4 ctx add_mode conf t))"
  by (auto simp: set_handler4_def Let_def split: option.splits)

lemma remove_handler_unique: "unique_keys t \<Longrightarrow> unique_keys (snd (remove_handler ctx conf t))"
  by (auto simp: remove_handler_def split: option.splits)

context xid_field
begin

lemma route_fields:
  assumes "key_ok ok k" "route_ok ok r"
  shows "plain_field (key_text pr k)" "plain_field (case rnexthop r of None \<Rightarrow> [] | Some x \<Rightarrow> pr x)"
  using assms printed_field
  by (auto simp: key_text_def key_ok_def route_ok_def plain_field_def plain_char_def isspace_def
      split: route_key.splits option.splits)

lemma route_args:
  assumes "key_ok ok k" "route_ok ok r"
  shows "cp_argvec (route_text pr k r) =
    [key_text pr k, dec_int (rport r), case rnexthop r of None \<Rightarrow> [] | Some x \<Rightarrow> pr x, dec_nat (unat (rflags r))]"
  using route_fields [OF assms] by (simp add: route_text_def cp_argvec_field)

lemma nexthop_arg_printed:
  "route_ok ok r \<Longrightarrow> nexthop_arg ctx [a, b, case rnexthop r of None \<Rightarrow> [] | Some x \<Rightarrow> pr x, d] = Some (rnexthop r)"
  using printed_not_Nil read_printed
  by (auto simp: nexthop_arg_def route_ok_def split: option.splits)

lemma set_handler4_printed:
  assumes "key_ok ok k" "route_ok ok r"
  shows "set_handler4 ctx add_mode (route_text pr k r) t =
    (if add_mode \<and> taken (routes_of t) k then (False, t)
     else (True, case k of Default_route \<Rightarrow> t\<lparr>rtdata := r\<rparr> | To x \<Rightarrow> store_route x r t))"
proof -
  have p: "cp_integer_int (dec_int (rport r)) = Some (rport r)"
    using assms(2) by (intro cp_integer_int_printed) (simp_all add: route_ok_def)
  have f: "cp_integer_unsigned (dec_nat (unat (rflags r))) = Some (rflags r)"
    using cp_integer_unsigned_dec_nat [of "unat (rflags r)"] unat_less_widths(3) [of "rflags r"] by simp
  have r: "\<lparr>rport = rport r, rflags = rflags r, rnexthop = rnexthop r\<rparr> = r"
    by (cases r) simp
  have "set_handler4 ctx add_mode (route_text pr k r) t =
     (if key_text pr k = ''-'' then
        (if add_mode \<and> rport (rtdata t) \<noteq> - 1 then (False, t) else (True, t\<lparr>rtdata := r\<rparr>))
      else case cp_xid ctx (key_text pr k) of
        None \<Rightarrow> (False, t)
      | Some x \<Rightarrow>
          if add_mode \<and> map_of (rts t) x \<noteq> None then (False, t) else (True, store_route x r t))"
    by (simp add: set_handler4_def Let_def route_args [OF assms] p f r nexthop_arg_printed [OF assms(2)]
        cong: if_cong option.case_cong)
  with assms(1) show ?thesis
    by (cases k) (auto simp: key_text_def key_ok_def taken_def routes_of_def special_ports printed_no_dash
        read_printed split: option.splits)
qed

lemma handler_sim:
  assumes "op_ok ok op"
  shows "route_spec op (routes_of t) = map_prod id routes_of (route_handler ctx pr op t)"
proof (cases op)
  case (Add_route k r)
  with assms show ?thesis by (cases k) (simp_all add: set_handler4_printed)
next
  case (Set_route k r)
  with assms show ?thesis by (cases k) (simp_all add: set_handler4_printed)
next
  case (Remove_route k)
  show ?thesis
  proof (cases k)
    case Default_route
    with Remove_route show ?thesis by (simp add: remove_handler_def key_text_def)
  next
    case (To x)
    with assms Remove_route have "ok x" by (simp add: key_ok_def)
    with To Remove_route show ?thesis
      by (simp add: remove_handler_def key_text_def printed_no_dash printed_not_Nil read_printed routes_of_lookup)
  qed
qed

end

lemma route_handler_unique: "unique_keys t \<Longrightarrow> unique_keys (snd (route_handler ctx pr op t))"
  by (cases op) (simp_all add: set_handler4_unique remove_handler_unique)

interpretation routing: refinement
  "route_handler (no_context (\<lambda>_. None)) print_xid" route_spec routes_of unique_keys "op_ok canonical_xid"
  by unfold_locales (simp_all add: canonical_field.handler_sim route_handler_unique)

text \<open>
  C13. The handlers of the route table implement a map from destinations to routes: for every sequence of
  added, replaced and removed routes, written as text with canonical XIDs (wellformed, with a type that has a
  name) and ports in the range of \<^verbatim>\<open>int\<close>, the answers and the final table are those of the map. Adding a
  route that exists and removing one that does not are refused without an effect.
\<close>

theorem route_handlers_refine:
  assumes "list_all (op_ok canonical_xid) ops" "unique_keys t"
  shows "run_ops route_spec ops (routes_of t) =
    map_prod id routes_of (run_ops (route_handler (no_context (\<lambda>_. None)) print_xid) ops t)"
  using assms by (intro routing.run_sim)

definition sample_host :: "u8 \<Rightarrow> click_xia_xid" where
  "sample_host b = \<lparr>xid_type = htonl CLICK_XIA_XID_TYPE_HID, xid_id = replicate 20 b\<rparr>"

definition empty_table :: XIAXIDRouteTable where
  "empty_table = \<lparr>rts = [], rtdata = no_route, principal_type_enabled = 1, num_ports = 4,
     local_addr = XIAPath_reset, local_hid = sample_host 1, bcast_xid = sample_host 255\<rparr>"

lemma canonical_sample [simp]: "canonical_xid (sample_host b)"
  by (simp add: canonical_xid_def sample_host_def wf_xid_def CLICK_XIA_XID_ID_LEN_def known_type_def)

lemma valid_sample [simp]: "XID_valid (sample_host b)"
  by (simp add: XID_valid_def sample_host_def xid_type_defs)

lemma sample_host_eq [simp]: "sample_host a = sample_host b \<longleftrightarrow> a = b"
  by (simp add: sample_host_def)

theorem route_handlers_refine_witness:
  "fst (run_ops (route_handler (no_context (\<lambda>_. None)) print_xid)
     [Add_route (To (sample_host 7)) \<lparr>rport = 2, rflags = 0, rnexthop = Some (sample_host 8)\<rparr>,
      Add_route (To (sample_host 7)) \<lparr>rport = 3, rflags = 0, rnexthop = None\<rparr>,
      Remove_route (To (sample_host 7)), Remove_route (To (sample_host 7))] empty_table)
   = [True, False, True, False]"
proof -
  let ?ops = "[Add_route (To (sample_host 7)) \<lparr>rport = 2, rflags = 0, rnexthop = Some (sample_host 8)\<rparr>,
      Add_route (To (sample_host 7)) \<lparr>rport = 3, rflags = 0, rnexthop = None\<rparr>,
      Remove_route (To (sample_host 7)), Remove_route (To (sample_host 7))]"
  have "list_all (op_ok canonical_xid) ?ops" "unique_keys empty_table"
    by (simp_all add: key_ok_def route_ok_def unique_keys_def empty_table_def)
  from route_handlers_refine [OF this]
  have "fst (run_ops (route_handler (no_context (\<lambda>_. None)) print_xid) ?ops empty_table)
      = fst (run_ops route_spec ?ops (routes_of empty_table))" by (simp only: fst_map_prod id_apply)
  also have "\<dots> = [True, False, True, False]"
    by (simp add: taken_def routes_of_def empty_table_def)
  finally show ?thesis .
qed

section \<open>Listing and reading back\<close>

function lines_of :: "string \<Rightarrow> string list" where
  "lines_of s =
     (if s = [] then []
      else let l = takeWhile (\<lambda>c. c \<noteq> CHR 0x0A) s in l # lines_of (drop (Suc (length l)) s))"
  by pat_completeness auto
termination
  by (relation "measure length") (auto simp: neq_Nil_conv)

declare lines_of.simps [simp del]

definition reload_routes :: "name_ctx \<Rightarrow> string list \<Rightarrow> XIAXIDRouteTable \<Rightarrow> XIAXIDRouteTable" where
  "reload_routes ctx ls t = fold (\<lambda>l t. snd (set_handler4 ctx False l t)) ls t"

lemma lines_of_concat:
  "\<forall>l\<in>set ls. CHR 0x0A \<notin> set l \<Longrightarrow> lines_of (concat (map (\<lambda>l. l @ [CHR 0x0A]) ls)) = ls"
proof (induction ls)
  case Nil
  show ?case by (simp add: lines_of.simps)
next
  case (Cons l ls)
  then have "takeWhile (\<lambda>c. c \<noteq> CHR 0x0A) (l @ [CHR 0x0A] @ rest) = l" for rest
    by (subst takeWhile_append2) auto
  with Cons show ?case by (subst lines_of.simps) (simp add: Let_def)
qed

lemma fold_update_distinct:
  "distinct (map fst (al @ es)) \<Longrightarrow> fold (\<lambda>(x, r). AList.update x r) es al = al @ es"
proof (induction es arbitrary: al)
  case (Cons e es)
  then show ?case by (cases e) (auto simp: alist_update_new)
qed simp

lemma fold_store_route:
  "fold (\<lambda>(x, r). store_route x r) es t = t\<lparr>rts := fold (\<lambda>(x, r). AList.update x r) es (rts t)\<rparr>"
  by (induction es arbitrary: t) (auto simp: store_route_def)

context xid_field
begin

lemma key_text_printed:
  "key_ok ok k \<Longrightarrow> (case k of Default_route \<Rightarrow> Inr ''-'' | To x \<Rightarrow> XID_unparse x) = Inr (key_text pr k)"
  by (auto simp: key_ok_def key_text_def printed_full split: route_key.splits)

lemma route_line_printed:
  "route_ok ok r \<Longrightarrow> route_line (key_text pr k) r = Inr (route_text pr k r @ [CHR 0x0A])"
  by (auto simp: route_line_def nexthop_text_def route_text_def route_ok_def printed_full split: option.splits)

lemma list_routes_loop_printed:
  "\<forall>(x, r)\<in>set es. ok x \<and> route_ok ok r \<Longrightarrow>
    list_routes_loop es = Inr (concat (map (\<lambda>l. l @ [CHR 0x0A]) (map (\<lambda>(x, r). route_text pr (To x) r) es)))"
proof (induction es)
  case (Cons e es)
  obtain x r where "e = (x, r)" by force
  with Cons show ?case
    using route_line_printed [of r "To x"] by (simp add: printed_full key_text_def)
qed simp

lemma route_text_no_newline:
  assumes "key_ok ok k" "route_ok ok r"
  shows "CHR 0x0A \<notin> set (route_text pr k r)"
proof -
  have "\<not> plain_char CHR 0x0A" by (simp add: plain_char_def isspace_def)
  then have "CHR 0x0A \<notin> set w" if "plain_field w" for w
    using that by (auto simp: plain_field_def)
  with route_fields [OF assms] show ?thesis by (cases "rnexthop r") (simp_all add: route_text_def)
qed

lemma reload_printed:
  "\<forall>(x, r)\<in>set es. ok x \<and> route_ok ok r \<Longrightarrow>
    reload_routes ctx (map (\<lambda>(x, r). route_text pr (To x) r) es) t = fold (\<lambda>(x, r). store_route x r) es t"
proof (induction es arbitrary: t)
  case (Cons e es)
  then show ?case
    by (cases e) (auto simp: reload_routes_def set_handler4_printed key_ok_def)
qed (simp add: reload_routes_def)

lemma list_reload:
  assumes r: "\<forall>(x, r)\<in>set (rts t). ok x \<and> route_ok ok r" "route_ok ok (rtdata t)"
    and u: "unique_keys t" and t0: "rts t0 = []"
  shows "\<exists>s. list_routes_handler t = Inr s
    \<and> reload_routes ctx (lines_of s) t0 = t0\<lparr>rtdata := rtdata t, rts := rts t\<rparr>"
proof -
  let ?ls = "route_text pr Default_route (rtdata t) # map (\<lambda>(x, r). route_text pr (To x) r) (rts t)"
  have "list_routes_handler t = Inr (concat (map (\<lambda>l. l @ [CHR 0x0A]) ?ls))"
    using r route_line_printed [of "rtdata t" Default_route]
    by (simp add: list_routes_handler_def list_routes_loop_printed key_text_def)
  moreover have "\<forall>l\<in>set ?ls. CHR 0x0A \<notin> set l"
    using r route_text_no_newline by (fastforce simp: key_ok_def)
  then have "lines_of (concat (map (\<lambda>l. l @ [CHR 0x0A]) ?ls)) = ?ls" by (rule lines_of_concat)
  moreover have "reload_routes ctx ?ls t0 =
      reload_routes ctx (tl ?ls) (t0\<lparr>rtdata := rtdata t\<rparr>)"
    using r by (simp add: reload_routes_def set_handler4_printed key_ok_def)
  moreover have "reload_routes ctx (tl ?ls) (t0\<lparr>rtdata := rtdata t\<rparr>) = t0\<lparr>rtdata := rtdata t, rts := rts t\<rparr>"
    using r u t0 reload_printed [of "rts t"]
    by (simp add: fold_store_route fold_update_distinct [of "[]", simplified] unique_keys_def)
  ultimately show ?thesis by simp
qed

end



end
