(* ===== verification/Xia_Route_Forward.thy ===== *)
theory Xia_Route_Forward
  imports Xia_Route_Spec
begin

text \<open>
  Packets through the route table: where a packet with a route goes, how a neighbour is learned from its
  broadcast, what happens to a broadcast whose source path is too short, and the invariant that all handlers
  and packets keep.
\<close>

section \<open>Unicast\<close>

text \<open>The XID the current edge of a packet leads to.\<close>

definition headed_for :: "packet \<Rightarrow> click_xia_xid \<Rightarrow> bool" where
  "headed_for p x =
     (case current_edge p of
        Inl _ \<Rightarrow> False
      | Inr e \<Rightarrow> idx e \<noteq> CLICK_XIA_XID_EDGE_UNUSED \<and> unat (idx e) < length (hnode (phdr p))
          \<and> nxid (hnode (phdr p) ! unat (idx e)) = x)"

definition route_for :: "XIAXIDRouteTable \<Rightarrow> click_xia_xid \<Rightarrow> XIARouteData" where
  "route_for t x = (case routes_of t (To x) of Some r \<Rightarrow> r | None \<Rightarrow> rtdata t)"

lemma headed_forE:
  assumes "headed_for p x"
  obtains e where "current_edge p = Inr e" "idx e \<noteq> CLICK_XIA_XID_EDGE_UNUSED"
    "unat (idx e) < length (hnode (phdr p))" "nxid (hnode (phdr p) ! unat (idx e)) = x"
  using assms by (auto simp: headed_for_def split: sum.splits)

lemma lookup_route_unicast:
  assumes "headed_for p x" "x \<noteq> bcast_xid t"
  shows "lookup_route i p t = Inr (rport (route_for t x), annotate_nexthop (route_for t x) p, t)"
proof -
  obtain e where "current_edge p = Inr e" "idx e \<noteq> CLICK_XIA_XID_EDGE_UNUSED"
    "unat (idx e) < length (hnode (phdr p))" "nxid (hnode (phdr p) ! unat (idx e)) = x"
    by (rule headed_forE [OF assms(1)])
  with assms(2) show ?thesis
    by (simp add: lookup_route_def route_for_def routes_of_def Let_def)
qed

lemma annotate_nexthop_fields [simp]:
  "phdr (annotate_nexthop r p) = phdr p" "body (annotate_nexthop r p) = body p"
  "next_path_anno (annotate_nexthop r p) = next_path_anno p"
  "paint_anno (annotate_nexthop r p) = paint_anno p"
  by (simp_all add: annotate_nexthop_def anno_defs split: option.splits)

lemma XIA_PAINT_annotate [simp]: "XIA_PAINT_ANNO (annotate_nexthop r p) = XIA_PAINT_ANNO p"
  by (simp add: XIA_PAINT_ANNO_def)

lemma push_unicast:
  assumes "headed_for p x" "x \<noteq> bcast_xid t" "principal_type_enabled t \<noteq> 0" "XIA_PAINT_ANNO p \<noteq> REDIRECT"
  shows "route_table_push junk p t =
    (let r = route_for t x; q = annotate_nexthop r p
     in Some (Inr (redirect_notice (XIA_PAINT_ANNO p) (rport r) q @ forward_port (num_ports t) (rport r) q, t)))"
  using assms by (simp add: route_table_push_def lookup_route_unicast Let_def)

lemma store_route_frame [simp]:
  "bcast_xid (store_route x r t) = bcast_xid t" "local_hid (store_route x r t) = local_hid t"
  "num_ports (store_route x r t) = num_ports t" "rtdata (store_route x r t) = rtdata t"
  "local_addr (store_route x r t) = local_addr t"
  "principal_type_enabled (store_route x r t) = principal_type_enabled t"
  by (simp_all add: store_route_def)

lemma route_for_store: "route_for (store_route x r t) y = (if y = x then r else route_for t y)"
  by (simp add: route_for_def split: option.splits)

text \<open>
  C28. A route that was written to the table is the one packets take. After the text of a route to an
  interface has been written to \<^verbatim>\<open>set4\<close>, a packet whose current edge leads to its XID leaves through output
  0 as one copy, painted with the port of the route, with the next hop of the route as its annotation and
  header and payload unchanged; one more packet is produced, for a redirect message, exactly when the packet
  had come in on that port. Packets that head for another XID are treated as before.
\<close>

theorem written_route_forwards:
  assumes "canonical_xid x" "route_ok canonical_xid r" "0 \<le> rport r" "rport r < 2 ^ 15"
    and "headed_for p x" "x \<noteq> bcast_xid t" "principal_type_enabled t \<noteq> 0" "XIA_PAINT_ANNO p \<noteq> REDIRECT"
  shows "\<exists>t1 out q. set_handler4 (no_context (\<lambda>_. None)) False (route_text print_xid (To x) r) t = (True, t1)
    \<and> route_table_push junk p t1 = Some (Inr (out, t1))
    \<and> filter (\<lambda>m. fst m = 0) out = [(0, q)]
    \<and> XIA_PAINT_ANNO q = rport r \<and> phdr q = phdr p \<and> body q = body p
    \<and> nexthop_neighbor_xid_anno q = (case rnexthop r of Some h \<Rightarrow> h | None \<Rightarrow> nexthop_neighbor_xid_anno p)
    \<and> length out = (if rport r = XIA_PAINT_ANNO p then 2 else 1)
    \<and> (\<forall>p' y. headed_for p' y \<and> y \<noteq> x \<and> y \<noteq> bcast_xid t \<and> XIA_PAINT_ANNO p' \<noteq> REDIRECT \<longrightarrow>
         map_option (map_sum id fst) (route_table_push junk p' t1) =
         map_option (map_sum id fst) (route_table_push junk p' t))"
proof -
  let ?t1 = "store_route x r t" and ?q = "annotate_nexthop r p"
  have s: "set_handler4 (no_context (\<lambda>_. None)) False (route_text print_xid (To x) r) t = (True, ?t1)"
    using assms(1,2) by (simp add: canonical_field.set_handler4_printed key_ok_def)
  have push: "route_table_push junk p ?t1 = Some (Inr
      (redirect_notice (XIA_PAINT_ANNO p) (rport r) ?q @ [(0, SET_XIA_PAINT_ANNO (rport r) ?q)], ?t1))"
    using assms(3,5-8) by (simp add: push_unicast route_for_store forward_port_def Let_def)
  have notice: "filter (\<lambda>m. fst m = 0) (redirect_notice i k ?q) = []" for i k
    by (simp add: redirect_notice_def)
  have len: "length (redirect_notice (XIA_PAINT_ANNO p) (rport r) ?q) = (if rport r = XIA_PAINT_ANNO p then 1 else 0)"
    using assms(3) by (simp add: redirect_notice_def special_ports)
  have paint: "XIA_PAINT_ANNO (SET_XIA_PAINT_ANNO (rport r) ?q) = rport r"
    using assms(3,4) by (intro paint_paint) simp_all
  have nh: "nexthop_neighbor_xid_anno (SET_XIA_PAINT_ANNO (rport r) ?q) =
      (case rnexthop r of Some h \<Rightarrow> h | None \<Rightarrow> nexthop_neighbor_xid_anno p)"
    using assms(3) by (simp add: annotate_nexthop_def anno_defs special_ports split: option.splits)
  have frame: "map_option (map_sum id fst) (route_table_push junk p' ?t1) =
      map_option (map_sum id fst) (route_table_push junk p' t)"
    if "headed_for p' y" "y \<noteq> x" "y \<noteq> bcast_xid t" "XIA_PAINT_ANNO p' \<noteq> REDIRECT" for p' y
    using that assms(7) by (simp add: push_unicast route_for_store Let_def)
  let ?out = "redirect_notice (XIA_PAINT_ANNO p) (rport r) ?q @ [(0, SET_XIA_PAINT_ANNO (rport r) ?q)]"
  have hdr: "phdr (SET_XIA_PAINT_ANNO (rport r) ?q) = phdr p" "body (SET_XIA_PAINT_ANNO (rport r) ?q) = body p"
    by (simp_all add: SET_XIA_PAINT_ANNO_def)
  have out: "filter (\<lambda>m. fst m = 0) ?out = [(0, SET_XIA_PAINT_ANNO (rport r) ?q)]"
    "length ?out = (if rport r = XIA_PAINT_ANNO p then 2 else 1)"
    using notice len by simp_all
  show ?thesis
    by (intro exI [of _ ?t1] exI [of _ ?out] exI [of _ "SET_XIA_PAINT_ANNO (rport r) ?q"] conjI allI impI)
      (use s push out paint hdr nh frame in blast)+
qed

definition sample_packet :: "click_xia_xid \<Rightarrow> int \<Rightarrow> packet" where
  "sample_packet x i =
     (let e = (\<lambda>k. \<lparr>idx = k, visited = False\<rparr>) in
      \<lparr>phdr = \<lparr>ver = 1, nxt = CLICK_XIA_NXT_NO, plen = 0, hlim = 250, dnode = 1, snode = 2, hlast = - 1,
        hnode = [\<lparr>nxid = x, nedge = [e 0, e 127, e 127, e 127]\<rparr>,
          \<lparr>nxid = sample_host 9, nedge = [e 1, e 127, e 127, e 127]\<rparr>,
          \<lparr>nxid = sample_host 10, nedge = [e 0, e 127, e 127, e 127]\<rparr>]\<rparr>,
       body = [], next_path_anno = 0, paint_anno = word_of_int i, neighbor_anno = XID_default\<rparr>)"

lemma headed_for_sample: "headed_for (sample_packet x i) x"
  by (simp add: headed_for_def sample_packet_def current_edge_def current_node_def current_index_def
      XIA_NEXT_PATH_ANNO_def int_at_def CLICK_XIA_XID_EDGE_UNUSED_def)

lemma paint_sample: "- 32768 \<le> i \<Longrightarrow> i < 32768 \<Longrightarrow> XIA_PAINT_ANNO (sample_packet x i) = i"
  by (simp add: XIA_PAINT_ANNO_def sample_packet_def sint_16_of_int)

theorem written_route_forwards_witness:
  "\<exists>t1 out q. set_handler4 (no_context (\<lambda>_. None)) False
      (route_text print_xid (To (sample_host 7)) \<lparr>rport = 2, rflags = 0, rnexthop = Some (sample_host 8)\<rparr>)
      empty_table = (True, t1)
    \<and> route_table_push (\<lambda>_. undefined) (sample_packet (sample_host 7) 2) t1 = Some (Inr (out, t1))
    \<and> filter (\<lambda>m. fst m = 0) out = [(0, q)] \<and> XIA_PAINT_ANNO q = 2
    \<and> nexthop_neighbor_xid_anno q = sample_host 8 \<and> length out = 2"
  using written_route_forwards [of "sample_host 7" "\<lparr>rport = 2, rflags = 0, rnexthop = Some (sample_host 8)\<rparr>"
      "sample_packet (sample_host 7) 2" empty_table "\<lambda>_. undefined"]
  by (auto simp: headed_for_sample paint_sample route_ok_def empty_table_def special_ports)

section \<open>Broadcasts\<close>

text \<open>The last node but one of the source path is taken as the host a broadcast comes from.\<close>

lemma parse_node_ends:
  assumes "ms \<noteq> []"
  shows "length (nodes (parse_node ms)) = Suc (length ms)" "dst (parse_node ms) = length ms - 1"
    "\<And>i. Suc i < length ms \<Longrightarrow> pxid (nodes (parse_node ms) ! i) = nxid (ms ! i)"
  using assms by (auto simp: parse_node_def Let_def graph_node_def nth_append nth_list_update Suc_diff_Suc)

lemma shift_handle_self: "0 < d \<Longrightarrow> d < 256 \<Longrightarrow> shift_handle d d = d - 1"
  using to_size_int [of "d - 1"] by (simp add: shift_handle_def npos_def of_nat_diff)

lemma broadcast_source_path:
  assumes "wf_hdr h" "2 \<le> unat (snode h)"
  shows "broadcast_source h = Inr (nxid (hnode h ! (unat (dnode h) + unat (snode h) - 2)))"
proof -
  let ?ms = "take (unat (snode h)) (drop (unat (dnode h)) (hnode h))"
  let ?k = "unat (snode h)"
  have len: "length ?ms = ?k" using assms(1) by (simp add: wf_hdr_def)
  then have ne: "?ms \<noteq> []" using assms(2) by auto
  note ends = parse_node_ends [OF ne, unfolded len]
  have small: "?k < 256" using unat_less_widths(1) [of "snode h"] by simp
  have sh: "shift_handle (?k - Suc 0) (?k - Suc 0) = ?k - 2"
    using shift_handle_self [of "?k - 1"] assms(2) small by simp
  have "remove_node (dst (src_path h)) (src_path h) = Inr
      \<lparr>nodes = map (\<lambda>n. n\<lparr>edges := drop_handle (?k - 1) (edges n)\<rparr>)
         (take (?k - 1) (nodes (src_path h)) @ drop ?k (nodes (src_path h))),
       src = shift_handle (?k - 1) (src (src_path h)), dst = ?k - 2\<rparr>"
    using ends(1,2) assms(2) small
    by (simp add: remove_node_def src_path_def sh)
  moreover have "pxid (nodes (src_path h) ! (?k - 2)) = nxid (hnode h ! (unat (dnode h) + ?k - 2))"
    using ends(3) [of "?k - 2"] assms len by (simp add: src_path_def wf_hdr_def)
  moreover have "?k - 2 < ?k - 1" using assms(2) by simp
  ultimately show ?thesis
    using ends(1) assms(2) by (simp add: broadcast_source_def path_xid_def src_path_def nth_append Let_def)
qed

lemma broadcast_source_short:
  assumes "wf_hdr h" "unat (snode h) < 2"
  shows "broadcast_source h = Inl Out_of_range"
proof (cases "unat (snode h) = 0")
  case True
  then show ?thesis
    by (simp add: broadcast_source_def src_path_def parse_node_def XIAPath_reset_def remove_node_def)
next
  case False
  with assms(2) have one: "unat (snode h) = Suc 0" by simp
  let ?ms = "take (unat (snode h)) (drop (unat (dnode h)) (hnode h))"
  have len: "length ?ms = Suc 0" using assms(1) one by (simp add: wf_hdr_def)
  then have "?ms \<noteq> []" by auto
  note ends = parse_node_ends [OF this, unfolded len]
  show ?thesis
    using ends(1,2)
    by (simp add: broadcast_source_def src_path_def remove_node_def shift_handle_def npos_def to_size_def
        path_xid_def Let_def)
qed

lemma push_broadcast:
  assumes "headed_for p (bcast_xid t)" "broadcast_source (phdr p) = Inr h" "h \<noteq> local_hid t"
    and "principal_type_enabled t \<noteq> 0" "0 \<le> XIA_PAINT_ANNO p"
  shows "route_table_push junk p t = Some (Inr ([(1, p)], learn_neighbor (XIA_PAINT_ANNO p) h t))"
proof -
  obtain e where "current_edge p = Inr e" "idx e \<noteq> CLICK_XIA_XID_EDGE_UNUSED"
    "unat (idx e) < length (hnode (phdr p))" "nxid (hnode (phdr p) ! unat (idx e)) = bcast_xid t"
    by (rule headed_forE [OF assms(1)])
  with assms(2-) show ?thesis
    by (simp add: route_table_push_def lookup_route_def Let_def redirect_notice_def forward_port_def special_ports)
qed

lemma learn_neighbor_port: "rport (route_for (learn_neighbor i h t) h) = i"
  by (auto simp: learn_neighbor_def route_for_store split: option.splits)
    (simp add: route_for_def routes_of_def)

lemma learn_neighbor_frame [simp]:
  "bcast_xid (learn_neighbor i h t) = bcast_xid t" "local_hid (learn_neighbor i h t) = local_hid t"
  "num_ports (learn_neighbor i h t) = num_ports t" "local_addr (learn_neighbor i h t) = local_addr t"
  "principal_type_enabled (learn_neighbor i h t) = principal_type_enabled t"
  by (simp_all add: learn_neighbor_def split: option.splits)

text \<open>
  C29. A neighbour is learned from its broadcast: a broadcast that comes in on an interface, with a source
  path of two nodes or more whose last node but one is another host, is delivered to the local host alone,
  and from then on every packet that heads for that host leaves through the interface.
\<close>

theorem broadcast_learns_neighbor:
  assumes "headed_for p (bcast_xid t)" "wf_hdr (phdr p)" "2 \<le> unat (snode (phdr p))"
    and "h = nxid (hnode (phdr p) ! (unat (dnode (phdr p)) + unat (snode (phdr p)) - 2))"
    and "h \<noteq> local_hid t" "h \<noteq> bcast_xid t" "principal_type_enabled t \<noteq> 0" "0 \<le> XIA_PAINT_ANNO p"
    and "headed_for q h" "XIA_PAINT_ANNO q \<noteq> REDIRECT"
  shows "\<exists>t1 out q1. route_table_push junk p t = Some (Inr ([(1, p)], t1))
    \<and> route_table_push junk q t1 = Some (Inr (out, t1))
    \<and> filter (\<lambda>m. fst m = 0) out = [(0, q1)] \<and> XIA_PAINT_ANNO q1 = XIA_PAINT_ANNO p"
proof -
  let ?t1 = "learn_neighbor (XIA_PAINT_ANNO p) h t"
  have "broadcast_source (phdr p) = Inr h"
    using broadcast_source_path [OF assms(2,3)] assms(4) by simp
  with assms have 1: "route_table_push junk p t = Some (Inr ([(1, p)], ?t1))"
    by (simp add: push_broadcast)
  let ?q = "annotate_nexthop (route_for ?t1 h) q"
  have 2: "route_table_push junk q ?t1 = Some (Inr
      (redirect_notice (XIA_PAINT_ANNO q) (XIA_PAINT_ANNO p) ?q @ [(0, SET_XIA_PAINT_ANNO (XIA_PAINT_ANNO p) ?q)],
       ?t1))"
    using assms(6-10) by (simp add: push_unicast learn_neighbor_port Let_def forward_port_def)
  have "XIA_PAINT_ANNO (SET_XIA_PAINT_ANNO (XIA_PAINT_ANNO p) ?q) = XIA_PAINT_ANNO p"
    using sint_16_bounds by (intro paint_paint) (simp_all add: XIA_PAINT_ANNO_def)
  with 1 2 show ?thesis by (simp add: redirect_notice_def)
qed

theorem broadcast_learns_neighbor_witness:
  "\<exists>t1 out q1. route_table_push (\<lambda>_. undefined) (sample_packet (sample_host 255) 3) empty_table
      = Some (Inr ([(1, sample_packet (sample_host 255) 3)], t1))
    \<and> route_table_push (\<lambda>_. undefined) (sample_packet (sample_host 9) 1) t1 = Some (Inr (out, t1))
    \<and> filter (\<lambda>m. fst m = 0) out = [(0, q1)] \<and> XIA_PAINT_ANNO q1 = 3"
proof -
  let ?p = "sample_packet (sample_host 255) 3"
  have 1: "headed_for ?p (bcast_xid empty_table)"
    using headed_for_sample by (simp add: empty_table_def)
  have 2: "wf_hdr (phdr ?p)"
    by (simp add: wf_hdr_def sample_packet_def wf_node_def CLICK_XIA_XID_EDGE_NUM_def
        canonical_sample [unfolded canonical_xid_def])
  have 3: "2 \<le> unat (snode (phdr ?p))"
    "sample_host 9 = nxid (hnode (phdr ?p) ! (unat (dnode (phdr ?p)) + unat (snode (phdr ?p)) - 2))"
    by (simp_all add: sample_packet_def)
  have 4: "sample_host 9 \<noteq> local_hid empty_table" "sample_host 9 \<noteq> bcast_xid empty_table"
    "principal_type_enabled empty_table \<noteq> 0" "0 \<le> XIA_PAINT_ANNO ?p"
    "XIA_PAINT_ANNO (sample_packet (sample_host 9) 1) \<noteq> REDIRECT"
    by (simp_all add: empty_table_def paint_sample special_ports)
  have 5: "XIA_PAINT_ANNO ?p = 3" by (simp add: paint_sample)
  show ?thesis
    using broadcast_learns_neighbor [OF 1 2 3 4(1-4) headed_for_sample 4(5)] unfolding 5 .
qed

text \<open>
  A broadcast whose source path has fewer than two nodes makes the route table read outside the node list,
  since the handle of the removed destination wraps around.
\<close>

theorem broadcast_short_source_faults:
  assumes "headed_for p (bcast_xid t)" "wf_hdr (phdr p)" "unat (snode (phdr p)) < 2"
    and "principal_type_enabled t \<noteq> 0" "XIA_PAINT_ANNO p \<noteq> REDIRECT"
  shows "route_table_push junk p t = Some (Inl Out_of_range)"
proof -
  obtain e where "current_edge p = Inr e" "idx e \<noteq> CLICK_XIA_XID_EDGE_UNUSED"
    "unat (idx e) < length (hnode (phdr p))" "nxid (hnode (phdr p) ! unat (idx e)) = bcast_xid t"
    by (rule headed_forE [OF assms(1)])
  with assms(4,5) broadcast_source_short [OF assms(2,3)] show ?thesis
    by (simp add: route_table_push_def lookup_route_def Let_def)
qed

definition short_broadcast :: packet where
  "short_broadcast =
     (sample_packet (sample_host 255) 3)\<lparr>phdr := (phdr (sample_packet (sample_host 255) 3))
        \<lparr>snode := 1, hnode := butlast (hnode (phdr (sample_packet (sample_host 255) 3)))\<rparr>\<rparr>"

theorem broadcast_short_source_faults_witness:
  "route_table_push (\<lambda>_. undefined) short_broadcast empty_table = Some (Inl Out_of_range)"
proof (rule broadcast_short_source_faults)
  show "headed_for short_broadcast (bcast_xid empty_table)"
    by (simp add: headed_for_def short_broadcast_def sample_packet_def current_edge_def current_node_def
        current_index_def XIA_NEXT_PATH_ANNO_def int_at_def CLICK_XIA_XID_EDGE_UNUSED_def empty_table_def)
  show "wf_hdr (phdr short_broadcast)"
    by (simp add: wf_hdr_def short_broadcast_def sample_packet_def wf_node_def CLICK_XIA_XID_EDGE_NUM_def
        canonical_sample [unfolded canonical_xid_def])
  show "unat (snode (phdr short_broadcast)) < 2" "principal_type_enabled empty_table \<noteq> 0"
    by (simp_all add: short_broadcast_def empty_table_def)
  show "XIA_PAINT_ANNO short_broadcast \<noteq> REDIRECT"
    using paint_sample [of 3 "sample_host 255"] by (simp add: short_broadcast_def XIA_PAINT_ANNO_def special_ports)
qed

section \<open>The invariant of the table\<close>

text \<open>
  Everything that can reach a running table: the write handlers and the packets. A handler that does not
  return and a packet that faults leave no later state; the step keeps the table there.
\<close>

datatype table_op =
  Write_route name_ctx bool string
| Write_route4 name_ctx bool string
| Write_remove name_ctx string
| Write_load name_ctx "string option"
| Write_generate "click_xia_xid \<Rightarrow> string" "nat \<Rightarrow> int" string
| Write_enabled string
| Push_packet "nat \<Rightarrow> click_xia_xid_node" packet

fun table_step :: "table_op \<Rightarrow> XIAXIDRouteTable \<Rightarrow> XIAXIDRouteTable" where
  "table_step (Write_route ctx add conf) t = snd (set_handler ctx add conf t)"
| "table_step (Write_route4 ctx add conf) t = snd (set_handler4 ctx add conf t)"
| "table_step (Write_remove ctx conf) t = snd (remove_handler ctx conf t)"
| "table_step (Write_load ctx content) t =
     (case load_routes_handler ctx content t of Some r \<Rightarrow> snd r | None \<Rightarrow> t)"
| "table_step (Write_generate revquery rnd conf) t =
     (case generate_routes_handler revquery rnd conf t of Inr r \<Rightarrow> snd r | Inl _ \<Rightarrow> t)"
| "table_step (Write_enabled conf) t = write_handler conf t"
| "table_step (Push_packet junk p) t =
     (case route_table_push junk p t of Some (Inr r) \<Rightarrow> snd r | _ \<Rightarrow> t)"

definition table_inv :: "click_xia_xid \<Rightarrow> click_xia_xid \<Rightarrow> int \<Rightarrow> XIAXIDRouteTable \<Rightarrow> bool" where
  "table_inv hid bc n t \<longleftrightarrow> unique_keys t \<and> wf_graph (nodes (local_addr t))
     \<and> local_hid t = hid \<and> bcast_xid t = bc \<and> num_ports t = n"

lemma table_inv_updates [simp]:
  "table_inv hid bc n t \<Longrightarrow> table_inv hid bc n (store_route x r t)"
  "table_inv hid bc n t \<Longrightarrow> table_inv hid bc n (t\<lparr>rtdata := r\<rparr>)"
  "table_inv hid bc n t \<Longrightarrow> table_inv hid bc n (t\<lparr>rts := AList.delete x (rts t)\<rparr>)"
  "table_inv hid bc n t \<Longrightarrow> table_inv hid bc n (set_enabled k t)"
  "table_inv hid bc n t \<Longrightarrow> wf_graph (nodes q) \<Longrightarrow> table_inv hid bc n (t\<lparr>local_addr := q\<rparr>)"
  "table_inv hid bc n t \<Longrightarrow> table_inv hid bc n (learn_neighbor i h t)"
  by (auto simp: table_inv_def unique_keys_def set_enabled_def distinct_delete learn_neighbor_def
      store_route_def distinct_update split: option.splits)

lemma set_handler4_inv: "table_inv hid bc n t \<Longrightarrow> table_inv hid bc n (snd (set_handler4 ctx add conf t))"
  by (simp add: set_handler4_def Let_def split: option.splits)

lemma set_handler_inv: "table_inv hid bc n t \<Longrightarrow> table_inv hid bc n (snd (set_handler ctx add conf t))"
  by (simp add: set_handler_def set_handler4_inv split: option.splits prod.splits)

lemma remove_handler_inv: "table_inv hid bc n t \<Longrightarrow> table_inv hid bc n (snd (remove_handler ctx conf t))"
  by (simp add: remove_handler_def split: option.splits)

lemma load_routes_inv:
  "table_inv hid bc n t \<Longrightarrow> load_routes_loop ctx content t = Some (b, t1) \<Longrightarrow> table_inv hid bc n t1"
proof (induction ctx content t arbitrary: b t1 rule: load_routes_loop.induct)
  case (1 ctx content t)
  let ?line = "takeWhile (\<lambda>c. c \<noteq> CHR 0x0A) content"
  let ?buf = "takeWhile (\<lambda>c. c \<noteq> CHR 0x00) (take 1023 ?line)"
  obtain ok t2 where s: "(if ?buf = [] then (True, t) else set_handler ctx True ?buf t) = (ok, t2)"
    by fastforce
  have inv: "table_inv hid bc n t2"
    using s 1(2) set_handler_inv [of hid bc n t ctx True ?buf] by (auto split: if_splits)
  show ?case
    using 1(3) inv 1(1) [OF refl refl s [symmetric] refl _ _ _ inv]
    by (subst (asm) load_routes_loop.simps) (auto simp: s Let_def split: if_splits)
qed

lemma generate_loop_inv:
  "table_inv hid bc n t \<Longrightarrow> generate_loop revquery rnd ty port i k t = Inr t1 \<Longrightarrow> table_inv hid bc n t1"
  by (induction revquery rnd ty port i k t rule: generate_loop.induct) (auto simp: bind_run_def split: sum.splits)

lemma generate_inv:
  "table_inv hid bc n t \<Longrightarrow> generate_routes_handler revquery rnd conf t = Inr (b, t1) \<Longrightarrow> table_inv hid bc n t1"
  by (auto simp: generate_routes_handler_def bind_run_def split: prod.splits option.splits sum.splits intro: generate_loop_inv)

lemma redirect_inv:
  assumes "table_inv hid bc n t"
  shows "\<exists>r. process_xcmp_redirect junk p t = Some r \<and> (\<forall>t1. r = Inr t1 \<longrightarrow> table_inv hid bc n t1)"
proof -
  have wf: "wf_graph (nodes (local_addr t))" using assms by (simp add: table_inv_def)
  let ?buf = "map junk [0..<unparse_node_size (local_addr t)]"
  obtain u where u: "XIAPath_unparse (\<lambda>_. []) ?buf (local_addr t) = Some u"
    "\<forall>s q. u = Inr (s, q) \<longrightarrow> same_graph (nodes q) (nodes (local_addr t))"
    using XIAPath_unparse_ends [OF wf] by blast
  then have "table_inv hid bc n (t\<lparr>local_addr := q\<rparr>)" if "u = Inr (s, q)" for s q
    using assms that same_graph_wf [OF _ wf] by simp
  with u(1) assms show ?thesis
    by (auto simp: process_xcmp_redirect_def Let_def split: sum.splits option.splits)
qed

lemma lookup_route_inv:
  "table_inv hid bc n t \<Longrightarrow> lookup_route i p t = Inr (port, q, t1) \<Longrightarrow> table_inv hid bc n t1"
  by (auto simp: lookup_route_def Let_def split: if_splits)

lemma push_inv:
  assumes "table_inv hid bc n t"
  shows "\<exists>r. route_table_push junk p t = Some r \<and> (\<forall>out t1. r = Inr (out, t1) \<longrightarrow> table_inv hid bc n t1)"
  using redirect_inv [OF assms, of junk p] lookup_route_inv [OF assms, of "XIA_PAINT_ANNO p" p] assms
  by (auto simp: route_table_push_def Let_def)

lemma table_step_inv: "table_inv hid bc n t \<Longrightarrow> table_inv hid bc n (table_step op t)"
proof (cases op)
  case (Write_load ctx content)
  moreover assume "table_inv hid bc n t"
  ultimately show ?thesis
    using load_routes_inv [of hid bc n t ctx]
    by (auto simp: load_routes_handler_def split: option.splits)
next
  case (Push_packet junk p)
  moreover assume "table_inv hid bc n t"
  ultimately show ?thesis
    using push_inv [of hid bc n t junk p] by (auto split: option.splits sum.splits)
next
  case (Write_generate revquery rnd conf)
  moreover assume "table_inv hid bc n t"
  ultimately show ?thesis
    using generate_inv [of hid bc n t revquery rnd conf] by (auto split: sum.splits)
qed (auto simp: set_handler_inv set_handler4_inv remove_handler_inv write_handler_def)

interpretation route_table: invariant_system table_step "table_inv hid bc n"
  by unfold_locales (rule table_step_inv)

text \<open>
  Whatever is written to the handlers and whatever packets arrive, a table with one route for each XID
  keeps that, and the local host, the broadcast XID and the number of ports stay as configured. In every such
  state the processing of a packet ends, with a result or a fault, redirects included, provided the edges of the local
  address lead to nodes.
\<close>

lemma route_table_runs:
  assumes "unique_keys t" "wf_graph (nodes (local_addr t))"
  shows "unique_keys (fold table_step ops t)
    \<and> local_hid (fold table_step ops t) = local_hid t \<and> bcast_xid (fold table_step ops t) = bcast_xid t
    \<and> num_ports (fold table_step ops t) = num_ports t
    \<and> (\<exists>r. route_table_push junk p (fold table_step ops t) = Some r)"
proof -
  have "table_inv (local_hid t) (bcast_xid t) (num_ports t) t"
    using assms by (simp add: table_inv_def)
  then have "table_inv (local_hid t) (bcast_xid t) (num_ports t) (fold table_step ops t)"
    by (rule route_table.inv_fold)
  then show ?thesis using push_inv by (fastforce simp: table_inv_def)
qed

end
