(* ===== verification/Xia_Forwarding.thy ===== *)
theory Xia_Forwarding
  imports Xia_Route_Forward
begin

text \<open>
  The forwarding elements (\<^verbatim>\<open>elements/xia\<close>: path selection, classification by XID type, hop limit, next hop,
  destination check, painting, counting) and their composition \<^verbatim>\<open>XIAPacketRoute\<close> in
  \<^verbatim>\<open>conf/xia_router_lib.click\<close>, with one route table for each of five XID types.
\<close>

section \<open>Elements\<close>

definition XIASelectPath_configure :: "string \<Rightarrow> bool option" where
  "XIASelectPath_configure mode =
     (if mode = ''first'' then Some True else if mode = ''next'' then Some False else None)"

definition XIASelectPath_push :: "bool \<Rightarrow> packet \<Rightarrow> nat \<times> packet" where
  "XIASelectPath_push first p =
     (if first then (0, SET_XIA_NEXT_PATH_ANNO 0 p)
      else
        let next_path = XIA_NEXT_PATH_ANNO p + 1;
            q = SET_XIA_NEXT_PATH_ANNO next_path p
        in if next_path < CLICK_XIA_XID_EDGE_NUM then (0, q) else (1, q))"

record XIADecHLIM =
  active :: bool
  hlim_drops :: u32

definition XIADecHLIM_simple_action :: "packet \<Rightarrow> XIADecHLIM \<Rightarrow> nat \<times> packet \<times> XIADecHLIM" where
  "XIADecHLIM_simple_action p s =
     (if \<not> active s then (0, p, s)
      else if hlim (phdr p) \<le> 1 then (1, p, s\<lparr>hlim_drops := hlim_drops s + 1\<rparr>)
      else (0, p\<lparr>phdr := (phdr p)\<lparr>hlim := hlim (phdr p) - 1\<rparr>\<rparr>, s))"

definition XIACheckDest_push :: "packet \<Rightarrow> nat" where
  "XIACheckDest_push p =
     (if sint (hlast (phdr p)) = int (unat (dnode (phdr p))) - 1 then 0 else 1)"

text \<open>The visited bit is set in the edge taken; the last-node field is a signed byte.\<close>

definition XIANextHop_push :: "packet \<Rightarrow> packet run" where
  "XIANextHop_push p =
     (let h = phdr p; i = current_index h; k = XIA_NEXT_PATH_ANNO p in
      bind_run (current_node h) (\<lambda>m.
      bind_run (at (nedge m) k) (\<lambda>e.
        Inr (p\<lparr>phdr := h\<lparr>hlast := ucast (idx e),
          hnode := (hnode h)[nat i := m\<lparr>nedge := (nedge m)[k := e\<lparr>visited := True\<rparr>]\<rparr>]\<rparr>\<rparr>))))"

definition XIAPaint_simple_action :: "int \<Rightarrow> packet \<Rightarrow> packet" where
  "XIAPaint_simple_action color p = SET_XIA_PAINT_ANNO color p"

text \<open>The switch reads one byte of the annotation; a port that is not there drops the packet.\<close>

definition XIAPaintSwitch_push :: "nat \<Rightarrow> packet \<Rightarrow> pushed" where
  "XIAPaintSwitch_push noutputs p =
     (let output_port = unat (ucast (paint_anno p) :: u8) in
      if output_port \<noteq> 0xFF then (if output_port < noutputs then [(output_port, p)] else [])
      else map (\<lambda>i. (i, p)) [0..<noutputs])"

text \<open>The header found at an offset in the raw data, and the bytes behind it.\<close>

definition MarkXIAHeader_simple_action :: "nat \<Rightarrow> u8 list \<Rightarrow> (click_xia \<times> u8 list) run" where
  "MarkXIAHeader_simple_action offset data =
     bind_run (hdr_of_bytes (drop offset data)) (\<lambda>h.
       Inr (h, drop (offset + XIAHeader_hdr_size (unat (dnode h) + unat (snode h))) data))"

datatype pattern =
  SRC u32 | DST u32 | SRC_AND_DST u32 u32 | SRC_OR_DST u32 u32 | NEXT u32 | ANY

definition parse_pattern :: "string \<Rightarrow> pattern option" where
  "parse_pattern conf =
     (let (type_str, rest) = cp_shift_spacevec conf;
          (str0, rest1) = cp_shift_spacevec rest;
          (str1, rest2) = cp_shift_spacevec rest1
      in if type_str = ''-'' then Some ANY
         else if type_str = ''src'' then map_option SRC (cp_xid_type str0)
         else if type_str = ''dst'' then map_option DST (cp_xid_type str0)
         else if type_str = ''next'' then map_option NEXT (cp_xid_type str0)
         else if type_str = ''src_and_dst'' \<or> type_str = ''src_or_dst'' then
           (case (cp_xid_type str0, cp_xid_type str1) of
              (Some s, Some d) \<Rightarrow> Some (if type_str = ''src_and_dst'' then SRC_AND_DST s d else SRC_OR_DST s d)
            | _ \<Rightarrow> None)
         else None)"

fun parse_patterns :: "string list \<Rightarrow> pattern list option" where
  "parse_patterns [] = Some []"
| "parse_patterns (c # conf) =
     (case parse_pattern c of None \<Rightarrow> None | Some pat \<Rightarrow> map_option ((#) pat) (parse_patterns conf))"

definition XIAXIDTypeClassifier_configure :: "nat \<Rightarrow> string list \<Rightarrow> pattern list option" where
  "XIAXIDTypeClassifier_configure noutputs conf =
     (if length conf \<noteq> noutputs then None else parse_patterns conf)"

fun pattern_matches :: "u32 \<Rightarrow> u32 \<Rightarrow> u32 \<Rightarrow> pattern \<Rightarrow> bool" where
  "pattern_matches s d n (SRC t) \<longleftrightarrow> s = t"
| "pattern_matches s d n (DST t) \<longleftrightarrow> d = t"
| "pattern_matches s d n (SRC_AND_DST t u) \<longleftrightarrow> s = t \<and> d = u"
| "pattern_matches s d n (SRC_OR_DST t u) \<longleftrightarrow> s = t \<or> d = u"
| "pattern_matches s d n (NEXT t) \<longleftrightarrow> n = t"
| "pattern_matches s d n ANY \<longleftrightarrow> True"

fun first_match :: "(pattern \<Rightarrow> bool) \<Rightarrow> pattern list \<Rightarrow> nat option" where
  "first_match P [] = None"
| "first_match P (pat # pats) = (if P pat then Some 0 else map_option Suc (first_match P pats))"

definition dst_type :: "click_xia \<Rightarrow> u32 run" where
  "dst_type h = bind_run (int_at (hnode h) (int (unat (dnode h)) - 1)) (\<lambda>m. Inr (xid_type (nxid m)))"

definition src_type :: "click_xia \<Rightarrow> u32 run" where
  "src_type h =
     bind_run (int_at (hnode h) (int (unat (dnode h)) + int (unat (snode h)) - 1)) (\<lambda>m. Inr (xid_type (nxid m)))"

definition next_type :: "packet \<Rightarrow> u32 run" where
  "next_type p =
     (if XIA_NEXT_PATH_ANNO p < CLICK_XIA_XID_EDGE_NUM then
        bind_run (current_edge p) (\<lambda>e.
          if idx e \<noteq> CLICK_XIA_XID_EDGE_UNUSED \<and> unat (idx e) < unat (dnode (phdr p))
          then bind_run (at (hnode (phdr p)) (unat (idx e))) (\<lambda>m. Inr (xid_type (nxid m)))
          else Inr (- 1))
      else Inr (- 1))"

definition XIAXIDTypeClassifier_match :: "pattern list \<Rightarrow> packet \<Rightarrow> nat option run" where
  "XIAXIDTypeClassifier_match pats p =
     bind_run (dst_type (phdr p)) (\<lambda>d.
     bind_run (src_type (phdr p)) (\<lambda>s.
     bind_run (next_type p) (\<lambda>n.
       Inr (first_match (pattern_matches s d n) pats))))"

definition XIAXIDTypeClassifier_push :: "pattern list \<Rightarrow> packet \<Rightarrow> pushed run" where
  "XIAXIDTypeClassifier_push pats p =
     bind_run (XIAXIDTypeClassifier_match pats p) (\<lambda>r.
       Inr (case r of Some i \<Rightarrow> [(i, p)] | None \<Rightarrow> []))"

text \<open>
  The counter has the patterns of the classifier and one counter for each. It swaps the bytes of the source
  and destination types before it compares them.
\<close>

record XIAXIDTypeCounter =
  cpatterns :: "pattern list"
  stats :: "u32 list"

definition XIAXIDTypeCounter_configure :: "string list \<Rightarrow> XIAXIDTypeCounter option" where
  "XIAXIDTypeCounter_configure conf =
     map_option (\<lambda>pats. \<lparr>cpatterns = pats, stats = replicate (length pats) 0\<rparr>) (parse_patterns conf)"

definition XIAXIDTypeCounter_match :: "XIAXIDTypeCounter \<Rightarrow> packet \<Rightarrow> nat option run" where
  "XIAXIDTypeCounter_match c p =
     bind_run (dst_type (phdr p)) (\<lambda>d.
     bind_run (src_type (phdr p)) (\<lambda>s.
     bind_run (next_type p) (\<lambda>n.
       Inr (first_match (pattern_matches (ntohl s) (ntohl d) n) (cpatterns c)))))"

definition count_stats :: "nat \<Rightarrow> XIAXIDTypeCounter \<Rightarrow> XIAXIDTypeCounter run" where
  "count_stats cl c =
     (if cl < length (cpatterns c) then bind_run (at (stats c) cl) (\<lambda>v. Inr (c\<lparr>stats := (stats c)[cl := v + 1]\<rparr>))
      else Inl Assert_failed)"

definition XIAXIDTypeCounter_simple_action :: "packet \<Rightarrow> XIAXIDTypeCounter \<Rightarrow> XIAXIDTypeCounter run" where
  "XIAXIDTypeCounter_simple_action p c =
     bind_run (XIAXIDTypeCounter_match c p) (\<lambda>r. case r of Some i \<Rightarrow> count_stats i c | None \<Rightarrow> Inr c)"

definition count_str :: "XIAXIDTypeCounter \<Rightarrow> string" where
  "count_str c =
     concat (map (\<lambda>(i, v). ''port '' @ dec_nat i @ '' '' @ dec_nat (unat v) @ [CHR 0x0A])
       (zip [0..<length (stats c)] (stats c)))"

section \<open>The routing process\<close>

text \<open>
  \<^verbatim>\<open>XIAPacketRoute\<close> connects the elements: \<open>route_once\<close> takes a packet at the classifier to the five route
  tables and through the elements behind them. It gives the packets that leave and, at most once, the packet
  that comes back to the classifier, with the path selected. What leaves for \<^verbatim>\<open>XCMP\<close> is an output here.
\<close>

datatype principal = AD | HID | SID | CID | IP

record router =
  tables :: "principal \<Rightarrow> XIAXIDRouteTable"
  gprp :: XIADecHLIM

datatype leaving =
  Forward packet | Arrived packet | Unroutable packet | To_DHCP packet | To_XCMP packet

definition route_patterns :: "pattern list" where
  "route_patterns = [NEXT (htonl CLICK_XIA_XID_TYPE_AD), NEXT (htonl CLICK_XIA_XID_TYPE_HID),
     NEXT (htonl CLICK_XIA_XID_TYPE_SID), NEXT (htonl CLICK_XIA_XID_TYPE_CID),
     NEXT (htonl CLICK_XIA_XID_TYPE_IP), ANY]"

definition principal_no :: "nat \<Rightarrow> principal option" where
  "principal_no i = (if i < 5 then Some ([AD, HID, SID, CID, IP] ! i) else None)"

definition post_route :: "packet \<Rightarrow> router \<Rightarrow> leaving \<times> router" where
  "post_route p r =
     (case XIADecHLIM_simple_action p (gprp r) of
        (port, q, s) \<Rightarrow> (if port = 0 then Forward q else To_XCMP q, r\<lparr>gprp := s\<rparr>))"

text \<open>One packet pushed by the table of type \<open>t\<close>; the middle part is the packet that goes on.\<close>

definition after_table :: "principal \<Rightarrow> nat \<times> packet \<Rightarrow> router \<Rightarrow> (leaving list \<times> packet option \<times> router) run" where
  "after_table t out r =
     (case out of (port, p) \<Rightarrow>
        if port = 0 then (case post_route p r of (l, r1) \<Rightarrow> Inr ([l], None, r1))
        else if port = 1 then
          bind_run (XIANextHop_push p) (\<lambda>q.
            if t = SID \<or> XIACheckDest_push q = 0
            then Inr ([Arrived (XIAPaint_simple_action DESTINED_FOR_LOCALHOST q)], None, r)
            else Inr ([], Some (snd (XIASelectPath_push True q)), r))
        else if port = 2 then
          (case XIASelectPath_push False p of (o1, q) \<Rightarrow>
             if o1 = 0 then Inr ([], Some q, r) else Inr ([Unroutable q], None, r))
        else if port = 3 then Inr (if t = SID then [To_DHCP p] else [], None, r)
        else Inr ([To_XCMP p], None, r))"

fun after_tables ::
  "principal \<Rightarrow> pushed \<Rightarrow> router \<Rightarrow> (leaving list \<times> packet option \<times> router) run" where
  "after_tables t [] r = Inr ([], None, r)"
| "after_tables t (out # outs) r =
     bind_run (after_table t out r) (\<lambda>(ls, g, r1).
     bind_run (after_tables t outs r1) (\<lambda>(ls1, g1, r2).
       Inr (ls @ ls1, case g of None \<Rightarrow> g1 | Some q \<Rightarrow> Some q, r2)))"

definition route_once ::
  "(nat \<Rightarrow> click_xia_xid_node) \<Rightarrow> packet \<Rightarrow> router \<Rightarrow> (leaving list \<times> packet option \<times> router) run option" where
  "route_once junk p r =
     (case XIAXIDTypeClassifier_match route_patterns p of
        Inl f \<Rightarrow> Some (Inl f)
      | Inr None \<Rightarrow> Some (Inr ([], None, r))
      | Inr (Some i) \<Rightarrow>
          (case principal_no i of
             None \<Rightarrow> Some (Inr ([Unroutable p], None, r))
           | Some t \<Rightarrow>
               map_option (\<lambda>res. bind_run res (\<lambda>(outs, tab).
                   after_tables t outs (r\<lparr>tables := (tables r)(t := tab)\<rparr>)))
                 (route_table_push junk p (tables r t))))"

text \<open>
  A packet may come back to the classifier for ever; \<open>n\<close> bounds the number of rounds and \<open>None\<close> says that
  they did not suffice.
\<close>

fun route_rounds ::
  "nat \<Rightarrow> (nat \<Rightarrow> click_xia_xid_node) \<Rightarrow> packet \<Rightarrow> router \<Rightarrow> (leaving list \<times> router) run option" where
  "route_rounds 0 junk p r = None"
| "route_rounds (Suc n) junk p r =
     (case route_once junk p r of
        None \<Rightarrow> None
      | Some (Inl f) \<Rightarrow> Some (Inl f)
      | Some (Inr (ls, None, r1)) \<Rightarrow> Some (Inr (ls, r1))
      | Some (Inr (ls, Some q, r1)) \<Rightarrow>
          map_option (\<lambda>res. bind_run res (\<lambda>(ls1, r2). Inr (ls @ ls1, r2))) (route_rounds n junk q r1))"

definition XIAPacketRoute ::
  "nat \<Rightarrow> (nat \<Rightarrow> click_xia_xid_node) \<Rightarrow> packet \<Rightarrow> router \<Rightarrow> (leaving list \<times> router) run option" where
  "XIAPacketRoute n junk p r = route_rounds n junk (snd (XIASelectPath_push True p)) r"

end
