(* ===== verification/Xia_Path_Print.thy ===== *)
theory Xia_Path_Print
  imports Xia_Path_Text
begin

text \<open>
  Paths that print without a fault: the graph has its edges inside, and every XID fits the buffer of its printing
  function. Debugging output of the elements prints paths all the time, so this is a condition of many operations.
\<close>

definition printable :: "(click_xia_xid \<Rightarrow> string) \<Rightarrow> path_node list \<Rightarrow> bool" where
  "printable revquery ns \<longleftrightarrow> (\<forall>n\<in>set ns. \<exists>w. XID_unparse_pretty revquery (pxid n) = Inr w)"

lemma printable_at: "printable revquery ns \<Longrightarrow> i < length ns \<Longrightarrow> \<exists>w. XID_unparse_pretty revquery (pxid (ns ! i)) = Inr w"
  by (simp add: printable_def)

lemma printable_same: "same_graph ns ms \<Longrightarrow> printable revquery ns \<longleftrightarrow> printable revquery ms"
  by (simp add: printable_def same_graph_def all_set_conv_all_nth)

lemma fallback_words_prints:
  assumes "wf_graph ns" "printable revquery ns"
  shows "fallback_words revquery ns primary cur acc = Some r \<Longrightarrow> cur < length ns \<Longrightarrow> \<exists>v. r = Inr v"
proof -
  have "wf_graph ms \<longrightarrow> printable rq ms \<longrightarrow> c < length ms \<longrightarrow> (\<exists>v. r = Inr v)"
    if "fallback_words rq ms prim c a = Some r" for rq ms prim c a r
    using that
  proof (rule fallback_words.raw_induct [where P = "\<lambda>rq ms prim c a r. wf_graph ms \<longrightarrow> printable rq ms \<longrightarrow> c < length ms \<longrightarrow> (\<exists>v. r = Inr v)", rotated], intro impI)
    fix f rq ms prim c a r
    assume rec: "\<And>rq ms prim c a r. f rq ms prim c a = Some r \<Longrightarrow>
        wf_graph ms \<longrightarrow> printable rq ms \<longrightarrow> c < length ms \<longrightarrow> (\<exists>v. r = Inr v)"
      and ok: "wf_graph ms" "printable rq ms" "c < length ms"
      and body: "(case at ms c of Inl f \<Rightarrow> Some (Inl f)
      | Inr n \<Rightarrow>
        (case XID_unparse_pretty rq (pxid n) of Inl f \<Rightarrow> Some (Inl f)
         | Inr w \<Rightarrow>
             if length (edges n) = 1 then
               (if edges n ! 0 = prim then Some (Inr (Some (a @ [w]))) else Some (Inr None))
             else if length (edges n) = 2 then
               (if edges n ! 0 = prim then f rq ms prim (edges n ! 1) (a @ [w]) else Some (Inr None))
             else Some (Inr None))) = Some r"
    obtain w where "XID_unparse_pretty rq (pxid (ms ! c)) = Inr w" using printable_at [OF ok(2,3)] by blast
    moreover have "length (edges (ms ! c)) = 2 \<Longrightarrow> edges (ms ! c) ! 1 < length ms" using wf_graph_edges [OF ok(1,3)] by simp
    ultimately show "\<exists>v. r = Inr v" using body ok rec by (auto split: if_splits)
  qed
  with assms show "fallback_words revquery ns primary cur acc = Some r \<Longrightarrow> cur < length ns \<Longrightarrow> \<exists>v. r = Inr v" by blast
qed

lemma re_words_loop_prints:
  assumes "wf_graph ns" "printable revquery ns"
  shows "re_words_loop revquery ns prev acc = Some r \<Longrightarrow> prev < length ns \<Longrightarrow> \<exists>v. r = Inr v"
proof -
  have "wf_graph ms \<longrightarrow> printable rq ms \<longrightarrow> c < length ms \<longrightarrow> (\<exists>v. r = Inr v)"
    if "re_words_loop rq ms c a = Some r" for rq ms c a r
    using that
  proof (rule re_words_loop.raw_induct [where P = "\<lambda>rq ms c a r. wf_graph ms \<longrightarrow> printable rq ms \<longrightarrow> c < length ms \<longrightarrow> (\<exists>v. r = Inr v)", rotated], intro impI)
    fix f rq ms c a r
    assume rec: "\<And>rq ms c a r. f rq ms c a = Some r \<Longrightarrow>
        wf_graph ms \<longrightarrow> printable rq ms \<longrightarrow> c < length ms \<longrightarrow> (\<exists>v. r = Inr v)"
      and ok: "wf_graph ms" "printable rq ms" "c < length ms"
      and body: "(case at ms c of Inl f \<Rightarrow> Some (Inl f)
      | Inr n \<Rightarrow>
          if length (edges n) = 0 then Some (Inr (Some a))
          else if length (edges n) = 1 \<or> length (edges n) = 2 then
            Option.bind
              (if length (edges n) = 2 then fallback_words rq ms (edges n ! 0) (edges n ! 1) (a @ [''('' ])
               else Some (Inr (Some a)))
              (\<lambda>r. case r of Inl f \<Rightarrow> Some (Inl f)
                 | Inr None \<Rightarrow> Some (Inr None)
                 | Inr (Some ws) \<Rightarrow>
                     (case at ms (edges n ! 0) of Inl f \<Rightarrow> Some (Inl f)
                      | Inr n' \<Rightarrow>
                        (case XID_unparse_pretty rq (pxid n') of Inl f \<Rightarrow> Some (Inl f)
                         | Inr w \<Rightarrow> f rq ms (edges n ! 0) (ws @ (if length (edges n) = 2 then ['')''] else []) @ [w]))))
          else Some (Inr None)) = Some r"
    note edge = wf_graph_edges [OF ok(1,3)]
    show "\<exists>v. r = Inr v"
    proof (cases "length (edges (ms ! c)) = 1 \<or> length (edges (ms ! c)) = 2")
      case True
      then have ne: "edges (ms ! c) \<noteq> []" by auto
      from True have e: "edges (ms ! c) ! 0 < length ms" "length (edges (ms ! c)) = 2 \<Longrightarrow> edges (ms ! c) ! 1 < length ms"
        using edge by auto
      obtain w where w: "XID_unparse_pretty rq (pxid (ms ! (edges (ms ! c) ! 0))) = Inr w"
        using printable_at [OF ok(2) e(1)] by blast
      obtain fb where fb: "(if length (edges (ms ! c)) = 2
          then fallback_words rq ms (edges (ms ! c) ! 0) (edges (ms ! c) ! 1) (a @ [''('' ]) else Some (Inr (Some a))) = Some fb"
        using body ok(3) True by (auto split: if_splits bind_splits)
      then have "\<exists>v. fb = Inr v"
        using fallback_words_prints [OF ok(1,2)] e(2) by (cases "length (edges (ms ! c)) = 2") auto
      then obtain v where v: "fb = Inr v" by blast
      have "(case v of None \<Rightarrow> Some (Inr None)
          | Some ws \<Rightarrow> f rq ms (edges (ms ! c) ! 0) (ws @ (if length (edges (ms ! c)) = 2 then ['')''] else []) @ [w])) = Some r"
        using body ok(3) True ne fb w e(1) v by (cases "length (edges (ms ! c)) = 2") (simp_all split: option.splits)
      then show ?thesis using rec ok(1,2) e(1) by (cases v) auto
    next
      case False
      with body ok(3) show ?thesis by (auto split: if_splits)
    qed
  qed
  with assms show "re_words_loop revquery ns prev acc = Some r \<Longrightarrow> prev < length ns \<Longrightarrow> \<exists>v. r = Inr v" by blast
qed

lemma unparse_re_prints:
  assumes wf: "wf_graph (nodes p)" and pr: "printable revquery (nodes p)"
  shows "\<exists>s q. unparse_re revquery p = Some (Inr (s, q)) \<and> (\<exists>b. is_valid p = Inr (b, q))"
proof -
  obtain b p1 where v: "is_valid p = Inr (b, p1)"
    using is_valid_shape [OF wf] topological_ordering_spec [OF wf] by (auto split: if_splits)
  have same: "same_graph (nodes p1) (nodes p)" by (rule is_valid_same [OF wf v])
  show ?thesis
  proof (cases b)
    case True
    then have v: "is_valid p = Inr (True, p1)" using v by simp
    obtain r where r: "unparse_re revquery p = Some r" using unparse_re_ends [OF wf] by blast
    then obtain ws where ws: "re_words_loop revquery (nodes p1) (src p1) [] = Some ws" by (auto simp: unparse_re_def v)
    have "src p1 < length (nodes p1)"
      using valid_ends(1) [OF v] is_valid_again(1,2) [OF v] by (simp add: same_graph_def)
    with re_words_loop_prints [OF same_graph_wf [OF same wf] _ ws] pr printable_same [OF same] obtain w where "ws = Inr w" by blast
    with ws v show ?thesis by (auto simp: unparse_re_def)
  qed (use v in \<open>auto simp: unparse_re_def\<close>)
qed

lemma dag_node_words_prints:
  "\<forall>m\<in>set ms. \<exists>w. XID_unparse_pretty revquery (nxid m) = Inr w \<Longrightarrow> \<exists>ws. dag_node_words revquery ms = Inr ws"
  by (induction ms) auto

lemma unparse_dag_prints:
  assumes wf: "wf_graph (nodes p)" and pr: "printable revquery (nodes p)" and n: "length (nodes p) \<le> 128"
    and buf: "length buf = unparse_node_size p"
  shows "\<exists>s q. unparse_dag revquery buf p = Inr (s, q) \<and> (\<exists>p1 b. is_valid p = Inr (b, p1) \<and> (q = p1 \<or> (\<exists>c. is_valid p1 = Inr (c, q))))"
proof -
  obtain b p1 where v: "is_valid p = Inr (b, p1)"
    using is_valid_shape [OF wf] topological_ordering_spec [OF wf] by (auto split: if_splits)
  show ?thesis
  proof (cases b)
    case True
    then have v: "is_valid p = Inr (True, p1)" using v by simp
    note again = is_valid_again [OF v]
    have l: "length (nodes p1) = length (nodes p)" using again(1) by (simp add: same_graph_def)
    obtain p2 where v1: "is_valid p1 = Inr (True, p2)" using again(4) by blast
    have b1: "length buf = unparse_node_size p1" using buf l by (auto simp: unparse_node_size_def simp flip: length_0_conv)
    obtain ms where ms: "unparse_node buf (length buf) p1 = Inr (length buf, ms, p2)"
      "\<forall>m\<in>set ms. \<exists>i < length (nodes p1). nxid m = pxid (nodes p1 ! i)"
      using valid_node_list [OF v1 _ b1] n l by fastforce
    have "\<forall>m\<in>set ms. \<exists>w. XID_unparse_pretty revquery (nxid m) = Inr w"
      using ms(2) printable_at [of revquery "nodes p1"] pr printable_same [OF again(1)] by force
    from dag_node_words_prints [OF this] ms(1) v v1 b1 show ?thesis by (auto simp: unparse_dag_def Let_def)
  qed (use v in \<open>auto simp: unparse_dag_def\<close>)
qed

text \<open>Printing changes nothing but the orders of the nodes.\<close>

lemma XIAPath_unparse_prints:
  assumes wf: "wf_graph (nodes p)" and pr: "printable revquery (nodes p)" and n: "length (nodes p) \<le> 128"
    and buf: "length buf = unparse_node_size p"
  shows "\<exists>s q. XIAPath_unparse revquery buf p = Some (Inr (s, q)) \<and> same_graph (nodes q) (nodes p) \<and> src q = src p \<and> dst q = dst p"
proof -
  have step: "same_graph (nodes q) (nodes p) \<and> src q = src p \<and> dst q = dst p"
    if "is_valid p = Inr (b, q)" "wf_graph (nodes p)" for b p q
    using that is_valid_same [OF that(2,1)] is_valid_shape [OF that(2)] topological_ordering_spec [OF that(2)]
    by (auto split: if_splits)
  obtain s p1 b where 1: "unparse_re revquery p = Some (Inr (s, p1))" "is_valid p = Inr (b, p1)"
    using unparse_re_prints [OF wf pr] by blast
  note s1 = step [OF 1(2) wf]
  then have ok: "wf_graph (nodes p1)" "printable revquery (nodes p1)" "length (nodes p1) \<le> 128" "length buf = unparse_node_size p1"
    using same_graph_wf [of "nodes p1" "nodes p"] wf pr printable_same [of "nodes p1" "nodes p"] n buf
    by (auto simp: same_graph_def unparse_node_size_def simp flip: length_0_conv)
  obtain t q p2 c where 2: "unparse_dag revquery buf p1 = Inr (t, q)" "is_valid p1 = Inr (c, p2)" "q = p2 \<or> (\<exists>c. is_valid p2 = Inr (c, q))"
    using unparse_dag_prints [OF ok] by blast
  note s2 = step [OF 2(2) ok(1)]
  have "same_graph (nodes q) (nodes p1) \<and> src q = src p1 \<and> dst q = dst p1"
    using 2(3) s2 step [of p2 _ q] same_graph_wf [of "nodes p2" "nodes p1"] ok(1) same_graph_trans [of "nodes q" "nodes p2" "nodes p1"]
    by auto
  with s1 have s3: "same_graph (nodes q) (nodes p) \<and> src q = src p \<and> dst q = dst p"
    using same_graph_trans [of "nodes q" "nodes p1" "nodes p"] by auto
  show ?thesis using 1(1) 2(1) s1 s3 by (auto simp: XIAPath_unparse_def)
qed

end
