(* ===== verification/Xia_Xcmp.thy ===== *)
theory Xia_Xcmp
  imports Xia_Forwarding Xia_Path_Print
begin

text \<open>
  Control messages (\<^verbatim>\<open>elements/xia/xcmp.{cc,hh}\<close>): echo, redirects, and reports of unreachable destinations and
  exceeded hop limits. The element has one state component, the address of the host. Its debugging output is part of
  the model as far as it can fail: printing an address may not return or overrun a buffer, and it reads the packet.
  The arguments of one call are evaluated from left to right.
\<close>

section \<open>Constants\<close>

definition UNREACHABLE :: int where
  "UNREACHABLE = - 6"

definition CLICK_XIA_NXT_XCMP :: u8 where
  "CLICK_XIA_NXT_XCMP = 61"

definition XCMP_ECHOREPLY :: u8 where
  "XCMP_ECHOREPLY = 0"

definition XCMP_UNREACH :: u8 where
  "XCMP_UNREACH = 3"

definition XCMP_UNREACH_HOST :: u8 where
  "XCMP_UNREACH_HOST = 1"

definition XCMP_REDIRECT :: u8 where
  "XCMP_REDIRECT = 5"

definition XCMP_REDIRECT_HOST :: u8 where
  "XCMP_REDIRECT_HOST = 1"

definition XCMP_ECHO :: u8 where
  "XCMP_ECHO = 8"

definition XCMP_TIMXCEED :: u8 where
  "XCMP_TIMXCEED = 11"

definition XCMP_TIMXCEED_REASSEMBLY :: u8 where
  "XCMP_TIMXCEED_REASSEMBLY = 1"

lemmas xcmp_types = XCMP_ECHOREPLY_def XCMP_UNREACH_def XCMP_UNREACH_HOST_def XCMP_REDIRECT_def XCMP_REDIRECT_HOST_def
  XCMP_ECHO_def XCMP_TIMXCEED_def XCMP_TIMXCEED_REASSEMBLY_def CLICK_XIA_NXT_XCMP_def

section \<open>Memory\<close>

text \<open>Writing bytes into a buffer, and reading a number of bytes of a packet.\<close>

definition blit :: "nat \<Rightarrow> u8 list \<Rightarrow> u8 list \<Rightarrow> u8 list run" where
  "blit off bs buf =
     (if off + length bs \<le> length buf then Inr (take off buf @ bs @ drop (off + length bs) buf) else Inl Buffer_overrun)"

definition read_bytes :: "nat \<Rightarrow> nat \<Rightarrow> u8 list \<Rightarrow> u8 list run" where
  "read_bytes off n bs = (if off + n \<le> length bs then Inr (take n (drop off bs)) else Inl Out_of_range)"

section \<open>Checksum\<close>

text \<open>
  The sum of the 16-bit words of a message in the byte order of the host; an odd byte is the low byte of a last word.
\<close>

fun sum16 :: "u8 list \<Rightarrow> nat" where
  "sum16 [] = 0"
| "sum16 [a] = unat a"
| "sum16 (a # b # bs) = unat a + 256 * unat b + sum16 bs"

definition in_cksum :: "u8 list \<Rightarrow> u16" where
  "in_cksum bs =
     (let s = sum16 bs; s1 = s div 65536 + s mod 65536; s2 = s1 + s1 div 65536
      in NOT (of_nat s2))"

section \<open>Messages\<close>

text \<open>
  What the element does with packets: it pushes new ones, pushes the one it was given, or destroys it. Who pushes a
  packet gives it away.
\<close>

datatype xcmp_event = New nat packet | Pass nat packet | Kill

text \<open>
  Memory that is allocated and not cleared: \<open>msg_junk\<close> for the message, \<open>node_junk k\<close> for the \<open>k\<close>-th array of nodes.
\<close>

record xcmp_memory =
  msg_junk :: "nat \<Rightarrow> u8"
  node_junk :: "nat \<Rightarrow> nat \<Rightarrow> click_xia_xid_node"

definition print_path :: "(nat \<Rightarrow> click_xia_xid_node) \<Rightarrow> XIAPath \<Rightarrow> XIAPath run option" where
  "print_path junk p =
     map_option (\<lambda>r. bind_run r (\<lambda>(s, q). Inr q))
       (XIAPath_unparse (\<lambda>_. []) (map junk [0..<unparse_node_size p]) p)"

definition sendUp :: "packet \<Rightarrow> xcmp_event list" where
  "sendUp p = [Pass 1 (SET_XIA_PAINT_ANNO 0 p)]"

definition xcmp_message ::
  "xcmp_memory \<Rightarrow> packet \<Rightarrow> u8 \<Rightarrow> u8 \<Rightarrow> (click_xia_xid \<times> click_xia_xid) option \<Rightarrow> u8 list run" where
  "xcmp_message mem p type code addrs =
     (let h = phdr p; xs = 4; plen = unat (XIAHeader_plen h);
          xlen0 = xs + 24 * 2 + hdr_size h + 8;
          xlen = (if type = 0 \<and> xlen0 < xs + plen then xs + plen else xlen0)
      in if \<not> xlen < 1500 then Inl Assert_failed
         else
           bind_run (XIAHeader_payload h (body p)) (\<lambda>off.
           bind_run (if type = 0 then bind_run (read_bytes off plen (body p)) (\<lambda>d. blit 0 d (map (msg_junk mem) [0..<xlen]))
             else Inr (map (msg_junk mem) [0..<xlen])) (\<lambda>m1.
           bind_run (case addrs of None \<Rightarrow> Inr m1
             | Some (lastaddr, nxthop) \<Rightarrow> bind_run (blit xs (XID_data lastaddr) m1) (blit (xs + 24) (XID_data nxthop))) (\<lambda>m2.
           bind_run (blit (xs + 24 * 2) (take (hdr_size h) (hdr_bytes h)) m2) (\<lambda>m3.
           bind_run (read_bytes off 8 (body p)) (\<lambda>d.
           bind_run (blit (xs + 24 * 2 + hdr_size h) d m3) (\<lambda>m4.
           bind_run (blit 0 [type, code, 0, 0] m4) (\<lambda>m5.
             blit 2 (le_bytes 2 (in_cksum m5)) m5))))))))"

definition sendXCMPPacket ::
  "xcmp_memory \<Rightarrow> packet \<Rightarrow> u8 \<Rightarrow> u8 \<Rightarrow> (click_xia_xid \<times> click_xia_xid) option \<Rightarrow> XIAPath option \<Rightarrow> xcmp_event list run" where
  "sendXCMPPacket mem p type code addrs source =
     bind_run (xcmp_message mem p type code addrs) (\<lambda>msg.
     bind_run (set_dst_path (node_junk mem 0) (src_path (phdr p))
       (XIAHeaderEncap_new\<lparr>ehdr := set_nxt CLICK_XIA_NXT_XCMP (ehdr XIAHeaderEncap_new)\<rparr>)) (\<lambda>e1.
     bind_run (set_src_path (node_junk mem 1) (case source of Some s \<Rightarrow> s | None \<Rightarrow> dst_path (phdr p)) e1) (\<lambda>e2.
       let (h, bs) = encap e2 True msg
       in Inr [New 0 (SET_XIA_PAINT_ANNO DESTINED_FOR_LOCALHOST
            \<lparr>phdr = h, body = bs, next_path_anno = 0, paint_anno = 0, neighbor_anno = XID_default\<rparr>)])))"

section \<open>Packets with a problem\<close>

definition processBadForwarding :: "xcmp_memory \<Rightarrow> packet \<Rightarrow> XIAPath \<Rightarrow> (xcmp_event list \<times> XIAPath) run option" where
  "processBadForwarding mem p a =
     seq_run (Some (current_node (phdr p))) (\<lambda>lastnode.
     seq_run (print_path (node_junk mem 2) a) (\<lambda>a1.
     seq_run (print_path (node_junk mem 3) (src_path (phdr p))) (\<lambda>_.
     seq_run (Some (XID_unparse (nxid lastnode))) (\<lambda>_.
     seq_run (Some (sendXCMPPacket mem p XCMP_REDIRECT XCMP_REDIRECT_HOST
       (Some (nxid lastnode, nexthop_neighbor_xid_anno p)) (Some a1))) (\<lambda>evs.
     seq_run (print_path (node_junk mem 4) a1) (\<lambda>a2. Some (Inr (evs, a2))))))))"

definition processUnreachable :: "xcmp_memory \<Rightarrow> packet \<Rightarrow> XIAPath \<Rightarrow> (xcmp_event list \<times> XIAPath) run option" where
  "processUnreachable mem p a =
     seq_run (Some (if nxt (phdr p) = CLICK_XIA_NXT_XCMP
         then bind_run (XIAHeader_payload (phdr p) (body p)) (\<lambda>off.
           bind_run (at (body p) off) (\<lambda>ty. Inr (ty = XCMP_UNREACH))) else Inr False)) (\<lambda>again.
     if again then Some (Inr ([], a))
     else
       let bcast = XID_parse (no_context (\<lambda>_. None)) BHID XID_default;
           print_all = (\<lambda>a. seq_run (print_path (node_junk mem 2) a) (\<lambda>a1.
             seq_run (print_path (node_junk mem 3) (src_path (phdr p))) (\<lambda>_.
             seq_run (print_path (node_junk mem 4) (dst_path (phdr p))) (\<lambda>_. Some (Inr a1)))))
       in
       seq_run (Some (is_valid (dst_path (phdr p)))) (\<lambda>(ok, d).
       if \<not> ok then
         seq_run (unparse_re (\<lambda>_. []) d) (\<lambda>_. seq_run (print_all a) (\<lambda>a1. Some (Inr ([], a1))))
       else
         seq_run (Some (remove_node (dst d) d)) (\<lambda>d1.
         if unparse_node_size d1 < 1 then Some (Inr ([], a))
         else
           seq_run (Some (path_xid d1 (dst d1))) (\<lambda>dst_hid.
           if XID_eq dst_hid bcast then Some (Inr ([], a))
           else
             seq_run (print_all a) (\<lambda>a1.
             seq_run (Some (sendXCMPPacket mem p XCMP_UNREACH XCMP_UNREACH_HOST None (Some a1))) (\<lambda>evs.
             seq_run (print_path (node_junk mem 5) a1) (\<lambda>a2.
             seq_run (print_path (node_junk mem 6) (src_path (phdr p))) (\<lambda>_. Some (Inr (evs, a2))))))))))"

definition processExpired :: "xcmp_memory \<Rightarrow> packet \<Rightarrow> XIAPath \<Rightarrow> (xcmp_event list \<times> XIAPath) run option" where
  "processExpired mem p a =
     seq_run (print_path (node_junk mem 2) a) (\<lambda>a1.
     seq_run (Some (sendXCMPPacket mem p XCMP_TIMXCEED XCMP_TIMXCEED_REASSEMBLY None (Some a1))) (\<lambda>evs.
     seq_run (print_path (node_junk mem 3) a1) (\<lambda>a2. Some (Inr (evs, a2)))))"

section \<open>Control messages for this host\<close>

text \<open>The number that the debugging output prints for echo messages.\<close>

definition client_seq :: "packet \<Rightarrow> u8 list run" where
  "client_seq p = bind_run (XIAHeader_payload (phdr p) (body p)) (\<lambda>off. read_bytes (off + 6) 2 (body p))"

definition gotPing :: "xcmp_memory \<Rightarrow> packet \<Rightarrow> XIAPath \<Rightarrow> (xcmp_event list \<times> XIAPath) run option" where
  "gotPing mem p a =
     seq_run (print_path (node_junk mem 2) a) (\<lambda>a1.
     seq_run (Some (client_seq p)) (\<lambda>_.
     seq_run (Some (sendXCMPPacket mem p XCMP_ECHOREPLY 0 None None)) (\<lambda>evs.
     seq_run (print_path (node_junk mem 3) a1) (\<lambda>a2. Some (Inr (evs, a2))))))"

definition gotPong :: "xcmp_memory \<Rightarrow> packet \<Rightarrow> XIAPath \<Rightarrow> (xcmp_event list \<times> XIAPath) run option" where
  "gotPong mem p a =
     seq_run (print_path (node_junk mem 2) a) (\<lambda>a1.
     seq_run (Some (client_seq p)) (\<lambda>_. Some (Inr (sendUp p, a1))))"

definition gotExpired :: "xcmp_memory \<Rightarrow> packet \<Rightarrow> XIAPath \<Rightarrow> (xcmp_event list \<times> XIAPath) run option" where
  "gotExpired mem p a = seq_run (print_path (node_junk mem 2) a) (\<lambda>a1. Some (Inr (sendUp p, a1)))"

definition gotUnreachable :: "xcmp_memory \<Rightarrow> packet \<Rightarrow> XIAPath \<Rightarrow> (xcmp_event list \<times> XIAPath) run option" where
  "gotUnreachable mem p a = seq_run (print_path (node_junk mem 2) a) (\<lambda>a1. Some (Inr (sendUp p, a1)))"

text \<open>The destination of a route update is a path of two nodes, the second of which has the XID.\<close>

definition update_dest :: "click_xia_xid \<Rightarrow> XIAPath run" where
  "update_dest x =
     (let (d_dummy, p1) = add_node XID_default XIAPath_reset; (d_node, p2) = add_node x p1
      in add_edge d_dummy d_node npos p2)"

definition gotRedirect :: "xcmp_memory \<Rightarrow> packet \<Rightarrow> XIAPath \<Rightarrow> (xcmp_event list \<times> XIAPath) run option" where
  "gotRedirect mem p a =
     (let h = phdr p; plen = unat (XIAHeader_plen h) in
      seq_run (print_path (node_junk mem 2) a) (\<lambda>a1.
      seq_run (Some (XIAHeader_payload h (body p))) (\<lambda>off.
      seq_run (Some (read_bytes (off + 4) 24 (body p))) (\<lambda>baddest.
      seq_run (Some (read_bytes (off + 28) 24 (body p))) (\<lambda>newroute.
      seq_run (print_path (node_junk mem 3) a1) (\<lambda>a2.
      seq_run (print_path (node_junk mem 4) (src_path h)) (\<lambda>_.
      seq_run (print_path (node_junk mem 5) (dst_path h)) (\<lambda>_.
      seq_run (Some (XID_unparse (xid_of_bytes baddest))) (\<lambda>_.
      seq_run (Some (XID_unparse (xid_of_bytes newroute))) (\<lambda>_.
      seq_run (Some (read_bytes off (if plen > 1024 then 1024 else plen) (body p))) (\<lambda>msg.
      seq_run (Some (update_dest (xid_of_bytes baddest))) (\<lambda>dest.
      seq_run (Some (set_dst_path (node_junk mem 0) dest
        (XIAHeaderEncap_new\<lparr>ehdr := set_nxt CLICK_XIA_NXT_XCMP (ehdr XIAHeaderEncap_new)\<rparr>))) (\<lambda>e1.
      seq_run (Some (set_src_path (node_junk mem 1) a2 e1)) (\<lambda>e2.
        let (h1, bs) = encap e2 True msg
        in Some (Inr ([New 1 (SET_XIA_PAINT_ANNO 1
              \<lparr>phdr = h1, body = bs, next_path_anno = 0, paint_anno = 0, neighbor_anno = XID_default\<rparr>), Kill], a2))))))))))))))))"

section \<open>The element\<close>

text \<open>\<^const>\<open>None\<close> inside the result says that the packet has no problem.\<close>

definition processPacket :: "xcmp_memory \<Rightarrow> packet \<Rightarrow> XIAPath \<Rightarrow> (xcmp_event list \<times> XIAPath) option run option" where
  "processPacket mem p a =
     (let flagged = (\<lambda>r. seq_run r (\<lambda>x. Some (Inr (Some x)))) in
      if XIA_PAINT_ANNO p \<le> - TOTAL_SPECIAL_CASES then flagged (processBadForwarding mem p a)
      else if XIA_PAINT_ANNO p = UNREACHABLE then flagged (processUnreachable mem p a)
      else if hlim (phdr p) \<le> 1 then flagged (processExpired mem p a)
      else Some (Inr None))"

definition gotXCMPPacket :: "xcmp_memory \<Rightarrow> packet \<Rightarrow> XIAPath \<Rightarrow> (xcmp_event list \<times> XIAPath) run option" where
  "gotXCMPPacket mem p a =
     seq_run (Some (bind_run (XIAHeader_payload (phdr p) (body p)) (at (body p)))) (\<lambda>ty.
       if ty = XCMP_ECHO then gotPing mem p a
       else if ty = XCMP_ECHOREPLY then gotPong mem p a
       else if ty = XCMP_TIMXCEED then gotExpired mem p a
       else if ty = XCMP_UNREACH then gotUnreachable mem p a
       else if ty = XCMP_REDIRECT then gotRedirect mem p a
       else Some (Inr ([], a)))"

definition XCMP_push :: "xcmp_memory \<Rightarrow> packet \<Rightarrow> XIAPath \<Rightarrow> (xcmp_event list \<times> XIAPath) run option" where
  "XCMP_push mem p a =
     seq_run (processPacket mem p a) (\<lambda>done.
     seq_run (case done of
         Some x \<Rightarrow> Some (Inr x)
       | None \<Rightarrow> if nxt (phdr p) = CLICK_XIA_NXT_XCMP then gotXCMPPacket mem p a else Some (Inr ([], a))) (\<lambda>(evs, a1).
       Some (Inr (evs @ [Kill], a1))))"

end
