(* ===== verification/Xia_Routing_Process.thy ===== *)
theory Xia_Routing_Process
  imports Xia_Forwarding
begin

text \<open>
  Properties of the routing process \<^verbatim>\<open>XIAPacketRoute\<close>: it ends on packets whose destination path has no
  cycle, and it forwards a packet only with a smaller hop limit.
\<close>

section \<open>Packets at the classifier\<close>

definition ready :: "packet \<Rightarrow> bool" where
  "ready p \<longleftrightarrow> wf_hdr (phdr p) \<and> 0 < unat (dnode (phdr p)) \<and> 0 < unat (snode (phdr p))"

text \<open>The XID of the destination path that the selected edge leads to.\<close>

definition dst_next :: "packet \<Rightarrow> click_xia_xid option" where
  "dst_next p =
     (case current_edge p of
        Inl _ \<Rightarrow> None
      | Inr e \<Rightarrow>
          if idx e \<noteq> CLICK_XIA_XID_EDGE_UNUSED \<and> unat (idx e) < unat (dnode (phdr p))
          then Some (nxid (hnode (phdr p) ! unat (idx e))) else None)"

definition principal_of :: "click_xia_xid \<Rightarrow> principal option" where
  "principal_of x =
     (if xid_type x = htonl CLICK_XIA_XID_TYPE_AD then Some AD
      else if xid_type x = htonl CLICK_XIA_XID_TYPE_HID then Some HID
      else if xid_type x = htonl CLICK_XIA_XID_TYPE_SID then Some SID
      else if xid_type x = htonl CLICK_XIA_XID_TYPE_CID then Some CID
      else if xid_type x = htonl CLICK_XIA_XID_TYPE_IP then Some IP
      else None)"

lemma wf_hdr_length: "wf_hdr h \<Longrightarrow> length (hnode h) = unat (dnode h) + unat (snode h)"
  by (simp add: wf_hdr_def)

lemma dst_next_headed: "ready p \<Longrightarrow> dst_next p = Some x \<Longrightarrow> headed_for p x"
  by (auto simp: dst_next_def headed_for_def ready_def wf_hdr_length split: sum.splits if_splits)

lemma int_at_pred: "0 < n \<Longrightarrow> n \<le> length xs \<Longrightarrow> int_at xs (int n - 1) = Inr (xs ! (n - 1))"
  by (cases n) (simp_all add: int_at_def)

lemma ready_types:
  assumes "ready p"
  shows "\<exists>d. dst_type (phdr p) = Inr d" "\<exists>s. src_type (phdr p) = Inr s"
proof -
  let ?h = "phdr p"
  have "length (hnode ?h) = unat (dnode ?h) + unat (snode ?h)" "0 < unat (dnode ?h)"
    using assms by (simp_all add: ready_def wf_hdr_length)
  then have "int_at (hnode ?h) (int (unat (dnode ?h)) - 1) = Inr (hnode ?h ! (unat (dnode ?h) - 1))"
    "int_at (hnode ?h) (int (unat (dnode ?h) + unat (snode ?h)) - 1) =
      Inr (hnode ?h ! (unat (dnode ?h) + unat (snode ?h) - 1))"
    by (intro int_at_pred; simp)+
  then show "\<exists>d. dst_type (phdr p) = Inr d" "\<exists>s. src_type (phdr p) = Inr s"
    by (simp_all only: dst_type_def src_type_def of_nat_add bind_run_simps sum.inject ex_simps simp_thms)
qed

lemma next_type_dst_next:
  assumes "ready p" "XIA_NEXT_PATH_ANNO p < CLICK_XIA_XID_EDGE_NUM" "current_edge p = Inr e"
  shows "next_type p = Inr (case dst_next p of Some x \<Rightarrow> xid_type x | None \<Rightarrow> - 1)"
  using assms by (auto simp: next_type_def dst_next_def ready_def wf_hdr_length)

definition class_of :: "click_xia_xid option \<Rightarrow> nat" where
  "class_of y =
     (case Option.bind y principal_of of
        Some AD \<Rightarrow> 0 | Some HID \<Rightarrow> 1 | Some SID \<Rightarrow> 2 | Some CID \<Rightarrow> 3 | Some IP \<Rightarrow> 4 | None \<Rightarrow> 5)"

lemma htonl_types:
  "htonl CLICK_XIA_XID_TYPE_AD = 0x10000000" "htonl CLICK_XIA_XID_TYPE_HID = 0x11000000"
  "htonl CLICK_XIA_XID_TYPE_CID = 0x12000000" "htonl CLICK_XIA_XID_TYPE_SID = 0x13000000"
  "htonl CLICK_XIA_XID_TYPE_IP = 0x14000000"
  unfolding xid_type_defs by code_simp+

lemma classify:
  assumes "ready p" "XIA_NEXT_PATH_ANNO p < CLICK_XIA_XID_EDGE_NUM" "current_edge p = Inr e"
  shows "XIAXIDTypeClassifier_match route_patterns p = Inr (Some (class_of (dst_next p)))"
proof -
  obtain d s where "dst_type (phdr p) = Inr d" "src_type (phdr p) = Inr s"
    using ready_types [OF assms(1)] by blast
  then show ?thesis
    by (simp add: XIAXIDTypeClassifier_match_def next_type_dst_next [OF assms] route_patterns_def class_of_def
        principal_of_def htonl_types split: option.splits)
qed

lemma principal_no_class:
  "principal_no (class_of y) = Option.bind y principal_of"
  by (auto simp: class_of_def principal_no_def split: option.splits principal.splits)

lemma route_once_classified:
  assumes "ready p" "XIA_NEXT_PATH_ANNO p < CLICK_XIA_XID_EDGE_NUM" "current_edge p = Inr e"
  shows "route_once junk p r =
    (case Option.bind (dst_next p) principal_of of
       None \<Rightarrow> Some (Inr ([Unroutable p], None, r))
     | Some t \<Rightarrow>
         map_option (\<lambda>res. bind_run res (\<lambda>(outs, tab).
             after_tables t outs (r\<lparr>tables := (tables r)(t := tab)\<rparr>)))
           (route_table_push junk p (tables r t)))"
  by (simp add: route_once_def classify [OF assms] principal_no_class split: option.splits)

text \<open>What the table pushes differs from the packet in annotations only.\<close>

lemma redirect_notice_packet:
  "(port, q) \<in> set (redirect_notice i k p) \<Longrightarrow> phdr q = phdr p \<and> body q = body p \<and> next_path_anno q = next_path_anno p"
  by (auto simp: redirect_notice_def SET_XIA_PAINT_ANNO_def split: if_splits)

lemma forward_port_packet:
  "(port, q) \<in> set (forward_port n k p) \<Longrightarrow> phdr q = phdr p \<and> body q = body p \<and> next_path_anno q = next_path_anno p"
  by (auto simp: forward_port_def SET_XIA_PAINT_ANNO_def split: if_splits)

lemma lookup_route_packet:
  "lookup_route i p t = Inr (k, q, t1) \<Longrightarrow> phdr q = phdr p \<and> body q = body p \<and> next_path_anno q = next_path_anno p"
  by (auto simp: lookup_route_def Let_def set_nexthop_neighbor_xid_anno_def split: if_splits)

lemma push_packets:
  assumes "route_table_push junk p t = Some (Inr (outs, t1))" "(port, q) \<in> set outs"
  shows "phdr q = phdr p \<and> body q = body p \<and> next_path_anno q = next_path_anno p"
proof (cases "principal_type_enabled t = 0 \<or> XIA_PAINT_ANNO p = REDIRECT")
  case True
  with assms show ?thesis
    by (cases "process_xcmp_redirect junk p t") (auto simp: route_table_push_def Let_def split: if_splits)
next
  case False
  with assms(1) obtain k p1 where l: "lookup_route (XIA_PAINT_ANNO p) p t = Inr (k, p1, t1)"
    "outs = redirect_notice (XIA_PAINT_ANNO p) k p1 @ forward_port (num_ports t1) k p1"
    by (auto simp: route_table_push_def Let_def)
  with assms(2) show ?thesis
    using lookup_route_packet [OF l(1)] redirect_notice_packet forward_port_packet by fastforce
qed

section \<open>One round\<close>

lemma after_tables_again:
  "after_tables t outs r = Inr (ls, Some q, r1) \<Longrightarrow>
    \<exists>port p r2 ls2 r3. (port, p) \<in> set outs \<and> after_table t (port, p) r2 = Inr (ls2, Some q, r3)"
proof (induction outs arbitrary: r ls)
  case (Cons out outs)
  then obtain ls1 g r2 ls3 g3 where 1: "after_table t out r = Inr (ls1, g, r2)"
    "after_tables t outs r2 = Inr (ls3, g3, r1)" "(case g of None \<Rightarrow> g3 | Some q \<Rightarrow> Some q) = Some q"
    by auto
  show ?case
  proof (cases g)
    case None
    with 1 Cons.IH [of r2 ls3] show ?thesis by simp blast
  next
    case (Some q')
    with 1 have "after_table t (fst out, snd out) r = Inr (ls1, Some q, r2)" by simp
    then show ?thesis by (cases out) (simp, blast)
  qed
qed simp

text \<open>A packet comes back on another path of the same node, or at the next node.\<close>

lemma after_table_again:
  assumes "after_table t (port, p) r = Inr (ls, Some q, r1)"
  shows "(q = SET_XIA_NEXT_PATH_ANNO (XIA_NEXT_PATH_ANNO p + 1) p \<and> XIA_NEXT_PATH_ANNO p + 1 < CLICK_XIA_XID_EDGE_NUM)
    \<or> (\<exists>p1. XIANextHop_push p = Inr p1 \<and> XIACheckDest_push p1 = 1 \<and> q = SET_XIA_NEXT_PATH_ANNO 0 p1)"
  using assms
  by (auto simp: after_table_def XIASelectPath_push_def post_route_def Let_def XIACheckDest_push_def
      split: if_splits prod.splits)

lemma after_table_router:
  "after_table t out r = Inr (ls, g, r1) \<Longrightarrow> tables r1 = tables r"
  by (auto simp: after_table_def post_route_def split: if_splits prod.splits)

lemma after_tables_router:
  "after_tables t outs r = Inr (ls, g, r1) \<Longrightarrow> tables r1 = tables r"
  by (induction outs arbitrary: r ls g r1) (auto dest: after_table_router)

section \<open>What a hop changes\<close>

text \<open>The routing process moves a packet along its path: only visited marks, the last node and annotations change.\<close>

definition moved :: "packet \<Rightarrow> packet \<Rightarrow> bool" where
  "moved p q \<longleftrightarrow> body q = body p \<and> (\<exists>l ns. phdr q = (phdr p)\<lparr>hlast := l, hnode := ns\<rparr>)
     \<and> map (\<lambda>m. (nxid m, map idx (nedge m))) (hnode (phdr q)) = map (\<lambda>m. (nxid m, map idx (nedge m))) (hnode (phdr p))"

lemma movedI:
  "body q = body p \<Longrightarrow> phdr q = (phdr p)\<lparr>hlast := l, hnode := ns\<rparr> \<Longrightarrow>
    map (\<lambda>m. (nxid m, map idx (nedge m))) ns = map (\<lambda>m. (nxid m, map idx (nedge m))) (hnode (phdr p)) \<Longrightarrow> moved p q"
  by (auto simp: moved_def)

lemma moved_refl: "phdr q = phdr p \<Longrightarrow> body q = body p \<Longrightarrow> moved p q"
  by (auto simp: moved_def intro!: exI [of _ "hlast (phdr p)"] exI [of _ "hnode (phdr p)"])

lemma moved_anno:
  "moved p (SET_XIA_NEXT_PATH_ANNO k q) = moved p q" "paint_anno (SET_XIA_NEXT_PATH_ANNO k q) = paint_anno q"
  "moved p (XIAPaint_simple_action c q) = moved p q"
  by (simp_all add: moved_def SET_XIA_NEXT_PATH_ANNO_def SET_XIA_PAINT_ANNO_def XIAPaint_simple_action_def)

lemma moved_fields:
  assumes "moved p q"
  shows "body q = body p" "nxt (phdr q) = nxt (phdr p)" "hlim (phdr q) = hlim (phdr p)" "dnode (phdr q) = dnode (phdr p)"
    "snode (phdr q) = snode (phdr p)"
proof -
  obtain l ns where "phdr q = (phdr p)\<lparr>hlast := l, hnode := ns\<rparr>" using assms unfolding moved_def by blast
  then show "nxt (phdr q) = nxt (phdr p)" "hlim (phdr q) = hlim (phdr p)" "dnode (phdr q) = dnode (phdr p)"
    "snode (phdr q) = snode (phdr p)" by simp_all
  show "body q = body p" using assms by (simp add: moved_def)
qed

lemma moved_trans: "moved p q \<Longrightarrow> moved q r \<Longrightarrow> moved p r"
  by (auto simp: moved_def) blast

lemma graph_node_moved:
  "graph_node = (\<lambda>m. Node_default\<lparr>pxid := nxid m, edges := map unat (filter (\<lambda>i. i \<noteq> CLICK_XIA_XID_EDGE_UNUSED) (map idx (nedge m)))\<rparr>)"
  by (rule ext) (simp add: graph_node_def parse_edges_def filter_map comp_def)

lemma parse_node_graph: "map graph_node ms = map graph_node ns \<Longrightarrow> parse_node ms = parse_node ns"
  by (cases "ms = []") (auto simp: parse_node_def Let_def)

lemma moved_paths:
  assumes "moved p q"
  shows "src_path (phdr q) = src_path (phdr p)" "dst_path (phdr q) = dst_path (phdr p)"
proof -
  let ?k = "\<lambda>m. (nxid m, map idx (nedge m))"
  have "map ?k (hnode (phdr q)) = map ?k (hnode (phdr p))" using assms by (simp add: moved_def)
  then have "map (\<lambda>(x, is). Node_default\<lparr>pxid := x, edges := map unat (filter (\<lambda>i. i \<noteq> CLICK_XIA_XID_EDGE_UNUSED) is)\<rparr>) (map ?k (hnode (phdr q)))
    = map (\<lambda>(x, is). Node_default\<lparr>pxid := x, edges := map unat (filter (\<lambda>i. i \<noteq> CLICK_XIA_XID_EDGE_UNUSED) is)\<rparr>) (map ?k (hnode (phdr p)))"
    by (rule arg_cong)
  then have g: "map graph_node (hnode (phdr q)) = map graph_node (hnode (phdr p))"
    by (simp add: graph_node_moved comp_def)
  show "src_path (phdr q) = src_path (phdr p)" "dst_path (phdr q) = dst_path (phdr p)"
    unfolding src_path_def dst_path_def moved_fields(4,5) [OF assms]
    by (rule parse_node_graph; simp add: take_map [symmetric] drop_map [symmetric] g)+
qed

lemma next_hop_moved:
  assumes "XIANextHop_push p = Inr q"
  shows "moved p q \<and> paint_anno q = paint_anno p"
proof -
  let ?h = "phdr p" and ?k = "XIA_NEXT_PATH_ANNO p" and ?i = "nat (current_index (phdr p))"
  let ?f = "\<lambda>m. (nxid m, map idx (nedge m))"
  obtain m e where m: "current_node ?h = Inr m" "at (nedge m) ?k = Inr e"
    "q = p\<lparr>phdr := ?h\<lparr>hlast := ucast (idx e), hnode := (hnode ?h)[?i := m\<lparr>nedge := (nedge m)[?k := e\<lparr>visited := True\<rparr>]\<rparr>]\<rparr>\<rparr>"
    using assms by (auto simp: XIANextHop_push_def Let_def)
  have i: "?i < length (hnode ?h)" "hnode ?h ! ?i = m" using m(1) by (auto simp: current_node_def int_at_eq_Inr)
  have "?k < length (nedge m)" "nedge m ! ?k = e" using m(2) by (auto simp: at_def split: if_splits)
  then have "map idx ((nedge m)[?k := e\<lparr>visited := True\<rparr>]) = map idx (nedge m)"
    by (simp add: map_update list_update_same_conv)
  then have "map ?f ((hnode ?h)[?i := m\<lparr>nedge := (nedge m)[?k := e\<lparr>visited := True\<rparr>]\<rparr>]) = map ?f (hnode ?h)"
    using i by (simp add: map_update list_update_same_conv)
  then have "moved p q" by (rule movedI [rotated 2, where l = "ucast (idx e)"]) (simp_all add: m(3))
  with m(3) show ?thesis by simp
qed

text \<open>A packet that is sent out has another hop limit as well.\<close>

definition sent :: "packet \<Rightarrow> packet \<Rightarrow> bool" where
  "sent p q \<longleftrightarrow> moved p (q\<lparr>phdr := (phdr q)\<lparr>hlim := hlim (phdr p)\<rparr>\<rparr>)"

lemma moved_ready:
  assumes "moved p q" "ready p"
  shows "ready q"
proof -
  let ?k = "\<lambda>m. (nxid m, map idx (nedge m))"
  have k: "map ?k (hnode (phdr q)) = map ?k (hnode (phdr p))" using assms(1) by (simp add: moved_def)
  have "map (\<lambda>(x, is). wf_xid x \<and> length is = CLICK_XIA_XID_EDGE_NUM) (map ?k (hnode (phdr q)))
    = map (\<lambda>(x, is). wf_xid x \<and> length is = CLICK_XIA_XID_EDGE_NUM) (map ?k (hnode (phdr p)))" by (simp only: k)
  then have "map wf_node (hnode (phdr q)) = map wf_node (hnode (phdr p))" by (simp add: comp_def wf_node_def [abs_def])
  then have "False \<in> set (map wf_node (hnode (phdr q))) \<longleftrightarrow> False \<in> set (map wf_node (hnode (phdr p)))" by (simp only:)
  then have "(\<forall>m\<in>set (hnode (phdr q)). wf_node m) = (\<forall>m\<in>set (hnode (phdr p)). wf_node m)" by auto
  moreover have "length (hnode (phdr q)) = length (hnode (phdr p))" using arg_cong [OF k, of length] by simp
  ultimately show ?thesis using assms(2) moved_fields(4,5) [OF assms(1)] by (simp add: ready_def wf_hdr_def)
qed

lemma sent_ready: "sent p q \<Longrightarrow> ready p \<Longrightarrow> ready q"
  using moved_ready [of p "q\<lparr>phdr := (phdr q)\<lparr>hlim := hlim (phdr p)\<rparr>\<rparr>"] by (simp add: sent_def ready_def wf_hdr_def)

section \<open>The process ends\<close>

text \<open>
  The edges between nodes of the destination path that can be on a cycle: the last node is the destination, where
  routing stops, and keeps the edges of the source. The nodes may be in any order.
\<close>

definition dst_links :: "click_xia \<Rightarrow> (nat \<times> nat) set" where
  "dst_links h =
     {(j, k). j < unat (dnode h) - 1 \<and> k < unat (dnode h) - 1
        \<and> (\<exists>i\<in>set (map idx (nedge (hnode h ! j))). i \<noteq> CLICK_XIA_XID_EDGE_UNUSED \<and> unat i = k)}"

definition acyclic_dst :: "click_xia \<Rightarrow> bool" where
  "acyclic_dst h \<longleftrightarrow> acyclic (dst_links h)"

text \<open>A header whose destination nodes are in topological order, as those that are built from a path.\<close>

definition forward_edges :: "click_xia \<Rightarrow> bool" where
  "forward_edges h \<longleftrightarrow>
     (\<forall>j < unat (dnode h) - 1. \<forall>e\<in>set (nedge (hnode h ! j)).
        idx e \<noteq> CLICK_XIA_XID_EDGE_UNUSED \<longrightarrow> j < unat (idx e))"

lemma forward_acyclic: "forward_edges h \<Longrightarrow> acyclic_dst h"
  unfolding acyclic_dst_def
  by (rule acyclic_subset [OF wf_acyclic [OF wf_less_than]]) (auto simp: forward_edges_def dst_links_def)

text \<open>The destination path of the header is valid only if it has no cycle.\<close>

lemma valid_acyclic:
  assumes "wf_hdr h" "is_valid (dst_path h) = Inr (True, p)"
  shows "acyclic_dst h"
proof (cases "unat (dnode h)")
  case 0
  then show ?thesis by (simp add: acyclic_dst_def dst_links_def acyclic_def)
next
  case (Suc t)
  let ?ms = "take (unat (dnode h)) (hnode h)"
  have len: "length ?ms = Suc t" using assms(1) Suc by (simp add: wf_hdr_length)
  have "acyclic (edge_rel (nodes (parse_node ?ms)))"
    using is_valid_iff [OF is_valid_true(1) [OF assms(2)]] assms(2) by (auto simp: dst_path_def)
  moreover have "dst_links h \<subseteq> edge_rel (nodes (parse_node ?ms))"
    using parse_node_nth(1,5) [OF len] Suc
    by (auto simp: dst_links_def edge_rel_def parse_edges_def image_iff)
  ultimately show ?thesis unfolding acyclic_dst_def by (rule acyclic_subset)
qed

lemma dst_links_moved:
  assumes "moved p q" "wf_hdr (phdr p)"
  shows "dst_links (phdr q) = dst_links (phdr p)"
proof -
  have "map idx (nedge (hnode (phdr q) ! j)) = map idx (nedge (hnode (phdr p) ! j))" if "j < unat (dnode (phdr p))" for j
  proof -
    have m: "map (\<lambda>m. (nxid m, map idx (nedge m))) (hnode (phdr q)) = map (\<lambda>m. (nxid m, map idx (nedge m))) (hnode (phdr p))"
      using assms(1) by (simp add: moved_def)
    have "j < length (hnode (phdr p))" using that assms(2) by (simp add: wf_hdr_length)
    moreover have "length (hnode (phdr q)) = length (hnode (phdr p))" using m by (rule map_eq_imp_length_eq)
    ultimately show ?thesis using arg_cong [OF m, of "\<lambda>xs. snd (xs ! j)"] by simp
  qed
  then show ?thesis unfolding dst_links_def moved_fields(4) [OF assms(1)] by (auto simp del: set_map)
qed

lemma dst_links_finite: "finite ((dst_links h)\<^sup>+ `` {j})" "(dst_links h)\<^sup>+ `` {j} \<subseteq> {..<unat (dnode h) - 1}"
proof -
  have "(dst_links h)\<^sup>+ \<subseteq> {..<unat (dnode h) - 1} \<times> {..<unat (dnode h) - 1}"
    by (rule trancl_subset_Sigma) (auto simp: dst_links_def)
  then show "(dst_links h)\<^sup>+ `` {j} \<subseteq> {..<unat (dnode h) - 1}" by blast
  then show "finite ((dst_links h)\<^sup>+ `` {j})" by (rule finite_subset) simp
qed

lemma reachable_less:
  assumes "acyclic_dst h" "(j, k) \<in> dst_links h"
  shows "card ((dst_links h)\<^sup>+ `` {k}) < card ((dst_links h)\<^sup>+ `` {j})"
proof (rule psubset_card_mono [OF dst_links_finite(1)])
  have "k \<in> (dst_links h)\<^sup>+ `` {j}" "(dst_links h)\<^sup>+ `` {k} \<subseteq> (dst_links h)\<^sup>+ `` {j}"
    using assms(2) by (auto intro: trancl_into_trancl2)
  moreover have "k \<notin> (dst_links h)\<^sup>+ `` {k}" using assms(1) by (simp add: acyclic_dst_def acyclic_def)
  ultimately show "(dst_links h)\<^sup>+ `` {k} \<subset> (dst_links h)\<^sup>+ `` {j}" by blast
qed

text \<open>The nodes that can still be reached from the current one; at the source it may be all of them.\<close>

definition steps_left :: "click_xia \<Rightarrow> nat" where
  "steps_left h =
     (if 0 \<le> current_index h \<and> current_index h < int (unat (dnode h)) - 1
      then card ((dst_links h)\<^sup>+ `` {nat (current_index h)}) else unat (dnode h))"

lemma card_reachable: "0 < unat (dnode h) \<Longrightarrow> card ((dst_links h)\<^sup>+ `` {j}) < unat (dnode h)"
  using card_mono [OF _ dst_links_finite(2), of h j] by simp

lemma steps_left_le: "0 < unat (dnode h) \<Longrightarrow> steps_left h \<le> unat (dnode h)"
  using card_reachable [of h] by (simp add: steps_left_def less_imp_le)

definition rounds_left :: "packet \<Rightarrow> nat" where
  "rounds_left p = 5 * steps_left (phdr p) + (4 - XIA_NEXT_PATH_ANNO p)"

definition routable :: "packet \<Rightarrow> bool" where
  "routable p \<longleftrightarrow> ready p \<and> acyclic_dst (phdr p) \<and> XIA_NEXT_PATH_ANNO p < CLICK_XIA_XID_EDGE_NUM"

lemma sint_ucast_7: "sint (ucast (i :: 7 word) :: u8) = int (unat i)"
proof -
  have "uint i < 2 ^ 7" using uint_lt2p [of i] by simp
  then have "signed_take_bit 7 (uint i) = uint i"
    by (intro signed_take_bit_int_eq_self) (simp_all add: order_trans [OF _ uint_ge_0])
  then show ?thesis by (simp add: signed_ucast_eq)
qed

lemma next_path_set: "k < 256 \<Longrightarrow> XIA_NEXT_PATH_ANNO (SET_XIA_NEXT_PATH_ANNO k p) = k"
  by (simp add: anno_defs unat_of_nat)

lemma next_hop_routable:
  assumes p: "routable p" and d: "dst_next p = Some x"
    and n: "XIANextHop_push p = Inr q" "XIACheckDest_push q = 1"
  shows "routable (SET_XIA_NEXT_PATH_ANNO 0 q) \<and> rounds_left (SET_XIA_NEXT_PATH_ANNO 0 q) < rounds_left p"
proof -
  let ?h = "phdr p" and ?k = "XIA_NEXT_PATH_ANNO p" and ?R = "dst_links (phdr p)"
  obtain m e where c: "current_node ?h = Inr m" "at (nedge m) ?k = Inr e" "hlast (phdr q) = ucast (idx e)"
    using n(1) by (auto simp: XIANextHop_push_def Let_def)
  have e: "idx e \<noteq> CLICK_XIA_XID_EDGE_UNUSED" "unat (idx e) < unat (dnode ?h)"
    using d c(1,2) by (auto simp: dst_next_def current_edge_def split: if_splits)
  have mv: "moved p q" using next_hop_moved [OF n(1)] by simp
  have r: "ready p" "acyclic_dst ?h" "wf_hdr ?h" using p by (simp_all add: routable_def ready_def)
  have dn: "dnode (phdr q) = dnode ?h" and R: "dst_links (phdr q) = ?R"
    using moved_fields(4) [OF mv] dst_links_moved [OF mv r(3)] by simp_all
  have last: "sint (hlast (phdr q)) = int (unat (idx e))" by (simp add: c(3) sint_ucast_7)
  then have "int (unat (idx e)) \<noteq> int (unat (dnode ?h)) - 1"
    using n(2) by (simp add: XIACheckDest_push_def dn del: of_nat_unat split: if_splits)
  then have not_dst: "unat (idx e) < unat (dnode ?h) - 1" using e(2) by linarith
  have steps: "steps_left (phdr q) = card (?R\<^sup>+ `` {unat (idx e)})"
  proof -
    have "int (unat (idx e)) < int (unat (dnode ?h)) - 1" using not_dst by linarith
    then show ?thesis by (simp add: steps_left_def current_index_def last dn R del: of_nat_unat)
  qed
  have "steps_left (phdr q) < steps_left ?h"
  proof (cases "0 \<le> current_index ?h \<and> current_index ?h < int (unat (dnode ?h)) - 1")
    case True
    let ?j = "nat (current_index ?h)"
    have "hnode ?h ! ?j = m" using c(1) by (simp add: current_node_def int_at_eq_Inr)
    moreover have "e \<in> set (nedge m)" using c(2) by (auto simp: at_def split: if_splits)
    moreover have "?j < unat (dnode ?h) - 1" using True by linarith
    ultimately have "(?j, unat (idx e)) \<in> ?R" using not_dst e(1) by (auto simp: dst_links_def)
    from reachable_less [OF r(2) this] True show ?thesis by (simp add: steps steps_left_def [of ?h])
  next
    case False
    then have "steps_left ?h = unat (dnode ?h)" unfolding steps_left_def by (rule if_not_P)
    then show ?thesis using card_reachable [of ?h] r(1) by (simp add: steps ready_def)
  qed
  moreover have "ready q" using moved_ready [OF mv r(1)] .
  then have "routable (SET_XIA_NEXT_PATH_ANNO 0 q)"
    using r(2) R next_path_set [of 0 q]
    by (simp add: routable_def ready_def acyclic_dst_def CLICK_XIA_XID_EDGE_NUM_def SET_XIA_NEXT_PATH_ANNO_def)
  moreover have ph: "phdr (SET_XIA_NEXT_PATH_ANNO 0 q) = phdr q" by (simp add: SET_XIA_NEXT_PATH_ANNO_def)
  have "5 * a + (4 - x) < 5 * b + (4 - y)" if "a < b" for a b x y :: nat using that by linarith
  ultimately show ?thesis unfolding rounds_left_def ph by blast
qed

lemma routable_same:
  assumes "phdr q = phdr p" "next_path_anno q = next_path_anno p"
  shows "routable q = routable p" "rounds_left q = rounds_left p" "dst_next q = dst_next p"
  unfolding routable_def ready_def rounds_left_def dst_next_def current_edge_def XIA_NEXT_PATH_ANNO_def assms
  by (rule refl)+

lemma next_path_routable:
  assumes "routable p" "XIA_NEXT_PATH_ANNO p + 1 < CLICK_XIA_XID_EDGE_NUM"
  shows "routable (SET_XIA_NEXT_PATH_ANNO (XIA_NEXT_PATH_ANNO p + 1) p)
    \<and> rounds_left (SET_XIA_NEXT_PATH_ANNO (XIA_NEXT_PATH_ANNO p + 1) p) < rounds_left p"
proof -
  let ?k = "XIA_NEXT_PATH_ANNO p + 1"
  have k: "?k < 4" using assms(2) by (simp add: CLICK_XIA_XID_EDGE_NUM_def)
  then have "XIA_NEXT_PATH_ANNO (SET_XIA_NEXT_PATH_ANNO ?k p) = ?k" by (intro next_path_set) simp
  moreover have "phdr (SET_XIA_NEXT_PATH_ANNO ?k p) = phdr p" by (simp add: SET_XIA_NEXT_PATH_ANNO_def)
  ultimately show ?thesis
    using assms k by (simp add: routable_def ready_def rounds_left_def)
qed

definition tables_ok :: "router \<Rightarrow> bool" where
  "tables_ok r \<longleftrightarrow> (\<forall>t. unique_keys (tables r t) \<and> wf_graph (nodes (local_addr (tables r t))))"

lemma tables_ok_push:
  assumes "tables_ok r"
  shows "\<exists>res. route_table_push junk p (tables r t) = Some res
    \<and> (\<forall>outs tab. res = Inr (outs, tab) \<longrightarrow> tables_ok (r\<lparr>tables := (tables r)(t := tab)\<rparr>))"
proof -
  let ?t = "tables r t"
  have "table_inv (local_hid ?t) (bcast_xid ?t) (num_ports ?t) ?t"
    using assms by (simp add: tables_ok_def table_inv_def)
  from push_inv [OF this] show ?thesis
    using assms by (fastforce simp: tables_ok_def table_inv_def)
qed

lemma route_once_edge:
  assumes p: "routable p" and r: "tables_ok r" and e: "current_edge p = Inr e"
  shows "\<exists>res. route_once junk p r = Some res \<and> (\<forall>ls g r1. res = Inr (ls, g, r1) \<longrightarrow>
    tables_ok r1 \<and> (\<forall>q. g = Some q \<longrightarrow> routable q \<and> rounds_left q < rounds_left p))"
proof -
  have once: "ready p" "XIA_NEXT_PATH_ANNO p < CLICK_XIA_XID_EDGE_NUM" using p by (simp_all add: routable_def)
  show ?thesis
  proof (cases "Option.bind (dst_next p) principal_of")
    case None
    with r show ?thesis by (simp add: route_once_classified [OF once e])
  next
    case (Some t)
    then obtain x where x: "dst_next p = Some x" by (auto simp: Option.bind_eq_Some_conv)
    obtain res where push: "route_table_push junk p (tables r t) = Some res"
      "\<forall>outs tab. res = Inr (outs, tab) \<longrightarrow> tables_ok (r\<lparr>tables := (tables r)(t := tab)\<rparr>)"
      using tables_ok_push [OF r] by blast
    have "tables_ok r1 \<and> (\<forall>q. g = Some q \<longrightarrow> routable q \<and> rounds_left q < rounds_left p)"
      if res: "res = Inr (outs, tab)"
        and after: "after_tables t outs (r\<lparr>tables := (tables r)(t := tab)\<rparr>) = Inr (ls, g, r1)" for outs tab ls g r1
    proof (intro conjI allI impI)
      show "tables_ok r1"
        using push(2) res after_tables_router [OF after] by (simp add: tables_ok_def)
      fix q
      assume "g = Some q"
      with after obtain port p' r2 ls2 r3 where p': "(port, p') \<in> set outs"
        "after_table t (port, p') r2 = Inr (ls2, Some q, r3)"
        using after_tables_again by blast
      have "phdr p' = phdr p" "next_path_anno p' = next_path_anno p"
        using push_packets [OF push(1) [unfolded res] p'(1)] by simp_all
      note same = routable_same [OF this]
      from after_table_again [OF p'(2)]
      show "routable q" "rounds_left q < rounds_left p"
        using next_path_routable [of p'] next_hop_routable [of p' x] p x same by auto
    qed
    with push(1) Some show ?thesis
      by (cases res) (auto simp: route_once_classified [OF once e])
  qed
qed

lemma route_once_round:
  assumes p: "routable p" and r: "tables_ok r"
  shows "\<exists>res. route_once junk p r = Some res \<and> (\<forall>ls g r1. res = Inr (ls, g, r1) \<longrightarrow>
    tables_ok r1 \<and> (\<forall>q. g = Some q \<longrightarrow> routable q \<and> rounds_left q < rounds_left p))"
proof (cases "current_edge p")
  case (Inl f)
  have "ready p" "XIA_NEXT_PATH_ANNO p < CLICK_XIA_XID_EDGE_NUM" using p by (simp_all add: routable_def)
  with Inl show ?thesis
    using ready_types [of p] by (auto simp: route_once_def XIAXIDTypeClassifier_match_def next_type_def)
next
  case (Inr e)
  with p r show ?thesis by (intro route_once_edge)
qed

lemma route_rounds_ends:
  "routable p \<Longrightarrow> tables_ok r \<Longrightarrow> rounds_left p < n \<Longrightarrow>
    \<exists>res. route_rounds n junk p r = Some res \<and> (\<forall>ls r1. res = Inr (ls, r1) \<longrightarrow> tables_ok r1)"
proof (induction n arbitrary: p r)
  case (Suc n)
  obtain res where once: "route_once junk p r = Some res" "\<forall>ls g r1. res = Inr (ls, g, r1) \<longrightarrow>
    tables_ok r1 \<and> (\<forall>q. g = Some q \<longrightarrow> routable q \<and> rounds_left q < rounds_left p)"
    using route_once_round [OF Suc.prems(1,2)] by blast
  show ?case
  proof (cases res)
    case (Inl f)
    with once show ?thesis by simp
  next
    case (Inr y)
    obtain ls g r1 where y: "y = (ls, g, r1)" by (cases y)
    with Inr once(2) have ok: "tables_ok r1" "\<And>q. g = Some q \<Longrightarrow> routable q \<and> rounds_left q < rounds_left p"
      by auto
    show ?thesis
    proof (cases g)
      case None
      with Inr y once(1) ok show ?thesis by simp
    next
      case (Some q)
      with ok Suc.prems(3) have "\<exists>res. route_rounds n junk q r1 = Some res \<and> (\<forall>ls r2. res = Inr (ls, r2) \<longrightarrow> tables_ok r2)"
        by (intro Suc.IH) auto
      with Some Inr y once(1) show ?thesis by auto
    qed
  qed
qed simp

lemma XIAPacketRoute_bound:
  assumes "ready p" "acyclic_dst (phdr p)" "tables_ok r" "5 * unat (dnode (phdr p)) + 5 \<le> n"
  shows "\<exists>res. XIAPacketRoute n junk p r = Some res \<and> (\<forall>ls r1. res = Inr (ls, r1) \<longrightarrow> tables_ok r1)"
proof -
  let ?q = "snd (XIASelectPath_push True p)"
  have q: "?q = SET_XIA_NEXT_PATH_ANNO 0 p" "phdr ?q = phdr p"
    by (simp_all add: XIASelectPath_push_def SET_XIA_NEXT_PATH_ANNO_def)
  have "routable ?q"
    using assms next_path_set [of 0 p] q
    by (simp add: routable_def ready_def CLICK_XIA_XID_EDGE_NUM_def)
  moreover have "steps_left (phdr p) \<le> unat (dnode (phdr p))"
    using assms(1) by (intro steps_left_le) (simp add: ready_def)
  then have "rounds_left ?q < n"
    using assms(4) by (simp add: rounds_left_def q(2))
  ultimately show ?thesis
    unfolding XIAPacketRoute_def using assms(3) by (intro route_rounds_ends)
qed

text \<open>
  C11. The routing process ends: a packet with a well-formed header and at least one node in either path, whose
  destination path has no cycle among the nodes before its last one, goes through the classifier at most five times for
  each destination node and five times more, whatever routes the tables hold, in whatever order the nodes are stored and
  whatever the field of the last visited node is. The process then has returned, or it has stopped at a fault such as a node
  or edge number out of range. The tables have one route for each XID and a local address whose edges lead to nodes.
\<close>

theorem XIAPacketRoute_ends:
  assumes "ready p" "acyclic_dst (phdr p)" "tables_ok r"
  shows "\<exists>res. XIAPacketRoute (5 * unat (dnode (phdr p)) + 5) junk p r = Some res"
  using XIAPacketRoute_bound [OF assms order_refl] by blast

definition sample_edges :: "7 word list \<Rightarrow> click_xia_xid_edge list" where
  "sample_edges ks = map (\<lambda>k. \<lparr>idx = k, visited = False\<rparr>) ks"

text \<open>A packet to a service at a host: the source may reach the service at once or through the host.\<close>

definition service_packet :: "u32 \<Rightarrow> packet" where
  "service_packet ty =
     \<lparr>phdr = \<lparr>ver = 1, nxt = CLICK_XIA_NXT_NO, plen = 0, hlim = 250, dnode = 2, snode = 1, hlast = - 1,
        hnode = [\<lparr>nxid = sample_host 7, nedge = sample_edges [1, 127, 127, 127]\<rparr>,
          \<lparr>nxid = \<lparr>xid_type = ty, xid_id = replicate 20 5\<rparr>, nedge = sample_edges [1, 0, 127, 127]\<rparr>,
          \<lparr>nxid = sample_host 10, nedge = sample_edges [0, 127, 127, 127]\<rparr>]\<rparr>,
      body = [], next_path_anno = 0, paint_anno = 3, neighbor_anno = XID_default\<rparr>"

definition sample_router :: router where
  "sample_router =
     \<lparr>tables = (\<lambda>t. store_route (sample_host 7) \<lparr>rport = 2, rflags = 0, rnexthop = Some (sample_host 8)\<rparr>
        (empty_table\<lparr>rtdata := \<lparr>rport = FALLBACK, rflags = 0, rnexthop = None\<rparr>\<rparr>)),
      gprp = \<lparr>active = True, hlim_drops = 0\<rparr>\<rparr>"

lemma ready_service: "ready (service_packet ty)"
  by (simp add: ready_def wf_hdr_def service_packet_def wf_node_def sample_edges_def CLICK_XIA_XID_EDGE_NUM_def
      wf_xid_def CLICK_XIA_XID_ID_LEN_def sample_host_def)

theorem XIAPacketRoute_ends_witness:
  "\<exists>res. XIAPacketRoute 15 (\<lambda>_. undefined) (service_packet (htonl CLICK_XIA_XID_TYPE_SID)) sample_router = Some res"
proof -
  let ?p = "service_packet (htonl CLICK_XIA_XID_TYPE_SID)"
  have "acyclic_dst (phdr ?p)"
    by (rule forward_acyclic) (simp add: forward_edges_def service_packet_def sample_edges_def CLICK_XIA_XID_EDGE_UNUSED_def)
  moreover have "tables_ok sample_router"
    by (simp add: tables_ok_def sample_router_def empty_table_def unique_keys_def store_route_def
        XIAPath_reset_def wf_graph_def)
  ultimately show ?thesis
    using XIAPacketRoute_ends [OF ready_service] by (simp add: service_packet_def)
qed

section \<open>Hop limit\<close>

definition forwarded :: "packet \<Rightarrow> packet \<Rightarrow> bool" where
  "forwarded p q \<longleftrightarrow> 1 < hlim (phdr p) \<and> hlim (phdr q) = hlim (phdr p) - 1 \<and> sent p q"

lemma moved_sent: "moved p q \<Longrightarrow> sent p q" "moved p q \<Longrightarrow> sent p (q\<lparr>phdr := (phdr q)\<lparr>hlim := k\<rparr>\<rparr>)"
proof -
  assume m: "moved p q"
  then have "q\<lparr>phdr := (phdr q)\<lparr>hlim := hlim (phdr p)\<rparr>\<rparr> = q" using moved_fields(3) [OF m] by simp
  with m show "sent p q" "sent p (q\<lparr>phdr := (phdr q)\<lparr>hlim := k\<rparr>\<rparr>)" by (simp_all add: sent_def)
qed

lemma sent_trans: "moved p q \<Longrightarrow> sent q r \<Longrightarrow> sent p r"
  using moved_fields(3) [of p q] moved_trans [of p q] by (simp add: sent_def)

lemma sent_header:
  assumes "sent p q"
  shows "body q = body p \<and> (\<exists>l ns. phdr q = (phdr p)\<lparr>hlim := hlim (phdr q), hlast := l, hnode := ns\<rparr>
        \<and> map (\<lambda>m. (nxid m, map idx (nedge m))) ns = map (\<lambda>m. (nxid m, map idx (nedge m))) (hnode (phdr p)))
    \<and> dst_path (phdr q) = dst_path (phdr p) \<and> src_path (phdr q) = src_path (phdr p)"
proof -
  have m: "moved p (q\<lparr>phdr := (phdr q)\<lparr>hlim := hlim (phdr p)\<rparr>\<rparr>)" using assms by (simp add: sent_def)
  then obtain l ns where h: "(phdr q)\<lparr>hlim := hlim (phdr p)\<rparr> = (phdr p)\<lparr>hlast := l, hnode := ns\<rparr>"
    by (auto simp: moved_def)
  then have q: "phdr q = (phdr p)\<lparr>hlim := hlim (phdr q), hlast := l, hnode := ns\<rparr>"
    by (cases "phdr p"; cases "phdr q") simp
  have "map (\<lambda>m. (nxid m, map idx (nedge m))) ns = map (\<lambda>m. (nxid m, map idx (nedge m))) (hnode (phdr p))"
    using m h by (simp add: moved_def)
  moreover have "body q = body p" "dst_path (phdr q) = dst_path (phdr p)" "src_path (phdr q) = src_path (phdr p)"
    using moved_fields(1) [OF m] moved_paths [OF m] by (simp_all add: dst_path_def src_path_def)
  ultimately show ?thesis using q by blast
qed

lemma after_table_carried:
  assumes "after_table t (port, p) r = Inr (ls, g, r1)" "active (gprp r)"
  shows "active (gprp r1)" "Forward q \<in> set ls \<Longrightarrow> forwarded p q" "g = Some q \<Longrightarrow> moved p q"
proof -
  have "moved p p" by (rule moved_refl) simp_all
  then have "moved p (SET_XIA_NEXT_PATH_ANNO k p)" "sent p (p\<lparr>phdr := (phdr p)\<lparr>hlim := l\<rparr>\<rparr>)" for k l
    by (simp_all add: moved_anno moved_sent)
  moreover have "moved p (SET_XIA_NEXT_PATH_ANNO k q)" if "XIANextHop_push p = Inr q" for k q
    using next_hop_moved [OF that] by (simp add: moved_anno)
  ultimately show "active (gprp r1)" "Forward q \<in> set ls \<Longrightarrow> forwarded p q" "g = Some q \<Longrightarrow> moved p q"
    using assms
    by (auto simp: after_table_def post_route_def XIADecHLIM_simple_action_def forwarded_def
        XIASelectPath_push_def Let_def not_le split: if_splits prod.splits)
qed

lemma after_tables_carried:
  assumes "after_tables t outs r = Inr (ls, g, r1)" "active (gprp r)"
    and "\<forall>(port, p')\<in>set outs. phdr p' = phdr p \<and> body p' = body p"
  shows "active (gprp r1) \<and> (\<forall>q. Forward q \<in> set ls \<longrightarrow> forwarded p q) \<and> (\<forall>q. g = Some q \<longrightarrow> moved p q)"
  using assms
proof (induction outs arbitrary: r ls g)
  case (Cons out outs)
  obtain port p' where out: "out = (port, p')" by (cases out)
  from Cons.prems(1) obtain ls1 g1 r2 ls2 g2 where 1: "after_table t (port, p') r = Inr (ls1, g1, r2)"
    "after_tables t outs r2 = Inr (ls2, g2, r1)" "ls = ls1 @ ls2" "g = (case g1 of None \<Rightarrow> g2 | Some q \<Rightarrow> Some q)"
    by (auto simp: out)
  note c = after_table_carried [OF 1(1) Cons.prems(2)]
  have "moved p p'" "hlim (phdr p') = hlim (phdr p)" using Cons.prems(3) by (auto simp: out intro: moved_refl)
  then have "moved p' q \<Longrightarrow> moved p q" "forwarded p' q \<Longrightarrow> forwarded p q" for q
    using moved_trans sent_trans by (auto simp: forwarded_def)
  with c Cons.IH [OF 1(2) c(1)] Cons.prems(3) 1(3,4) show ?case by (auto split: option.splits)
qed simp

lemma route_once_carried:
  assumes "route_once junk p r = Some (Inr (ls, g, r1))" "active (gprp r)"
  shows "active (gprp r1) \<and> (\<forall>q. Forward q \<in> set ls \<longrightarrow> forwarded p q) \<and> (\<forall>q. g = Some q \<longrightarrow> moved p q)"
proof -
  consider "active (gprp r1)" "ls = [] \<or> ls = [Unroutable p]" "g = None"
    | t outs tab where "route_table_push junk p (tables r t) = Some (Inr (outs, tab))"
      "after_tables t outs (r\<lparr>tables := (tables r)(t := tab)\<rparr>) = Inr (ls, g, r1)"
    using assms by (fastforce simp: route_once_def split: sum.splits option.splits)
  then show ?thesis
  proof cases
    case 1
    then show ?thesis by auto
  next
    case 2
    have "\<forall>(port, p')\<in>set outs. phdr p' = phdr p \<and> body p' = body p"
      using push_packets [OF 2(1)] by auto
    with after_tables_carried [OF 2(2)] assms(2) show ?thesis by simp
  qed
qed

lemma route_rounds_carried:
  "route_rounds n junk p r = Some (Inr (ls, r1)) \<Longrightarrow> active (gprp r) \<Longrightarrow> Forward q \<in> set ls \<Longrightarrow> forwarded p q"
proof (induction n arbitrary: p r ls)
  case (Suc n)
  from Suc.prems(1) obtain ls1 g r2 where once: "route_once junk p r = Some (Inr (ls1, g, r2))"
    by (auto split: option.splits sum.splits)
  note c = route_once_carried [OF once Suc.prems(2)]
  show ?case
  proof (cases g)
    case None
    with once Suc.prems c show ?thesis by simp
  next
    case (Some p1)
    with once Suc.prems(1) obtain ls2 where 2: "route_rounds n junk p1 r2 = Some (Inr (ls2, r1))" "ls = ls1 @ ls2"
      by auto
    have "moved p p1" using c Some by simp
    moreover have "forwarded p1 q" if "Forward q \<in> set ls2" using Suc.IH [OF 2(1) _ that] c by simp
    ultimately show ?thesis using Suc.prems(3) 2(2) c using sent_trans moved_fields(3) [of p p1] by (auto simp: forwarded_def)
  qed
qed simp

end
