(* ===== verification/Xia_Routing_Fallback.thy ===== *)
theory Xia_Routing_Fallback
  imports Xia_Routing_Process
begin

text \<open>
  What the routing process does with the alternatives of a path: it takes the first edge with a route, but it
  gives up at the first edge of a type without a table, and it does not end on a node that leads to itself.
\<close>

section \<open>Fallback\<close>

text \<open>The table and the route that the edge of priority \<open>k\<close> of the current node leads to, broadcasts left out.\<close>

definition edge_route :: "router \<Rightarrow> packet \<Rightarrow> nat \<Rightarrow> (principal \<times> XIARouteData) option" where
  "edge_route r p k =
     Option.bind (dst_next (SET_XIA_NEXT_PATH_ANNO k p)) (\<lambda>x.
     Option.bind (principal_of x) (\<lambda>t.
       if x \<noteq> bcast_xid (tables r t) \<and> principal_type_enabled (tables r t) \<noteq> 0
       then Some (t, route_for (tables r t) x) else None))"

definition no_way :: "int \<Rightarrow> bool" where
  "no_way port \<longleftrightarrow> port < 0 \<and> port \<notin> {DESTINED_FOR_LOCALHOST, DESTINED_FOR_DHCP, DESTINED_FOR_BROADCAST}"

definition on_path :: "packet \<Rightarrow> nat \<Rightarrow> packet \<Rightarrow> bool" where
  "on_path p k q \<longleftrightarrow> phdr q = phdr p \<and> body q = body p \<and> paint_anno q = paint_anno p \<and> XIA_NEXT_PATH_ANNO q = k"

lemma dst_next_edge: "dst_next p = Some x \<Longrightarrow> \<exists>e. current_edge p = Inr e"
  by (auto simp: dst_next_def split: sum.splits)

lemma edge_routeE:
  assumes "edge_route r p k = Some (t, d)" "on_path p k q" "k < CLICK_XIA_XID_EDGE_NUM"
  obtains x where "dst_next q = Some x" "principal_of x = Some t" "x \<noteq> bcast_xid (tables r t)"
    "principal_type_enabled (tables r t) \<noteq> 0" "d = route_for (tables r t) x"
proof -
  have "phdr (SET_XIA_NEXT_PATH_ANNO k p) = phdr q"
    using assms(2) by (simp add: on_path_def SET_XIA_NEXT_PATH_ANNO_def)
  moreover have "XIA_NEXT_PATH_ANNO (SET_XIA_NEXT_PATH_ANNO k p) = XIA_NEXT_PATH_ANNO q"
    using assms(2,3) by (simp add: on_path_def next_path_set CLICK_XIA_XID_EDGE_NUM_def)
  then have "next_path_anno (SET_XIA_NEXT_PATH_ANNO k p) = next_path_anno q"
    by (simp add: XIA_NEXT_PATH_ANNO_def unsigned_word_eqI)
  ultimately have "dst_next (SET_XIA_NEXT_PATH_ANNO k p) = dst_next q" by (rule routable_same(3))
  with assms(1) that show thesis
    by (auto simp: edge_route_def Option.bind_eq_Some_conv split: if_splits)
qed

lemma router_same [simp]: "r\<lparr>tables := (tables r)(t := tables r t)\<rparr> = r"
  by simp

lemma route_once_unicast:
  assumes "ready p" "edge_route r p k = Some (t, d)" "on_path p k q" "k < CLICK_XIA_XID_EDGE_NUM"
    and "0 \<le> XIA_PAINT_ANNO p"
  shows "route_once junk q r = Some (after_tables t
    (redirect_notice (XIA_PAINT_ANNO p) (rport d) (annotate_nexthop d q)
      @ forward_port (num_ports (tables r t)) (rport d) (annotate_nexthop d q)) r)"
proof -
  obtain x where x: "dst_next q = Some x" "principal_of x = Some t" "x \<noteq> bcast_xid (tables r t)"
    "principal_type_enabled (tables r t) \<noteq> 0" "d = route_for (tables r t) x"
    by (rule edge_routeE [OF assms(2-4)])
  have q: "ready q" "XIA_NEXT_PATH_ANNO q < CLICK_XIA_XID_EDGE_NUM" "XIA_PAINT_ANNO q = XIA_PAINT_ANNO p"
    using assms(1,3,4) by (simp_all add: on_path_def ready_def XIA_PAINT_ANNO_def)
  obtain e where e: "current_edge q = Inr e" using dst_next_edge [OF x(1)] by blast
  have "route_table_push junk q (tables r t) = Some (Inr
      (redirect_notice (XIA_PAINT_ANNO p) (rport d) (annotate_nexthop d q)
        @ forward_port (num_ports (tables r t)) (rport d) (annotate_nexthop d q), tables r t))"
    using push_unicast [OF dst_next_headed [OF q(1) x(1)] x(3,4)] assms(5) q(3) x(5)
    by (simp add: special_ports Let_def)
  with x(1,2) show ?thesis
    by (simp add: route_once_classified [OF q(1,2) e])
qed

lemma route_once_no_way:
  assumes "ready p" "edge_route r p k = Some (t, d)" "on_path p k q" "Suc k < CLICK_XIA_XID_EDGE_NUM"
    and "0 \<le> XIA_PAINT_ANNO p" "no_way (rport d)"
  shows "\<exists>q1. route_once junk q r = Some (Inr ([], Some q1, r)) \<and> on_path p (Suc k) q1"
proof -
  let ?q = "annotate_nexthop d q"
  let ?q1 = "SET_XIA_NEXT_PATH_ANNO (Suc k) ?q"
  have k: "XIA_NEXT_PATH_ANNO ?q = k" using assms(3) by (simp add: on_path_def XIA_NEXT_PATH_ANNO_def)
  have "redirect_notice (XIA_PAINT_ANNO p) (rport d) ?q = []" "forward_port n (rport d) ?q = [(2, ?q)]" for n
    using assms(5,6) by (auto simp: redirect_notice_def forward_port_def no_way_def)
  with assms have "route_once junk q r = Some (Inr ([], Some ?q1, r))"
    by (simp add: route_once_unicast after_table_def XIASelectPath_push_def k Let_def)
  moreover have "on_path p (Suc k) ?q1"
    using assms(3,4) next_path_set [of "Suc k" ?q]
    by (simp add: on_path_def SET_XIA_NEXT_PATH_ANNO_def CLICK_XIA_XID_EDGE_NUM_def)
  ultimately show ?thesis by blast
qed

text \<open>
  The copy for \<^verbatim>\<open>XCMP\<close> of a packet that leaves where it came in: it is painted with the number of the interface and of the
  special cases, negated, which has to fit into the sixteen bits of the annotation.
\<close>

definition notice :: "packet \<Rightarrow> XIARouteData \<Rightarrow> packet \<Rightarrow> bool" where
  "notice p d m \<longleftrightarrow> phdr m = phdr p \<and> body m = body p
     \<and> (rport d + TOTAL_SPECIAL_CASES \<le> 2 ^ 15 \<longrightarrow> XIA_PAINT_ANNO m = - (rport d + TOTAL_SPECIAL_CASES))
     \<and> (\<forall>h. rnexthop d = Some h \<longrightarrow> nexthop_neighbor_xid_anno m = h)"

lemma notice_made:
  assumes "on_path p k q" "0 \<le> rport d" "XIA_PAINT_ANNO p = rport d"
  shows "notice p d (SET_XIA_PAINT_ANNO (- (XIA_PAINT_ANNO (annotate_nexthop d q) + TOTAL_SPECIAL_CASES)) (annotate_nexthop d q))"
proof -
  have "XIA_PAINT_ANNO (annotate_nexthop d q) = rport d" using assms(1,3) by (simp add: on_path_def XIA_PAINT_ANNO_def)
  moreover have "\<forall>h. rnexthop d = Some h \<longrightarrow> nexthop_neighbor_xid_anno (annotate_nexthop d q) = h"
    using assms(2) by (simp add: annotate_nexthop_def anno_defs special_ports)
  ultimately show ?thesis
    using assms(1,2) paint_paint [of "- (rport d + TOTAL_SPECIAL_CASES)" "annotate_nexthop d q"]
    by (simp add: notice_def on_path_def SET_XIA_PAINT_ANNO_def nexthop_neighbor_xid_anno_def TOTAL_SPECIAL_CASES_def)
qed

lemma after_tables_forward:
  assumes "post_route p r = (Forward p1, r)"
  shows "after_tables t [(0, p)] r = Inr ([Forward p1], None, r)"
    "after_tables t [(4, m), (0, p)] r = Inr ([To_XCMP m, Forward p1], None, r)"
  using assms by (simp_all add: after_table_def)

lemma route_once_interface:
  assumes "ready p" "edge_route r p k = Some (t, d)" "on_path p k q" "k < CLICK_XIA_XID_EDGE_NUM"
    and "0 \<le> XIA_PAINT_ANNO p" "0 \<le> rport d" "rport d < 2 ^ 15" "active (gprp r)" "1 < hlim (phdr p)"
  shows "\<exists>ls q1. route_once junk q r = Some (Inr (ls @ [Forward q1], None, r))
    \<and> XIA_PAINT_ANNO q1 = rport d \<and> (\<forall>h. rnexthop d = Some h \<longrightarrow> nexthop_neighbor_xid_anno q1 = h)
    \<and> (if rport d = XIA_PAINT_ANNO p then \<exists>m. ls = [To_XCMP m] \<and> notice p d m else ls = [])"
proof -
  let ?q = "SET_XIA_PAINT_ANNO (rport d) (annotate_nexthop d q)"
  let ?q1 = "?q\<lparr>phdr := (phdr ?q)\<lparr>hlim := hlim (phdr ?q) - 1\<rparr>\<rparr>"
  have h: "phdr ?q = phdr p"
    using assms(3) by (simp add: on_path_def SET_XIA_PAINT_ANNO_def)
  have post: "post_route ?q r = (Forward ?q1, r)"
    using assms(8,9) h by (simp add: post_route_def XIADecHLIM_simple_action_def not_le)
  have "forward_port n (rport d) (annotate_nexthop d q) = [(0, ?q)]" for n
    using assms(6) by (simp add: forward_port_def)
  with assms(1-5) have "route_once junk q r =
      Some (after_tables t (redirect_notice (XIA_PAINT_ANNO p) (rport d) (annotate_nexthop d q) @ [(0, ?q)]) r)"
    by (simp add: route_once_unicast)
  moreover have "redirect_notice (XIA_PAINT_ANNO p) (rport d) (annotate_nexthop d q) =
      (if rport d = XIA_PAINT_ANNO p
       then [(4, SET_XIA_PAINT_ANNO (- (XIA_PAINT_ANNO (annotate_nexthop d q) + TOTAL_SPECIAL_CASES)) (annotate_nexthop d q))]
       else [])"
    using assms(5) by (simp add: redirect_notice_def special_ports)
  ultimately have "route_once junk q r = Some (Inr ((if rport d = XIA_PAINT_ANNO p
       then [To_XCMP (SET_XIA_PAINT_ANNO (- (XIA_PAINT_ANNO (annotate_nexthop d q) + TOTAL_SPECIAL_CASES)) (annotate_nexthop d q))]
       else []) @ [Forward ?q1], None, r))"
    using after_tables_forward [OF post] by (cases "rport d = XIA_PAINT_ANNO p") (simp_all del: after_tables.simps)
  then have "\<exists>ls. route_once junk q r = Some (Inr (ls @ [Forward ?q1], None, r))
      \<and> (if rport d = XIA_PAINT_ANNO p then \<exists>m. ls = [To_XCMP m] \<and> notice p d m else ls = [])"
    using notice_made [OF assms(3,6)] by (intro exI conjI) (assumption, simp)
  moreover have "XIA_PAINT_ANNO ?q1 = rport d"
    using paint_paint [of "rport d" "annotate_nexthop d q"] assms(6,7) by (simp add: XIA_PAINT_ANNO_def)
  moreover have "\<forall>h. rnexthop d = Some h \<longrightarrow> nexthop_neighbor_xid_anno ?q1 = h"
    using assms(6) by (simp add: annotate_nexthop_def anno_defs special_ports)
  ultimately show ?thesis by blast
qed

lemma fallback_run:
  assumes "ready p" "k < CLICK_XIA_XID_EDGE_NUM"
    and "\<forall>j < k. \<exists>t d. edge_route r p j = Some (t, d) \<and> no_way (rport d)"
    and "edge_route r p k = Some (t, d)"
    and "0 \<le> XIA_PAINT_ANNO p" "0 \<le> rport d" "rport d < 2 ^ 15" "active (gprp r)" "1 < hlim (phdr p)"
    and "i \<le> k" "on_path p i q" "k - i < n"
  shows "\<exists>ls q1. route_rounds n junk q r = Some (Inr (ls @ [Forward q1], r))
    \<and> XIA_PAINT_ANNO q1 = rport d \<and> (\<forall>h. rnexthop d = Some h \<longrightarrow> nexthop_neighbor_xid_anno q1 = h)
    \<and> (if rport d = XIA_PAINT_ANNO p then \<exists>m. ls = [To_XCMP m] \<and> notice p d m else ls = [])"
  using assms(10-12)
proof (induction n arbitrary: i q)
  case (Suc n)
  show ?case
  proof (cases "i = k")
    case True
    with Suc.prems(2) have "on_path p k q" by simp
    from route_once_interface [OF assms(1,4) this assms(2,5-9), of junk]
    obtain ls q1 where "route_once junk q r = Some (Inr (ls @ [Forward q1], None, r))"
      "XIA_PAINT_ANNO q1 = rport d" "\<forall>h. rnexthop d = Some h \<longrightarrow> nexthop_neighbor_xid_anno q1 = h"
      "if rport d = XIA_PAINT_ANNO p then \<exists>m. ls = [To_XCMP m] \<and> notice p d m else ls = []" by blast
    then show ?thesis by (intro exI [of _ ls] exI [of _ q1]) simp
  next
    case False
    with Suc.prems(1) have i: "i < k" by simp
    with assms(3) obtain t' d' where "edge_route r p i = Some (t', d')" "no_way (rport d')" by blast
    with i assms(1,2,5) Suc.prems(2) obtain q1 where q1: "route_once junk q r = Some (Inr ([], Some q1, r))"
      "on_path p (Suc i) q1"
      using route_once_no_way [of p r i t' d' q junk] by auto
    from i Suc.prems(3) have "k - Suc i < n" by simp
    from Suc.IH [OF _ q1(2) this] i show ?thesis by (auto simp: q1(1))
  qed
qed simp

lemma fallback_order:
  assumes "ready p" "k < CLICK_XIA_XID_EDGE_NUM"
    and "\<forall>j < k. \<exists>t d. edge_route r p j = Some (t, d) \<and> no_way (rport d)"
    and "edge_route r p k = Some (t, d)"
    and "0 \<le> XIA_PAINT_ANNO p" "0 \<le> rport d" "rport d < 2 ^ 15" "active (gprp r)" "1 < hlim (phdr p)" "k < n"
  shows "\<exists>ls q. XIAPacketRoute n junk p r = Some (Inr (ls @ [Forward q], r))
    \<and> XIA_PAINT_ANNO q = rport d \<and> (\<forall>h. rnexthop d = Some h \<longrightarrow> nexthop_neighbor_xid_anno q = h)
    \<and> (if rport d = XIA_PAINT_ANNO p then \<exists>m. ls = [To_XCMP m] \<and> notice p d m else ls = [])"
proof -
  have "on_path p 0 (snd (XIASelectPath_push True p))"
    using next_path_set [of 0 p] by (simp add: on_path_def XIASelectPath_push_def SET_XIA_NEXT_PATH_ANNO_def)
  with assms(10) show ?thesis
    unfolding XIAPacketRoute_def by (intro fallback_run [OF assms(1-9), of 0]) simp_all
qed

text \<open>
  C9. Fallback in priority order: when the edges of the current node before edge \<open>k\<close> all lead to XIDs of types that
  have a table, with routes that say discard, fall back or another value without a meaning, and edge \<open>k\<close> leads to an XID with
  a route to an interface, then \<open>k + 1\<close> rounds suffice, and a packet from an interface whose hop limit is above one is forwarded
  once, painted with the port of that route and with its next hop. When the packet came in on that port, and only then, a
  copy that says so goes to \<^verbatim>\<open>XCMP\<close>. The tables stay the same. An earlier edge to an XID of a type without a table would end the
  search instead.
\<close>

theorem XIAPacketRoute_first_usable_edge:
  assumes "ready p" "k < CLICK_XIA_XID_EDGE_NUM"
    and "\<forall>j < k. \<exists>t d. edge_route r p j = Some (t, d) \<and> no_way (rport d)"
    and "edge_route r p k = Some (t, d)"
    and "0 \<le> XIA_PAINT_ANNO p" "0 \<le> rport d" "rport d < 2 ^ 15" "active (gprp r)" "1 < hlim (phdr p)" "k < n"
  shows "\<exists>ls q. XIAPacketRoute n junk p r = Some (Inr (ls @ [Forward q], r))
    \<and> XIA_PAINT_ANNO q = rport d \<and> (\<forall>h. rnexthop d = Some h \<longrightarrow> nexthop_neighbor_xid_anno q = h)
    \<and> (if rport d = XIA_PAINT_ANNO p then \<exists>m. ls = [To_XCMP m] \<and> notice p d m else ls = [])"
  using assms by (rule fallback_order)

lemma edge_route_service:
  "edge_route sample_router (service_packet (htonl CLICK_XIA_XID_TYPE_SID)) 0 =
     Some (SID, \<lparr>rport = FALLBACK, rflags = 0, rnexthop = None\<rparr>)"
  "edge_route sample_router (service_packet ty) 1 =
     Some (HID, \<lparr>rport = 2, rflags = 0, rnexthop = Some (sample_host 8)\<rparr>)"
  by (simp_all add: edge_route_def dst_next_def current_edge_def current_node_def current_index_def int_at_def
      service_packet_def sample_edges_def anno_defs principal_of_def sample_router_def empty_table_def
      CLICK_XIA_XID_EDGE_UNUSED_def route_for_def routes_of_def store_route_def sample_host_def htonl_types)

lemma service_paint: "XIA_PAINT_ANNO (service_packet ty) = 3"
  by (simp add: XIA_PAINT_ANNO_def service_packet_def)

lemma service_run:
  "\<exists>q. XIAPacketRoute 2 (\<lambda>_. undefined) (service_packet (htonl CLICK_XIA_XID_TYPE_SID)) sample_router
     = Some (Inr ([Forward q], sample_router))"
proof -
  let ?p = "service_packet (htonl CLICK_XIA_XID_TYPE_SID)"
  have path: "on_path ?p 0 (snd (XIASelectPath_push True ?p))"
    using next_path_set [of 0 ?p] by (simp add: on_path_def XIASelectPath_push_def SET_XIA_NEXT_PATH_ANNO_def)
  have first: "\<forall>j < 1. \<exists>t d. edge_route sample_router ?p j = Some (t, d) \<and> no_way (rport d)"
    by (simp add: edge_route_service no_way_def special_ports)
  have run: "active (gprp sample_router)" "1 < hlim (phdr ?p)"
    by (simp_all add: sample_router_def service_packet_def)
  have "\<exists>ls q. route_rounds 2 (\<lambda>_. undefined) (snd (XIASelectPath_push True ?p)) sample_router
      = Some (Inr (ls @ [Forward q], sample_router))
    \<and> XIA_PAINT_ANNO q = rport \<lparr>rport = 2, rflags = 0, rnexthop = Some (sample_host 8)\<rparr>
    \<and> (\<forall>h. rnexthop \<lparr>rport = 2, rflags = 0, rnexthop = Some (sample_host 8)\<rparr> = Some h \<longrightarrow>
        nexthop_neighbor_xid_anno q = h)
    \<and> (if rport \<lparr>rport = 2, rflags = 0, rnexthop = Some (sample_host 8)\<rparr> = XIA_PAINT_ANNO ?p
        then \<exists>m. ls = [To_XCMP m] \<and> notice ?p \<lparr>rport = 2, rflags = 0, rnexthop = Some (sample_host 8)\<rparr> m else ls = [])"
    by (rule fallback_run [OF ready_service _ first edge_route_service(2) _ _ _ run _ path])
      (simp_all add: CLICK_XIA_XID_EDGE_NUM_def service_paint)
  then show ?thesis
    unfolding XIAPacketRoute_def by (auto simp: service_paint)
qed

theorem XIAPacketRoute_first_usable_edge_witness:
  "\<exists>ls q. XIAPacketRoute 2 (\<lambda>_. undefined) (service_packet (htonl CLICK_XIA_XID_TYPE_SID)) sample_router
      = Some (Inr (ls @ [Forward q], sample_router))
    \<and> XIA_PAINT_ANNO q = 2 \<and> nexthop_neighbor_xid_anno q = sample_host 8 \<and> ls = []"
proof -
  let ?p = "service_packet (htonl CLICK_XIA_XID_TYPE_SID)"
  have "\<forall>j < 1. \<exists>t d. edge_route sample_router ?p j = Some (t, d) \<and> no_way (rport d)"
    by (simp add: edge_route_service no_way_def special_ports)
  moreover have "active (gprp sample_router)" "1 < hlim (phdr ?p)"
    by (simp_all add: sample_router_def service_packet_def)
  ultimately show ?thesis
    using XIAPacketRoute_first_usable_edge [OF ready_service _ _ edge_route_service(2), of
      "htonl CLICK_XIA_XID_TYPE_SID" 2 "\<lambda>_. undefined"]
    by (simp add: service_paint CLICK_XIA_XID_EDGE_NUM_def)
qed

section \<open>Hop limit\<close>

text \<open>
  C12. A packet is forwarded only while its hop limit is above one. Each copy that leaves has a hop limit smaller by
  one and the same payload; its header differs only in the hop limit, in the field of the last visited node and in the
  visited marks of edges, so that both addresses, read back as paths, are the same, whatever way through the tables it took.
\<close>

theorem forwarded_hop_limit:
  assumes "XIAPacketRoute n junk p r = Some (Inr (ls, r1))" "active (gprp r)" "Forward q \<in> set ls"
  shows "1 < hlim (phdr p) \<and> body q = body p
    \<and> (\<exists>l ns. phdr q = (phdr p)\<lparr>hlim := hlim (phdr p) - 1, hlast := l, hnode := ns\<rparr>
        \<and> map (\<lambda>m. (nxid m, map idx (nedge m))) ns = map (\<lambda>m. (nxid m, map idx (nedge m))) (hnode (phdr p)))
    \<and> dst_path (phdr q) = dst_path (phdr p) \<and> src_path (phdr q) = src_path (phdr p)"
proof -
  let ?p = "snd (XIASelectPath_push True p)"
  have p: "moved p ?p" by (rule moved_refl) (simp_all add: XIASelectPath_push_def SET_XIA_NEXT_PATH_ANNO_def)
  have f: "forwarded ?p q" using route_rounds_carried [OF assms(1) [unfolded XIAPacketRoute_def] assms(2,3)] .
  then have "sent p q" "1 < hlim (phdr p)" "hlim (phdr q) = hlim (phdr p) - 1"
    using sent_trans [OF p] moved_fields(3) [OF p] by (simp_all add: forwarded_def)
  then show ?thesis using sent_header [of p q] by simp
qed

theorem forwarded_hop_limit_witness:
  "\<exists>q r1. XIAPacketRoute 2 (\<lambda>_. undefined) (service_packet (htonl CLICK_XIA_XID_TYPE_SID)) sample_router
      = Some (Inr ([Forward q], r1)) \<and> hlim (phdr q) = 249"
proof -
  let ?p = "service_packet (htonl CLICK_XIA_XID_TYPE_SID)"
  obtain q where q: "XIAPacketRoute 2 (\<lambda>_. undefined) ?p sample_router = Some (Inr ([Forward q], sample_router))"
    using service_run by blast
  have "active (gprp sample_router)" "Forward q \<in> set [Forward q]" by (simp_all add: sample_router_def)
  from forwarded_hop_limit [OF q this] have "hlim (phdr q) = hlim (phdr ?p) - 1" by auto
  with q show ?thesis by (auto simp: service_packet_def)
qed

section \<open>Types without a table\<close>

text \<open>
  An edge to an XID of a type that has no table ends the search: the packet leaves as unroutable in the
  first round, whatever routes the other edges of the node have.
\<close>

theorem unknown_type_gives_up:
  assumes "ready p" "dst_next (SET_XIA_NEXT_PATH_ANNO 0 p) = Some x" "principal_of x = None"
  shows "XIAPacketRoute (Suc n) junk p r = Some (Inr ([Unroutable (SET_XIA_NEXT_PATH_ANNO 0 p)], r))"
proof -
  let ?q = "SET_XIA_NEXT_PATH_ANNO 0 p"
  obtain e where e: "current_edge ?q = Inr e" using dst_next_edge [OF assms(2)] by blast
  have q: "ready ?q" "XIA_NEXT_PATH_ANNO ?q < CLICK_XIA_XID_EDGE_NUM"
    using assms(1) next_path_set [of 0 p]
    by (simp_all add: ready_def SET_XIA_NEXT_PATH_ANNO_def CLICK_XIA_XID_EDGE_NUM_def)
  show ?thesis
    using assms(2,3) by (simp add: XIAPacketRoute_def XIASelectPath_push_def route_once_classified [OF q e])
qed

theorem unknown_type_gives_up_witness:
  "XIAPacketRoute 3 (\<lambda>_. undefined) (service_packet (htonl 0x20)) sample_router
     = Some (Inr ([Unroutable (SET_XIA_NEXT_PATH_ANNO 0 (service_packet (htonl 0x20)))], sample_router))
   \<and> edge_route sample_router (service_packet (htonl 0x20)) 1
     = Some (HID, \<lparr>rport = 2, rflags = 0, rnexthop = Some (sample_host 8)\<rparr>)"
proof
  let ?p = "service_packet (htonl 0x20)"
  have "htonl 0x20 = 0x20000000" by code_simp
  then have "dst_next (SET_XIA_NEXT_PATH_ANNO 0 ?p) = Some \<lparr>xid_type = htonl 0x20, xid_id = replicate 20 5\<rparr>"
    "principal_of \<lparr>xid_type = htonl 0x20, xid_id = replicate 20 5\<rparr> = None"
    by (simp_all add: dst_next_def current_edge_def current_node_def current_index_def int_at_def
        service_packet_def sample_edges_def anno_defs CLICK_XIA_XID_EDGE_UNUSED_def principal_of_def htonl_types)
  from unknown_type_gives_up [OF ready_service this, of 2]
  show "XIAPacketRoute 3 (\<lambda>_. undefined) ?p sample_router
      = Some (Inr ([Unroutable (SET_XIA_NEXT_PATH_ANNO 0 ?p)], sample_router))"
    by (simp add: numeral_3_eq_3)
  show "edge_route sample_router ?p 1 = Some (HID, \<lparr>rport = 2, rflags = 0, rnexthop = Some (sample_host 8)\<rparr>)"
    by (rule edge_route_service)
qed

section \<open>A node that leads to itself\<close>

text \<open>A packet at node \<open>j\<close> of its destination path, whose first edge leads back to \<open>j\<close>.\<close>

definition self_loop :: "nat \<Rightarrow> packet \<Rightarrow> bool" where
  "self_loop j p \<longleftrightarrow> ready p \<and> sint (hlast (phdr p)) = int j \<and> j < unat (dnode (phdr p)) - 1
     \<and> idx (nedge (hnode (phdr p) ! j) ! 0) \<noteq> CLICK_XIA_XID_EDGE_UNUSED
     \<and> unat (idx (nedge (hnode (phdr p) ! j) ! 0)) = j"

lemma self_loop_again:
  assumes l: "self_loop j p" "XIA_NEXT_PATH_ANNO p = 0" and x: "x = nxid (hnode (phdr p) ! j)"
    and t: "principal_of x = Some t" "t \<noteq> SID" "x \<noteq> bcast_xid (tables r t)"
      "principal_type_enabled (tables r t) \<noteq> 0" "rport (route_for (tables r t) x) = DESTINED_FOR_LOCALHOST"
    and i: "XIA_PAINT_ANNO p \<noteq> REDIRECT"
  shows "\<exists>q. route_once junk p r = Some (Inr ([], Some q, r)) \<and> self_loop j q \<and> XIA_NEXT_PATH_ANNO q = 0
    \<and> nxid (hnode (phdr q) ! j) = x \<and> XIA_PAINT_ANNO q = XIA_PAINT_ANNO p"
proof -
  let ?h = "phdr p" and ?m = "hnode (phdr p) ! j"
  have rdy: "ready p" and last: "sint (hlast ?h) = int j" and j: "j < unat (dnode ?h) - 1"
    and loop: "unat (idx (nedge ?m ! 0)) = j"
    using l(1) by (simp_all add: self_loop_def)
  have len: "j < length (hnode ?h)" using j rdy by (simp add: ready_def wf_hdr_length)
  have wfm: "wf_node ?m" using rdy len by (auto simp: ready_def wf_hdr_def)
  then have el: "0 < length (nedge ?m)" by (simp add: wf_node_def CLICK_XIA_XID_EDGE_NUM_def)
  have node: "current_index ?h = int j" "current_node ?h = Inr ?m"
    using last len by (simp_all add: current_index_def current_node_def)
  then have e: "current_edge p = Inr (nedge ?m ! 0)" using l(2) el by (simp add: current_edge_def)
  have un: "idx (nedge ?m ! 0) \<noteq> CLICK_XIA_XID_EDGE_UNUSED" using l(1) by (simp add: self_loop_def)
  have next_x: "dst_next p = Some x"
    using e un loop j x by (simp add: dst_next_def)
  let ?d = "route_for (tables r t) x"
  let ?m' = "?m\<lparr>nedge := (nedge ?m)[0 := (nedge ?m ! 0)\<lparr>visited := True\<rparr>]\<rparr>"
  let ?q = "p\<lparr>phdr := ?h\<lparr>hlast := ucast (idx (nedge ?m ! 0)), hnode := (hnode ?h)[j := ?m']\<rparr>\<rparr>"
  have hop: "XIANextHop_push p = Inr ?q"
    using node l(2) el by (simp add: XIANextHop_push_def Let_def)
  have lastq: "sint (hlast (phdr ?q)) = int j" by (simp add: sint_ucast_7 loop del: of_nat_unat)
  have check: "XIACheckDest_push ?q = 1"
    using j unfolding XIACheckDest_push_def lastq by (simp del: of_nat_unat)
  have "annotate_nexthop ?d p = p" using t(5) by (simp add: annotate_nexthop_def)
  then have push: "route_table_push junk p (tables r t) = Some (Inr ([(1, p)], tables r t))"
    using push_unicast [OF dst_next_headed [OF rdy next_x] t(3,4) i] t(5)
    by (simp add: Let_def redirect_notice_def forward_port_def special_ports)
  have "route_once junk p r = Some (Inr ([], Some (SET_XIA_NEXT_PATH_ANNO 0 ?q), r))"
    using push t(1,2) next_x hop check l(2)
    by (simp add: route_once_classified [OF rdy _ e] CLICK_XIA_XID_EDGE_NUM_def after_table_def XIASelectPath_push_def)
  moreover have "wf_node ?m'" using wfm by (simp add: wf_node_def)
  then have "wf_hdr (phdr ?q)"
    using rdy len by (auto simp: ready_def wf_hdr_def dest: set_update_subset_insert [THEN subsetD])
  then have "self_loop j (SET_XIA_NEXT_PATH_ANNO 0 ?q)"
    using lastq rdy len j un loop el by (simp add: self_loop_def ready_def SET_XIA_NEXT_PATH_ANNO_def)
  moreover have "nxid (hnode (phdr (SET_XIA_NEXT_PATH_ANNO 0 ?q)) ! j) = x"
    using len x by (simp add: SET_XIA_NEXT_PATH_ANNO_def)
  ultimately show ?thesis
    using next_path_set [of 0 ?q]
    by (intro exI [of _ "SET_XIA_NEXT_PATH_ANNO 0 ?q"]) (simp add: XIA_PAINT_ANNO_def SET_XIA_NEXT_PATH_ANNO_def)
qed

lemma self_loop_rounds:
  assumes "principal_of x = Some t" "t \<noteq> SID" "x \<noteq> bcast_xid (tables r t)"
    "principal_type_enabled (tables r t) \<noteq> 0" "rport (route_for (tables r t) x) = DESTINED_FOR_LOCALHOST"
  shows "self_loop j p \<Longrightarrow> XIA_NEXT_PATH_ANNO p = 0 \<Longrightarrow> x = nxid (hnode (phdr p) ! j) \<Longrightarrow>
    XIA_PAINT_ANNO p \<noteq> REDIRECT \<Longrightarrow> route_rounds n junk p r = None"
proof (induction n arbitrary: p)
  case (Suc n)
  obtain q where "route_once junk p r = Some (Inr ([], Some q, r))" "self_loop j q" "XIA_NEXT_PATH_ANNO q = 0"
    "nxid (hnode (phdr q) ! j) = x" "XIA_PAINT_ANNO q = XIA_PAINT_ANNO p"
    using self_loop_again [OF Suc.prems(1-3) assms Suc.prems(4)] by blast
  with Suc show ?case by simp
qed simp

text \<open>
  A packet can keep a router busy for ever: when the first edge of the node it is at leads back to that
  node, and the XID of the node has a route to the local host in a table other than that of services, no
  number of rounds suffices. The hop limit does not help, since it is not decremented on the way.
\<close>

theorem self_loop_never_ends:
  assumes "self_loop j p" "x = nxid (hnode (phdr p) ! j)" "principal_of x = Some t" "t \<noteq> SID"
    and "x \<noteq> bcast_xid (tables r t)" "principal_type_enabled (tables r t) \<noteq> 0"
    and "rport (route_for (tables r t) x) = DESTINED_FOR_LOCALHOST" "XIA_PAINT_ANNO p \<noteq> REDIRECT"
  shows "XIAPacketRoute n junk p r = None"
proof -
  let ?q = "SET_XIA_NEXT_PATH_ANNO 0 p"
  have "self_loop j ?q" "x = nxid (hnode (phdr ?q) ! j)" "XIA_PAINT_ANNO ?q \<noteq> REDIRECT"
    using assms(1,2,8) by (simp_all add: self_loop_def ready_def SET_XIA_NEXT_PATH_ANNO_def XIA_PAINT_ANNO_def)
  then show ?thesis
    using self_loop_rounds [OF assms(3-7)] next_path_set [of 0 p]
    by (simp add: XIAPacketRoute_def XIASelectPath_push_def)
qed

definition looping_packet :: packet where
  "looping_packet =
     (let p = service_packet (htonl CLICK_XIA_XID_TYPE_SID); h = phdr p
      in p\<lparr>phdr := h\<lparr>hlast := 0, hnode := (hnode h)[0 := (hnode h ! 0)\<lparr>nedge := sample_edges [0, 127, 127, 127]\<rparr>]\<rparr>\<rparr>)"

definition local_router :: router where
  "local_router =
     \<lparr>tables = (\<lambda>t. store_route (sample_host 7) \<lparr>rport = DESTINED_FOR_LOCALHOST, rflags = 0, rnexthop = None\<rparr>
        empty_table), gprp = \<lparr>active = True, hlim_drops = 0\<rparr>\<rparr>"

theorem self_loop_never_ends_witness:
  "XIAPacketRoute 1000 (\<lambda>_. undefined) looping_packet local_router = None"
proof (rule self_loop_never_ends)
  show "self_loop 0 looping_packet"
    using ready_service [of "htonl CLICK_XIA_XID_TYPE_SID"]
    by (simp add: self_loop_def looping_packet_def service_packet_def sample_edges_def ready_def wf_hdr_def
        wf_node_def CLICK_XIA_XID_EDGE_UNUSED_def CLICK_XIA_XID_EDGE_NUM_def Let_def)
  show "sample_host 7 = nxid (hnode (phdr looping_packet) ! 0)" "XIA_PAINT_ANNO looping_packet \<noteq> REDIRECT"
    by (simp_all add: looping_packet_def service_packet_def Let_def XIA_PAINT_ANNO_def special_ports)
  show "principal_of (sample_host 7) = Some HID" "HID \<noteq> SID"
    by (simp_all add: principal_of_def sample_host_def htonl_types)
  show "sample_host 7 \<noteq> bcast_xid (tables local_router HID)"
    "principal_type_enabled (tables local_router HID) \<noteq> 0"
    "rport (route_for (tables local_router HID) (sample_host 7)) = DESTINED_FOR_LOCALHOST"
    by (simp_all add: local_router_def empty_table_def route_for_store)
qed

end
