(* ===== verification/Xia_Built_Packets.thy ===== *)
theory Xia_Built_Packets
  imports Xia_Routing_Fallback
begin

text \<open>
  Packets whose header was built by \<^verbatim>\<open>XIAHeaderEncap\<close> from valid paths meet what the routing process needs
  to end: the node list of a valid path is in topological order.
\<close>

section \<open>The node list of a valid path\<close>

lemma node_list_order:
  assumes v: "is_valid p = Inr (True, p')" and n: "length (nodes p) \<le> 128"
    and buf: "length buf = unparse_node_size p"
    and u: "unparse_node buf (unparse_node_size p) p = Inr (m, ms, q)"
    and j: "j < length ms - 1" and e: "e \<in> set (nedge (ms ! j))" "idx e \<noteq> CLICK_XIA_XID_EDGE_UNUSED"
  shows "j < unat (idx e)"
proof -
  note ends = valid_ends [OF v] and t = is_valid_true [OF v]
  obtain k where k: "length (nodes p) = Suc (Suc k)"
    using ends(1-3) by (metis less_nat_zero_code less_one not_less_eq old.nat.exhaust)
  then have T: "length buf = Suc k" "Suc k \<le> 127" using buf n by (simp_all add: unparse_node_size_def)
  obtain enc ms' where run: "unparse_node buf (Suc k) p = Inr (Suc k, ms', p')"
    and w: "written (Suc k) enc (set (nodes p')) buf ms'"
    and enc: "\<forall>i < length (nodes p).
        length (enc (nodes p' ! i)) = CLICK_XIA_XID_EDGE_NUM \<and> packed (enc (nodes p' ! i))
        \<and> parse_edges (enc (nodes p' ! i)) = map (list_handle (nodes p')) (edges (nodes p ! i))"
    using valid_written [OF v k T(2,1)] by blast
  have ms: "ms' = ms" using run u k by (simp add: unparse_node_size_def)
  note w = w [unfolded ms]
  note o = valid_orders [OF v k]
  have l: "length (nodes p') = length (nodes p)" using o(1) by (simp add: same_graph_def)
  have jk: "j < k" using j writtenD(1) [OF w] by simp
  obtain i where i: "i < length (nodes p)" "order (nodes p' ! i) = Suc j"
    using path_sort.ord_surj [OF t(1,3), of "Suc j"] jk k by auto
  then have "node_slot (Suc k) (nodes p' ! i) = j" "nodes p' ! i \<in> set (nodes p')"
    using l by (simp_all add: node_slot_def)
  then have "nedge (ms ! j) = enc (nodes p' ! i)" using writtenD(3) [OF w] i(2) jk by fastforce
  with e have "unat (idx e) \<in> set (parse_edges (enc (nodes p' ! i)))" by (auto simp: parse_edges_def)
  with enc i(1) obtain a where a: "a \<in> set (edges (nodes p ! i))" "unat (idx e) = list_handle (nodes p') a"
    by auto
  then have ia: "(i, a) \<in> edge_rel (nodes p)" using i(1) by (simp add: edge_rel_def)
  have "Suc j < order (nodes p' ! a)" using path_sort.sort_edge [OF t(1,3) ia] i(2) by simp
  with a(2) show ?thesis by (simp add: list_handle_def)
qed

lemma node_list_wf:
  assumes v: "is_valid p = Inr (True, p')" and n: "length (nodes p) \<le> 128"
    and buf: "length buf = unparse_node_size p"
    and u: "unparse_node buf (unparse_node_size p) p = Inr (m, ms, q)"
    and x: "\<forall>i < length (nodes p). i \<noteq> src p \<longrightarrow> wf_xid (pxid (nodes p ! i))"
  shows "length ms = unparse_node_size p \<and> 0 < length ms \<and> q = p' \<and> (\<forall>m\<in>set ms. wf_node m)"
  using valid_node_list [OF v n buf] u x unfolding buf [symmetric] by (fastforce simp: wf_node_def)

section \<open>The header\<close>

lemma update_lists:
  assumes "update junk e = Inr e'"
  shows "\<exists>dms sms. unparse_node (map junk [0..<unparse_node_size (edst e)]) (unparse_node_size (edst e)) (edst e)
      = Inr (unparse_node_size (edst e), dms, edst e')
    \<and> unparse_node (map junk [unparse_node_size (edst e)..<unparse_node_size (edst e) + unparse_node_size (esrc e)])
        (unparse_node_size (esrc e)) (esrc e) = Inr (unparse_node_size (esrc e), sms, esrc e')
    \<and> ehdr e' = (ehdr e)\<lparr>dnode := of_nat (unparse_node_size (edst e)),
        snode := of_nat (unparse_node_size (esrc e)), hnode := dms @ sms\<rparr>"
  using assms by (auto simp: update_def Let_def split: if_splits)

definition wf_xids :: "XIAPath \<Rightarrow> bool" where
  "wf_xids p \<longleftrightarrow> (\<forall>i < length (nodes p). i \<noteq> src p \<longrightarrow> wf_xid (pxid (nodes p ! i)))"

lemma built_header_ready:
  assumes u: "update junk e = Inr e'"
    and d: "is_valid (edst e) = Inr (True, d')" "length (nodes (edst e)) \<le> 128" "wf_xids (edst e)"
    and s: "is_valid (esrc e) = Inr (True, s')" "length (nodes (esrc e)) \<le> 128" "wf_xids (esrc e)"
  shows "wf_hdr (ehdr e') \<and> 0 < unat (dnode (ehdr e')) \<and> 0 < unat (snode (ehdr e')) \<and> forward_edges (ehdr e')
    \<and> hlast (ehdr e') = hlast (ehdr e)"
proof -
  let ?dn = "unparse_node_size (edst e)" and ?sn = "unparse_node_size (esrc e)"
  obtain dms sms where 1: "unparse_node (map junk [0..<?dn]) ?dn (edst e) = Inr (?dn, dms, edst e')"
    "unparse_node (map junk [?dn..<?dn + ?sn]) ?sn (esrc e) = Inr (?sn, sms, esrc e')"
    "ehdr e' = (ehdr e)\<lparr>dnode := of_nat ?dn, snode := of_nat ?sn, hnode := dms @ sms\<rparr>"
    using update_lists [OF u] by blast
  have D: "length dms = ?dn" "dms \<noteq> []" "\<forall>m\<in>set dms. wf_node m"
    using node_list_wf [OF d(1,2) _ 1(1)] d(3) by (simp_all add: wf_xids_def)
  have S: "length sms = ?sn" "sms \<noteq> []" "\<forall>m\<in>set sms. wf_node m"
    using node_list_wf [OF s(1,2) _ 1(2)] s(3) by (simp_all add: wf_xids_def)
  have pos: "0 < ?dn" "0 < ?sn" using D S by (metis length_greater_0_conv)+
  have "?dn < 256" "?sn < 256" using d(2) s(2) by (simp_all add: unparse_node_size_def)
  then have n: "unat (of_nat ?dn :: u8) = ?dn" "unat (of_nat ?sn :: u8) = ?sn"
    by (simp_all add: unat_of_nat)
  have "forward_edges (ehdr e')"
    unfolding forward_edges_def
  proof (intro allI ballI impI)
    fix j a
    assume j: "j < unat (dnode (ehdr e')) - 1" "a \<in> set (nedge (hnode (ehdr e') ! j))"
      "idx a \<noteq> CLICK_XIA_XID_EDGE_UNUSED"
    then have "j < length dms - 1" using n D by (simp add: 1(3))
    moreover from this have "a \<in> set (nedge (dms ! j))" using j(2) by (auto simp: 1(3) nth_append split: if_splits)
    ultimately show "j < unat (idx a)" using node_list_order [OF d(1,2) _ 1(1)] j(3) by simp
  qed
  with n D S pos show ?thesis by (auto simp: 1(3) wf_hdr_def)
qed

lemma wf_xids_same: "same_graph (nodes q) (nodes p) \<Longrightarrow> src q = src p \<Longrightarrow> wf_xids q = wf_xids p"
  by (auto simp: wf_xids_def same_graph_def)

text \<open>The header that two valid paths give: it holds them, and it meets what the routing process needs.\<close>

lemma built_header:
  assumes d: "is_valid d = Inr (True, d')" "length (nodes d) \<le> 128" "wf_xids d"
    and s: "is_valid s = Inr (True, s')" "length (nodes s) \<le> 128" "wf_xids s"
    and e: "path_fits (esrc e)"
  shows "\<exists>e1 e2 f g. set_dst_path junk d e = Inr e1 \<and> set_src_path junk' s e1 = Inr e2
    \<and> ehdr e2 = (ehdr e)\<lparr>dnode := dnode (ehdr e2), snode := snode (ehdr e2), hnode := hnode (ehdr e2)\<rparr>
    \<and> path_iso f d (dst_path (ehdr e2)) \<and> path_iso g s (src_path (ehdr e2))
    \<and> wf_hdr (ehdr e2) \<and> forward_edges (ehdr e2)
    \<and> unat (dnode (ehdr e2)) = length (nodes d) - 1 \<and> unat (snode (ehdr e2)) = length (nodes s) - 1
    \<and> 0 < unat (dnode (ehdr e2)) \<and> 0 < unat (snode (ehdr e2))"
proof -
  have ne: "nodes d \<noteq> []" "nodes s \<noteq> []" using valid_ends(1) [OF d(1)] valid_ends(1) [OF s(1)] by auto
  have fits: "path_fits d" "path_fits s" using d s by (auto simp: path_fits_def)
  obtain e1 e2 dn sn ns where r: "set_dst_path junk d e = Inr e1" "set_src_path junk' s e1 = Inr e2" "holds_paths d s e2"
      "ehdr e2 = (ehdr e)\<lparr>dnode := dn, snode := sn, hnode := ns\<rparr>"
    using set_paths_fit [OF fits e, of junk junk'] by blast
  have u: "update junk (e\<lparr>edst := d\<rparr>) = Inr e1" "update junk' (e1\<lparr>esrc := s\<rparr>) = Inr e2"
    using r(1,2) by (simp_all add: set_dst_path_def set_src_path_def)
  obtain dms where U: "unparse_node (map junk [0..<unparse_node_size d]) (unparse_node_size d) d
      = Inr (unparse_node_size d, dms, edst e1)"
    using update_lists [OF u(1)] by auto
  have d1: "edst e1 = d'"
    using node_list_wf [OF d(1,2) _ U] d(3) by (simp add: wf_xids_def)
  note again = is_valid_again [OF d(1)]
  have len: "length (nodes d') = length (nodes d)" using again(1) by (simp add: same_graph_def)
  have "wf_xids d'" using wf_xids_same [OF again(1)] again(2) d(3) by simp
  moreover obtain d2 where "is_valid d' = Inr (True, d2)" using again(4) by blast
  ultimately have h: "wf_hdr (ehdr e2)" "0 < unat (dnode (ehdr e2))" "0 < unat (snode (ehdr e2))" "forward_edges (ehdr e2)"
    using built_header_ready [OF u(2), of d2 s'] d(2) d1 len s by simp_all
  have "unat (dnode (ehdr e2)) = length (nodes d) - 1" "unat (snode (ehdr e2)) = length (nodes s) - 1"
    using update_lists [OF u(2)] d1 len d(2) s(2) by (auto simp: unparse_node_size_def unat_of_nat)
  with r h ne show ?thesis by (auto simp: holds_paths_def)
qed

text \<open>
  C1. Packets that a host builds are routed in bounded time: a new header gets a valid destination path and a
  valid source path of at most 128 nodes each, with XIDs of full length, and a packet with that header, whatever
  its payload and annotations, makes the routing process end, whatever routes the tables hold.
\<close>

theorem built_packet_route_ends:
  assumes d: "is_valid d = Inr (True, d')" "length (nodes d) \<le> 128" "wf_xids d"
    and s: "is_valid s = Inr (True, s')" "length (nodes s) \<le> 128" "wf_xids s"
    and r: "tables_ok r"
  shows "\<exists>e1 e2. set_dst_path junk d XIAHeaderEncap_new = Inr e1 \<and> set_src_path junk' s e1 = Inr e2
    \<and> (\<forall>p. phdr p = ehdr e2 \<longrightarrow>
        (\<exists>res. XIAPacketRoute (5 * (length (nodes d) - 1) + 5) junk'' p r = Some res))"
proof -
  have "path_fits (esrc XIAHeaderEncap_new)" using path_fits_empty by (simp add: XIAHeaderEncap_new_def)
  from built_header [OF d s this, of junk junk'] obtain e1 e2 where
    e: "set_dst_path junk d XIAHeaderEncap_new = Inr e1" "set_src_path junk' s e1 = Inr e2"
      "ehdr e2 = (ehdr XIAHeaderEncap_new)\<lparr>dnode := dnode (ehdr e2), snode := snode (ehdr e2), hnode := hnode (ehdr e2)\<rparr>"
    and h: "wf_hdr (ehdr e2)" "forward_edges (ehdr e2)" "unat (dnode (ehdr e2)) = length (nodes d) - 1"
      "0 < unat (dnode (ehdr e2))" "0 < unat (snode (ehdr e2))"
    by blast
  have "\<exists>res. XIAPacketRoute (5 * (length (nodes d) - 1) + 5) junk'' p r = Some res" if "phdr p = ehdr e2" for p
    using XIAPacketRoute_bound [of p r "5 * (length (nodes d) - 1) + 5" junk''] that h r
      forward_acyclic [OF h(2)]
    by (cases "nodes d") (fastforce simp: ready_def)+
  with e(1,2) show ?thesis by blast
qed

theorem built_packet_route_ends_witness:
  "\<exists>e1 e2. set_dst_path (\<lambda>_. undefined) diamond XIAHeaderEncap_new = Inr e1
    \<and> set_src_path (\<lambda>_. undefined) diamond e1 = Inr e2
    \<and> (\<exists>res. XIAPacketRoute 20 (\<lambda>_. undefined)
         \<lparr>phdr = ehdr e2, body = [1, 2, 3], next_path_anno = 9, paint_anno = 1, neighbor_anno = XID_default\<rparr>
         sample_router = Some res)"
proof -
  obtain d' where v: "is_valid diamond = Inr (True, d')" using diamond_valid by blast
  have n: "length (nodes diamond) = 4" by (simp add: diamond_def)
  have w: "wf_xids diamond" by (simp add: wf_xids_def diamond_def nth_Cons')
  have t: "tables_ok sample_router"
    by (simp add: tables_ok_def sample_router_def empty_table_def unique_keys_def store_route_def
        XIAPath_reset_def wf_graph_def)
  have le: "length (nodes diamond) \<le> 128" by (simp add: n)
  from built_packet_route_ends [OF v le w v le w t, of "\<lambda>_. undefined" "\<lambda>_. undefined" "\<lambda>_. undefined"]
  show ?thesis by (auto simp: n)
qed

end
