(* ===== verification/Xia_Xcmp_Messages.thy ===== *)
theory Xia_Xcmp_Messages
  imports Xia_Xcmp Xia_Built_Packets
begin

text \<open>
  The messages that \<^verbatim>\<open>XCMP\<close> sends: their bytes, their checksum, and their addresses; who answers whom; and the cases
  in which the element stops or releases a packet twice.
\<close>

section \<open>The checksum\<close>

definition fold16 :: "nat \<Rightarrow> nat" where
  "fold16 s = (let s1 = s div 65536 + s mod 65536 in (s1 + s1 div 65536) mod 65536)"

text \<open>Folding the carries is addition modulo 65535, with 65535 instead of zero for a positive sum.\<close>

lemma fold16_mod:
  assumes "s < 2 ^ 32"
  shows "fold16 s mod 65535 = s mod 65535" "fold16 s < 65536" "0 < s \<Longrightarrow> 0 < fold16 s"
proof -
  define a b where "a = s div 65536" and "b = s mod 65536"
  have s: "s = 65536 * a + b" by (simp add: a_def b_def)
  have bounds: "a < 65536" "b < 65536" using assms by (simp_all add: a_def b_def)
  have f: "fold16 s = (if a + b < 65536 then a + b else a + b - 65535)"
  proof (cases "a + b < 65536")
    case True
    then show ?thesis by (simp add: fold16_def Let_def flip: a_def b_def)
  next
    case False
    have "(a + b) div 65536 = 1" by (rule div_nat_eqI) (use False bounds in simp_all)
    moreover have "(a + b + 1) mod 65536 = a + b + 1 - 65536" using False bounds by (simp add: le_mod_geq)
    ultimately show ?thesis using False by (simp add: fold16_def Let_def flip: a_def b_def)
  qed
  have "s = 65535 * a + (a + b)" by (simp add: s)
  then have "s mod 65535 = (a + b) mod 65535" by (metis mod_mult_self4)
  moreover have "\<not> a + b < 65536 \<Longrightarrow> (a + b - 65535) mod 65535 = (a + b) mod 65535"
    by (simp add: le_mod_geq)
  ultimately show "fold16 s mod 65535 = s mod 65535" by (simp add: f)
  show "fold16 s < 65536" using bounds unfolding f by (simp, linarith)
  show "0 < s \<Longrightarrow> 0 < fold16 s" unfolding f using s by (auto split: if_splits)
qed

lemma unat_in_cksum: "unat (in_cksum bs) = 65535 - fold16 (sum16 bs)"
proof -
  have "unat (NOT w) = 65535 - unat w" for w :: u16
  proof -
    have "NOT w = - 1 - w" by (simp add: not_eq_complement)
    moreover have "unat (- 1 - w) = unat (- 1 :: u16) - unat w" by (rule unat_sub) (simp add: word_order.extremum)
    moreover have "unat (- 1 :: u16) = 65535" by (simp add: unsigned_minus_1_eq_mask mask_eq_exp_minus_1)
    ultimately show ?thesis by simp
  qed
  then show ?thesis by (simp add: in_cksum_def fold16_def Let_def unat_of_nat del: of_nat_add)
qed

lemma sum16_bound: "sum16 bs \<le> 65535 * length bs"
proof (induction bs rule: sum16.induct)
  case (2 a)
  show ?case using unat_less_widths(1) [of a] by simp
next
  case (3 a b bs)
  then show ?case using unat_less_widths(1) [of a] unat_less_widths(1) [of b] by simp
qed simp

text \<open>The sum stays in the range of the C type for every message the element sends.\<close>

lemma sum16_no_overflow: "length bs < 1500 \<Longrightarrow> sum16 bs < 2 ^ 31"
  using sum16_bound [of bs] by simp

text \<open>A message that holds its own checksum has checksum zero.\<close>

lemma sum16_checksum: "sum16 (a # b # le_bytes 2 c @ bs) = sum16 (a # b # 0 # 0 # bs) + unat (c :: u16)"
proof -
  obtain x y where xy: "le_bytes 2 c = [x, y]" by (simp add: numeral_2_eq_2)
  then have "c = ucast x OR push_bit 8 (ucast y)" using le16.dec_enc [of c] by simp
  also have "\<dots> = ucast x + push_bit 8 (ucast y)"
    by (rule disjunctive_add [symmetric]) (auto simp: bit_simps dest: bit_imp_le_length)
  also have "unat \<dots> = unat x + 256 * unat y"
    using unat_less_widths(1) [of x] unat_less_widths(1) [of y]
    by (simp add: push_bit_eq_mult unat_word_ariths unsigned_ucast_eq take_bit_nat_eq_self unat_of_nat)
  finally show ?thesis by (simp add: xy)
qed

lemma fold16_complement:
  assumes "s < 2 ^ 31"
  shows "fold16 (s + (65535 - fold16 s)) = 65535"
proof -
  note F = fold16_mod [of s]
  let ?t = "s + (65535 - fold16 s)"
  have "fold16 0 = 0" by (simp add: fold16_def)
  then have t: "?t < 2 ^ 32" "0 < ?t" using assms by (cases "s = 0"; simp)+
  have "?t mod 65535 = (s mod 65535 + (65535 - fold16 s)) mod 65535" by (simp add: mod_simps)
  also have "\<dots> = (fold16 s mod 65535 + (65535 - fold16 s)) mod 65535" using assms F(1) by simp
  also have "\<dots> = (fold16 s + (65535 - fold16 s)) mod 65535" by (simp add: mod_simps)
  also have "\<dots> = 0" using assms F(2) by simp
  finally have z: "fold16 ?t mod 65535 = 0" "0 < fold16 ?t" "fold16 ?t < 65536" using fold16_mod [OF t(1)] t(2) by simp_all
  then obtain k where "fold16 ?t = 65535 * k" by (auto simp: mod_eq_0_iff_dvd elim!: dvdE)
  with z(2,3) show ?thesis by (cases k; cases "k - 1") auto
qed

lemma in_cksum_zero:
  assumes "length bs < 1496" "c = in_cksum (a # b # 0 # 0 # bs)"
  shows "in_cksum (a # b # le_bytes 2 c @ bs) = 0"
proof -
  let ?s = "sum16 (a # b # 0 # 0 # bs)"
  have "?s < 2 ^ 31" using assms(1) by (intro sum16_no_overflow) simp
  from fold16_complement [OF this] have "unat (in_cksum (a # b # le_bytes 2 c @ bs)) = 0"
    by (simp only: unat_in_cksum sum16_checksum assms(2))
  then show ?thesis by (simp add: unat_eq_0)
qed

section \<open>The bytes of a message\<close>

lemma blit_at: "length xs = off \<Longrightarrow> length bs = n \<Longrightarrow> length ys = n \<Longrightarrow> blit off bs (xs @ ys @ zs) = Inr (xs @ bs @ zs)"
  by (simp add: blit_def)

definition xcmp_length :: "packet \<Rightarrow> u8 \<Rightarrow> nat" where
  "xcmp_length p type =
     (let n = 60 + hdr_size (phdr p); m = 4 + unat (XIAHeader_plen (phdr p)) in if type = 0 \<and> n < m then m else n)"

text \<open>
  What the buffer holds before the fields are written: for an echo reply the payload of the request, and otherwise
  nothing.
\<close>

definition xcmp_buffer :: "xcmp_memory \<Rightarrow> packet \<Rightarrow> nat \<Rightarrow> u8 \<Rightarrow> u8 list" where
  "xcmp_buffer mem p off type =
     (let n = xcmp_length p type; k = unat (XIAHeader_plen (phdr p))
      in if type = 0 then take k (drop off (body p)) @ map (msg_junk mem) [k..<n] else map (msg_junk mem) [0..<n])"

definition xcmp_rest :: "xcmp_memory \<Rightarrow> packet \<Rightarrow> nat \<Rightarrow> u8 \<Rightarrow> (click_xia_xid \<times> click_xia_xid) option \<Rightarrow> u8 list" where
  "xcmp_rest mem p off type addrs =
     (case addrs of None \<Rightarrow> take 48 (drop 4 (xcmp_buffer mem p off type)) | Some (x, y) \<Rightarrow> XID_data x @ XID_data y)
     @ hdr_bytes (phdr p) @ take 8 (drop off (body p)) @ drop (60 + hdr_size (phdr p)) (xcmp_buffer mem p off type)"

lemma hdr_size_bytes:
  assumes "wf_hdr h" "length (hnode h) < 256"
  shows "hdr_size h = length (hdr_bytes h)"
proof -
  have "length (hnode h) = unat (dnode h) + unat (snode h)" "\<forall>m\<in>set (hnode h). wf_node m" using assms(1) by (simp_all add: wf_hdr_def)
  with assms(2) length_nodes_bytes [of "hnode h"] show ?thesis
    by (simp add: hdr_bytes_def hdr_size_def XIAHeader_hdr_size_def)
qed

lemma xcmp_message_bytes:
  fixes type :: u8 and mem :: xcmp_memory
  assumes h: "wf_hdr (phdr p)" "length (hnode (phdr p)) < 256" and len: "xcmp_length p type < 1500"
    and off: "XIAHeader_payload (phdr p) (body p) = Inr off" "off + 8 \<le> length (body p)"
    and echo: "type = 0 \<Longrightarrow> off + unat (XIAHeader_plen (phdr p)) \<le> length (body p)"
    and addrs: "\<And>x y. addrs = Some (x, y) \<Longrightarrow> wf_xid x \<and> wf_xid y"
  defines "rest \<equiv> xcmp_rest mem p off type addrs"
  shows "xcmp_message mem p type code addrs = Inr (type # code # le_bytes 2 (in_cksum (type # code # 0 # 0 # rest)) @ rest)"
    and "length rest = xcmp_length p type - 4"
proof -
  let ?hs = "hdr_size (phdr p)" and ?k = "unat (XIAHeader_plen (phdr p))" and ?n = "xcmp_length p type"
  define buf where "buf = xcmp_buffer mem p off type"
  have hs: "length (hdr_bytes (phdr p)) = ?hs" using hdr_size_bytes [OF h] by simp
  have n: "60 + ?hs \<le> ?n" by (simp add: xcmp_length_def Let_def)
  have kn: "type = 0 \<Longrightarrow> ?k \<le> ?n" by (simp add: xcmp_length_def Let_def)
  have lb: "length buf = ?n" using kn echo by (auto simp: buf_def xcmp_buffer_def Let_def min_def)
  define b1 b2 b3 b4 b5 where "b1 = take 4 buf" and "b2 = take 48 (drop 4 buf)" and "b3 = take ?hs (drop 52 buf)"
    and "b4 = take 8 (drop (52 + ?hs) buf)" and "b5 = drop (60 + ?hs) buf"
  have "drop 4 buf = b2 @ drop 52 buf" using append_take_drop_id [of 48 "drop 4 buf"] by (simp add: b2_def)
  moreover have "drop 52 buf = b3 @ drop (52 + ?hs) buf"
    using append_take_drop_id [of ?hs "drop 52 buf"] by (simp add: b3_def add.commute)
  moreover have "drop (52 + ?hs) buf = b4 @ b5"
    using append_take_drop_id [of 8 "drop (52 + ?hs) buf"] by (simp add: b4_def b5_def)
  ultimately have buf: "buf = b1 @ b2 @ b3 @ b4 @ b5" using append_take_drop_id [of 4 buf] by (simp add: b1_def)
  have l: "length b1 = 4" "length b2 = 48" "length b3 = ?hs" "length b4 = 8"
    using n lb by (simp_all add: b1_def b2_def b3_def b4_def)
  have m1: "(if type = 0 then bind_run (read_bytes off ?k (body p)) (\<lambda>d. blit 0 d (map (msg_junk mem) [0..<?n]))
      else Inr (map (msg_junk mem) [0..<?n])) = Inr buf"
    using echo kn by (auto simp: buf_def xcmp_buffer_def Let_def read_bytes_def blit_def drop_map)
  define a where "a = (case addrs of None \<Rightarrow> b2 | Some (x, y) \<Rightarrow> XID_data x @ XID_data y)"
  have la: "length a = 48" using addrs l(2) by (auto simp: a_def split: option.splits)
  have m2: "(case addrs of None \<Rightarrow> Inr buf
      | Some (x, y) \<Rightarrow> bind_run (blit 4 (XID_data x) buf) (blit (4 + 24) (XID_data y))) = Inr (b1 @ a @ b3 @ b4 @ b5)"
  proof (cases addrs)
    case (Some xy)
    obtain x y where xy: "xy = (x, y)" by (cases xy)
    then have lx: "length (XID_data x) = 24" "length (XID_data y) = 24" using addrs Some by auto
    have "blit 4 (XID_data x) buf = Inr (b1 @ XID_data x @ drop 24 b2 @ b3 @ b4 @ b5)"
      using l(1,2) lx(1) by (simp add: blit_def buf)
    moreover have "blit (4 + 24) (XID_data y) (b1 @ XID_data x @ drop 24 b2 @ b3 @ b4 @ b5)
        = Inr (b1 @ XID_data x @ XID_data y @ b3 @ b4 @ b5)"
      using blit_at [of "b1 @ XID_data x" 28 "XID_data y" 24 "drop 24 b2" "b3 @ b4 @ b5"] l(1,2) lx by simp
    ultimately show ?thesis by (simp add: Some xy a_def)
  qed (simp add: a_def buf)
  let ?d = "take 8 (drop off (body p))"
  have m3: "blit (4 + 24 * 2) (take ?hs (hdr_bytes (phdr p))) (b1 @ a @ b3 @ b4 @ b5) = Inr (b1 @ a @ hdr_bytes (phdr p) @ b4 @ b5)"
    using blit_at [of "b1 @ a" 52 "hdr_bytes (phdr p)" ?hs b3 "b4 @ b5"] l la hs by simp
  have m4: "blit (4 + 24 * 2 + ?hs) ?d (b1 @ a @ hdr_bytes (phdr p) @ b4 @ b5) = Inr (b1 @ a @ hdr_bytes (phdr p) @ ?d @ b5)"
    using blit_at [of "b1 @ a @ hdr_bytes (phdr p)" "52 + ?hs" ?d 8 b4 b5] l la hs off(2) by simp
  have rest: "rest = a @ hdr_bytes (phdr p) @ ?d @ b5"
    unfolding rest_def xcmp_rest_def a_def b2_def b5_def buf_def ..
  have m5: "blit 0 [type, code, 0, 0] (b1 @ rest) = Inr (type # code # 0 # 0 # rest)"
    using blit_at [of "[]" 0 "[type, code, 0, 0]" 4 b1 rest] l(1) by simp
  have m6: "blit 2 (le_bytes 2 c) (type # code # 0 # 0 # rest) = Inr (type # code # le_bytes 2 c @ rest)" for c :: u16
    using blit_at [of "[type, code]" 2 "le_bytes 2 c" 2 "[0, 0]" rest] by simp
  have rd: "read_bytes off 8 (body p) = Inr ?d" using off(2) by (simp add: read_bytes_def)
  have xlen: "(if type = 0 \<and> 4 + 24 * 2 + ?hs + 8 < 4 + ?k then 4 + ?k else 4 + 24 * 2 + ?hs + 8) = ?n"
    by (simp add: xcmp_length_def Let_def)
  show "xcmp_message mem p type code addrs = Inr (type # code # le_bytes 2 (in_cksum (type # code # 0 # 0 # rest)) @ rest)"
    unfolding xcmp_message_def Let_def xlen off(1) bind_run_simps m1 m2 m3 rd m4
    using len m5 m6 by (simp add: rest)
  show "length rest = ?n - 4" using n lb la hs off(2) by (simp add: rest b5_def)
qed

section \<open>Addresses\<close>

text \<open>A path that fits a header, and the address of a host, which also prints.\<close>

definition good_path :: "XIAPath \<Rightarrow> bool" where
  "good_path p \<longleftrightarrow> (\<exists>p'. is_valid p = Inr (True, p')) \<and> length (nodes p) \<le> 128 \<and> wf_xids p"

definition good_address :: "XIAPath \<Rightarrow> bool" where
  "good_address p \<longleftrightarrow> good_path p \<and> printable (\<lambda>_. []) (nodes p)"

definition same_path :: "XIAPath \<Rightarrow> XIAPath \<Rightarrow> bool" where
  "same_path q p \<longleftrightarrow> same_graph (nodes q) (nodes p) \<and> src q = src p \<and> dst q = dst p"

lemma same_path_trans: "same_path r q \<Longrightarrow> same_path q p \<Longrightarrow> same_path r p"
  by (auto simp: same_path_def intro: same_graph_trans)

lemma same_path_iso: "same_path q p \<Longrightarrow> path_iso f q r \<Longrightarrow> path_iso f p r"
  unfolding same_path_def by (blast intro: path_iso_same_graph)

lemma good_path_same:
  assumes "same_path q p" "good_path p"
  shows "good_path q"
proof -
  have same: "same_graph (nodes q) (nodes p)" "src q = src p" "dst q = dst p" using assms(1) by (simp_all add: same_path_def)
  obtain p' where v: "is_valid p = Inr (True, p')" using assms(2) by (auto simp: good_path_def)
  note t = is_valid_true [OF v]
  have "valid_shape q" "acyclic (edge_rel (nodes q))"
    using t(2) is_valid_iff [OF t(1)] v same same_graph_edge_rel [OF same(1)]
    by (auto simp: valid_shape_def same_graph_def Let_def)
  then have "\<exists>q'. is_valid q = Inr (True, q')" using is_valid_iff [OF same_graph_wf [OF same(1) t(1)]] by simp
  moreover have "wf_xids q" using assms(2) wf_xids_same [OF same(1,2)] by (simp add: good_path_def)
  ultimately show ?thesis using assms(2) same(1) by (simp add: good_path_def same_graph_def)
qed

lemma print_path_ok:
  assumes "good_address a"
  shows "\<exists>a1. print_path junk a = Some (Inr a1) \<and> good_address a1 \<and> same_path a1 a"
proof -
  obtain a' where v: "is_valid a = Inr (True, a')" and n: "length (nodes a) \<le> 128"
    and pr: "printable (\<lambda>_. []) (nodes a)" and g: "good_path a"
    using assms by (auto simp: good_address_def good_path_def)
  have "length (map junk [0..<unparse_node_size a]) = unparse_node_size a" by simp
  from XIAPath_unparse_prints [OF is_valid_true(1) [OF v] pr n this] obtain s a1 where
    u: "XIAPath_unparse (\<lambda>_. []) (map junk [0..<unparse_node_size a]) a = Some (Inr (s, a1))" and same: "same_path a1 a"
    by (auto simp: same_path_def)
  then have "good_address a1"
    using good_path_same [OF same g] printable_same [of "nodes a1" "nodes a"] pr by (simp add: good_address_def same_path_def)
  with u same show ?thesis by (simp add: print_path_def)
qed

section \<open>Sending\<close>

text \<open>
  \<open>q\<close> has payload \<open>msg\<close>, is addressed to the source of \<open>p\<close>, from \<open>a\<close>, has the fields of a new header, and meets what the
  routing process needs. The checksum of a control message is that of a whole message.
\<close>

definition addressed :: "packet \<Rightarrow> XIAPath \<Rightarrow> u8 list \<Rightarrow> packet \<Rightarrow> bool" where
  "addressed p a msg q \<longleftrightarrow>
     body q = msg \<and> nxt (phdr q) = CLICK_XIA_NXT_XCMP \<and> XIAHeader_plen (phdr q) = of_nat (length msg)
     \<and> hlim (phdr q) = 250 \<and> hlast (phdr q) = - 1 \<and> XIA_PAINT_ANNO q = DESTINED_FOR_LOCALHOST
     \<and> (\<exists>f. path_iso f (src_path (phdr p)) (dst_path (phdr q))) \<and> (\<exists>g. path_iso g a (src_path (phdr q)))
     \<and> ready q \<and> forward_edges (phdr q)"

definition control_message :: "packet \<Rightarrow> XIAPath \<Rightarrow> u8 list \<Rightarrow> packet \<Rightarrow> bool" where
  "control_message p a msg q \<longleftrightarrow> in_cksum msg = 0 \<and> addressed p a msg q"

definition reportable :: "packet \<Rightarrow> u8 \<Rightarrow> nat \<Rightarrow> bool" where
  "reportable p type off \<longleftrightarrow>
     wf_hdr (phdr p) \<and> length (hnode (phdr p)) < 256 \<and> xcmp_length p type < 1500
     \<and> XIAHeader_payload (phdr p) (body p) = Inr off \<and> off + 8 \<le> length (body p)
     \<and> (type = 0 \<longrightarrow> off + unat (XIAHeader_plen (phdr p)) \<le> length (body p))
     \<and> good_path (src_path (phdr p))"

lemma send_addressed:
  fixes mem :: xcmp_memory
  assumes m: "xcmp_message mem p type code addrs = Inr msg"
    and p: "good_path (src_path (phdr p))" "good_path (case source of Some s \<Rightarrow> s | None \<Rightarrow> dst_path (phdr p))"
  shows "\<exists>q. sendXCMPPacket mem p type code addrs source = Inr [New 0 q]
    \<and> addressed p (case source of Some s \<Rightarrow> s | None \<Rightarrow> dst_path (phdr p)) msg q"
proof -
  let ?s = "case source of Some s \<Rightarrow> s | None \<Rightarrow> dst_path (phdr p)"
  let ?e = "XIAHeaderEncap_new\<lparr>ehdr := set_nxt CLICK_XIA_NXT_XCMP (ehdr XIAHeaderEncap_new)\<rparr>"
  obtain d' s' where d: "is_valid (src_path (phdr p)) = Inr (True, d')" "length (nodes (src_path (phdr p))) \<le> 128" "wf_xids (src_path (phdr p))"
    and s: "is_valid ?s = Inr (True, s')" "length (nodes ?s) \<le> 128" "wf_xids ?s"
    using p unfolding good_path_def by blast
  have "path_fits (esrc ?e)" using path_fits_empty by (simp add: XIAHeaderEncap_new_def)
  from built_header [OF d s this, of "node_junk mem 0" "node_junk mem 1"] obtain e1 e2 f g where
    e: "set_dst_path (node_junk mem 0) (src_path (phdr p)) ?e = Inr e1" "set_src_path (node_junk mem 1) ?s e1 = Inr e2"
      "ehdr e2 = (ehdr ?e)\<lparr>dnode := dnode (ehdr e2), snode := snode (ehdr e2), hnode := hnode (ehdr e2)\<rparr>"
    and h: "path_iso f (src_path (phdr p)) (dst_path (ehdr e2))" "path_iso g ?s (src_path (ehdr e2))" "wf_hdr (ehdr e2)"
      "forward_edges (ehdr e2)" "0 < unat (dnode (ehdr e2))" "0 < unat (snode (ehdr e2))"
    by blast
  have fld: "nxt (ehdr e2) = CLICK_XIA_NXT_XCMP" "hlim (ehdr e2) = 250" "hlast (ehdr e2) = - 1"
    by (subst e(3), simp add: XIAHeaderEncap_new_def set_nxt_def)+
  let ?q = "SET_XIA_PAINT_ANNO DESTINED_FOR_LOCALHOST \<lparr>phdr = (ehdr e2)\<lparr>plen := htons (of_nat (length msg))\<rparr>, body = msg,
    next_path_anno = 0, paint_anno = 0, neighbor_anno = XID_default\<rparr>"
  have "sendXCMPPacket mem p type code addrs source = Inr [New 0 ?q]"
    unfolding sendXCMPPacket_def m bind_run_simps e(1,2) by (simp add: encap_def)
  moreover have "addressed p ?s msg ?q"
    using h fld sint_16_of_int [of DESTINED_FOR_LOCALHOST]
    by (auto simp: addressed_def ready_def XIAHeader_plen_def DESTINED_FOR_LOCALHOST_def anno_defs
        dst_path_def src_path_def wf_hdr_def forward_edges_def)
  ultimately show ?thesis by blast
qed

lemma send_control:
  fixes mem :: xcmp_memory
  assumes p: "reportable p type off" and source: "good_path (case source of Some s \<Rightarrow> s | None \<Rightarrow> dst_path (phdr p))"
    and addrs: "\<And>x y. addrs = Some (x, y) \<Longrightarrow> wf_xid x \<and> wf_xid y"
  defines "rest \<equiv> xcmp_rest mem p off type addrs"
  shows "\<exists>q. sendXCMPPacket mem p type code addrs source = Inr [New 0 q]
    \<and> control_message p (case source of Some s \<Rightarrow> s | None \<Rightarrow> dst_path (phdr p))
        (type # code # le_bytes 2 (in_cksum (type # code # 0 # 0 # rest)) @ rest) q"
proof -
  let ?msg = "type # code # le_bytes 2 (in_cksum (type # code # 0 # 0 # rest)) @ rest"
  note P = p [unfolded reportable_def]
  have m: "xcmp_message mem p type code addrs = Inr ?msg" "length rest = xcmp_length p type - 4"
    unfolding rest_def by (rule xcmp_message_bytes; use P addrs in simp)+
  have "length rest < 1496" using m(2) P by auto
  then have "in_cksum ?msg = 0" by (rule in_cksum_zero) simp
  with send_addressed [OF m(1) _ source] P show ?thesis by (auto simp: control_message_def)
qed

lemma control_message_same: "same_path a1 a \<Longrightarrow> control_message p a1 msg q \<Longrightarrow> control_message p a msg q"
  unfolding control_message_def addressed_def by (blast intro: same_path_iso)

text \<open>A report quotes the header of the packet and the first eight bytes behind it.\<close>

lemma report_quotes:
  assumes "reportable p type off" "type \<noteq> 0" "\<And>x y. addrs = Some (x, y) \<Longrightarrow> wf_xid x \<and> wf_xid y"
  shows "drop 48 (xcmp_rest mem p off type addrs) = hdr_bytes (phdr p) @ take 8 (drop off (body p))"
proof -
  have n: "xcmp_length p type = 60 + hdr_size (phdr p)" using assms(2) by (simp add: xcmp_length_def Let_def)
  then have b: "length (xcmp_buffer mem p off type) = 60 + hdr_size (phdr p)" using assms(2) by (simp add: xcmp_buffer_def Let_def)
  have "length (case addrs of None \<Rightarrow> take 48 (drop 4 (xcmp_buffer mem p off type)) | Some (x, y) \<Rightarrow> XID_data x @ XID_data y) = 48"
    using assms(3) b by (auto split: option.splits)
  with b show ?thesis by (simp add: xcmp_rest_def)
qed

lemma reported:
  assumes p: "reportable p type off" "type \<noteq> 0" and a: "good_address a"
    and addrs: "\<And>x y. addrs = Some (x, y) \<Longrightarrow> wf_xid x \<and> wf_xid y"
  shows "\<exists>q. sendXCMPPacket mem p type code addrs (Some a) = Inr [New 0 q] \<and> control_message p a (body q) q
    \<and> take 2 (body q) = [type, code] \<and> drop 52 (body q) = hdr_bytes (phdr p) @ take 8 (drop off (body p))
    \<and> (case addrs of None \<Rightarrow> True | Some (x, y) \<Rightarrow> take 48 (drop 4 (body q)) = XID_data x @ XID_data y)"
proof -
  let ?rest = "xcmp_rest mem p off type addrs"
  let ?msg = "type # code # le_bytes 2 (in_cksum (type # code # 0 # 0 # ?rest)) @ ?rest"
  obtain q where q: "sendXCMPPacket mem p type code addrs (Some a) = Inr [New 0 q]" "control_message p a ?msg q"
    using send_control [OF p(1), where source = "Some a" and addrs = addrs and mem = mem and code = code] a addrs by (auto simp: good_address_def)
  then have b: "body q = ?msg" by (simp add: control_message_def addressed_def)
  have "drop 52 ?msg = drop 48 ?rest" by (simp add: numeral_eq_Suc)
  moreover have "take 48 (drop 4 ?msg) = take 48 ?rest" by (simp add: numeral_eq_Suc)
  moreover have "addrs = Some (x, y) \<Longrightarrow> take 48 ?rest = XID_data x @ XID_data y" for x y
    using addrs [of x y] by (simp add: xcmp_rest_def)
  ultimately show ?thesis
    using q b report_quotes [OF p addrs, where mem = mem] by (auto split: option.splits)
qed

text \<open>
  C30. A packet whose hop limit is used up is reported to its source: \<^verbatim>\<open>XCMP\<close> pushes one new packet to the network and
  destroys the old one. The new packet is addressed to the source path of the old one, comes from the address of this
  host, has a full hop limit and a checksum that verifies, quotes the header and the first eight payload bytes, and is
  in a form that the routing process can forward. The report has to be shorter than 1500 bytes, so that the old packet has at most
  51 nodes; a longer one fails an assertion and stops the router. The old packet also needs a valid source path and
  eight bytes of payload, and this host a valid address that can be printed.
\<close>

theorem expired_reported:
  assumes "- TOTAL_SPECIAL_CASES < XIA_PAINT_ANNO p" "XIA_PAINT_ANNO p \<noteq> UNREACHABLE" "hlim (phdr p) \<le> 1"
    and p: "reportable p XCMP_TIMXCEED off" and a: "good_address a"
  shows "\<exists>q a1. XCMP_push mem p a = Some (Inr ([New 0 q, Kill], a1)) \<and> same_path a1 a \<and> control_message p a (body q) q
    \<and> take 2 (body q) = [XCMP_TIMXCEED, XCMP_TIMXCEED_REASSEMBLY]
    \<and> drop 52 (body q) = hdr_bytes (phdr p) @ take 8 (drop off (body p))"
proof -
  obtain a1 where 1: "print_path (node_junk mem 2) a = Some (Inr a1)" "good_address a1" "same_path a1 a"
    using print_path_ok [OF a] by blast
  obtain a2 where 2: "print_path (node_junk mem 3) a1 = Some (Inr a2)" "same_path a2 a1"
    using print_path_ok [OF 1(2)] by blast
  obtain q where q: "sendXCMPPacket mem p XCMP_TIMXCEED XCMP_TIMXCEED_REASSEMBLY None (Some a1) = Inr [New 0 q]"
      "control_message p a1 (body q) q" "take 2 (body q) = [XCMP_TIMXCEED, XCMP_TIMXCEED_REASSEMBLY]"
      "drop 52 (body q) = hdr_bytes (phdr p) @ take 8 (drop off (body p))"
    using reported [OF p _ 1(2), where addrs = None and mem = mem and code = XCMP_TIMXCEED_REASSEMBLY] by (auto simp: xcmp_types)
  have "XCMP_push mem p a = Some (Inr ([New 0 q, Kill], a2))"
    using assms(1-3) 1(1) 2(1) q(1) by (simp add: XCMP_push_def processPacket_def processExpired_def Let_def)
  then show ?thesis
    using q(2-4) control_message_same [OF 1(3)] same_path_trans [OF 2(2) 1(3)] by blast
qed

lemma known_prints: "wf_xid x \<Longrightarrow> known_type (ntohl (xid_type x)) \<Longrightarrow> \<exists>w. XID_unparse x = Inr w"
  using type_name_known [of "xid_type x"] by (simp add: XID_unparse_def wf_xid_def CLICK_XIA_XID_ID_LEN_def Let_def)

lemma default_prints: "\<exists>w. XID_unparse XID_default = Inr w"
proof -
  have "htonl 0 = 0" by code_simp
  then show ?thesis by (intro known_prints) (simp_all add: known_type_def XID_default_def xid_type_defs wf_xid_def CLICK_XIA_XID_ID_LEN_def)
qed

lemma good_diamond: "good_address diamond"
proof -
  have "printable (\<lambda>_. []) (nodes diamond)"
    using default_prints by (auto simp: printable_def diamond_def XID_unparse_pretty_def)
  moreover have "wf_xids diamond" by (simp add: wf_xids_def diamond_def nth_Cons')
  ultimately show ?thesis using diamond_valid by (simp add: good_address_def good_path_def diamond_def)
qed

text \<open>A packet at the end of its hop limit, and what it quotes.\<close>

definition expired_packet :: packet where
  "expired_packet =
     (let p = sample_packet (sample_host 7) 0 in p\<lparr>phdr := (phdr p)\<lparr>hlim := 1\<rparr>, body := [1, 2, 3, 4, 5, 6, 7, 8]\<rparr>)"

text \<open>The path that leads over one XID to another.\<close>

definition chain_path :: "click_xia_xid \<Rightarrow> click_xia_xid \<Rightarrow> XIAPath" where
  "chain_path x y =
     \<lparr>nodes = [\<lparr>pxid = x, edges = [1], order = npos\<rparr>, \<lparr>pxid = y, edges = [], order = npos\<rparr>,
        \<lparr>pxid = XID_default, edges = [0], order = npos\<rparr>], src = 2, dst = 1\<rparr>"

lemma sample_source: "src_path (phdr (sample_packet x i)) = chain_path (sample_host 9) (sample_host 10)"
  by (simp add: src_path_def sample_packet_def parse_node_def graph_node_def parse_edges_def Let_def Node_default_def
      CLICK_XIA_XID_EDGE_UNUSED_def chain_path_def)

lemma ranked_acyclic: "(\<And>u v. (u, v) \<in> r \<Longrightarrow> f u < (f v :: nat)) \<Longrightarrow> acyclic r"
  by (rule acyclic_subset [OF wf_acyclic [OF wf_measure [of f]]]) auto

lemma good_chain:
  assumes "canonical_xid x" "canonical_xid y"
  shows "good_address (chain_path x y)"
proof -
  let ?p = "chain_path x y"
  have xy: "wf_xid x" "wf_xid y" "\<exists>w. XID_unparse x = Inr w" "\<exists>w. XID_unparse y = Inr w"
    using assms known_prints by (auto simp: canonical_xid_def)
  have "wf_graph (nodes ?p)" by (simp add: chain_path_def wf_graph_def)
  moreover have "valid_shape ?p" by (auto simp: chain_path_def valid_shape_def Let_def less_Suc_eq edge_rel_def nth_Cons')
  moreover have "acyclic (edge_rel (nodes ?p))"
    by (rule ranked_acyclic [where f = "\<lambda>i. (i + 1) mod 3"]) (auto simp: chain_path_def edge_rel_def less_Suc_eq)
  ultimately have "\<exists>p'. is_valid ?p = Inr (True, p')" using is_valid_iff by blast
  moreover have "wf_xids ?p" using xy by (auto simp: chain_path_def wf_xids_def less_Suc_eq)
  moreover have "printable (\<lambda>_. []) (nodes ?p)"
    using xy default_prints by (simp add: printable_def chain_path_def XID_unparse_pretty_def)
  ultimately show ?thesis by (simp add: good_address_def good_path_def chain_path_def)
qed

lemma good_sample_source: "good_path (src_path (phdr (sample_packet x i)))"
  using good_chain [of "sample_host 9" "sample_host 10"] by (simp add: sample_source good_address_def)

lemma reportable_expired: "reportable expired_packet XCMP_TIMXCEED 0"
proof -
  have "wf_hdr (phdr expired_packet)" "length (hnode (phdr expired_packet)) = 3" "hdr_size (phdr expired_packet) = 92"
    by (simp_all add: expired_packet_def Let_def sample_packet_def wf_hdr_def wf_node_def wf_xid_def sample_host_def
        CLICK_XIA_XID_ID_LEN_def CLICK_XIA_XID_EDGE_NUM_def hdr_size_def XIAHeader_hdr_size_def)
  moreover have "src_path (phdr expired_packet) = src_path (phdr (sample_packet (sample_host 7) 0))"
    by (simp add: expired_packet_def Let_def src_path_def)
  moreover have "XIAHeader_payload (phdr expired_packet) (body expired_packet) = Inr 0"
    by (simp add: expired_packet_def Let_def sample_packet_def XIAHeader_payload_def payload_loop.simps)
  ultimately show ?thesis
    using good_sample_source by (simp add: reportable_def xcmp_length_def Let_def xcmp_types expired_packet_def)
qed

definition blank_memory :: xcmp_memory where
  "blank_memory = \<lparr>msg_junk = (\<lambda>_. 0), node_junk = (\<lambda>_ _. undefined)\<rparr>"

theorem expired_reported_witness:
  "\<exists>q a1. XCMP_push blank_memory expired_packet diamond = Some (Inr ([New 0 q, Kill], a1)) \<and> in_cksum (body q) = 0"
proof -
  have "- TOTAL_SPECIAL_CASES < XIA_PAINT_ANNO expired_packet" "XIA_PAINT_ANNO expired_packet \<noteq> UNREACHABLE" "hlim (phdr expired_packet) \<le> 1"
    by (simp_all add: expired_packet_def Let_def sample_packet_def XIA_PAINT_ANNO_def TOTAL_SPECIAL_CASES_def UNREACHABLE_def)
  from expired_reported [OF this reportable_expired good_diamond, of blank_memory] show ?thesis
    by (auto simp: control_message_def addressed_def)
qed

text \<open>
  A packet with 52 or more nodes stops the router: when its hop limit is used up, the report would be 1,500 bytes or
  longer, and \<^verbatim>\<open>sendXCMPPacket\<close> fails its assertion. The sender chooses the header.
\<close>

theorem oversized_header_stops:
  assumes "- TOTAL_SPECIAL_CASES < XIA_PAINT_ANNO p" "XIA_PAINT_ANNO p \<noteq> UNREACHABLE" "hlim (phdr p) \<le> 1"
    and "52 \<le> unat (dnode (phdr p)) + unat (snode (phdr p))" "unat (dnode (phdr p)) + unat (snode (phdr p)) < 256"
    and a: "good_address a"
  shows "XCMP_push mem p a = Some (Inl Assert_failed)"
proof -
  obtain a1 where 1: "print_path (node_junk mem 2) a = Some (Inr a1)" using print_path_ok [OF a] by blast
  have "1464 \<le> hdr_size (phdr p)" using assms(4,5) by (simp add: hdr_size_def XIAHeader_hdr_size_def)
  then have "xcmp_message mem p XCMP_TIMXCEED code None = Inl Assert_failed" for code
    by (simp add: xcmp_message_def Let_def xcmp_types)
  with assms(1-3) 1 show ?thesis
    by (simp add: XCMP_push_def processPacket_def processExpired_def sendXCMPPacket_def Let_def)
qed

definition long_header_packet :: packet where
  "long_header_packet = expired_packet\<lparr>phdr := (phdr expired_packet)\<lparr>dnode := 100, snode := 100\<rparr>\<rparr>"

theorem oversized_header_stops_witness: "XCMP_push blank_memory long_header_packet diamond = Some (Inl Assert_failed)"
  by (rule oversized_header_stops)
    (simp_all add: long_header_packet_def expired_packet_def Let_def sample_packet_def XIA_PAINT_ANNO_def
      TOTAL_SPECIAL_CASES_def UNREACHABLE_def good_diamond)

section \<open>Unreachable destinations\<close>

lemma good_addressD: "good_address a \<Longrightarrow> \<exists>a'. is_valid a = Inr (True, a') \<and> same_path a' a"
  using is_valid_again by (fastforce simp: good_address_def good_path_def same_path_def)

text \<open>
  The XID before the destination, which for a broadcast is the broadcast XID: the source removes the destination from the
  path and takes the node with the decremented number.
\<close>

definition last_hop :: "XIAPath \<Rightarrow> click_xia_xid run" where
  "last_hop d = bind_run (remove_node (dst d) d) (\<lambda>d1. path_xid d1 (dst d1))"

lemma last_hop_same:
  assumes "same_path q p" "last_hop p = Inr x"
  shows "last_hop q = Inr x"
proof -
  have same: "length (nodes q) = length (nodes p)" "\<forall>i < length (nodes p). pxid (nodes q ! i) = pxid (nodes p ! i)"
    "src q = src p" "dst q = dst p"
    using assms(1) by (simp_all add: same_path_def same_graph_def)
  have "map pxid (nodes q) = map pxid (nodes p)" using same(1,2) by (simp add: list_eq_iff_nth_eq)
  then have m: "map pxid (take n (nodes q) @ drop k (nodes q)) = map pxid (take n (nodes p) @ drop k (nodes p))" for n k
    by (simp add: take_map [symmetric] drop_map [symmetric])
  have "pxid ((take n (nodes q) @ drop k (nodes q)) ! i) = pxid ((take n (nodes p) @ drop k (nodes p)) ! i)"
    if "i < length (take n (nodes p) @ drop k (nodes p))" for n k i
    using that m [of n k] same(1) by (metis length_map nth_map)
  with assms(2) same show ?thesis
    by (auto simp: last_hop_def remove_node_def path_xid_def simp del: map_append split: if_splits)
qed

text \<open>
  An undeliverable packet is reported to its source in the same way, unless it is itself such a report, which is
  dropped without an answer, so that two hosts never report each other's reports; the conditions are that both
  addresses of the packet print, and that it is no broadcast.
\<close>

theorem unreachable_reported:
  assumes "XIA_PAINT_ANNO p = UNREACHABLE" and a: "good_address a"
    and p: "nxt (phdr p) = CLICK_XIA_NXT_XCMP \<Longrightarrow> body p \<noteq> []"
      "\<not> (nxt (phdr p) = CLICK_XIA_NXT_XCMP \<and> hd (body p) = XCMP_UNREACH) \<Longrightarrow> reportable p XCMP_UNREACH off
        \<and> good_address (src_path (phdr p)) \<and> good_address (dst_path (phdr p)) \<and> 2 < length (nodes (dst_path (phdr p)))
        \<and> last_hop (dst_path (phdr p)) = Inr x \<and> \<not> XID_eq x (XID_parse (no_context (\<lambda>_. None)) BHID XID_default)"
  shows "if nxt (phdr p) = CLICK_XIA_NXT_XCMP \<and> hd (body p) = XCMP_UNREACH
    then XCMP_push mem p a = Some (Inr ([Kill], a))
    else \<exists>q a1. XCMP_push mem p a = Some (Inr ([New 0 q, Kill], a1)) \<and> same_path a1 a \<and> control_message p a (body q) q
      \<and> take 2 (body q) = [XCMP_UNREACH, XCMP_UNREACH_HOST]
      \<and> drop 52 (body q) = hdr_bytes (phdr p) @ take 8 (drop off (body p))"
proof -
  have push: "XCMP_push mem p a = seq_run (processUnreachable mem p a) (\<lambda>(evs, a1). Some (Inr (evs @ [Kill], a1)))"
    using assms(1) by (cases "processUnreachable mem p a" rule: option.exhaust [case_names None Some])
      (auto simp: XCMP_push_def processPacket_def Let_def UNREACHABLE_def TOTAL_SPECIAL_CASES_def seq_run_def split: sum.splits)
  have pay: "nxt (phdr p) = CLICK_XIA_NXT_XCMP \<Longrightarrow> XIAHeader_payload (phdr p) (body p) = Inr 0"
    by (simp add: XIAHeader_payload_def payload_loop.simps CLICK_XIA_NXT_XCMP_def CLICK_XIA_NXT_NO_def)
  have again: "(if nxt (phdr p) = CLICK_XIA_NXT_XCMP
         then bind_run (XIAHeader_payload (phdr p) (body p)) (\<lambda>off.
           bind_run (at (body p) off) (\<lambda>ty. Inr (ty = XCMP_UNREACH))) else Inr False)
      = Inr (nxt (phdr p) = CLICK_XIA_NXT_XCMP \<and> hd (body p) = XCMP_UNREACH)"
    using pay p(1) by (cases "body p") auto
  show ?thesis
  proof (cases "nxt (phdr p) = CLICK_XIA_NXT_XCMP \<and> hd (body p) = XCMP_UNREACH")
    case True
    then have "processUnreachable mem p a = Some (Inr ([], a))"
      unfolding processUnreachable_def again seq_run_simps by simp
    with True push show ?thesis by simp
  next
    case False
    note P = p(2) [OF False]
    let ?s = "src_path (phdr p)" and ?d = "dst_path (phdr p)"
    obtain a1 where 1: "print_path (node_junk mem 2) a = Some (Inr a1)" "good_address a1" "same_path a1 a"
      using print_path_ok [OF a] by blast
    obtain a2 where 2: "print_path (node_junk mem 5) a1 = Some (Inr a2)" "same_path a2 a1"
      using print_path_ok [OF 1(2)] by blast
    obtain s3 s6 d4 where pr: "print_path (node_junk mem 3) ?s = Some (Inr s3)" "print_path (node_junk mem 6) ?s = Some (Inr s6)"
        "print_path (node_junk mem 4) ?d = Some (Inr d4)"
      using print_path_ok P by meson
    obtain d where d: "is_valid ?d = Inr (True, d)" "same_path d ?d" using good_addressD P by blast
    have "last_hop d = Inr x" using last_hop_same [OF d(2)] P by blast
    then obtain d1 where d1: "remove_node (dst d) d = Inr d1" "path_xid d1 (dst d1) = Inr x" by (auto simp: last_hop_def)
    have "length (nodes d) = length (nodes ?d)" using d(2) by (simp add: same_path_def same_graph_def)
    then have n: "\<not> unparse_node_size d1 < 1"
      using d1(1) P by (auto simp: remove_node_def unparse_node_size_def split: if_splits)
    obtain q where q: "sendXCMPPacket mem p XCMP_UNREACH XCMP_UNREACH_HOST None (Some a1) = Inr [New 0 q]"
        "control_message p a1 (body q) q" "take 2 (body q) = [XCMP_UNREACH, XCMP_UNREACH_HOST]"
        "drop 52 (body q) = hdr_bytes (phdr p) @ take 8 (drop off (body p))"
      using reported [OF conjunct1 [OF P] _ 1(2), where addrs = None and mem = mem and code = XCMP_UNREACH_HOST] by (auto simp: xcmp_types)
    have "processUnreachable mem p a = Some (Inr ([New 0 q], a2))"
      unfolding processUnreachable_def again Let_def using False 1(1) 2(1) pr d(1) d1 n q(1) P by simp
    with push have "XCMP_push mem p a = Some (Inr ([New 0 q, Kill], a2))" by simp
    with False show ?thesis using q(2-4) control_message_same [OF 1(3)] same_path_trans [OF 2(2) 1(3)] by auto
  qed
qed

lemma broadcast_xid: "XID_parse (no_context q) BHID x = sample_host 255"
proof -
  have F: "isxdigit (CHR ''F'')" "of_int (xvalue (CHR ''F'') * 16 + xvalue (CHR ''F'')) = (255 :: u8)"
    by (simp_all add: isxdigit_def isdigit_def xvalue_def)
  have r: "read_id (Suc n) (CHR ''F'' # CHR ''F'' # s) = 255 # read_id n s" for n s using F by simp
  have "read_id 20 ''FFFFFFFFFFFFFFFFFFFFFFFFFFFFFFFFFFFFFFFF'' = replicate 20 255"
    by (simp only: numeral_eq_Suc r pred_numeral_simps BitM.simps read_id.simps(1) replicate.simps One_nat_def)
  moreover have "takeWhile (\<lambda>c. c \<noteq> CHR '':'') BHID = ''HID''" "CHR '':'' \<in> set BHID"
    "drop (length ''HID'' + 1) BHID = ''FFFFFFFFFFFFFFFFFFFFFFFFFFFFFFFFFFFFFFFF''" by (simp_all add: BHID_def)
  moreover have "cp_xid_type ''HID'' = Some (htonl CLICK_XIA_XID_TYPE_HID)" by (simp add: cp_xid_type_def)
  moreover have "htonl CLICK_XIA_XID_TYPE_HID \<noteq> htonl CLICK_XIA_XID_TYPE_IP" by (simp add: xid_type_defs)
  ultimately show ?thesis unfolding XID_parse_def cp_xid_def query_xid_no_context Let_def sample_host_def by simp
qed

definition unreachable_packet :: packet where
  "unreachable_packet =
     \<lparr>phdr = \<lparr>ver = 1, nxt = CLICK_XIA_NXT_NO, plen = 0, hlim = 250, dnode = 2, snode = 2, hlast = - 1,
        hnode = [\<lparr>nxid = sample_host 7, nedge = sample_edges [1, 127, 127, 127]\<rparr>,
          \<lparr>nxid = sample_host 8, nedge = sample_edges [0, 127, 127, 127]\<rparr>,
          \<lparr>nxid = sample_host 9, nedge = sample_edges [1, 127, 127, 127]\<rparr>,
          \<lparr>nxid = sample_host 10, nedge = sample_edges [0, 127, 127, 127]\<rparr>]\<rparr>,
      body = [1, 2, 3, 4, 5, 6, 7, 8], next_path_anno = 0, paint_anno = word_of_int UNREACHABLE, neighbor_anno = XID_default\<rparr>"

lemma unreachable_paths:
  "src_path (phdr unreachable_packet) = chain_path (sample_host 9) (sample_host 10)"
  "dst_path (phdr unreachable_packet) = chain_path (sample_host 7) (sample_host 8)"
  by (simp_all add: src_path_def dst_path_def unreachable_packet_def parse_node_def graph_node_def parse_edges_def Let_def
      Node_default_def CLICK_XIA_XID_EDGE_UNUSED_def chain_path_def sample_edges_def)

theorem unreachable_reported_witness:
  "\<exists>q a1. XCMP_push blank_memory unreachable_packet diamond = Some (Inr ([New 0 q, Kill], a1))
    \<and> take 2 (body q) = [XCMP_UNREACH, XCMP_UNREACH_HOST]"
proof -
  let ?p = unreachable_packet
  have "wf_hdr (phdr ?p)" "length (hnode (phdr ?p)) = 4" "hdr_size (phdr ?p) = 120" "XIAHeader_payload (phdr ?p) (body ?p) = Inr 0"
    "length (body ?p) = 8"
    by (simp_all add: unreachable_packet_def wf_hdr_def wf_node_def wf_xid_def sample_host_def sample_edges_def
        CLICK_XIA_XID_ID_LEN_def CLICK_XIA_XID_EDGE_NUM_def hdr_size_def XIAHeader_hdr_size_def XIAHeader_payload_def payload_loop.simps)
  then have r: "reportable ?p XCMP_UNREACH 0"
    using good_chain [of "sample_host 9" "sample_host 10"]
    by (simp add: reportable_def xcmp_length_def xcmp_types Let_def unreachable_paths good_address_def)
  have good: "good_address (src_path (phdr ?p)) \<and> good_address (dst_path (phdr ?p)) \<and> 2 < length (nodes (dst_path (phdr ?p)))"
    using good_chain by (simp add: unreachable_paths) (simp add: chain_path_def)
  have "shift_handle 1 1 = 0" using shift_handle_self [of 1] by simp
  then have "last_hop (dst_path (phdr ?p)) = Inr (sample_host 7)"
    by (simp add: unreachable_paths chain_path_def last_hop_def remove_node_def path_xid_def)
  moreover have "\<not> XID_eq (sample_host 7) (XID_parse (no_context (\<lambda>_. None)) BHID XID_default)"
    unfolding broadcast_xid by code_simp
  moreover have "XIA_PAINT_ANNO ?p = UNREACHABLE" "nxt (phdr ?p) \<noteq> CLICK_XIA_NXT_XCMP"
    by (simp_all add: unreachable_packet_def XIA_PAINT_ANNO_def UNREACHABLE_def sint_16_of_int CLICK_XIA_NXT_XCMP_def CLICK_XIA_NXT_NO_def)
  ultimately show ?thesis
    using unreachable_reported [of ?p diamond 0 "sample_host 7" blank_memory] good_diamond r good by auto
qed

section \<open>Control messages\<close>

definition unflagged :: "packet \<Rightarrow> bool" where
  "unflagged p \<longleftrightarrow> - TOTAL_SPECIAL_CASES < XIA_PAINT_ANNO p \<and> XIA_PAINT_ANNO p \<noteq> UNREACHABLE \<and> \<not> hlim (phdr p) \<le> 1"

definition control_packet :: "u8 \<Rightarrow> packet \<Rightarrow> bool" where
  "control_packet type p \<longleftrightarrow> nxt (phdr p) = CLICK_XIA_NXT_XCMP \<and> body p \<noteq> [] \<and> hd (body p) = type"

lemma control_payload: "nxt (phdr p) = CLICK_XIA_NXT_XCMP \<Longrightarrow> XIAHeader_payload (phdr p) bs = Inr 0"
  by (simp add: XIAHeader_payload_def payload_loop.simps CLICK_XIA_NXT_XCMP_def CLICK_XIA_NXT_NO_def)

lemma push_control:
  assumes "unflagged p" "control_packet type p"
  shows "XCMP_push mem p a =
    seq_run (if type = XCMP_ECHO then gotPing mem p a
       else if type = XCMP_ECHOREPLY then gotPong mem p a
       else if type = XCMP_TIMXCEED then gotExpired mem p a
       else if type = XCMP_UNREACH then gotUnreachable mem p a
       else if type = XCMP_REDIRECT then gotRedirect mem p a
       else Some (Inr ([], a))) (\<lambda>(evs, a1). Some (Inr (evs @ [Kill], a1)))"
  using assms control_payload [of p "body p"]
  by (cases "body p") (simp_all add: unflagged_def control_packet_def XCMP_push_def processPacket_def gotXCMPPacket_def Let_def)

text \<open>
  C31. An echo request that can be quoted is answered: one reply goes back to the source of the request, from the address the request
  was sent to, with a checksum that verifies. Of the data, what the first 52 bytes of the message hold behind the four
  header bytes comes back, which includes the identifier and the sequence number; from there on the reply holds the header of the
  request instead. The reply has to be shorter than 1500 bytes, so that the request has at most 51 nodes and less than 1496
  bytes of payload; for a longer one an assertion fails and stops the router. The request needs the payload its header
  announces, at least eight bytes, a hop limit above one and valid source and destination paths, and this host a valid address
  that can be printed.
\<close>

theorem ping_answered:
  assumes "unflagged p" "control_packet XCMP_ECHO p" and p: "reportable p XCMP_ECHOREPLY 0"
    and d: "good_path (dst_path (phdr p))" and a: "good_address a"
  shows "\<exists>q a1. XCMP_push mem p a = Some (Inr ([New 0 q, Kill], a1)) \<and> control_message p (dst_path (phdr p)) (body q) q
    \<and> take 2 (body q) = [XCMP_ECHOREPLY, 0]
    \<and> (let k = min (unat (XIAHeader_plen (phdr p))) 52 in take (k - 4) (drop 4 (body q)) = take (k - 4) (drop 4 (body p)))
    \<and> take (hdr_size (phdr p)) (drop 52 (body q)) = hdr_bytes (phdr p)"
proof -
  obtain a1 where 1: "print_path (node_junk mem 2) a = Some (Inr a1)" "good_address a1" using print_path_ok [OF a] by blast
  obtain a2 where 2: "print_path (node_junk mem 3) a1 = Some (Inr a2)" using print_path_ok [OF 1(2)] by blast
  have nx: "nxt (phdr p) = CLICK_XIA_NXT_XCMP" using assms(2) by (simp add: control_packet_def)
  note P = p [unfolded reportable_def]
  let ?k = "unat (XIAHeader_plen (phdr p))" and ?hs = "hdr_size (phdr p)"
  define buf where "buf = xcmp_buffer mem p 0 0"
  define rest where "rest = xcmp_rest mem p 0 0 None"
  let ?msg = "(0 :: u8) # 0 # le_bytes 2 (in_cksum (0 # 0 # 0 # 0 # rest)) @ rest"
  obtain q where q: "sendXCMPPacket mem p XCMP_ECHOREPLY 0 None None = Inr [New 0 q]" "control_message p (dst_path (phdr p)) ?msg q"
    using send_control [OF p, where source = None and addrs = None and mem = mem and code = 0] d
    unfolding rest_def by (auto simp: xcmp_types)
  have b: "body q = ?msg" using q(2) by (simp add: control_message_def addressed_def)
  have hs: "length (hdr_bytes (phdr p)) = ?hs" using hdr_size_bytes P by simp
  have lb: "60 + ?hs \<le> length buf" "take ?k buf = take ?k (body p)"
    using P by (auto simp: buf_def xcmp_buffer_def xcmp_length_def Let_def xcmp_types)
  have r: "rest = take 48 (drop 4 buf) @ hdr_bytes (phdr p) @ take 8 (body p) @ drop (60 + ?hs) buf"
    by (simp add: rest_def xcmp_rest_def buf_def)
  have d4: "drop 4 ?msg = rest" "drop 52 ?msg = drop 48 rest" by (simp_all add: numeral_eq_Suc)
  define m where "m = min ?k 52 - 4"
  have m: "m \<le> 48" "m \<le> ?k - 4" by (auto simp: m_def min_def)
  have "take m rest = take m (drop 4 buf)" using lb(1) m(1) by (simp add: r)
  also have "\<dots> = take m (drop 4 (take ?k buf))" using m(2) by (simp add: drop_take min_absorb1)
  also have "\<dots> = take m (drop 4 (body p))" using m(2) by (simp add: lb(2) drop_take min_absorb1)
  finally have data: "take m (drop 4 (body q)) = take m (drop 4 (body p))" by (simp only: b d4)
  have "take ?hs (drop 48 rest) = hdr_bytes (phdr p)" using lb(1) hs by (simp add: r)
  then have quote: "take ?hs (drop 52 (body q)) = hdr_bytes (phdr p)" by (simp only: b d4)
  have "client_seq p = Inr (take 2 (drop 6 (body p)))"
    using P control_payload [OF nx] by (simp add: client_seq_def read_bytes_def)
  then have "XCMP_push mem p a = Some (Inr ([New 0 q, Kill], a2))"
    using push_control [OF assms(1,2)] 1(1) 2 q(1) by (simp add: gotPing_def)
  moreover have "take 2 (body q) = [XCMP_ECHOREPLY, 0]" by (simp add: b xcmp_types)
  ultimately show ?thesis using q(2) data quote b by (auto simp: Let_def m_def)
qed

definition control_sample :: "u8 \<Rightarrow> packet" where
  "control_sample type =
     (let p = sample_packet (sample_host 7) 0
      in p\<lparr>phdr := (phdr p)\<lparr>nxt := CLICK_XIA_NXT_XCMP, plen := htons 8\<rparr>, body := [type, 0, 0, 0, 17, 18, 19, 20]\<rparr>)"

lemma control_sample_simps:
  "unflagged (control_sample type)" "control_packet type (control_sample type)"
  "src_path (phdr (control_sample type)) = src_path (phdr (sample_packet (sample_host 7) 0))"
  "XIAHeader_plen (phdr (control_sample type)) = 8"
  "length (hnode (phdr (control_sample type))) = 3" "hdr_size (phdr (control_sample type)) = 92"
  "wf_hdr (phdr (control_sample type))"
  by (simp_all add: control_sample_def Let_def sample_packet_def unflagged_def control_packet_def XIA_PAINT_ANNO_def
      TOTAL_SPECIAL_CASES_def UNREACHABLE_def src_path_def XIAHeader_plen_def wf_hdr_def wf_node_def wf_xid_def sample_host_def
      CLICK_XIA_XID_ID_LEN_def CLICK_XIA_XID_EDGE_NUM_def hdr_size_def XIAHeader_hdr_size_def word_le_nat_alt)

lemma sample_dest:
  "dst_path (phdr (control_sample type)) =
     \<lparr>nodes = [\<lparr>pxid = sample_host 7, edges = [], order = npos\<rparr>, \<lparr>pxid = XID_default, edges = [0], order = npos\<rparr>], src = 1, dst = 0\<rparr>"
  by (simp add: dst_path_def control_sample_def Let_def sample_packet_def parse_node_def graph_node_def parse_edges_def Node_default_def
      CLICK_XIA_XID_EDGE_UNUSED_def)

lemma good_sample_dest: "good_path (dst_path (phdr (control_sample type)))"
proof -
  let ?p = "dst_path (phdr (control_sample type))"
  have "wf_graph (nodes ?p)" by (simp add: sample_dest wf_graph_def)
  moreover have "valid_shape ?p" by (auto simp: sample_dest valid_shape_def Let_def less_Suc_eq edge_rel_def nth_Cons')
  moreover have "acyclic (edge_rel (nodes ?p))"
    by (rule ranked_acyclic [where f = "\<lambda>i. 2 - i"]) (auto simp: sample_dest edge_rel_def less_Suc_eq)
  ultimately have "\<exists>p'. is_valid ?p = Inr (True, p')" using is_valid_iff by blast
  moreover have "wf_xids ?p"
    by (auto simp: sample_dest wf_xids_def less_Suc_eq wf_xid_def sample_host_def CLICK_XIA_XID_ID_LEN_def)
  ultimately show ?thesis by (simp add: good_path_def sample_dest)
qed

lemma reportable_control: "reportable (control_sample type) XCMP_ECHOREPLY 0"
  using control_sample_simps(3-7) [of type] good_sample_source control_payload [of "control_sample type" "body (control_sample type)"]
    control_sample_simps(2) [of type]
  by (simp add: reportable_def xcmp_length_def xcmp_types Let_def control_packet_def) (simp add: control_sample_def Let_def)

theorem ping_answered_witness:
  "\<exists>q a1. XCMP_push blank_memory (control_sample XCMP_ECHO) diamond = Some (Inr ([New 0 q, Kill], a1))
    \<and> take 4 (drop 4 (body q)) = [17, 18, 19, 20]"
proof -
  have "take 4 (drop 4 (body (control_sample XCMP_ECHO))) = [17, 18, 19, 20]" by (simp add: control_sample_def Let_def)
  with ping_answered [OF control_sample_simps(1,2) reportable_control good_sample_dest good_diamond, where mem = blank_memory]
  show ?thesis by (auto simp: control_sample_simps(4))
qed

section \<open>Who destroys a packet\<close>

text \<open>How often a packet that was pushed into the element is given away or destroyed.\<close>

definition releases :: "xcmp_event list \<Rightarrow> nat" where
  "releases evs = length (filter (\<lambda>e. case e of New _ _ \<Rightarrow> False | _ \<Rightarrow> True) evs)"

lemma releases_simps [simp]:
  "releases [] = 0" "releases (New n p # evs) = releases evs" "releases (Pass n p # evs) = Suc (releases evs)"
  "releases (Kill # evs) = Suc (releases evs)" "releases (evs @ evs1) = releases evs + releases evs1"
  by (simp_all add: releases_def)

lemma send_releases: "sendXCMPPacket mem p type code addrs source = Inr evs \<Longrightarrow> releases evs = 0"
  by (auto simp: sendXCMPPacket_def encap_def)

lemma report_releases:
  "processBadForwarding mem p a = Some (Inr (evs, a1)) \<Longrightarrow> releases evs = 0"
  "processUnreachable mem p a = Some (Inr (evs, a1)) \<Longrightarrow> releases evs = 0"
  "processExpired mem p a = Some (Inr (evs, a1)) \<Longrightarrow> releases evs = 0"
  "gotPing mem p a = Some (Inr (evs, a1)) \<Longrightarrow> releases evs = 0"
  by (auto simp: processBadForwarding_def processUnreachable_def processExpired_def gotPing_def Let_def
      dest: send_releases split: if_splits)

lemma got_releases:
  "gotPong mem p a = Some (Inr (evs, a1)) \<Longrightarrow> releases evs = 1"
  "gotExpired mem p a = Some (Inr (evs, a1)) \<Longrightarrow> releases evs = 1"
  "gotUnreachable mem p a = Some (Inr (evs, a1)) \<Longrightarrow> releases evs = 1"
  "gotRedirect mem p a = Some (Inr (evs, a1)) \<Longrightarrow> releases evs = 1"
  by (auto simp: gotPong_def gotExpired_def gotUnreachable_def gotRedirect_def sendUp_def encap_def Let_def)

text \<open>
  C39. The element destroys some packets twice. Whenever it returns, the packet it was given has been given away or destroyed exactly
  once, with one exception: the control messages of the types \<^verbatim>\<open>ECHOREPLY\<close>, \<^verbatim>\<open>TIMXCEED\<close>, \<^verbatim>\<open>UNREACH\<close> and \<^verbatim>\<open>REDIRECT\<close> that are
  meant for this host, which it passes up, or destroys after a redirect, and then destroys again. Echo requests, control
  messages of other types and all other packets are released once.
\<close>

theorem packets_released:
  assumes "XCMP_push mem p a = Some (Inr (evs, a1))"
  shows "releases evs =
    (if unflagged p \<and> (\<exists>type \<in> {XCMP_ECHOREPLY, XCMP_TIMXCEED, XCMP_UNREACH, XCMP_REDIRECT}. control_packet type p) then 2 else 1)"
proof (cases "unflagged p")
  case False
  then show ?thesis
    using assms report_releases by (fastforce simp: XCMP_push_def processPacket_def Let_def unflagged_def split: if_splits)
next
  case flags: True
  show ?thesis
  proof (cases "nxt (phdr p) = CLICK_XIA_NXT_XCMP")
    case False
    with flags assms show ?thesis
      by (auto simp: XCMP_push_def processPacket_def Let_def unflagged_def control_packet_def)
  next
    case nx: True
    have "body p \<noteq> []"
      using flags nx assms control_payload [OF nx, of "body p"]
      by (auto simp: XCMP_push_def processPacket_def gotXCMPPacket_def Let_def unflagged_def)
    then have c: "control_packet (hd (body p)) p" "\<And>type. control_packet type p \<longleftrightarrow> hd (body p) = type"
      using nx by (auto simp: control_packet_def)
    from assms show ?thesis
      unfolding push_control [OF flags c(1)] c(2) using flags got_releases report_releases(4)
      by (fastforce simp: xcmp_types split: if_splits)
  qed
qed

theorem packets_released_witness:
  "\<exists>evs a1. XCMP_push blank_memory (control_sample XCMP_ECHOREPLY) diamond = Some (Inr (evs, a1)) \<and> releases evs = 2"
proof -
  obtain a1 where "print_path (node_junk blank_memory 2) diamond = Some (Inr a1)" using print_path_ok [OF good_diamond] by blast
  moreover have "client_seq (control_sample XCMP_ECHOREPLY) = Inr [19, 20]"
    using control_payload [of "control_sample XCMP_ECHOREPLY" "body (control_sample XCMP_ECHOREPLY)"] control_sample_simps(2) [of XCMP_ECHOREPLY]
    by (simp add: client_seq_def control_packet_def) (simp add: control_sample_def Let_def read_bytes_def)
  ultimately have p: "XCMP_push blank_memory (control_sample XCMP_ECHOREPLY) diamond =
      Some (Inr (sendUp (control_sample XCMP_ECHOREPLY) @ [Kill], a1))"
    by (simp add: push_control [OF control_sample_simps(1,2)] gotPong_def xcmp_types)
  from packets_released [OF p] p control_sample_simps(1,2) [of XCMP_ECHOREPLY] show ?thesis by auto
qed

end
