(* ===== verification/Xia_Xcmp_Redirect.thy ===== *)
theory Xia_Xcmp_Redirect
  imports Xia_Xcmp_Messages
begin

text \<open>
  A redirect from end to end: the router that would send a packet back where it came from tells the source, the
  \<^verbatim>\<open>XCMP\<close> element of the source turns the message into a route update, and the routing process of the source applies it.
\<close>

section \<open>The route update\<close>

definition two_nodes :: "click_xia_xid \<Rightarrow> nat \<Rightarrow> nat \<Rightarrow> XIAPath" where
  "two_nodes x i j = \<lparr>nodes = [\<lparr>pxid = XID_default, edges = [1], order = i\<rparr>, \<lparr>pxid = x, edges = [], order = j\<rparr>], src = npos, dst = npos\<rparr>"

lemma update_dest_path: "update_dest x = Inr (two_nodes x npos npos)"
  by (simp add: update_dest_def add_node_def add_edge_def Node_default_def XIAPath_reset_def Let_def two_nodes_def)

definition update_node :: "click_xia_xid \<Rightarrow> click_xia_xid_node" where
  "update_node x =
     \<lparr>nxid = x, nedge = \<lparr>idx = 0, visited = False\<rparr> # replicate 3 \<lparr>idx = CLICK_XIA_XID_EDGE_UNUSED, visited = False\<rparr>\<rparr>"

lemma unparse_two_nodes: "unparse_node [b] 1 (two_nodes x i j) = Inr (1, [update_node x], two_nodes x 0 1)"
proof -
  have "topological_ordering (two_nodes x i j) = Inr (True, two_nodes x 0 1)"
    by (simp add: two_nodes_def topological_ordering_def Let_def numeral_2_eq_2)
  then show ?thesis
    by (simp add: unparse_node_def unparse_node_size_def write_node_def node_slot_def update_node_def two_nodes_def Let_def
        CLICK_XIA_XID_EDGE_NUM_def numeral_eq_Suc)
qed

lemma update_header:
  assumes x: "wf_xid x" and a: "good_path a"
  defines "e \<equiv> XIAHeaderEncap_new\<lparr>ehdr := set_nxt CLICK_XIA_NXT_XCMP (ehdr XIAHeaderEncap_new)\<rparr>"
  shows "\<exists>e1 e2 n sms. set_dst_path junk (two_nodes x npos npos) e = Inr e1 \<and> set_src_path junk' a e1 = Inr e2
    \<and> ehdr e2 = (ehdr e)\<lparr>dnode := 1, snode := n, hnode := update_node x # sms\<rparr> \<and> length sms = unat n \<and> 0 < unat n
    \<and> (\<forall>m\<in>set sms. wf_node m)"
proof -
  let ?e1 = "\<lparr>ehdr = (ehdr e)\<lparr>dnode := 1, snode := 0, hnode := [update_node x]\<rparr>, edst = two_nodes x 0 1, esrc = XIAPath_reset\<rparr>"
  have size: "unparse_node_size (two_nodes x i j) = 1" for i j by (simp add: unparse_node_size_def two_nodes_def)
  have "unparse_node [] 0 XIAPath_reset = Inr (0, [], XIAPath_reset)"
    by (simp add: unparse_node_def topological_ordering_def XIAPath_reset_def unparse_node_size_def)
  moreover have zero: "unparse_node_size XIAPath_reset = 0" by (simp add: unparse_node_size_def XIAPath_reset_def)
  ultimately have e1: "set_dst_path junk (two_nodes x npos npos) e = Inr ?e1"
    using unparse_two_nodes [of "junk 0" x npos npos]
    by (simp add: set_dst_path_def update_def size zero Let_def e_def XIAHeaderEncap_new_def XIAHeader_hdr_size_def)
  obtain a' where v: "is_valid a = Inr (True, a')" and n: "length (nodes a) \<le> 128" and w: "wf_xids a"
    using a by (auto simp: good_path_def)
  let ?sn = "unparse_node_size a"
  have fits: "path_fits a" using v n by (auto simp: path_fits_def)
  define buf where "buf = map junk' [1..<1 + ?sn]"
  have lb: "length buf = ?sn" by (simp add: buf_def del: upt_Suc)
  obtain sms a1 where u: "unparse_node buf ?sn a = Inr (?sn, sms, a1)" using unparse_node_fits [OF fits lb] by auto
  have sms: "length sms = ?sn" "0 < length sms" "\<forall>m\<in>set sms. wf_node m"
    using node_list_wf [OF v n lb u] w unfolding wf_xids_def by blast+
  have sn: "?sn \<le> 127" by (rule path_fits_size [OF fits])
  then have "(XIAHeader_hdr_size (1 + ?sn) - 8) div 28 = 1 + ?sn" by (intro hdr_size_room) simp
  then have e2: "set_src_path junk' a ?e1 = Inr \<lparr>ehdr = (ehdr e)\<lparr>dnode := 1, snode := of_nat ?sn, hnode := update_node x # sms\<rparr>, edst = two_nodes x 0 1, esrc = a1\<rparr>"
    using u [unfolded buf_def] unparse_two_nodes [of "junk' 0" x 0 1]
    by (simp add: set_src_path_def update_def size Let_def upt_rec [of 0] del: upt_Suc bind_run_eq_Inr)
  have "unat (of_nat ?sn :: u8) = ?sn" using sn by (simp add: unat_of_nat)
  with sms show ?thesis
    by (intro exI [of _ ?e1] exI [of _ "\<lparr>ehdr = (ehdr e)\<lparr>dnode := 1, snode := of_nat ?sn, hnode := update_node x # sms\<rparr>, edst = two_nodes x 0 1, esrc = a1\<rparr>"]
        exI [of _ "of_nat ?sn"] exI [of _ sms] conjI e1 e2) simp_all
qed

section \<open>The message\<close>

lemma xid_of_bytes_prefix: "wf_xid x \<Longrightarrow> take 24 bs = XID_data x \<Longrightarrow> xid_of_bytes bs = x"
proof -
  assume x: "wf_xid x" "take 24 bs = XID_data x"
  have "take 4 bs = take 4 (take 24 bs)" "take 20 (drop 4 bs) = take 20 (drop 4 (take 24 bs))" by (simp_all add: drop_take)
  then show ?thesis
    using x by (simp add: xid_of_bytes_def XID_data_def wf_xid_def CLICK_XIA_XID_ID_LEN_def le32.dec_enc)
qed

text \<open>A redirect message that says that packets for \<open>x\<close> should go over \<open>y\<close>.\<close>

definition redirect_to :: "click_xia_xid \<Rightarrow> click_xia_xid \<Rightarrow> u8 list \<Rightarrow> bool" where
  "redirect_to x y bs \<longleftrightarrow> 52 \<le> length bs \<and> take 48 (drop 4 bs) = XID_data x @ XID_data y"

lemma redirect_to_xids:
  assumes "redirect_to x y bs" "wf_xid x" "wf_xid y"
  shows "read_bytes 4 24 bs = Inr (XID_data x)" "read_bytes 28 24 bs = Inr (XID_data y)"
    and "xid_of_bytes (drop 4 bs) = x" "xid_of_bytes (drop 28 bs) = y"
proof -
  have l: "length (XID_data x) = 24" "length (XID_data y) = 24" using assms(2,3) by simp_all
  have xy: "take 48 (drop 4 bs) = XID_data x @ XID_data y" "52 \<le> length bs" using assms(1) by (simp_all add: redirect_to_def)
  have "take 24 (drop 4 bs) = take 24 (take 48 (drop 4 bs))" by simp
  also have "\<dots> = XID_data x" using l by (simp only: xy(1)) simp
  finally have 1: "take 24 (drop 4 bs) = XID_data x" .
  have "take 24 (drop 28 bs) = drop 24 (take 48 (drop 4 bs))" by (simp add: drop_take)
  also have "\<dots> = XID_data y" using l by (simp only: xy(1)) simp
  finally have 2: "take 24 (drop 28 bs) = XID_data y" .
  show "read_bytes 4 24 bs = Inr (XID_data x)" "read_bytes 28 24 bs = Inr (XID_data y)"
    using 1 2 xy(2) by (simp_all add: read_bytes_def)
  show "xid_of_bytes (drop 4 bs) = x" "xid_of_bytes (drop 28 bs) = y"
    using 1 2 assms(2,3) xid_of_bytes_prefix by simp_all
qed

text \<open>What the routing process needs of a route update.\<close>

definition route_update :: "click_xia_xid \<Rightarrow> click_xia_xid \<Rightarrow> packet \<Rightarrow> bool" where
  "route_update x y u \<longleftrightarrow> ready u \<and> nxt (phdr u) = CLICK_XIA_NXT_XCMP \<and> hlast (phdr u) = - 1 \<and> dnode (phdr u) = 1
     \<and> hd (hnode (phdr u)) = update_node x \<and> redirect_to x y (body u)"

lemma redirect_received:
  assumes p: "unflagged p" "control_packet XCMP_REDIRECT p" and xy: "redirect_to x y (body p)" "canonical_xid x" "canonical_xid y"
    and len: "52 \<le> unat (XIAHeader_plen (phdr p))" "unat (XIAHeader_plen (phdr p)) \<le> length (body p)"
    and good: "good_address b" "good_address (src_path (phdr p))" "good_address (dst_path (phdr p))"
  shows "\<exists>u b1. XCMP_push mem p b = Some (Inr ([New 1 u, Kill, Kill], b1)) \<and> same_path b1 b
    \<and> XIA_PAINT_ANNO u = 1 \<and> route_update x y u"
proof -
  have wf: "wf_xid x" "wf_xid y" and pr: "\<exists>w. XID_unparse x = Inr w" "\<exists>w. XID_unparse y = Inr w"
    using xy(2,3) known_prints by (auto simp: canonical_xid_def)
  obtain b1 where 1: "print_path (node_junk mem 2) b = Some (Inr b1)" "good_address b1" "same_path b1 b"
    using print_path_ok [OF good(1)] by blast
  obtain b2 where 2: "print_path (node_junk mem 3) b1 = Some (Inr b2)" "good_address b2" "same_path b2 b1"
    using print_path_ok [OF 1(2)] by blast
  obtain s d where sd: "print_path (node_junk mem 4) (src_path (phdr p)) = Some (Inr s)"
      "print_path (node_junk mem 5) (dst_path (phdr p)) = Some (Inr d)"
    using print_path_ok [OF good(2)] print_path_ok [OF good(3)] by meson
  note R = redirect_to_xids [OF xy(1) wf]
  have bx: "xid_of_bytes (XID_data x) = x" "xid_of_bytes (XID_data y) = y" using wf xid_of_bytes_prefix by simp_all
  let ?e = "XIAHeaderEncap_new\<lparr>ehdr := set_nxt CLICK_XIA_NXT_XCMP (ehdr XIAHeaderEncap_new)\<rparr>"
  let ?k = "unat (XIAHeader_plen (phdr p))"
  define msg where "msg = take (if ?k > 1024 then 1024 else ?k) (body p)"
  have m: "read_bytes 0 (if ?k > 1024 then 1024 else ?k) (body p) = Inr msg" using len(2) by (simp add: read_bytes_def msg_def)
  have rm: "redirect_to x y msg" using xy(1) len by (auto simp: redirect_to_def msg_def drop_take min_def)
  obtain e1 e2 n sms where e: "set_dst_path (node_junk mem 0) (two_nodes x npos npos) ?e = Inr e1"
      "set_src_path (node_junk mem 1) b2 e1 = Inr e2"
    and h: "ehdr e2 = (ehdr ?e)\<lparr>dnode := 1, snode := n, hnode := update_node x # sms\<rparr>" "length sms = unat n" "0 < unat n"
      "\<forall>m\<in>set sms. wf_node m"
    using update_header [OF wf(1), of b2 "node_junk mem 0" "node_junk mem 1"] 2(2) unfolding good_address_def by blast
  let ?u = "SET_XIA_PAINT_ANNO 1 \<lparr>phdr = (ehdr e2)\<lparr>plen := htons (of_nat (length msg))\<rparr>, body = msg,
    next_path_anno = 0, paint_anno = 0, neighbor_anno = XID_default\<rparr>"
  have pay: "XIAHeader_payload (phdr p) (body p) = Inr 0" using p(2) by (simp add: control_packet_def control_payload)
  have "gotRedirect mem p b = Some (Inr ([New 1 ?u, Kill], b2))"
    unfolding gotRedirect_def Let_def 1(1) 2(1) sd pay seq_run_simps add_0 R(1,2) bx m update_dest_path
    using pr e by (auto simp: encap_def)
  then have "XCMP_push mem p b = Some (Inr ([New 1 ?u, Kill, Kill], b2))"
    by (simp add: push_control [OF p] xcmp_types)
  moreover have "wf_node (update_node x)" using wf(1) by (simp add: wf_node_def update_node_def CLICK_XIA_XID_EDGE_NUM_def)
  then have "route_update x y ?u"
    using h rm by (simp add: route_update_def ready_def wf_hdr_def SET_XIA_PAINT_ANNO_def XIAHeaderEncap_new_def set_nxt_def)
  moreover have "XIA_PAINT_ANNO ?u = 1" by (simp add: anno_defs)
  moreover have "same_path b2 b" by (rule same_path_trans [OF 2(3) 1(3)])
  ultimately show ?thesis by blast
qed

section \<open>Applying it\<close>

text \<open>
  The table after a redirect of \<open>x\<close> to \<open>y\<close>: a route that was there keeps its port and flags; a new one has no flags and
  goes to the default port or to the local host. The printed local address may get other orders and is the same path.
\<close>

definition redirected :: "XIAXIDRouteTable \<Rightarrow> click_xia_xid \<Rightarrow> click_xia_xid \<Rightarrow> XIAXIDRouteTable \<Rightarrow> bool" where
  "redirected t x y t1 \<longleftrightarrow> (\<exists>d rs l. t1 = t\<lparr>rts := rs, local_addr := l\<rparr> \<and> same_path l (local_addr t)
     \<and> routes_of t1 = (routes_of t)(To x \<mapsto> d) \<and> rnexthop d = Some y
     \<and> (case routes_of t (To x) of
          Some d0 \<Rightarrow> d = d0\<lparr>rnexthop := Some y\<rparr>
        | None \<Rightarrow> rflags d = 0 \<and> rport d \<in> {DESTINED_FOR_LOCALHOST, rport (rtdata t)}))"

lemma redirect_route:
  assumes p: "redirect_to x y (body p)" "XIAHeader_payload (phdr p) (body p) = Inr 0" and xy: "canonical_xid x" "wf_xid y"
    and a: "good_address (local_addr t)"
  shows "\<exists>t1. process_xcmp_redirect junk p t = Some (Inr t1) \<and> redirected t x y t1"
proof -
  have wx: "wf_xid x" and px: "\<exists>w. XID_unparse x = Inr w" using xy(1) known_prints by (auto simp: canonical_xid_def)
  obtain s a1 where u: "XIAPath_unparse (\<lambda>_. []) (map junk [0..<unparse_node_size (local_addr t)]) (local_addr t) = Some (Inr (s, a1))"
      "same_path a1 (local_addr t)"
    using print_path_ok [OF a, of junk] by (auto simp: print_path_def)
  have [simp]: "routes_of (t\<lparr>local_addr := b\<rparr>) = routes_of t" for b by (rule ext) (simp add: routes_of_def split: route_key.splits)
  have same: "same_path (local_addr t) (local_addr t)" by (simp add: same_path_def same_graph_def)
  note R = redirect_to_xids(3,4) [OF p(1) wx xy(2)]
  show ?thesis
  proof (cases "routes_of t (To x)")
    case (Some d)
    let ?t1 = "store_route x (d\<lparr>rnexthop := Some y\<rparr>) t"
    have "process_xcmp_redirect junk p t = Some (Inr ?t1)"
      using p R Some by (simp add: process_xcmp_redirect_def redirect_to_def routes_of_lookup)
    moreover have "redirected t x y ?t1"
      unfolding redirected_def using Some same
      by (intro exI [of _ "d\<lparr>rnexthop := Some y\<rparr>"] exI [of _ "rts ?t1"] exI [of _ "local_addr t"])
        (simp add: store_route_def [of x "d\<lparr>rnexthop := Some y\<rparr>" t] flip: routes_of_store)
    ultimately show ?thesis by blast
  next
    case None
    obtain w where w: "XID_unparse x = Inr w" using px by blast
    define d where "d = \<lparr>rport = if strstr s w then DESTINED_FOR_LOCALHOST else rport (rtdata t), rflags = 0, rnexthop = Some y\<rparr>"
    let ?t1 = "store_route x d (t\<lparr>local_addr := a1\<rparr>)"
    have "process_xcmp_redirect junk p t = Some (Inr ?t1)"
      using p R w u(1) None by (simp add: process_xcmp_redirect_def redirect_to_def routes_of_lookup Let_def d_def)
    moreover have "routes_of ?t1 = (routes_of t)(To x \<mapsto> d)" by simp
    then have "redirected t x y ?t1"
      unfolding redirected_def using None u(2)
      by (intro exI [of _ d] exI [of _ "rts ?t1"] exI [of _ a1]) (simp add: d_def store_route_def)
    ultimately show ?thesis by blast
  qed
qed

lemma update_applied:
  assumes u: "route_update x y u" and xy: "canonical_xid x" "wf_xid y" and t: "principal_of x = Some t"
    and tab: "principal_type_enabled (tables r t) \<noteq> 0" "good_address (local_addr (tables r t))"
  shows "\<exists>r1. XIAPacketRoute (Suc n) junk (XIAPaint_simple_action REDIRECT u) r = Some (Inr ([], r1))
    \<and> redirected (tables r t) x y (tables r1 t) \<and> (\<forall>t'. t' \<noteq> t \<longrightarrow> tables r1 t' = tables r t') \<and> gprp r1 = gprp r"
proof -
  let ?T = "tables r t"
  define p where "p = snd (XIASelectPath_push True (XIAPaint_simple_action REDIRECT u))"
  note U = u [unfolded route_update_def]
  have p: "ready p" "phdr p = phdr u" "body p = body u" "XIA_NEXT_PATH_ANNO p = 0" "XIA_PAINT_ANNO p = REDIRECT"
    using U by (simp_all add: p_def XIASelectPath_push_def XIAPaint_simple_action_def ready_def anno_defs REDIRECT_def sint_16_of_int)
  obtain ms where ms: "hnode (phdr u) = update_node x # ms" using U by (cases "hnode (phdr u)") (auto simp: ready_def wf_hdr_def)
  have "current_edge p = Inr \<lparr>idx = 0, visited = False\<rparr>"
    using U by (simp add: current_edge_def current_node_def current_index_def p ms int_at_def update_node_def)
  moreover from this have "dst_next p = Some x"
    using U by (simp add: dst_next_def p ms update_node_def CLICK_XIA_XID_EDGE_UNUSED_def)
  ultimately have once: "route_once junk p r =
      map_option (\<lambda>res. bind_run res (\<lambda>(outs, tab). after_tables t outs (r\<lparr>tables := (tables r)(t := tab)\<rparr>)))
        (route_table_push junk p ?T)"
    using route_once_classified [OF p(1)] p(4) t by (simp add: CLICK_XIA_XID_EDGE_NUM_def)
  have pay: "XIAHeader_payload (phdr p) (body p) = Inr 0" using U p by (simp add: control_payload)
  have "\<exists>T1. process_xcmp_redirect junk p ?T = Some (Inr T1) \<and> redirected ?T x y T1"
    using U by (intro redirect_route [OF _ pay xy tab(2)]) (simp add: p)
  then obtain T1 where 1: "process_xcmp_redirect junk p ?T = Some (Inr T1)" "redirected ?T x y T1" by blast
  then have "route_table_push junk p ?T = Some (Inr ([], T1))"
    using tab(1) by (simp add: route_table_push_def p(5))
  then have "XIAPacketRoute (Suc n) junk (XIAPaint_simple_action REDIRECT u) r
      = Some (Inr ([], r\<lparr>tables := (tables r)(t := T1)\<rparr>))"
    using once by (simp add: XIAPacketRoute_def flip: p_def)
  then show ?thesis using 1(2) by (intro exI [of _ "r\<lparr>tables := (tables r)(t := T1)\<rparr>"]) simp
qed

text \<open>What a host makes of a redirect message with the payload of \<open>q\<close> that reaches it.\<close>

definition delivered_as :: "packet \<Rightarrow> packet \<Rightarrow> bool" where
  "delivered_as q p \<longleftrightarrow> unflagged p \<and> body p = body q \<and> nxt (phdr p) = nxt (phdr q) \<and> plen (phdr p) = plen (phdr q)
     \<and> good_address (src_path (phdr p)) \<and> good_address (dst_path (phdr p))"

lemma redirect_delivered:
  assumes q: "redirect_to x y (body q)" "length (body q) < 1500" "hd (body q) = XCMP_REDIRECT" "nxt (phdr q) = CLICK_XIA_NXT_XCMP"
      "XIAHeader_plen (phdr q) = of_nat (length (body q))"
    and p: "delivered_as q p" and xy: "canonical_xid x" "canonical_xid y" and b: "good_address b"
  shows "\<exists>u b1. XCMP_push mem p b = Some (Inr ([New 1 u, Kill, Kill], b1)) \<and> same_path b1 b
    \<and> XIA_PAINT_ANNO u = 1 \<and> route_update x y u"
proof -
  note P = p [unfolded delivered_as_def]
  have "52 \<le> length (body q)" using q(1) by (simp add: redirect_to_def)
  then have "control_packet XCMP_REDIRECT p" using P q(3,4) by (auto simp: control_packet_def)
  moreover have "unat (XIAHeader_plen (phdr p)) = length (body p)"
    using P q(2,5) by (simp add: XIAHeader_plen_def unsigned_of_nat take_bit_nat_eq_self)
  ultimately show ?thesis
    using P q(1) xy b \<open>52 \<le> length (body q)\<close> by (intro redirect_received) simp_all
qed

lemma redirect_reported:
  fixes p :: packet
  assumes "XIA_PAINT_ANNO p \<le> - TOTAL_SPECIAL_CASES" and p: "reportable p XCMP_REDIRECT off" "current_node (phdr p) = Inr m"
    and s: "good_address (src_path (phdr p))" and a: "good_address a"
    and xy: "canonical_xid (nxid m)" "canonical_xid (nexthop_neighbor_xid_anno p)" and t: "principal_of (nxid m) = Some t"
  shows "\<exists>q a1. XCMP_push mem p a = Some (Inr ([New 0 q, Kill], a1)) \<and> same_path a1 a \<and> control_message p a (body q) q
    \<and> (\<forall>p1 b r. delivered_as q p1 \<and> good_address b \<and> principal_type_enabled (tables r t) \<noteq> 0 \<and> good_address (local_addr (tables r t)) \<longrightarrow>
        (\<exists>u b1 r1. XCMP_push mem1 p1 b = Some (Inr ([New 1 u, Kill, Kill], b1)) \<and> same_path b1 b \<and> XIAPaintSwitch_push 2 u = [(1, u)]
          \<and> XIAPacketRoute (Suc n) junk (XIAPaint_simple_action REDIRECT u) r = Some (Inr ([], r1))
          \<and> redirected (tables r t) (nxid m) (nexthop_neighbor_xid_anno p) (tables r1 t)
          \<and> (\<forall>t'. t' \<noteq> t \<longrightarrow> tables r1 t' = tables r t') \<and> gprp r1 = gprp r))"
proof -
  let ?x = "nxid m" and ?y = "nexthop_neighbor_xid_anno p"
  have wf: "wf_xid ?x" "wf_xid ?y" and pr: "\<exists>w. XID_unparse ?x = Inr w" using xy known_prints by (auto simp: canonical_xid_def)
  obtain a1 where 1: "print_path (node_junk mem 2) a = Some (Inr a1)" "good_address a1" "same_path a1 a"
    using print_path_ok [OF a] by blast
  obtain a2 where 2: "print_path (node_junk mem 4) a1 = Some (Inr a2)" "same_path a2 a1" using print_path_ok [OF 1(2)] by blast
  obtain s1 where 3: "print_path (node_junk mem 3) (src_path (phdr p)) = Some (Inr s1)" using print_path_ok [OF s] by blast
  obtain q where q: "sendXCMPPacket mem p XCMP_REDIRECT XCMP_REDIRECT_HOST (Some (?x, ?y)) (Some a1) = Inr [New 0 q]"
      "control_message p a1 (body q) q" "take 2 (body q) = [XCMP_REDIRECT, XCMP_REDIRECT_HOST]"
      "drop 52 (body q) = hdr_bytes (phdr p) @ take 8 (drop off (body p))" "take 48 (drop 4 (body q)) = XID_data ?x @ XID_data ?y"
    using reported [OF p(1) _ 1(2), where addrs = "Some (?x, ?y)" and mem = mem and code = XCMP_REDIRECT_HOST] wf by (auto simp: xcmp_types)
  have "XCMP_push mem p a = Some (Inr ([New 0 q, Kill], a2))"
    using assms(1) p(2) pr 1(1) 2(1) 3 q(1) by (auto simp: XCMP_push_def processPacket_def processBadForwarding_def Let_def)
  moreover have C: "control_message p a (body q) q" "same_path a2 a"
    using control_message_same [OF 1(3) q(2)] same_path_trans [OF 2(2) 1(3)] by blast+
  moreover have "\<exists>u b1 r1. XCMP_push mem1 p1 b = Some (Inr ([New 1 u, Kill, Kill], b1)) \<and> same_path b1 b \<and> XIAPaintSwitch_push 2 u = [(1, u)]
      \<and> XIAPacketRoute (Suc n) junk (XIAPaint_simple_action REDIRECT u) r = Some (Inr ([], r1))
      \<and> redirected (tables r t) ?x ?y (tables r1 t) \<and> (\<forall>t'. t' \<noteq> t \<longrightarrow> tables r1 t' = tables r t') \<and> gprp r1 = gprp r"
    if "delivered_as q p1" "good_address b" "principal_type_enabled (tables r t) \<noteq> 0" "good_address (local_addr (tables r t))" for p1 b r
  proof -
    note T = that
    have "length (drop 52 (body q)) = hdr_size (phdr p) + 8"
      using p(1) hdr_size_bytes q(4) by (auto simp: reportable_def)
    then have "redirect_to ?x ?y (body q)" "length (body q) < 1500"
      using p(1) q(5) by (auto simp: redirect_to_def reportable_def xcmp_length_def xcmp_types Let_def)
    moreover have "hd (body q) = XCMP_REDIRECT" using q(3) by (cases "body q") auto
    ultimately obtain u b1 where u: "XCMP_push mem1 p1 b = Some (Inr ([New 1 u, Kill, Kill], b1))" "same_path b1 b"
        "XIA_PAINT_ANNO u = 1" "route_update ?x ?y u"
      using redirect_delivered [OF _ _ _ _ _ T(1) xy T(2), where mem = mem1] C(1) unfolding control_message_def addressed_def by blast
    moreover have "paint_anno u = word_of_int (XIA_PAINT_ANNO u)" by (simp add: XIA_PAINT_ANNO_def)
    then have "XIAPaintSwitch_push 2 u = [(1, u)]" by (simp add: XIAPaintSwitch_push_def Let_def u(3))
    ultimately show ?thesis using update_applied [OF u(4) xy(1) wf(2) t T(3,4), where n = n and junk = junk] by blast
  qed
  ultimately show ?thesis by blast
qed

text \<open>
  C4. A redirect takes effect at the sender. A packet comes in on an interface and the routing process finds, after edges
  without a way, a route that leads out of the same interface over the next hop \<open>y\<close>. It forwards the packet and gives a copy
  to \<^verbatim>\<open>XCMP\<close>, which reports to the source of the packet; the report names the last node \<open>x\<close> the packet has visited and \<open>y\<close>. At
  the host that receives the report, \<^verbatim>\<open>XCMP\<close> makes one route update of it, whose destination is \<open>x\<close>; the paint switch and
  the \<^verbatim>\<open>REDIRECT\<close> paint bring it to the routing process, which then holds a route for \<open>x\<close> with next hop \<open>y\<close>. A route
  that was there keeps its port and its flags, a new one has no flags and goes to the default port or the local host, and
  nothing else of the routing process changes but the order numbers of a printed address. The packet has eight bytes of payload and a
  header whose report stays below 1,500 bytes, the addresses are valid and the XIDs are of known types.
\<close>

theorem redirect_takes_effect:
  fixes p :: packet
  assumes "ready p" "k < CLICK_XIA_XID_EDGE_NUM" "\<forall>j < k. \<exists>t d. edge_route r0 p j = Some (t, d) \<and> no_way (rport d)"
    and "edge_route r0 p k = Some (t0, d0)" "0 \<le> rport d0" "rport d0 + TOTAL_SPECIAL_CASES \<le> 2 ^ 15"
    and "XIA_PAINT_ANNO p = rport d0" "rnexthop d0 = Some y" "active (gprp r0)" "1 < hlim (phdr p)" "k < n0"
    and "reportable p XCMP_REDIRECT off" "current_node (phdr p) = Inr m" "good_address (src_path (phdr p))" "good_address a"
    and "canonical_xid (nxid m)" "canonical_xid y" "principal_of (nxid m) = Some t"
  shows "\<exists>w q0 q a1. XIAPacketRoute n0 junk0 p r0 = Some (Inr ([To_XCMP w, Forward q0], r0)) \<and> XIA_PAINT_ANNO q0 = XIA_PAINT_ANNO p
    \<and> XCMP_push mem w a = Some (Inr ([New 0 q, Kill], a1)) \<and> same_path a1 a \<and> control_message p a (body q) q
    \<and> (\<forall>p1 b r. delivered_as q p1 \<and> good_address b \<and> principal_type_enabled (tables r t) \<noteq> 0 \<and> good_address (local_addr (tables r t)) \<longrightarrow>
        (\<exists>u b1 r1. XCMP_push mem1 p1 b = Some (Inr ([New 1 u, Kill, Kill], b1)) \<and> same_path b1 b \<and> XIAPaintSwitch_push 2 u = [(1, u)]
          \<and> XIAPacketRoute (Suc n) junk (XIAPaint_simple_action REDIRECT u) r = Some (Inr ([], r1))
          \<and> redirected (tables r t) (nxid m) y (tables r1 t)
          \<and> (\<forall>t'. t' \<noteq> t \<longrightarrow> tables r1 t' = tables r t') \<and> gprp r1 = gprp r))"
proof -
  have "0 \<le> XIA_PAINT_ANNO p" "rport d0 < 2 ^ 15" using assms(5-7) by (simp_all add: TOTAL_SPECIAL_CASES_def)
  from fallback_order [OF assms(1-4) this(1) assms(5) this(2) assms(9-11), of junk0]
  obtain w q0 where 1: "XIAPacketRoute n0 junk0 p r0 = Some (Inr ([To_XCMP w, Forward q0], r0))" "XIA_PAINT_ANNO q0 = rport d0"
      "notice p d0 w"
    using assms(7) by auto
  then have w: "phdr w = phdr p" "body w = body p" "nexthop_neighbor_xid_anno w = y" "XIA_PAINT_ANNO w \<le> - TOTAL_SPECIAL_CASES"
    using assms(5,6,8) by (simp_all add: notice_def)
  have r: "reportable w XCMP_REDIRECT off = reportable p XCMP_REDIRECT off"
    by (simp add: reportable_def xcmp_length_def w)
  have c: "control_message w = control_message p"
    by (intro ext) (simp add: control_message_def addressed_def w)
  note R = redirect_reported [of w off m a t mem mem1 n junk, unfolded r c w(1,3), OF w(4) assms(12-18)]
  have q0: "XIA_PAINT_ANNO q0 = XIA_PAINT_ANNO p" using 1(2) assms(7) by simp
  show ?thesis by (rule exI [of _ w], rule exI [of _ q0]) (use R 1(1) q0 in blast)
qed

text \<open>A packet that comes in on port 2; the sample router sends it there again, with the host with number 8 as the next hop.\<close>

definition misrouted_packet :: packet where
  "misrouted_packet =
     (sample_packet (sample_host 7) 2)\<lparr>body := [1, 2, 3, 4, 5, 6, 7, 8]\<rparr>"

lemma reportable_misrouted: "reportable misrouted_packet XCMP_REDIRECT 0"
proof -
  have "wf_hdr (phdr misrouted_packet)" "length (hnode (phdr misrouted_packet)) = 3" "hdr_size (phdr misrouted_packet) = 92"
    "XIAHeader_payload (phdr misrouted_packet) (body misrouted_packet) = Inr 0" "length (body misrouted_packet) = 8"
    by (simp_all add: misrouted_packet_def sample_packet_def wf_hdr_def wf_node_def wf_xid_def sample_host_def Let_def
        CLICK_XIA_XID_ID_LEN_def CLICK_XIA_XID_EDGE_NUM_def hdr_size_def XIAHeader_hdr_size_def XIAHeader_payload_def payload_loop.simps)
  then show ?thesis
    using good_sample_source [of "sample_host 7"] by (simp add: reportable_def xcmp_length_def Let_def xcmp_types misrouted_packet_def)
qed

text \<open>The report as it reaches the host with number 7.\<close>

definition arrived_report :: "packet \<Rightarrow> packet" where
  "arrived_report q =
     (control_sample XCMP_REDIRECT)\<lparr>phdr := (phdr (control_sample XCMP_REDIRECT))\<lparr>plen := plen (phdr q)\<rparr>, body := body q\<rparr>"

lemma delivered_arrived: "nxt (phdr q) = CLICK_XIA_NXT_XCMP \<Longrightarrow> delivered_as q (arrived_report q)"
proof -
  assume n: "nxt (phdr q) = CLICK_XIA_NXT_XCMP"
  let ?c = "control_sample XCMP_REDIRECT"
  have "dst_path (phdr (arrived_report q)) = dst_path (phdr ?c)" "src_path (phdr (arrived_report q)) = chain_path (sample_host 9) (sample_host 10)"
    by (simp_all add: arrived_report_def dst_path_def flip: sample_source [of "sample_host 7" 0] control_sample_simps(3) [of XCMP_REDIRECT])
      (simp add: src_path_def)
  moreover have "printable (\<lambda>_. []) (nodes (dst_path (phdr ?c)))"
    using default_prints known_prints [of "sample_host 7"] canonical_sample [of 7]
    by (auto simp: sample_dest printable_def XID_unparse_pretty_def canonical_xid_def)
  moreover have "unflagged (arrived_report q)" using control_sample_simps(1) [of XCMP_REDIRECT] by (simp add: unflagged_def arrived_report_def XIA_PAINT_ANNO_def)
  moreover have "nxt (phdr (arrived_report q)) = CLICK_XIA_NXT_XCMP"
    using control_sample_simps(2) [of XCMP_REDIRECT] by (simp add: arrived_report_def control_packet_def)
  ultimately show ?thesis
    using n good_sample_dest good_chain by (simp add: delivered_as_def good_address_def) (simp add: arrived_report_def)
qed

lemma misrouted_route:
  "edge_route sample_router misrouted_packet 0 = Some (HID, \<lparr>rport = 2, rflags = 0, rnexthop = Some (sample_host 8)\<rparr>)"
  by (simp add: edge_route_def dst_next_def current_edge_def current_node_def current_index_def int_at_def misrouted_packet_def
      sample_packet_def anno_defs principal_of_def sample_router_def empty_table_def Let_def
      CLICK_XIA_XID_EDGE_UNUSED_def route_for_def routes_of_def store_route_def sample_host_def htonl_types)

theorem redirect_takes_effect_witness:
  "\<exists>w q0 q a1 u b1 r1 d. XIAPacketRoute 1 (\<lambda>_. undefined) misrouted_packet sample_router = Some (Inr ([To_XCMP w, Forward q0], sample_router))
    \<and> XCMP_push blank_memory w diamond = Some (Inr ([New 0 q, Kill], a1))
    \<and> XCMP_push blank_memory (arrived_report q) diamond = Some (Inr ([New 1 u, Kill, Kill], b1))
    \<and> XIAPacketRoute 1 (\<lambda>_. undefined) (XIAPaint_simple_action REDIRECT u)
        \<lparr>tables = \<lambda>_. empty_table\<lparr>local_addr := diamond\<rparr>, gprp = \<lparr>active = True, hlim_drops = 0\<rparr>\<rparr> = Some (Inr ([], r1))
    \<and> routes_of (tables r1 HID) (To (sample_host 7)) = Some d \<and> rnexthop d = Some (sample_host 8)"
proof -
  let ?r = "\<lparr>tables = \<lambda>_. empty_table\<lparr>local_addr := diamond\<rparr>, gprp = \<lparr>active = True, hlim_drops = 0\<rparr>\<rparr>"
  let ?d = "\<lparr>rport = 2, rflags = 0, rnexthop = Some (sample_host 8)\<rparr>" and ?m = "hd (hnode (phdr misrouted_packet))"
  have p: "ready misrouted_packet" "XIA_PAINT_ANNO misrouted_packet = rport ?d" "1 < hlim (phdr misrouted_packet)"
    using reportable_misrouted
    by (simp_all add: ready_def reportable_def misrouted_packet_def sample_packet_def XIA_PAINT_ANNO_def Let_def)
  have m: "current_node (phdr misrouted_packet) = Inr ?m"
    by (simp add: misrouted_packet_def sample_packet_def current_node_def current_index_def int_at_def Let_def)
  have x: "nxid ?m = sample_host 7" by (simp add: misrouted_packet_def sample_packet_def Let_def)
  have xm: "canonical_xid (nxid ?m)" "principal_of (nxid ?m) = Some HID"
    unfolding x by (simp_all add: principal_of_def) (simp add: sample_host_def xid_type_defs)
  have s: "good_address (src_path (phdr misrouted_packet))"
    using good_chain [of "sample_host 9" "sample_host 10"] by (simp add: misrouted_packet_def sample_source)
  have act: "active (gprp sample_router)" by (simp add: sample_router_def)
  have R: "\<exists>w q0 q a1. XIAPacketRoute 1 (\<lambda>_. undefined) misrouted_packet sample_router = Some (Inr ([To_XCMP w, Forward q0], sample_router))
    \<and> XIA_PAINT_ANNO q0 = XIA_PAINT_ANNO misrouted_packet
    \<and> XCMP_push blank_memory w diamond = Some (Inr ([New 0 q, Kill], a1)) \<and> same_path a1 diamond \<and> control_message misrouted_packet diamond (body q) q
    \<and> (\<forall>p1 b r. delivered_as q p1 \<and> good_address b \<and> principal_type_enabled (tables r HID) \<noteq> 0 \<and> good_address (local_addr (tables r HID)) \<longrightarrow>
        (\<exists>u b1 r1. XCMP_push blank_memory p1 b = Some (Inr ([New 1 u, Kill, Kill], b1)) \<and> same_path b1 b \<and> XIAPaintSwitch_push 2 u = [(1, u)]
          \<and> XIAPacketRoute (Suc 0) (\<lambda>_. undefined) (XIAPaint_simple_action REDIRECT u) r = Some (Inr ([], r1))
          \<and> redirected (tables r HID) (nxid ?m) (sample_host 8) (tables r1 HID)
          \<and> (\<forall>t'. t' \<noteq> HID \<longrightarrow> tables r1 t' = tables r t') \<and> gprp r1 = gprp r))"
    by (rule redirect_takes_effect [OF p(1) _ _ misrouted_route _ _ p(2) _ act p(3) _ reportable_misrouted m s good_diamond xm(1) _ xm(2)])
      (simp_all add: CLICK_XIA_XID_EDGE_NUM_def TOTAL_SPECIAL_CASES_def)
  then obtain w q0 q a1 where 1: "XIAPacketRoute 1 (\<lambda>_. undefined) misrouted_packet sample_router = Some (Inr ([To_XCMP w, Forward q0], sample_router))"
      "XCMP_push blank_memory w diamond = Some (Inr ([New 0 q, Kill], a1))" "control_message misrouted_packet diamond (body q) q"
    and all: "\<forall>p1 b r. delivered_as q p1 \<and> good_address b \<and> principal_type_enabled (tables r HID) \<noteq> 0 \<and> good_address (local_addr (tables r HID)) \<longrightarrow>
        (\<exists>u b1 r1. XCMP_push blank_memory p1 b = Some (Inr ([New 1 u, Kill, Kill], b1)) \<and> same_path b1 b \<and> XIAPaintSwitch_push 2 u = [(1, u)]
          \<and> XIAPacketRoute (Suc 0) (\<lambda>_. undefined) (XIAPaint_simple_action REDIRECT u) r = Some (Inr ([], r1))
          \<and> redirected (tables r HID) (nxid ?m) (sample_host 8) (tables r1 HID)
          \<and> (\<forall>t'. t' \<noteq> HID \<longrightarrow> tables r1 t' = tables r t') \<and> gprp r1 = gprp r)"
    by (elim exE conjE)
  have d: "delivered_as q (arrived_report q)" using 1(3) delivered_arrived unfolding control_message_def addressed_def by blast
  have T: "principal_type_enabled (tables ?r HID) \<noteq> 0" "good_address (local_addr (tables ?r HID))"
    using good_diamond by (simp_all add: empty_table_def)
  from all [rule_format, OF conjI [OF d conjI [OF good_diamond conjI [OF T]]]]
  obtain u b1 r1 where 2: "XCMP_push blank_memory (arrived_report q) diamond = Some (Inr ([New 1 u, Kill, Kill], b1))"
      "XIAPacketRoute (Suc 0) (\<lambda>_. undefined) (XIAPaint_simple_action REDIRECT u) ?r = Some (Inr ([], r1))"
      "redirected (tables ?r HID) (nxid ?m) (sample_host 8) (tables r1 HID)" by (elim exE conjE)
  then obtain d where "routes_of (tables r1 HID) (To (sample_host 7)) = Some d" "rnexthop d = Some (sample_host 8)"
    unfolding redirected_def x by auto
  with 1 2(1,2) show ?thesis
    by (intro exI [of _ w] exI [of _ q0] exI [of _ q] exI [of _ a1] exI [of _ u] exI [of _ b1] exI [of _ r1] exI [of _ d]) simp
qed

end
