(* ===== verification/Xia_Route_Engine.thy ===== *)
theory Xia_Route_Engine
  imports Xia_Xcmp_Redirect
begin

text \<open>
  The routing engine (\<^verbatim>\<open>XIAPacketRoute\<close> and \<^verbatim>\<open>RouteEngine\<close> in \<^verbatim>\<open>conf/xia_router_lib.click\<close>): the routing
  process together with the two control elements, whose messages go back into it. Every packet that is pushed in is
  processed to the end, with all messages it gives rise to.
\<close>

section \<open>The elements and their connections\<close>

record engine =
  core :: router
  report_addr :: XIAPath
  unreach_addr :: XIAPath
  calls :: nat

text \<open>
  \<open>report_addr\<close> is the address of the control element inside \<^verbatim>\<open>XIAPacketRoute\<close> and \<open>unreach_addr\<close> that of the one
  in \<^verbatim>\<open>RouteEngine\<close>. \<open>calls\<close> counts the calls of the two, to number the memory they are given.
\<close>

datatype engine_output = Out_forward packet | Out_application packet | Out_cache packet | Out_dhcp packet

text \<open>Work that is left: a packet on its way into the routing process, and one that leaves it.\<close>

datatype engine_task = Route packet | Leave leaving

definition control_tasks :: "xcmp_event list \<Rightarrow> engine_task list" where
  "control_tasks evs = concat (map (\<lambda>ev. case ev of New port p \<Rightarrow> if port = 0 then [Route p] else [] | _ \<Rightarrow> []) evs)"

definition engine_leave ::
  "(nat \<Rightarrow> xcmp_memory) \<Rightarrow> leaving \<Rightarrow> engine \<Rightarrow> (engine_output list \<times> engine_task list \<times> engine) run option" where
  "engine_leave mem l e =
     (case l of
        Forward p \<Rightarrow> Some (Inr ([Out_forward p], [], e))
      | Arrived p \<Rightarrow>
          Some (bind_run (XIAXIDTypeClassifier_match [DST (htonl CLICK_XIA_XID_TYPE_CID), ANY] p) (\<lambda>i.
            Inr (case i of None \<Rightarrow> [] | Some k \<Rightarrow> if k = 0 then [Out_cache p] else [Out_application p], [], e)))
      | Unroutable p \<Rightarrow>
          seq_run (XCMP_push (mem (calls e)) (XIAPaint_simple_action UNREACHABLE p) (unreach_addr e)) (\<lambda>(evs, a).
            Some (Inr ([], control_tasks evs, e\<lparr>unreach_addr := a, calls := Suc (calls e)\<rparr>)))
      | To_DHCP p \<Rightarrow> Some (Inr ([Out_dhcp p], [], e))
      | To_XCMP p \<Rightarrow>
          seq_run (XCMP_push (mem (calls e)) p (report_addr e)) (\<lambda>(evs, a).
            Some (Inr ([], control_tasks evs, e\<lparr>report_addr := a, calls := Suc (calls e)\<rparr>))))"

text \<open>
  A packet that is pushed is processed before the element goes on, so new work comes first. \<open>k\<close> bounds the rounds of
  the routing process for one packet and the other number the pieces of work; \<open>None\<close> says that one of them did not suffice.
\<close>

fun engine_run ::
  "nat \<Rightarrow> nat \<Rightarrow> (nat \<Rightarrow> click_xia_xid_node) \<Rightarrow> (nat \<Rightarrow> xcmp_memory) \<Rightarrow> engine_task list \<Rightarrow> engine
     \<Rightarrow> (engine_output list \<times> engine) run option" where
  "engine_run k n junk mem [] e = Some (Inr ([], e))"
| "engine_run k 0 junk mem (t # ts) e = None"
| "engine_run k (Suc n) junk mem (Route p # ts) e =
     seq_run (XIAPacketRoute k junk p (core e)) (\<lambda>(ls, r).
       engine_run k n junk mem (map Leave ls @ ts) (e\<lparr>core := r\<rparr>))"
| "engine_run k (Suc n) junk mem (Leave l # ts) e =
     seq_run (engine_leave mem l e) (\<lambda>(outs, us, e1).
     seq_run (engine_run k n junk mem (us @ ts) e1) (\<lambda>(outs1, e2). Some (Inr (outs @ outs1, e2))))"

text \<open>
  A packet from the network is copied to the cache when it comes from a content XID; one from the host is not. The
  packets that leave the routing process are handled here after the last round of a packet, in their order; the configuration
  pushes each of them on at once, so that a report can pass the tables before the remaining rounds of its packet.
\<close>

definition RouteEngine_push ::
  "nat \<Rightarrow> nat \<Rightarrow> (nat \<Rightarrow> click_xia_xid_node) \<Rightarrow> (nat \<Rightarrow> xcmp_memory) \<Rightarrow> nat \<Rightarrow> packet \<Rightarrow> engine
     \<Rightarrow> (engine_output list \<times> engine) run option" where
  "RouteEngine_push k n junk mem port p e =
     (if port = 0 then
        seq_run (Some (XIAXIDTypeClassifier_match [SRC (htonl CLICK_XIA_XID_TYPE_CID), ANY] p)) (\<lambda>i.
          case i of None \<Rightarrow> Some (Inr ([], e))
          | Some c \<Rightarrow>
              seq_run (engine_run k n junk mem [Route p] e) (\<lambda>(outs, e1).
                Some (Inr ((if c = 0 then [Out_cache p] else []) @ outs, e1))))
      else engine_run k n junk mem [Route p] e)"

section \<open>Running out of work\<close>

lemma engine_run_more:
  "engine_run k n junk mem ts e = Some res \<Longrightarrow> engine_run k (n + m) junk mem ts e = Some res"
  by (induction k n junk mem ts e arbitrary: res rule: engine_run.induct)
    (auto simp: seq_run_def split: option.splits sum.splits prod.splits)

lemma engine_run_append:
  "engine_run k n junk mem ts e = Some (Inr (o1, e1)) \<Longrightarrow> engine_run k m junk mem us e1 = Some r \<Longrightarrow>
    engine_run k (n + m) junk mem (ts @ us) e = Some (bind_run r (\<lambda>(o2, e2). Inr (o1 @ o2, e2)))"
proof (induction k n junk mem ts e arbitrary: o1 rule: engine_run.induct)
  case (1 k n junk mem e)
  then show ?case
    using engine_run_more [of k m junk mem us e r n] by (cases r) (auto simp: add.commute)
next
  case (4 k n junk mem l ts e)
  then show ?case by (cases r) (fastforce simp: seq_run_def split: option.splits sum.splits prod.splits)+
qed (auto simp: seq_run_def split: option.splits sum.splits prod.splits)

lemma engine_run_fault:
  "engine_run k n junk mem ts e = Some (Inl f) \<Longrightarrow> engine_run k n junk mem (ts @ us) e = Some (Inl f)"
  by (induction k n junk mem ts e rule: engine_run.induct)
    (auto simp: seq_run_def split: option.splits sum.splits prod.splits)

end
