(* ===== verification/Xia_Route_Engine_Ends.thy ===== *)
theory Xia_Route_Engine_Ends
  imports Xia_Route_Engine
begin

text \<open>
  The routing engine processes every packet to the end. Reports about packets go back into the routing process, but a
  report of an undeliverable packet is never answered, and no report is redirected or expires where it was made, so
  that at most two reports follow each other.
\<close>

section \<open>Printing returns\<close>

lemma ordering_ends: "topological_ordering p = Inr (b, q) \<Longrightarrow> src q = src p \<and> dst q = dst p"
  by (auto simp: topological_ordering_def Let_def)

lemma is_valid_ends: "is_valid p = Inr (b, q) \<Longrightarrow> src q = src p \<and> dst q = dst p"
  by (auto simp: is_valid_def Let_def split: if_splits option.splits dest: ordering_ends)

lemma unparse_node_ends: "unparse_node buf n p = Inr (m, ms, q) \<Longrightarrow> src q = src p \<and> dst q = dst p"
  by (auto simp: unparse_node_def Let_def split: if_splits dest: ordering_ends)

lemma unparse_re_keeps_ends: "unparse_re rq p = Some (Inr (s, q)) \<Longrightarrow> src q = src p \<and> dst q = dst p"
  by (auto simp: unparse_re_def split: sum.splits if_splits dest: is_valid_ends)

lemma unparse_keeps_ends: "XIAPath_unparse rq buf p = Some (Inr (s, q)) \<Longrightarrow> src q = src p \<and> dst q = dst p"
  by (auto simp: XIAPath_unparse_def unparse_dag_def Let_def split: if_splits
      dest!: unparse_re_keeps_ends is_valid_ends unparse_node_ends)

lemma unparse_re_always: "\<exists>r. unparse_re rq p = Some r"
proof (cases "is_valid p")
  case (Inr v)
  obtain b q where v: "v = (b, q)" by (cases v)
  show ?thesis
  proof (cases b)
    case True
    with Inr v show ?thesis using unparse_re_ends is_valid_true(1) by simp
  next
    case False
    with Inr v show ?thesis by (simp add: unparse_re_def)
  qed
qed (simp add: unparse_re_def)

lemma print_path_returns: "returns (print_path junk p) (\<lambda>q. good_path p \<longrightarrow> good_path q)"
proof -
  obtain r where r: "XIAPath_unparse (\<lambda>_. []) (map junk [0..<unparse_node_size p]) p = Some r"
    using unparse_re_always [of "\<lambda>_. []" p] by (auto simp: XIAPath_unparse_def)
  have "good_path q" if "r = Inr (s, q)" "good_path p" for s q
  proof (rule good_path_same [OF _ that(2)])
    have "wf_graph (nodes p)" using that(2) is_valid_true(1) by (auto simp: good_path_def)
    from XIAPath_unparse_ends [OF this, of "\<lambda>_. []" "map junk [0..<unparse_node_size p]"] r that(1) show "same_path q p"
      using unparse_keeps_ends [of "\<lambda>_. []" "map junk [0..<unparse_node_size p]" p s q] by (auto simp: same_path_def)
  qed
  with r show ?thesis by (cases r) (auto simp: print_path_def returns_def)
qed

lemmas print_returns = print_path_returns [THEN returns_mono]

section \<open>Renamed paths\<close>

lemma edge_rel_iso:
  assumes iso: "path_iso f p q" and wf: "wf_graph (nodes p)"
  shows "edge_rel (nodes q) = map_prod f f ` edge_rel (nodes p)"
proof -
  have f: "f ` {..<length (nodes p)} = {..<length (nodes q)}"
    and e: "\<And>i. i < length (nodes p) \<Longrightarrow> edges (nodes q ! f i) = map f (edges (nodes p ! i))"
    using iso by (auto simp: path_iso_def bij_betw_def)
  show ?thesis
  proof (intro set_eqI iffI)
    fix uv
    assume "uv \<in> edge_rel (nodes q)"
    then obtain u v where uv: "uv = (u, v)" "u < length (nodes q)" "v \<in> set (edges (nodes q ! u))" by (auto simp: edge_rel_def)
    then obtain i where "i < length (nodes p)" "u = f i" using f by blast
    with uv e show "uv \<in> map_prod f f ` edge_rel (nodes p)" by (force simp: edge_rel_def)
  next
    fix uv
    assume "uv \<in> map_prod f f ` edge_rel (nodes p)"
    then obtain i j where "uv = (f i, f j)" "i < length (nodes p)" "j \<in> set (edges (nodes p ! i))" by (auto simp: edge_rel_def)
    with f e show "uv \<in> edge_rel (nodes q)" by (auto simp: edge_rel_def)
  qed
qed

lemma good_path_iso:
  assumes iso: "path_iso f p q" and p: "good_path p"
  shows "good_path q"
proof -
  let ?n = "length (nodes p)"
  obtain p' where v: "is_valid p = Inr (True, p')" using p by (auto simp: good_path_def)
  note t = is_valid_true [OF v]
  have shape: "valid_shape p" using is_valid_iff [OF t(1)] v by blast
  have inj: "inj_on f {..<?n}" and f: "f ` {..<?n} = {..<length (nodes q)}" and ends: "f (src p) = src q" "f (dst p) = dst q"
    and e: "\<And>i. i < ?n \<Longrightarrow> edges (nodes q ! f i) = map f (edges (nodes p ! i))"
    and x: "\<And>i. i < ?n \<Longrightarrow> i \<noteq> src p \<Longrightarrow> pxid (nodes q ! f i) = pxid (nodes p ! i)"
    using iso by (auto simp: path_iso_def bij_betw_def)
  have len: "length (nodes q) = ?n" using card_image [OF inj] f by simp
  have at: "\<exists>i < ?n. j = f i" if "j < length (nodes q)" for j using f that by blast
  have rel: "edge_rel (nodes q) = map_prod f f ` edge_rel (nodes p)" by (rule edge_rel_iso [OF iso t(1)])
  have "wf_graph (nodes q)"
    unfolding wf_graph_def
  proof (intro ballI)
    fix m a
    assume m: "m \<in> set (nodes q)" "a \<in> set (edges m)"
    then obtain i where i: "i < ?n" "m = nodes q ! f i" using at by (metis in_set_conv_nth)
    with m(2) e obtain b where "b \<in> set (edges (nodes p ! i))" "a = f b" by auto
    moreover from this have "b < ?n" using wf_graph_edges [OF t(1) i(1)] by blast
    ultimately show "a < length (nodes q)" using f by auto
  qed
  moreover have "valid_shape q"
    unfolding valid_shape_def Let_def
  proof (intro conjI allI impI)
    have s: "src p < ?n" "dst p < ?n" "src p \<noteq> dst p" using shape by (simp_all add: valid_shape_def Let_def)
    show "src q < length (nodes q)" "dst q < length (nodes q)" using s f ends by force+
    show "src q \<noteq> dst q" using s inj ends by (metis inj_on_contraD lessThan_iff)
    fix j
    assume "j < length (nodes q)"
    then obtain i where i: "i < ?n" "j = f i" using at by blast
    show "edges (nodes q ! j) = [] \<Longrightarrow> j = dst q" "length (edges (nodes q ! j)) \<le> 4"
      using shape i e ends by (auto simp: valid_shape_def Let_def)
    assume "j \<noteq> src q"
    then have "i \<noteq> src p" using i ends by auto
    then obtain u where "(u, i) \<in> edge_rel (nodes p)" using valid_only_source [OF shape i(1)] by blast
    then show "\<exists>u. (u, j) \<in> edge_rel (nodes q)" using i rel by force
  qed
  moreover have "acyclic (edge_rel (nodes q))"
  proof (rule ranked_acyclic [where f = "\<lambda>j. order (nodes p' ! inv_into {..<?n} f j)"])
    fix u w
    assume "(u, w) \<in> edge_rel (nodes q)"
    then obtain a b where ab: "(a, b) \<in> edge_rel (nodes p)" "u = f a" "w = f b" unfolding rel by auto
    have "a < ?n" "b < ?n" using path_sort.rel_range [OF t(1) ab(1)] by auto
    then show "order (nodes p' ! inv_into {..<?n} f u) < order (nodes p' ! inv_into {..<?n} f w)"
      using path_sort.sort_edge [OF t(1,3) ab(1)] ab(2,3) inj by simp
  qed
  ultimately have "\<exists>q'. is_valid q = Inr (True, q')" using is_valid_iff by blast
  moreover have "wf_xids q"
    unfolding wf_xids_def
  proof (intro allI impI)
    fix j
    assume j: "j < length (nodes q)" "j \<noteq> src q"
    then obtain i where i: "i < ?n" "j = f i" using at by blast
    with j(2) ends have "i \<noteq> src p" by auto
    with i x p show "wf_xid (pxid (nodes q ! j))" by (simp add: good_path_def wf_xids_def)
  qed
  ultimately show ?thesis using p len by (simp add: good_path_def)
qed

section \<open>The control element returns\<close>

text \<open>A new control message, as the routing process gets it.\<close>

definition message :: "u8 \<Rightarrow> packet \<Rightarrow> bool" where
  "message type u \<longleftrightarrow> ready u \<and> forward_edges (phdr u) \<and> hlast (phdr u) = - 1 \<and> nxt (phdr u) = CLICK_XIA_NXT_XCMP
     \<and> body u \<noteq> [] \<and> hd (body u) = type \<and> XIA_PAINT_ANNO u = DESTINED_FOR_LOCALHOST \<and> hlim (phdr u) = 250
     \<and> good_path (src_path (phdr u)) \<and> good_path (dst_path (phdr u))"

text \<open>A packet whose two addresses are valid paths.\<close>

definition good_ends :: "packet \<Rightarrow> bool" where
  "good_ends p \<longleftrightarrow> good_path (src_path (phdr p)) \<and> good_path (dst_path (phdr p))"

definition only_messages :: "u8 set \<Rightarrow> xcmp_event list \<times> XIAPath \<Rightarrow> bool" where
  "only_messages T r \<longleftrightarrow> good_path (snd r) \<and> (\<forall>u. New 0 u \<in> set (fst r) \<longrightarrow> (\<exists>type\<in>T. message type u))"

lemma only_messages_mono: "only_messages S r \<Longrightarrow> S \<subseteq> T \<Longrightarrow> only_messages T r"
  unfolding only_messages_def by blast

lemma xcmp_message_type: "xcmp_message mem p type code addrs = Inr msg \<Longrightarrow> msg \<noteq> [] \<and> hd msg = type"
  by (auto simp: xcmp_message_def Let_def blit_def split: if_splits)

lemma send_message:
  assumes "sendXCMPPacket mem p type code addrs source = Inr evs" "good_ends p"
    and "source = None \<or> (\<exists>s. source = Some s \<and> good_path s)" "good_path a"
  shows "only_messages {type} (evs, a)"
proof -
  let ?s = "case source of Some s \<Rightarrow> s | None \<Rightarrow> dst_path (phdr p)"
  obtain msg where m: "xcmp_message mem p type code addrs = Inr msg" using assms(1) by (auto simp: sendXCMPPacket_def)
  have s: "good_path (src_path (phdr p))" "good_path ?s" using assms(2,3) by (auto simp: good_ends_def)
  obtain u where u: "evs = [New 0 u]" "addressed p ?s msg u" using send_addressed [OF m s] assms(1) by auto
  then have "good_path (src_path (phdr u))" "good_path (dst_path (phdr u))"
    using good_path_iso s by (auto simp: addressed_def)
  with u xcmp_message_type [OF m] assms(4) show ?thesis
    by (auto simp: only_messages_def message_def addressed_def)
qed

lemmas returns_steps = returns_seq [OF print_path_returns] returns_seq [OF returns_result]

lemma process_returns:
  assumes "good_ends p" "good_path a"
  shows "returns (processBadForwarding mem p a) (only_messages {XCMP_REDIRECT})"
    and "returns (processExpired mem p a) (only_messages {XCMP_TIMXCEED})"
    and "returns (gotPing mem p a) (only_messages {XCMP_ECHOREPLY})"
  unfolding processBadForwarding_def processExpired_def gotPing_def
  by (intro returns_steps; use assms in \<open>auto intro: send_message\<close>)+

lemma only_messages_Nil: "only_messages T ([], a) \<longleftrightarrow> good_path a"
  by (simp add: only_messages_def)

lemma unreachable_returns:
  assumes "good_ends p" "good_path a"
  shows "returns (processUnreachable mem p a) (only_messages (if control_packet XCMP_UNREACH p then {} else {XCMP_UNREACH}))"
proof (cases "control_packet XCMP_UNREACH p")
  case True
  then have "body p \<noteq> []" "nxt (phdr p) = CLICK_XIA_NXT_XCMP" "hd (body p) = XCMP_UNREACH" by (simp_all add: control_packet_def)
  then have "processUnreachable mem p a = Some (Inr ([], a))"
    using control_payload [of p "body p"] by (cases "body p") (simp_all add: processUnreachable_def)
  with True assms(2) show ?thesis by (simp add: only_messages_Nil)
next
  case False
  have print: "returns (seq_run (print_path j1 a) (\<lambda>a1. seq_run (print_path j2 s) (\<lambda>_. seq_run (print_path j3 d) (\<lambda>_. Some (Inr a1))))) good_path"
    for j1 j2 j3 s d by (intro returns_steps) (use assms(2) in auto)
  have re: "returns (unparse_re (\<lambda>_. []) d) (\<lambda>_. True)" for d using unparse_re_always [of "\<lambda>_. []" d] by (auto simp: returns_def)
  have send: "returns (seq_run (Some (sendXCMPPacket mem p XCMP_UNREACH XCMP_UNREACH_HOST None (Some a1))) (\<lambda>evs.
      seq_run (print_path (node_junk mem 5) a1) (\<lambda>a2.
      seq_run (print_path (node_junk mem 6) (src_path (phdr p))) (\<lambda>_. Some (Inr (evs, a2)))))) (only_messages {XCMP_UNREACH})"
    if "good_path a1" for a1
    by (intro returns_steps) (use assms(1) that in \<open>auto intro: send_message\<close>)
  have "returns (processUnreachable mem p a) (only_messages {XCMP_UNREACH})"
    unfolding processUnreachable_def Let_def
    by (intro returns_seq [OF print] returns_seq [OF re] returns_steps returns_if returns_case_prod send)
      (use assms(2) in \<open>simp_all add: only_messages_Nil\<close>)
  with False show ?thesis by simp
qed

lemma got_returns:
  assumes "good_path a"
  shows "returns (gotPong mem p a) (only_messages T)" "returns (gotExpired mem p a) (only_messages T)"
    "returns (gotUnreachable mem p a) (only_messages T)" "returns (gotRedirect mem p a) (only_messages T)"
  unfolding gotPong_def gotExpired_def gotUnreachable_def gotRedirect_def Let_def case_prod_unfold
  by (intro returns_steps; use assms in \<open>simp add: only_messages_def sendUp_def\<close>)+

definition answers :: "u8 set" where
  "answers = {XCMP_ECHOREPLY, XCMP_UNREACH, XCMP_REDIRECT, XCMP_TIMXCEED}"

lemma in_answers: "XCMP_ECHOREPLY \<in> answers" "XCMP_UNREACH \<in> answers" "XCMP_REDIRECT \<in> answers" "XCMP_TIMXCEED \<in> answers"
  by (simp_all add: answers_def)

lemma push_kill:
  "returns (seq_run m (\<lambda>(evs, a). Some (Inr (evs @ [Kill], a)))) (only_messages T) \<longleftrightarrow> returns m (only_messages T)"
  by (cases m) (auto simp: returns_def seq_run_def only_messages_def split: sum.splits)

lemma XCMP_push_returns:
  assumes "good_ends p" "good_path a"
  shows "returns (XCMP_push mem p a) (only_messages answers)"
proof -
  have sub: "returns m (only_messages {t}) \<Longrightarrow> t \<in> answers \<Longrightarrow> returns m (only_messages answers)" for m t
    by (erule returns_mono) (erule only_messages_mono, simp)
  have "returns (processUnreachable mem p a) (only_messages {XCMP_UNREACH})"
    using unreachable_returns [OF assms, of mem] by (rule returns_mono) (erule only_messages_mono, simp)
  with process_returns [OF assms, of mem] have
    r: "returns (processBadForwarding mem p a) (only_messages answers)" "returns (processUnreachable mem p a) (only_messages answers)"
      "returns (processExpired mem p a) (only_messages answers)" "returns (gotPing mem p a) (only_messages answers)"
    by (auto elim: sub simp: in_answers)
  have "returns (gotXCMPPacket mem p a) (only_messages answers)"
    unfolding gotXCMPPacket_def
    by (intro returns_steps returns_if r(4) got_returns assms(2)) (simp add: only_messages_Nil assms(2))
  with r(1-3) show ?thesis
    unfolding XCMP_push_def processPacket_def Let_def
    by (auto intro!: returns_seq [where P = "\<lambda>x. case x of None \<Rightarrow> True | Some y \<Rightarrow> only_messages answers y"]
        simp: push_kill only_messages_Nil assms(2) split: option.splits elim!: returns_seq)
qed

lemma XCMP_unreachable_returns:
  assumes "good_ends p" "good_path a"
  shows "returns (XCMP_push mem (XIAPaint_simple_action UNREACHABLE p) a)
    (only_messages (if control_packet XCMP_UNREACH p then {} else {XCMP_UNREACH}))"
proof -
  let ?p = "XIAPaint_simple_action UNREACHABLE p"
  have p: "good_ends ?p" "control_packet XCMP_UNREACH ?p = control_packet XCMP_UNREACH p" "XIA_PAINT_ANNO ?p = UNREACHABLE"
    using assms(1) by (simp_all add: good_ends_def control_packet_def XIAPaint_simple_action_def anno_defs UNREACHABLE_def sint_16_of_int)
  have "XCMP_push mem ?p a = seq_run (processUnreachable mem ?p a) (\<lambda>(evs, a1). Some (Inr (evs @ [Kill], a1)))"
    using p(3) by (cases "processUnreachable mem ?p a" rule: option.exhaust [case_names None Some])
      (auto simp: XCMP_push_def processPacket_def Let_def UNREACHABLE_def TOTAL_SPECIAL_CASES_def seq_run_def split: sum.splits)
  with unreachable_returns [OF p(1) assms(2), of mem] p(2) show ?thesis by (simp add: push_kill)
qed

section \<open>Packets in the routing process\<close>

text \<open>What may leave: the packet itself, and for the control element only a packet with a problem.\<close>

definition leaf_ok :: "packet \<Rightarrow> leaving \<Rightarrow> bool" where
  "leaf_ok p l \<longleftrightarrow> (case l of Forward q \<Rightarrow> sent p q | Arrived q \<Rightarrow> moved p q | Unroutable q \<Rightarrow> moved p q | To_DHCP q \<Rightarrow> moved p q
     | To_XCMP q \<Rightarrow> moved p q \<and> (XIA_PAINT_ANNO p = DESTINED_FOR_LOCALHOST \<longrightarrow> hlim (phdr p) \<le> 1))"

text \<open>What a table pushes for \<open>p\<close>, on which port.\<close>

definition pushed_ok :: "packet \<Rightarrow> nat \<times> packet \<Rightarrow> bool" where
  "pushed_ok p out \<longleftrightarrow> (case out of (port, q) \<Rightarrow> phdr q = phdr p \<and> body q = body p \<and> port \<le> 4
     \<and> (port = 1 \<or> port = 2 \<longrightarrow> paint_anno q = paint_anno p) \<and> (port = 4 \<longrightarrow> XIA_PAINT_ANNO p \<noteq> DESTINED_FOR_LOCALHOST))"

lemma push_outs:
  assumes "route_table_push junk p t = Some (Inr (outs, t1))" "out \<in> set outs"
  shows "pushed_ok p out"
proof (cases "principal_type_enabled t = 0 \<or> XIA_PAINT_ANNO p = REDIRECT")
  case True
  with assms show ?thesis
    by (cases "process_xcmp_redirect junk p t") (auto simp: pushed_ok_def route_table_push_def Let_def split: if_splits)
next
  case False
  with assms(1) obtain k p1 where l: "lookup_route (XIA_PAINT_ANNO p) p t = Inr (k, p1, t1)"
    "outs = redirect_notice (XIA_PAINT_ANNO p) k p1 @ forward_port (num_ports t1) k p1"
    by (auto simp: route_table_push_def Let_def)
  have "phdr (snd out) = phdr p" "body (snd out) = body p" using push_packets [OF assms(1)] assms(2) by (metis prod.collapse)+
  moreover have "paint_anno p1 = paint_anno p"
    using l(1) by (auto simp: lookup_route_def annotate_nexthop_def set_nexthop_neighbor_xid_anno_def Let_def split: if_splits option.splits)
  ultimately show ?thesis
    using l(2) assms(2) by (auto simp: pushed_ok_def redirect_notice_def forward_port_def split: if_splits)
qed

lemma after_table_leaf:
  assumes a: "after_table t out r = Inr (ls, g, r1)" and out: "pushed_ok p out"
  shows "(\<forall>l\<in>set ls. leaf_ok p l) \<and> (\<forall>q. g = Some q \<longrightarrow> moved p q \<and> paint_anno q = paint_anno p)"
proof -
  obtain port p1 where o: "out = (port, p1)" by (cases out)
  have p: "phdr p1 = phdr p" "body p1 = body p" and port: "port \<le> 4" "port = 1 \<or> port = 2 \<longrightarrow> paint_anno p1 = paint_anno p"
      "port = 4 \<longrightarrow> XIA_PAINT_ANNO p \<noteq> DESTINED_FOR_LOCALHOST"
    using out by (simp_all add: pushed_ok_def o)
  have m: "moved p p1" by (rule moved_refl [OF p])
  consider "port = 0" | "port = 1" | "port = 2" | "port = 3" | "port = 4" using port(1) by linarith
  then show ?thesis
  proof cases
    case 2
    then obtain q where q: "XIANextHop_push p1 = Inr q" using a by (auto simp: after_table_def o)
    then have "moved p q" "paint_anno q = paint_anno p" using next_hop_moved [OF q] m moved_trans port(2) 2 by auto
    then show ?thesis
      using a q 2 by (auto simp: o after_table_def leaf_ok_def XIASelectPath_push_def moved_anno split: if_splits)
  qed (use a m p port moved_sent [OF m] in \<open>auto simp: o after_table_def post_route_def XIADecHLIM_simple_action_def leaf_ok_def
      XIASelectPath_push_def moved_anno Let_def split: if_splits prod.splits\<close>)
qed

lemma after_tables_leaf:
  assumes "after_tables t outs r = Inr (ls, g, r1)" "\<forall>out\<in>set outs. pushed_ok p out"
  shows "(\<forall>l\<in>set ls. leaf_ok p l) \<and> (\<forall>q. g = Some q \<longrightarrow> moved p q \<and> paint_anno q = paint_anno p)"
  using assms
proof (induction outs arbitrary: r ls g)
  case (Cons out outs)
  from Cons.prems(1) obtain ls1 g1 r2 ls2 g2 where 1: "after_table t out r = Inr (ls1, g1, r2)"
    "after_tables t outs r2 = Inr (ls2, g2, r1)" "ls = ls1 @ ls2" "g = (case g1 of None \<Rightarrow> g2 | Some q \<Rightarrow> Some q)"
    by auto
  have "pushed_ok p out" "\<forall>o1\<in>set outs. pushed_ok p o1" using Cons.prems(2) by simp_all
  from after_table_leaf [OF 1(1) this(1)] Cons.IH [OF 1(2) this(2)] 1(3,4) show ?case by (auto split: option.splits)
qed simp

lemma route_once_leaf:
  assumes "route_once junk p r = Some (Inr (ls, g, r1))"
  shows "(\<forall>l\<in>set ls. leaf_ok p l) \<and> (\<forall>q. g = Some q \<longrightarrow> moved p q \<and> paint_anno q = paint_anno p)"
proof -
  consider "ls = [] \<or> ls = [Unroutable p]" "g = None"
    | t outs tab where "route_table_push junk p (tables r t) = Some (Inr (outs, tab))"
      "after_tables t outs (r\<lparr>tables := (tables r)(t := tab)\<rparr>) = Inr (ls, g, r1)"
    using assms by (fastforce simp: route_once_def split: sum.splits option.splits)
  then show ?thesis
  proof cases
    case 1
    then show ?thesis by (auto simp: leaf_ok_def moved_refl)
  next
    case 2
    show ?thesis
      by (rule after_tables_leaf [OF 2(2)]) (use push_outs [OF 2(1)] in blast)
  qed
qed

lemma leaf_ok_moved:
  assumes "moved p q" "paint_anno q = paint_anno p" "leaf_ok q l"
  shows "leaf_ok p l"
  using assms moved_trans [OF assms(1)] sent_trans [OF assms(1)] moved_fields(3) [OF assms(1)] by (auto simp: leaf_ok_def XIA_PAINT_ANNO_def split: leaving.splits)

lemma route_rounds_leaf: "route_rounds n junk p r = Some (Inr (ls, r1)) \<Longrightarrow> l \<in> set ls \<Longrightarrow> leaf_ok p l"
proof (induction n arbitrary: p r ls)
  case (Suc n)
  from Suc.prems(1) obtain ls1 g r2 where once: "route_once junk p r = Some (Inr (ls1, g, r2))"
    by (auto split: option.splits sum.splits)
  note c = route_once_leaf [OF once]
  show ?case
  proof (cases g)
    case None
    with once Suc.prems c show ?thesis by simp
  next
    case (Some q)
    with once Suc.prems(1) obtain ls2 where 2: "route_rounds n junk q r2 = Some (Inr (ls2, r1))" "ls = ls1 @ ls2"
      by auto
    have "leaf_ok p l" if "l \<in> set ls2" using leaf_ok_moved [OF _ _ Suc.IH [OF 2(1) that]] c Some by blast
    with Suc.prems(2) 2(2) c show ?thesis by auto
  qed
qed simp

lemma XIAPacketRoute_leaf:
  assumes "XIAPacketRoute n junk p r = Some (Inr (ls, r1))" "l \<in> set ls"
  shows "leaf_ok p l"
proof -
  let ?p = "snd (XIASelectPath_push True p)"
  have "moved p ?p" "paint_anno ?p = paint_anno p"
    by (simp_all add: XIASelectPath_push_def SET_XIA_NEXT_PATH_ANNO_def moved_refl)
  from leaf_ok_moved [OF this] route_rounds_leaf assms show ?thesis unfolding XIAPacketRoute_def by blast
qed

section \<open>The engine ends\<close>

definition engine_ok :: "engine \<Rightarrow> bool" where
  "engine_ok e \<longleftrightarrow> tables_ok (core e) \<and> good_path (report_addr e) \<and> good_path (unreach_addr e)"

fun out_packet :: "engine_output \<Rightarrow> packet" where
  "out_packet (Out_forward p) = p"
| "out_packet (Out_application p) = p"
| "out_packet (Out_cache p) = p"
| "out_packet (Out_dhcp p) = p"

definition well_typed :: "engine_output list \<times> engine \<Rightarrow> bool" where
  "well_typed r \<longleftrightarrow> engine_ok (snd r) \<and> (\<forall>out\<in>set (fst r). ready (out_packet out))"

definition ends :: "nat \<Rightarrow> (nat \<Rightarrow> click_xia_xid_node) \<Rightarrow> (nat \<Rightarrow> xcmp_memory) \<Rightarrow> engine_task list \<Rightarrow> bool" where
  "ends k junk mem ts \<longleftrightarrow> (\<forall>e. engine_ok e \<longrightarrow> (\<exists>n. returns (engine_run k n junk mem ts e) well_typed))"

lemma ends_Nil: "ends k junk mem []"
  by (simp add: ends_def well_typed_def)

lemma ends_append:
  assumes "ends k junk mem ts" "ends k junk mem us"
  shows "ends k junk mem (ts @ us)"
  unfolding ends_def
proof (intro allI impI)
  fix e
  assume "engine_ok e"
  with assms(1) obtain n r where n: "engine_run k n junk mem ts e = Some r" "\<forall>x. r = Inr x \<longrightarrow> well_typed x"
    by (auto simp: ends_def returns_def)
  show "\<exists>n. returns (engine_run k n junk mem (ts @ us) e) well_typed"
  proof (cases r)
    case (Inl f)
    with n(1) engine_run_fault show ?thesis by (intro exI [of _ n]) simp
  next
    case (Inr x)
    obtain o1 e1 where x: "x = (o1, e1)" by (cases x)
    with Inr n(2) have o1: "engine_ok e1" "\<forall>out\<in>set o1. ready (out_packet out)" by (auto simp: well_typed_def)
    with assms(2) obtain m r2 where m: "engine_run k m junk mem us e1 = Some r2" "\<forall>x. r2 = Inr x \<longrightarrow> well_typed x"
      by (auto simp: ends_def returns_def)
    have "engine_run k (n + m) junk mem (ts @ us) e = Some (bind_run r2 (\<lambda>(o2, e2). Inr (o1 @ o2, e2)))"
      using engine_run_append n(1) Inr x m(1) by blast
    with m(2) o1 show ?thesis by (intro exI [of _ "n + m"]) (auto simp: returns_def well_typed_def)
  qed
qed

lemma ends_all: "\<forall>t\<in>set ts. ends k junk mem [t] \<Longrightarrow> ends k junk mem ts"
proof (induction ts)
  case (Cons t ts)
  then show ?case using ends_append [of k junk mem "[t]" ts] by simp
qed (rule ends_Nil)

lemma ends_leave:
  assumes "\<And>e. engine_ok e \<Longrightarrow> returns (engine_leave mem l e)
    (\<lambda>(outs, us, e1). well_typed (outs, e1) \<and> ends k junk mem us)"
  shows "ends k junk mem [Leave l]"
  unfolding ends_def
proof (intro allI impI)
  fix e
  assume "engine_ok e"
  from assms [OF this] obtain r where r: "engine_leave mem l e = Some r"
    "\<forall>outs us e1. r = Inr (outs, us, e1) \<longrightarrow> well_typed (outs, e1) \<and> ends k junk mem us" by (auto simp: returns_def)
  show "\<exists>n. returns (engine_run k n junk mem [Leave l] e) well_typed"
  proof (cases r)
    case (Inl f)
    with r(1) show ?thesis by (intro exI [of _ 1]) simp
  next
    case (Inr x)
    obtain outs us e1 where x: "x = (outs, us, e1)" by (cases x)
    with Inr r(2) have ok: "well_typed (outs, e1)" "ends k junk mem us" by auto
    then obtain n where "returns (engine_run k n junk mem us e1) well_typed" by (auto simp: ends_def well_typed_def)
    then have "returns (seq_run (engine_run k n junk mem us e1) (\<lambda>(outs1, e2). Some (Inr (outs @ outs1, e2)))) well_typed"
      by (rule returns_seq) (use ok(1) in \<open>auto simp: well_typed_def\<close>)
    with Inr x r(1) show ?thesis by (intro exI [of _ "Suc n"]) simp
  qed
qed

lemma ends_route:
  assumes p: "ready p" "acyclic_dst (phdr p)" and k: "1280 \<le> k"
    and leaves: "\<And>l. leaf_ok p l \<Longrightarrow> ends k junk mem [Leave l]"
  shows "ends k junk mem [Route p]"
  unfolding ends_def
proof (intro allI impI)
  fix e
  assume e: "engine_ok e"
  have "unat (dnode (phdr p)) < 2 ^ 8" using unsigned_less [of "dnode (phdr p)"] by simp
  then have "5 * unat (dnode (phdr p)) + 5 \<le> k" using k by simp
  moreover have "tables_ok (core e)" using e by (simp add: engine_ok_def)
  ultimately obtain r where r: "XIAPacketRoute k junk p (core e) = Some r"
    "\<forall>ls r1. r = Inr (ls, r1) \<longrightarrow> tables_ok r1" using XIAPacketRoute_bound [OF p] by blast
  show "\<exists>n. returns (engine_run k n junk mem [Route p] e) well_typed"
  proof (cases r)
    case (Inl f)
    with r(1) show ?thesis by (intro exI [of _ 1]) simp
  next
    case (Inr x)
    obtain ls r1 where x: "x = (ls, r1)" by (cases x)
    have "ends k junk mem (map Leave ls)"
      using leaves XIAPacketRoute_leaf [of k junk p "core e" ls r1] r(1) Inr x by (intro ends_all) auto
    moreover have "engine_ok (e\<lparr>core := r1\<rparr>)" using e r(2) Inr x by (simp add: engine_ok_def)
    ultimately obtain n where "returns (engine_run k n junk mem (map Leave ls) (e\<lparr>core := r1\<rparr>)) well_typed" by (auto simp: ends_def)
    with r(1) Inr x show ?thesis by (intro exI [of _ "Suc n"]) simp
  qed
qed

lemma control_tasks_end:
  assumes "only_messages T (evs, a)" "\<forall>type\<in>T. \<forall>u. message type u \<longrightarrow> ends k junk mem [Route u]"
  shows "ends k junk mem (control_tasks evs)"
proof (rule ends_all, intro ballI)
  fix t
  assume "t \<in> set (control_tasks evs)"
  then obtain u where "t = Route u" "New 0 u \<in> set evs" by (auto simp: control_tasks_def split: xcmp_event.splits if_splits)
  with assms show "ends k junk mem [t]" unfolding only_messages_def by fastforce
qed

lemma leave_ends:
  assumes l: "leaf_ok p l" and p: "ready p" "good_ends p"
    and unroutable: "\<forall>type\<in>(if control_packet XCMP_UNREACH p then {} else {XCMP_UNREACH}). \<forall>u. message type u \<longrightarrow> ends k junk mem [Route u]"
    and reported: "XIA_PAINT_ANNO p = DESTINED_FOR_LOCALHOST \<and> 1 < hlim (phdr p)
      \<or> (\<forall>type\<in>answers. \<forall>u. message type u \<longrightarrow> ends k junk mem [Route u])"
  shows "ends k junk mem [Leave l]"
proof (rule ends_leave)
  fix e
  assume e: "engine_ok e"
  have good: "good_ends q" "control_packet XCMP_UNREACH q = control_packet XCMP_UNREACH p" if "moved p q" for q
    using p(2) moved_paths [OF that] moved_fields(1,2) [OF that] by (simp_all add: good_ends_def control_packet_def)
  show "returns (engine_leave mem l e) (\<lambda>(outs, us, e1). well_typed (outs, e1) \<and> ends k junk mem us)"
  proof (cases l)
    case (Forward q)
    then show ?thesis using l e p(1) sent_ready by (auto simp: engine_leave_def leaf_ok_def well_typed_def ends_Nil)
  next
    case (Arrived q)
    then have "ready q" using l p(1) moved_ready by (auto simp: leaf_ok_def)
    with e Arrived show ?thesis
      by (cases "XIAXIDTypeClassifier_match [DST (htonl CLICK_XIA_XID_TYPE_CID), ANY] q")
        (auto simp: engine_leave_def well_typed_def ends_Nil split: option.splits)
  next
    case (Unroutable q)
    then have q: "moved p q" using l by (simp add: leaf_ok_def)
    have "good_path (unreach_addr e)" using e by (simp add: engine_ok_def)
    note r = XCMP_unreachable_returns [OF good(1) [OF q] this, of "mem (calls e)", unfolded good(2) [OF q]]
    show ?thesis
      unfolding engine_leave_def Unroutable leaving.case
      by (rule returns_seq [OF r]) (use e control_tasks_end [OF _ unroutable] in
        \<open>auto simp: well_typed_def engine_ok_def only_messages_def\<close>)
  next
    case (To_DHCP q)
    then show ?thesis using l e p(1) moved_ready by (auto simp: engine_leave_def leaf_ok_def well_typed_def ends_Nil)
  next
    case (To_XCMP q)
    then have q: "moved p q" "\<forall>type\<in>answers. \<forall>u. message type u \<longrightarrow> ends k junk mem [Route u]"
      using l reported by (auto simp: leaf_ok_def)
    have "good_path (report_addr e)" using e by (simp add: engine_ok_def)
    note r = XCMP_push_returns [OF good(1) [OF q(1)] this, of "mem (calls e)"]
    show ?thesis
      unfolding engine_leave_def To_XCMP leaving.case
      by (rule returns_seq [OF r]) (use e control_tasks_end [OF _ q(2)] in
        \<open>auto simp: well_typed_def engine_ok_def only_messages_def\<close>)
  qed
qed

lemma message_ends:
  assumes "1280 \<le> k" "message type u"
    and "\<forall>type1\<in>(if type = XCMP_UNREACH then {} else {XCMP_UNREACH}). \<forall>u. message type1 u \<longrightarrow> ends k junk mem [Route u]"
  shows "ends k junk mem [Route u]"
proof (rule ends_route [OF _ _ assms(1)])
  note u = assms(2) [unfolded message_def]
  show "ready u" "acyclic_dst (phdr u)" using u by (simp_all add: forward_acyclic)
  have "control_packet XCMP_UNREACH u \<longleftrightarrow> type = XCMP_UNREACH" using u by (simp add: control_packet_def)
  with assms(3) u show "leaf_ok u l \<Longrightarrow> ends k junk mem [Leave l]" for l
    by (intro leave_ends [of u l]) (auto simp: good_ends_def split: if_splits)
qed

lemma messages_end:
  assumes "1280 \<le> k" "message type u"
  shows "ends k junk mem [Route u]"
proof (rule message_ends [OF assms])
  show "\<forall>type1\<in>(if type = XCMP_UNREACH then {} else {XCMP_UNREACH}). \<forall>u. message type1 u \<longrightarrow> ends k junk mem [Route u]"
    using message_ends [OF assms(1), of XCMP_UNREACH] by auto
qed

text \<open>
  What the engine can be given: a packet with a well-formed header whose two addresses are valid paths of at most 128
  nodes, the node for the source included.
\<close>

definition acceptable :: "packet \<Rightarrow> bool" where
  "acceptable p \<longleftrightarrow> ready p \<and> good_ends p"

lemma acceptable_ends:
  assumes "1280 \<le> k" "acceptable p"
  shows "ends k junk mem [Route p]"
proof (rule ends_route [OF _ _ assms(1)])
  show "ready p" "acyclic_dst (phdr p)"
    using assms(2) valid_acyclic [of "phdr p"] by (auto simp: acceptable_def ready_def good_ends_def good_path_def)
  show "leaf_ok p l \<Longrightarrow> ends k junk mem [Leave l]" for l
    using assms messages_end by (intro leave_ends [of p l]) (auto simp: acceptable_def)
qed

lemma RouteEngine_more:
  assumes "RouteEngine_push k n junk mem port p e = Some res"
  shows "RouteEngine_push k (n + m) junk mem port p e = Some res"
proof (cases "engine_run k n junk mem [Route p] e")
  case None
  have "port = 0" using None assms by (cases "port = 0") (simp_all add: RouteEngine_push_def)
  then show ?thesis
    using None assms by (cases "XIAXIDTypeClassifier_match [SRC (htonl CLICK_XIA_XID_TYPE_CID), ANY] p")
      (auto simp: RouteEngine_push_def split: option.splits)
next
  case (Some r)
  then have "engine_run k (n + m) junk mem [Route p] e = engine_run k n junk mem [Route p] e" using engine_run_more [OF Some] by simp
  then show ?thesis using assms unfolding RouteEngine_push_def by (simp only:)
qed

lemma RouteEngine_result:
  assumes "1280 \<le> k" "acceptable p" "engine_ok e"
  shows "\<exists>n. returns (RouteEngine_push k n junk mem port p e) well_typed"
proof -
  obtain n where n: "returns (engine_run k n junk mem [Route p] e) well_typed"
    using acceptable_ends [OF assms(1,2)] assms(3) unfolding ends_def by blast
  have "ready p" using assms(2) by (simp add: acceptable_def)
  then have "returns (seq_run (engine_run k n junk mem [Route p] e) (\<lambda>(outs, e1).
      Some (Inr ((if c = 0 then [Out_cache p] else []) @ outs, e1)))) well_typed" for c :: nat
    by (intro returns_seq [OF n]) (auto simp: well_typed_def)
  then have "returns (RouteEngine_push k n junk mem port p e) well_typed"
    unfolding RouteEngine_push_def
    by (intro returns_if n returns_seq [OF returns_result]) (auto simp: well_typed_def assms(3) split: option.split)
  then show ?thesis ..
qed

text \<open>
  C2. The routing engine processes every packet that has a well-formed header and two valid addresses of at most 128
  nodes to an end, on both inputs, wherever on its path the packet is and whatever routes the tables hold: with 1,280 rounds
  for each packet there is a number of work items after which nothing is left to do, the reports that the packet and its
  reports give rise to included. The end is the result of the engine or a fault at which an element stops, such as the
  assertion on the length of a report; the engine is never busy for ever with a packet and the reports about it. The
  addresses of the engine's control elements are valid, and each table has one route for each XID.
\<close>

theorem RouteEngine_ends:
  assumes "1280 \<le> k" "acceptable p" "engine_ok e"
  shows "\<exists>n res. \<forall>m. RouteEngine_push k (n + m) junk mem port p e = Some res"
  using RouteEngine_result [OF assms, of junk mem port] RouteEngine_more [of k _ junk mem port p e]
  unfolding returns_def by blast

text \<open>
  C3. Types are preserved: when the engine returns, every packet on its outputs has a well-formed header, with as many nodes
  as its fields say, four edges and a twenty-byte identifier in each node and no empty path, and the state of the
  engine is again one in which it processes packets to the end.
\<close>

theorem RouteEngine_types:
  assumes "1280 \<le> k" "acceptable p" "engine_ok e" "RouteEngine_push k n junk mem port p e = Some (Inr (outs, e1))"
  shows "engine_ok e1 \<and> (\<forall>out\<in>set outs. ready (out_packet out))"
proof -
  obtain m res where m: "RouteEngine_push k m junk mem port p e = Some res" "\<forall>x. res = Inr x \<longrightarrow> well_typed x"
    using RouteEngine_result [OF assms(1-3)] unfolding returns_def by blast
  have "RouteEngine_push k (n + m) junk mem port p e = Some (Inr (outs, e1))" by (rule RouteEngine_more [OF assms(4)])
  then have "res = Inr (outs, e1)" using RouteEngine_more [OF m(1), of n] by (simp add: add.commute)
  with m(2) show ?thesis by (simp add: well_typed_def)
qed

definition sample_engine :: engine where
  "sample_engine = \<lparr>core = sample_router, report_addr = diamond, unreach_addr = diamond, calls = 0\<rparr>"

lemma sample_engine_ok: "engine_ok sample_engine"
proof -
  have "tables_ok sample_router"
    by (simp add: tables_ok_def sample_router_def empty_table_def unique_keys_def store_route_def XIAPath_reset_def wf_graph_def)
  then show ?thesis using good_diamond by (simp add: engine_ok_def sample_engine_def good_address_def)
qed

lemma acceptable_sample: "acceptable unreachable_packet"
proof -
  have "ready unreachable_packet"
    by (simp add: ready_def wf_hdr_def wf_node_def wf_xid_def unreachable_packet_def sample_edges_def sample_host_def
        CLICK_XIA_XID_EDGE_NUM_def CLICK_XIA_XID_ID_LEN_def)
  then show ?thesis using good_chain by (simp add: acceptable_def good_ends_def unreachable_paths good_address_def)
qed

theorem RouteEngine_ends_witness:
  "\<exists>n res. \<forall>m. RouteEngine_push 1280 (n + m) (\<lambda>_. undefined) (\<lambda>_. blank_memory) 0 unreachable_packet sample_engine = Some res"
  by (rule RouteEngine_ends [OF order_refl acceptable_sample sample_engine_ok])

text \<open>The same packet as it comes in on port 3, with a route to its first node.\<close>

definition deliverable_packet :: packet where
  "deliverable_packet = unreachable_packet\<lparr>paint_anno := 3\<rparr>"

lemma acceptable_deliverable: "acceptable deliverable_packet"
  using acceptable_sample by (simp add: acceptable_def deliverable_packet_def ready_def good_ends_def)

lemma deliverable_run:
  "\<exists>outs. outs \<noteq> [] \<and> RouteEngine_push 1280 2 (\<lambda>_. undefined) (\<lambda>_. blank_memory) 1 deliverable_packet sample_engine
    = Some (Inr (outs, sample_engine))"
proof -
  let ?p = deliverable_packet and ?d = "\<lparr>rport = 2, rflags = 0, rnexthop = Some (sample_host 8)\<rparr>"
  have r: "edge_route sample_router ?p 0 = Some (HID, ?d)"
    by (simp add: edge_route_def dst_next_def current_edge_def current_node_def current_index_def int_at_def deliverable_packet_def
        unreachable_packet_def sample_edges_def anno_defs principal_of_def sample_router_def empty_table_def
        CLICK_XIA_XID_EDGE_UNUSED_def route_for_def routes_of_def store_route_def sample_host_def htonl_types)
  have p: "ready ?p" "on_path ?p 0 (snd (XIASelectPath_push True ?p))" "XIA_PAINT_ANNO ?p = 3"
    using acceptable_deliverable next_path_set [of 0 ?p]
    by (simp_all add: acceptable_def on_path_def XIASelectPath_push_def SET_XIA_NEXT_PATH_ANNO_def XIA_PAINT_ANNO_def deliverable_packet_def)
  have "\<exists>ls q. route_rounds 1280 (\<lambda>_. undefined) (snd (XIASelectPath_push True ?p)) sample_router = Some (Inr (ls @ [Forward q], sample_router))
    \<and> XIA_PAINT_ANNO q = rport ?d \<and> (\<forall>h. rnexthop ?d = Some h \<longrightarrow> nexthop_neighbor_xid_anno q = h)
    \<and> (if rport ?d = XIA_PAINT_ANNO ?p then \<exists>m. ls = [To_XCMP m] \<and> notice ?p ?d m else ls = [])"
    by (rule fallback_run [OF p(1) _ _ r _ _ _ _ _ _ p(2)])
      (simp_all add: CLICK_XIA_XID_EDGE_NUM_def p(3) sample_router_def, simp add: deliverable_packet_def unreachable_packet_def)
  then obtain q where "XIAPacketRoute 1280 (\<lambda>_. undefined) ?p sample_router = Some (Inr ([Forward q], sample_router))"
    unfolding XIAPacketRoute_def by (auto simp: p(3))
  then show ?thesis
    by (intro exI [of _ "[Out_forward q]"])
      (simp add: RouteEngine_push_def numeral_2_eq_2 sample_engine_def engine_leave_def)
qed

theorem RouteEngine_types_witness:
  "\<exists>outs. RouteEngine_push 1280 2 (\<lambda>_. undefined) (\<lambda>_. blank_memory) 1 deliverable_packet sample_engine = Some (Inr (outs, sample_engine))
    \<and> outs \<noteq> [] \<and> (\<forall>out\<in>set outs. ready (out_packet out))"
proof -
  obtain outs where o: "outs \<noteq> []" "RouteEngine_push 1280 2 (\<lambda>_. undefined) (\<lambda>_. blank_memory) 1 deliverable_packet sample_engine
    = Some (Inr (outs, sample_engine))" using deliverable_run by blast
  from RouteEngine_types [OF order_refl acceptable_deliverable sample_engine_ok o(2)] o show ?thesis by blast
qed

end
