(* ===== verification/Xia_Fast_Path.thy ===== *)
theory Xia_Fast_Path
  imports Xia_Packet
begin

text \<open>
  The fast path (\<^verbatim>\<open>elements/xia/xiafastpath.{cc,hh}\<close>): a cache of forwarding decisions, with one hash table of
  buckets for each processor and two items in a bucket. A packet on input 0 asks for its port, a packet on another
  input brings the port the slow path found. The refinement at the end compares the cache with a table of single
  entries.
\<close>

section \<open>Buckets\<close>

definition KEYSIZE :: nat where
  "KEYSIZE = 20"

definition ASSOCIATIVITY :: nat where
  "ASSOCIATIVITY = 2"

record item =
  ikey :: "u8 list"
  iport :: u8

record bucket =
  items :: "item list"
  counters :: "u8 list"

text \<open>Memory cleared by \<^verbatim>\<open>memset\<close>.\<close>

definition zero_item :: item where
  "zero_item = \<lparr>ikey = replicate KEYSIZE 0, iport = 0\<rparr>"

definition zero_bucket :: bucket where
  "zero_bucket = \<lparr>items = replicate ASSOCIATIVITY zero_item, counters = replicate ASSOCIATIVITY 0\<rparr>"

text \<open>\<^verbatim>\<open>uint8_t max_counter = -1\<close> is 255; the counters wrap. The index \<open>victim\<close> is \<^verbatim>\<open>empty\<close> in the source.\<close>

fun update_scan :: "nat \<Rightarrow> nat \<times> u8 \<times> bucket \<Rightarrow> nat \<times> u8 \<times> bucket" where
  "update_scan i (victim, max_counter, b) =
     (let (e, m) = (if max_counter < counters b ! i then (i, counters b ! i) else (victim, max_counter))
      in (e, m, b\<lparr>counters := (counters b)[i := counters b ! i + 1]\<rparr>))"

definition update_cacheline :: "u8 list \<Rightarrow> nat \<Rightarrow> bucket \<Rightarrow> bucket" where
  "update_cacheline key port b =
     (let (victim, _, b1) = fold update_scan [0..<ASSOCIATIVITY] (0, - 1, b)
      in b1\<lparr>counters := (counters b1)[victim := 0],
            items := (items b1)[victim := \<lparr>ikey = key, iport = of_nat port\<rparr>]\<rparr>)"

fun lookup_scan :: "u8 list \<Rightarrow> nat \<Rightarrow> nat \<times> bucket \<Rightarrow> nat \<times> bucket" where
  "lookup_scan key i (port, b) =
     (if key = ikey (items b ! i)
      then (unat (iport (items b ! i)), b\<lparr>counters := (counters b)[i := 0]\<rparr>)
      else (port, b\<lparr>counters := (counters b)[i := counters b ! i + 1]\<rparr>))"

definition fast_lookup :: "u8 list \<Rightarrow> bucket \<Rightarrow> nat \<times> bucket" where
  "fast_lookup key b = fold (lookup_scan key) [0..<ASSOCIATIVITY] (0, b)"

section \<open>The element\<close>

record XIAFastPath =
  buckets :: "bucket list list"
  bucket_size :: u32
  key_offset :: int

text \<open>The values of the keyword arguments \<^verbatim>\<open>KEY_OFFSET\<close>, which may be missing, and \<^verbatim>\<open>BUCKET_SIZE\<close>.\<close>

definition XIAFastPath_configure :: "int option \<Rightarrow> int option \<Rightarrow> XIAFastPath \<Rightarrow> XIAFastPath option" where
  "XIAFastPath_configure offset sz s =
     (case sz of
        None \<Rightarrow> None
      | Some n \<Rightarrow> Some (s\<lparr>bucket_size := of_int n,
          key_offset := (case offset of None \<Rightarrow> 0 | Some k \<Rightarrow> k)\<rparr>))"

definition XIAFastPath_initialize :: "nat \<Rightarrow> XIAFastPath \<Rightarrow> XIAFastPath" where
  "XIAFastPath_initialize cpus s =
     s\<lparr>buckets := replicate cpus (replicate (unat (bucket_size s)) zero_bucket)\<rparr>"

text \<open>
  The key starts at an offset, which may be negative, from the payload; all its bytes have to be in the packet.
\<close>

definition getkey :: "packet \<Rightarrow> XIAFastPath \<Rightarrow> u8 list run" where
  "getkey p s =
     bind_run (XIAHeader_payload (phdr p) (body p)) (\<lambda>n.
       let mem = hdr_bytes (phdr p) @ body p;
           pos = int (hdr_size (phdr p) + n) + key_offset s
       in if pos < 0 \<or> int (length mem) < pos + int KEYSIZE then Inl Out_of_range
          else Inr (take KEYSIZE (drop (nat pos) mem)))"

definition bucket_index :: "u8 list \<Rightarrow> XIAFastPath \<Rightarrow> nat run" where
  "bucket_index key s =
     (if bucket_size s = 0 then Inl Division_by_zero
      else Inr (unat (of_le_bytes (take 4 key) mod bucket_size s)))"

text \<open>The packet itself is not changed; the result is the output it leaves by.\<close>

definition XIAFastPath_push :: "nat \<Rightarrow> nat \<Rightarrow> packet \<Rightarrow> XIAFastPath \<Rightarrow> (nat \<times> XIAFastPath) run" where
  "XIAFastPath_push thread_id port p s =
     bind_run (getkey p s) (\<lambda>key.
     bind_run (bucket_index key s) (\<lambda>index.
     bind_run (at (buckets s) thread_id) (\<lambda>table.
     bind_run (at table index) (\<lambda>b.
       if port = 0 then
         let (outport, b1) = fast_lookup key b
         in Inr (outport, s\<lparr>buckets := (buckets s)[thread_id := table[index := b1]]\<rparr>)
       else
         Inr (port, s\<lparr>buckets := (buckets s)[thread_id := table[index := update_cacheline key port b]]\<rparr>)))))"

section \<open>What a bucket holds\<close>

text \<open>
  No counter is greater than 255, so the scan never leaves item 0: the other item stays as it was cleared, and a
  bucket is a single entry.
\<close>

definition bucket_ok :: "bucket \<Rightarrow> bool" where
  "bucket_ok b \<longleftrightarrow> length (counters b) = 2 \<and> (\<exists>it. items b = [it, zero_item])"

definition entry :: "bucket \<Rightarrow> u8 list \<times> u8" where
  "entry b = (ikey (items b ! 0), iport (items b ! 0))"

lemma bucket_ok_zero: "bucket_ok zero_bucket"
  by (simp add: bucket_ok_def zero_bucket_def ASSOCIATIVITY_def numeral_2_eq_2)

lemma assoc_upt: "[0..<ASSOCIATIVITY] = [0, 1]"
  by (simp add: ASSOCIATIVITY_def numeral_2_eq_2)

lemma max_counter_top: "\<not> (- 1 :: u8) < x"
  using word_n1_ge [of x] by (simp add: not_less)

lemma update_cacheline_slot0:
  "update_cacheline key port b =
     b\<lparr>counters := (counters b)[0 := counters b ! 0 + 1, 1 := (counters b)[0 := counters b ! 0 + 1] ! 1 + 1, 0 := 0],
       items := (items b)[0 := \<lparr>ikey = key, iport = of_nat port\<rparr>]\<rparr>"
  by (simp add: update_cacheline_def assoc_upt max_counter_top)

lemma update_cacheline_ok:
  assumes "bucket_ok b"
  shows "bucket_ok (update_cacheline key port b)" "entry (update_cacheline key port b) = (key, of_nat port)"
  using assms by (auto simp: update_cacheline_slot0 bucket_ok_def entry_def)

lemma fast_lookup_ok:
  assumes "bucket_ok b" "fast_lookup key b = (port, b1)"
  shows "bucket_ok b1" "entry b1 = entry b"
    and "port = (if key = fst (entry b) \<and> key \<noteq> replicate KEYSIZE 0 then unat (snd (entry b)) else 0)"
  using assms
  by (auto simp: fast_lookup_def assoc_upt bucket_ok_def entry_def zero_item_def split: if_splits)

section \<open>A table of single entries\<close>

record direct_table =
  entries :: "(u8 list \<times> u8) list list"
  table_size :: u32
  table_offset :: int

definition direct_of :: "XIAFastPath \<Rightarrow> direct_table" where
  "direct_of s =
     \<lparr>entries = map (map entry) (buckets s), table_size = bucket_size s, table_offset = key_offset s\<rparr>"

text \<open>A packet on an input, seen on a processor. A fault leaves the state as it was.\<close>

type_synonym arrival = "nat \<times> nat \<times> packet"

fun fast_path_step :: "arrival \<Rightarrow> XIAFastPath \<Rightarrow> nat run \<times> XIAFastPath" where
  "fast_path_step (thread_id, port, p) s =
     (case XIAFastPath_push thread_id port p s of Inl e \<Rightarrow> (Inl e, s) | Inr (out, s1) \<Rightarrow> (Inr out, s1))"

text \<open>
  The specification: input 0 answers with the port of the entry the key belongs to if the entry is for this key,
  and with 0 if not; any other input overwrites the entry. Ports are kept in one byte. A key of zero bytes is not
  told from an empty item and has no entry.
\<close>

fun direct_spec :: "arrival \<Rightarrow> direct_table \<Rightarrow> nat run \<times> direct_table" where
  "direct_spec (thread_id, port, p) d =
     (case getkey p \<lparr>buckets = [], bucket_size = table_size d, key_offset = table_offset d\<rparr> of
        Inl e \<Rightarrow> (Inl e, d)
      | Inr key \<Rightarrow>
          let i = unat (of_le_bytes (take 4 key) mod table_size d);
              (k, q) = entries d ! thread_id ! i
          in if port = 0 then (Inr (if key = k \<and> key \<noteq> replicate KEYSIZE 0 then unat q else 0), d)
             else (Inr port,
               d\<lparr>entries := (entries d)[thread_id := (entries d ! thread_id)[i := (key, of_nat port)]]\<rparr>))"

definition fast_path_ok :: "nat \<Rightarrow> XIAFastPath \<Rightarrow> bool" where
  "fast_path_ok cpus s \<longleftrightarrow> bucket_size s \<noteq> 0 \<and> length (buckets s) = cpus \<and>
     (\<forall>t\<in>set (buckets s). length t = unat (bucket_size s) \<and> list_all bucket_ok t)"

definition on_cpu :: "nat \<Rightarrow> arrival \<Rightarrow> bool" where
  "on_cpu cpus a \<longleftrightarrow> fst a < cpus"

lemma fast_path_ok_initialize: "bucket_size s \<noteq> 0 \<Longrightarrow> fast_path_ok cpus (XIAFastPath_initialize cpus s)"
  by (simp add: fast_path_ok_def XIAFastPath_initialize_def bucket_ok_zero list_all_length)

lemma direct_of_config [simp]:
  "table_size (direct_of s) = bucket_size s" "table_offset (direct_of s) = key_offset s"
  by (simp_all add: direct_of_def)

lemma getkey_direct [simp]: "getkey p \<lparr>buckets = [], bucket_size = n, key_offset = key_offset s\<rparr> = getkey p s"
  by (simp add: getkey_def)

lemma bucket_in_table:
  assumes "fast_path_ok cpus s" "t < cpus" "i < unat (bucket_size s)"
  shows "t < length (buckets s)" "i < length (buckets s ! t)" "bucket_ok (buckets s ! t ! i)"
    and "entries (direct_of s) ! t ! i = entry (buckets s ! t ! i)"
  using assms by (auto simp: fast_path_ok_def direct_of_def list_all_length)

text \<open>Replacing a bucket by one with the given entry.\<close>

lemma store_bucket:
  assumes "fast_path_ok cpus s" "t < cpus" "i < unat (bucket_size s)" "bucket_ok b"
  defines "s1 \<equiv> s\<lparr>buckets := (buckets s)[t := (buckets s ! t)[i := b]]\<rparr>"
  shows "fast_path_ok cpus s1"
    and "direct_of s1 =
      (direct_of s)\<lparr>entries := (entries (direct_of s))[t := (entries (direct_of s) ! t)[i := entry b]]\<rparr>"
proof -
  have "t < length (buckets s)" using assms by (simp add: fast_path_ok_def)
  then show "fast_path_ok cpus s1"
    using assms by (auto simp: fast_path_ok_def list_all_length nth_list_update dest!: set_update_subset_insert [THEN subsetD])
  show "direct_of s1 =
      (direct_of s)\<lparr>entries := (entries (direct_of s))[t := (entries (direct_of s) ! t)[i := entry b]]\<rparr>"
    using \<open>t < length (buckets s)\<close> by (simp add: s1_def direct_of_def map_update)
qed

lemma push_found:
  assumes "fast_path_ok cpus s" "t < cpus" "getkey p s = Inr key"
  defines "i \<equiv> unat (of_le_bytes (take 4 key) mod bucket_size s)"
  shows "i < unat (bucket_size s)"
    and "XIAFastPath_push t port p s =
      (if port = 0 then
         Inr (map_prod id (\<lambda>b. s\<lparr>buckets := (buckets s)[t := (buckets s ! t)[i := b]]\<rparr>) (fast_lookup key (buckets s ! t ! i)))
       else Inr (port, s\<lparr>buckets := (buckets s)[t := (buckets s ! t)[i := update_cacheline key port (buckets s ! t ! i)]]\<rparr>))"
proof -
  have "bucket_size s \<noteq> 0" using assms by (simp add: fast_path_ok_def)
  then show i: "i < unat (bucket_size s)"
    by (simp add: i_def unat_mod unat_gt_0)
  show "XIAFastPath_push t port p s =
      (if port = 0 then
         Inr (map_prod id (\<lambda>b. s\<lparr>buckets := (buckets s)[t := (buckets s ! t)[i := b]]\<rparr>) (fast_lookup key (buckets s ! t ! i)))
       else Inr (port, s\<lparr>buckets := (buckets s)[t := (buckets s ! t)[i := update_cacheline key port (buckets s ! t ! i)]]\<rparr>))"
    using bucket_in_table [OF assms(1,2) i] assms(3) \<open>bucket_size s \<noteq> 0\<close>
    by (simp add: XIAFastPath_push_def bucket_index_def i_def [symmetric] split: prod.splits)
qed

lemma fast_path_sim:
  assumes ok: "fast_path_ok cpus s" and t: "t < cpus"
  shows "direct_spec (t, port, p) (direct_of s) = map_prod id direct_of (fast_path_step (t, port, p) s) \<and>
    fast_path_ok cpus (snd (fast_path_step (t, port, p) s))"
proof (cases "getkey p s")
  case (Inl e)
  then show ?thesis by (simp add: XIAFastPath_push_def ok)
next
  case (Inr key)
  define i where "i = unat (of_le_bytes (take 4 key) mod bucket_size s)"
  define b where "b = buckets s ! t ! i"
  note found = push_found [OF ok t Inr, folded i_def]
  note bucket = bucket_in_table [OF ok t found(1), folded b_def]
  note store = store_bucket [OF ok t found(1)]
  show ?thesis
  proof (cases "port = 0")
    case True
    obtain q b1 where l: "fast_lookup key b = (q, b1)" by (cases "fast_lookup key b")
    note lookup = fast_lookup_ok [OF bucket(3) l]
    have same: "(direct_of s)\<lparr>entries := (entries (direct_of s))[t := (entries (direct_of s) ! t)[i := entry b1]]\<rparr> = direct_of s"
      using bucket by (simp add: lookup(2) flip: bucket(4))
    show ?thesis
      using True store [OF lookup(1)] same lookup(3)
      by (auto simp: Inr i_def [symmetric] bucket(4) found(2) b_def [symmetric] l Let_def split_beta)
  next
    case False
    note upd = update_cacheline_ok [OF bucket(3), of key port]
    from False show ?thesis
      using store [OF upd(1)]
      by (simp add: Inr i_def [symmetric] bucket(4) found(2) b_def [symmetric] upd(2) Let_def split_beta)
  qed
qed

interpretation fast_path: refinement fast_path_step direct_spec direct_of "fast_path_ok cpus" "on_cpu cpus" for cpus
proof
  fix s a
  assume "fast_path_ok cpus s" "on_cpu cpus a"
  then show "direct_spec a (direct_of s) = map_prod id direct_of (fast_path_step a s)"
    and "fast_path_ok cpus (snd (fast_path_step a s))"
    using fast_path_sim by (cases a; simp add: on_cpu_def del: fast_path_step.simps direct_spec.simps)+
qed

definition key_packet :: "u8 \<Rightarrow> packet" where
  "key_packet k = \<lparr>phdr = \<lparr>ver = 1, nxt = 60, plen = 0, hlim = 250, dnode = 0, snode = 0, hlast = - 1, hnode = []\<rparr>,
     body = replicate KEYSIZE k, next_path_anno = 0, paint_anno = 0, neighbor_anno = XID_default\<rparr>"

definition small_cache :: XIAFastPath where
  "small_cache = \<lparr>buckets = [], bucket_size = 1, key_offset = 0\<rparr>"

text \<open>
  C27. The fast path is a direct-mapped cache: for every sequence of packets on its inputs, the outputs they leave by
  are those of a table with a single entry for each bucket, although a bucket has room for two. A key that was
  cached is found until another key of the same bucket is cached, and from then on the answer is output 0.
\<close>

theorem fast_path_direct_mapped:
  assumes "bucket_size s \<noteq> 0" "list_all (on_cpu cpus) arrivals"
  shows "map_prod id direct_of (run_ops fast_path_step arrivals (XIAFastPath_initialize cpus s)) =
    run_ops direct_spec arrivals (direct_of (XIAFastPath_initialize cpus s))"
  using fast_path.run_sim [OF fast_path_ok_initialize [OF assms(1)] assms(2)] by simp

theorem fast_path_direct_mapped_witness:
  "fst (run_ops fast_path_step [(0, 3, key_packet 7), (0, 0, key_packet 7), (0, 4, key_packet 8), (0, 0, key_packet 7)]
     (XIAFastPath_initialize 1 small_cache)) = [Inr 3, Inr 3, Inr 4, Inr 0]"
proof -
  let ?as = "[(0, 3, key_packet 7), (0, 0, key_packet 7), (0, 4, key_packet 8), (0, 0, key_packet 7)]"
  have "bucket_size small_cache \<noteq> 0" "list_all (on_cpu 1) ?as" by (simp_all add: small_cache_def on_cpu_def)
  note run = fast_path_direct_mapped [OF this]
  have "fst (run_ops direct_spec ?as (direct_of (XIAFastPath_initialize 1 small_cache))) = [Inr 3, Inr 3, Inr 4, Inr 0]"
    by code_simp
  with arg_cong [OF run, of fst] show ?thesis by simp
qed

end
