(* ===== verification/Xia_Arp_Table.thy ===== *)
theory Xia_Arp_Table
  imports Xia_Route_Table
begin

text \<open>
  The table of the address resolution protocol (\<^verbatim>\<open>elements/xia/xarptable.{cc,hh}\<close>): Ethernet addresses of neighbours,
  with times measured in jiffies that wrap around, and the packets that wait for an address. The hash table and the age
  list of the source hold the same entries, so the state has one list, in the order of the age list. Memory for an
  entry is assumed to be available.
\<close>

section \<open>Time\<close>

definition CLICK_HZ :: u32 where
  "CLICK_HZ = 1000"

text \<open>The difference is read as a signed number, so that times are compared across the wrap.\<close>

definition click_jiffies_less :: "u32 \<Rightarrow> u32 \<Rightarrow> bool" where
  "click_jiffies_less a b \<longleftrightarrow> sint (a - b) < 0"

section \<open>Ethernet addresses\<close>

type_synonym ether_address = "u8 list"

definition make_broadcast :: ether_address where
  "make_broadcast = replicate 6 0xFF"

definition is_group :: "ether_address \<Rightarrow> bool" where
  "is_group e \<longleftrightarrow> e ! 0 AND 1 \<noteq> 0"

definition is_broadcast :: "ether_address \<Rightarrow> bool" where
  "is_broadcast e \<longleftrightarrow> e = make_broadcast"

section \<open>Entries\<close>

record XARPEntry =
  axid :: click_xia_xid
  aeth :: ether_address
  aknown :: bool
  live_at_j :: u32
  polled_at_j :: u32
  waiting :: "packet list"

definition expired :: "u32 \<Rightarrow> u32 \<Rightarrow> XARPEntry \<Rightarrow> bool" where
  "expired now timeout ae \<longleftrightarrow> click_jiffies_less (live_at_j ae + timeout) now \<and> timeout \<noteq> 0"

definition known :: "u32 \<Rightarrow> u32 \<Rightarrow> XARPEntry \<Rightarrow> bool" where
  "known now timeout ae \<longleftrightarrow> aknown ae \<and> \<not> expired now timeout ae"

definition XARPEntry_new :: "click_xia_xid \<Rightarrow> u32 \<Rightarrow> XARPEntry" where
  "XARPEntry_new xid now = \<lparr>axid = xid, aeth = make_broadcast, aknown = False, live_at_j = now,
     polled_at_j = now - CLICK_HZ, waiting = []\<rparr>"

record XARPTable =
  age :: "XARPEntry list"
  entry_count :: u32
  packet_count :: u32
  entry_capacity :: u32
  packet_capacity :: u32
  timeout_j :: u32
  arp_drops :: u32

definition XARPTable_new :: XARPTable where
  "XARPTable_new = \<lparr>age = [], entry_count = 0, packet_count = 0, entry_capacity = 0, packet_capacity = 2048,
     timeout_j = 0, arp_drops = 0\<rparr>"

text \<open>A time limit in whole seconds.\<close>

definition set_timeout :: "u32 \<Rightarrow> XARPTable \<Rightarrow> XARPTable" where
  "set_timeout sec t = t\<lparr>timeout_j := (if sec \<ge> 0xFFFFFFFF div CLICK_HZ then 0 else sec * CLICK_HZ)\<rparr>"

definition set_capacity :: "u32 \<Rightarrow> XARPTable \<Rightarrow> XARPTable" where
  "set_capacity n t = t\<lparr>packet_capacity := n\<rparr>"

definition set_entry_capacity :: "u32 \<Rightarrow> XARPTable \<Rightarrow> XARPTable" where
  "set_entry_capacity n t = t\<lparr>entry_capacity := n\<rparr>"

text \<open>The values of the three keyword arguments, where they are given.\<close>

definition XARPTable_configure :: "u32 option \<Rightarrow> u32 option \<Rightarrow> u32 option \<Rightarrow> XARPTable \<Rightarrow> XARPTable" where
  "XARPTable_configure cap ecap tmo t =
     set_timeout (case tmo of None \<Rightarrow> 300 | Some s \<Rightarrow> s)
       (t\<lparr>packet_capacity := (case cap of None \<Rightarrow> packet_capacity t | Some n \<Rightarrow> n),
          entry_capacity := (case ecap of None \<Rightarrow> entry_capacity t | Some n \<Rightarrow> n)\<rparr>)"

section \<open>Operations\<close>

definition arp_clear :: "XARPTable \<Rightarrow> XARPTable" where
  "arp_clear t = t\<lparr>age := [], entry_count := 0, packet_count := 0,
     arp_drops := arp_drops t + of_nat (length (concat (map waiting (age t))))\<rparr>"

fun take_state :: "XARPTable \<Rightarrow> XARPTable \<Rightarrow> XARPTable \<times> XARPTable" where
  "take_state old t =
     (if age t \<noteq> [] then (old, t)
      else (old\<lparr>age := [], entry_count := 0, packet_count := 0\<rparr>,
            t\<lparr>age := age old, entry_count := entry_count old, packet_count := packet_count old, arp_drops := arp_drops old\<rparr>))"

text \<open>The two loops of \<^verbatim>\<open>slim\<close>: old entries go with their packets, then packets go until there is room.\<close>

function slim_entries :: "u32 \<Rightarrow> XARPTable \<Rightarrow> XARPTable" where
  "slim_entries now t =
     (case age t of
        [] \<Rightarrow> t
      | ae # rest \<Rightarrow>
          if expired now (timeout_j t) ae \<or> entry_capacity t \<noteq> 0 \<and> entry_count t > entry_capacity t then
            slim_entries now (t\<lparr>age := rest, entry_count := entry_count t - 1,
              packet_count := packet_count t - of_nat (length (waiting ae)),
              arp_drops := arp_drops t + of_nat (length (waiting ae))\<rparr>)
          else t)"
  by pat_completeness auto
termination by (relation "measure (\<lambda>(_, t). length (age t))") auto

declare slim_entries.simps [simp del]

fun slim_queue :: "u32 \<Rightarrow> packet list \<Rightarrow> u32 \<Rightarrow> u32 \<Rightarrow> packet list \<times> u32 \<times> u32" where
  "slim_queue cap [] cnt dropped = ([], cnt, dropped)"
| "slim_queue cap (p # ps) cnt dropped =
     (if cnt > cap then slim_queue cap ps (cnt - 1) (dropped + 1) else (p # ps, cnt, dropped))"

fun slim_packets :: "u32 \<Rightarrow> XARPEntry list \<Rightarrow> u32 \<Rightarrow> u32 \<Rightarrow> (XARPEntry list \<times> u32 \<times> u32) run" where
  "slim_packets cap [] cnt dropped = (if cap \<noteq> 0 \<and> cnt > cap then Inl Null_deref else Inr ([], cnt, dropped))"
| "slim_packets cap (ae # aes) cnt dropped =
     (if cap \<noteq> 0 \<and> cnt > cap then
        let (q, cnt1, dropped1) = slim_queue cap (waiting ae) cnt dropped in
        bind_run (slim_packets cap aes cnt1 dropped1) (\<lambda>(aes1, cnt2, dropped2).
          Inr (ae\<lparr>waiting := q\<rparr> # aes1, cnt2, dropped2))
      else Inr (ae # aes, cnt, dropped))"

definition slim :: "u32 \<Rightarrow> XARPTable \<Rightarrow> XARPTable run" where
  "slim now t =
     (let t1 = slim_entries now t in
      bind_run (slim_packets (packet_capacity t1) (age t1) (packet_count t1) (arp_drops t1)) (\<lambda>(aes, cnt, dropped).
        Inr (t1\<lparr>age := aes, packet_count := cnt, arp_drops := dropped\<rparr>)))"

definition run_timer :: "u32 \<Rightarrow> XARPTable \<Rightarrow> XARPTable run" where
  "run_timer now t = slim now t"

definition find_entry :: "click_xia_xid \<Rightarrow> XARPEntry list \<Rightarrow> XARPEntry option" where
  "find_entry xid aes = find (\<lambda>ae. axid ae = xid) aes"

definition ensure :: "click_xia_xid \<Rightarrow> u32 \<Rightarrow> XARPTable \<Rightarrow> XARPTable run" where
  "ensure xid now t =
     (if find_entry xid (age t) \<noteq> None then Inr t
      else
        let t1 = t\<lparr>entry_count := entry_count t + 1\<rparr> in
        bind_run (if entry_capacity t1 \<noteq> 0 \<and> entry_count t1 > entry_capacity t1 then slim now t1 else Inr t1) (\<lambda>t2.
          Inr (t2\<lparr>age := age t2 @ [XARPEntry_new xid now]\<rparr>)))"

text \<open>Replacing the entry of an XID, at its place, or at the end of the age list.\<close>

definition set_entry :: "XARPEntry \<Rightarrow> XARPEntry list \<Rightarrow> XARPEntry list" where
  "set_entry ae aes = map (\<lambda>e. if axid e = axid ae then ae else e) aes"

definition push_entry_back :: "XARPEntry \<Rightarrow> XARPEntry list \<Rightarrow> XARPEntry list" where
  "push_entry_back ae aes = filter (\<lambda>e. axid e \<noteq> axid ae) aes @ [ae]"

text \<open>
  The packets that waited for the entry are handed over if the caller asks for them; the result is that list and the
  table.
\<close>

definition arp_insert ::
  "click_xia_xid \<Rightarrow> ether_address \<Rightarrow> bool \<Rightarrow> u32 \<Rightarrow> XARPTable \<Rightarrow> (packet list \<times> XARPTable) run" where
  "arp_insert xid eth head now t =
     bind_run (ensure xid now t) (\<lambda>t1.
       case find_entry xid (age t1) of
         None \<Rightarrow> Inl Null_deref
       | Some ae \<Rightarrow>
           let ae1 = ae\<lparr>aeth := eth, aknown := \<not> is_broadcast eth, live_at_j := now, polled_at_j := now - CLICK_HZ\<rparr>
           in if head then
                Inr (waiting ae, t1\<lparr>age := push_entry_back (ae1\<lparr>waiting := []\<rparr>) (age t1),
                  packet_count := packet_count t1 - of_nat (length (waiting ae))\<rparr>)
              else Inr ([], t1\<lparr>age := push_entry_back ae1 (age t1)\<rparr>))"

text \<open>
  An entry that is used but past its time limit gets the oldest time that is not expired, and moves behind the entries
  that are older than that.
\<close>

definition reposition :: "XARPEntry \<Rightarrow> XARPEntry list \<Rightarrow> XARPEntry list" where
  "reposition ae aes =
     (let before = takeWhile (\<lambda>e. axid e \<noteq> axid ae) aes;
          after = tl (dropWhile (\<lambda>e. axid e \<noteq> axid ae) aes);
          older = (\<lambda>e. click_jiffies_less (live_at_j e) (live_at_j ae))
      in before @ takeWhile older after @ ae # dropWhile older after)"

definition refresh :: "u32 \<Rightarrow> XARPEntry \<Rightarrow> XARPTable \<Rightarrow> XARPTable" where
  "refresh now ae t =
     (let live_at_j_min = now - timeout_j t in
      if timeout_j t \<noteq> 0 \<and> click_jiffies_less (live_at_j ae) live_at_j_min
      then t\<lparr>age := reposition (ae\<lparr>live_at_j := live_at_j_min\<rparr>) (age t)\<rparr> else t)"

definition EAGAIN :: int where
  "EAGAIN = 11"

text \<open>An entry that \<^verbatim>\<open>slim\<close> deleted while it is used would be a dangling pointer.\<close>

definition append_query ::
  "click_xia_xid \<Rightarrow> packet \<Rightarrow> u32 \<Rightarrow> XARPTable \<Rightarrow> (int \<times> XARPTable) run" where
  "append_query xid p now t =
     bind_run (ensure xid now t) (\<lambda>t1.
       case find_entry xid (age t1) of
         None \<Rightarrow> Inl Null_deref
       | Some ae \<Rightarrow>
           if known now (timeout_j t1) ae then Inr (- EAGAIN, t1)
           else
             let t2 = refresh now ae t1; t3 = t2\<lparr>packet_count := packet_count t2 + 1\<rparr> in
             bind_run (if packet_capacity t3 \<noteq> 0 \<and> packet_count t3 > packet_capacity t3 then slim now t3 else Inr t3) (\<lambda>t4.
               case find_entry xid (age t4) of
                 None \<Rightarrow> Inl Null_deref
               | Some ae1 \<Rightarrow>
                   let poll = \<not> click_jiffies_less now (polled_at_j ae1 + CLICK_HZ div 10);
                       ae2 = ae1\<lparr>waiting := waiting ae1 @ [p], polled_at_j := (if poll then now else polled_at_j ae1)\<rparr>
                   in Inr (if poll then 1 else 0, t4\<lparr>age := set_entry ae2 (age t4)\<rparr>)))"

text \<open>The address is only written for a result that is not negative.\<close>

definition arp_lookup ::
  "click_xia_xid \<Rightarrow> u32 \<Rightarrow> u32 \<Rightarrow> XARPTable \<Rightarrow> int \<times> ether_address option \<times> XARPTable" where
  "arp_lookup xid poll_timeout_j now t =
     (case find_entry xid (age t) of
        None \<Rightarrow> (- 1, None, t)
      | Some ae \<Rightarrow>
          if known now (timeout_j t) ae then
            if poll_timeout_j \<noteq> 0 \<and> \<not> click_jiffies_less now (live_at_j ae + poll_timeout_j)
               \<and> \<not> click_jiffies_less now (polled_at_j ae + CLICK_HZ div 10)
            then (1, Some (aeth ae), t\<lparr>age := set_entry (ae\<lparr>polled_at_j := now\<rparr>) (age t)\<rparr>)
            else (0, Some (aeth ae), t)
          else (- 1, None, t))"

definition arp_lookup_address :: "click_xia_xid \<Rightarrow> u32 \<Rightarrow> XARPTable \<Rightarrow> ether_address" where
  "arp_lookup_address xid now t =
     (case arp_lookup xid 0 now t of (r, Some e, _) \<Rightarrow> if r \<ge> 0 then e else make_broadcast | _ \<Rightarrow> make_broadcast)"

end
