(* ===== verification/Xia_Arp_Invariant.thy ===== *)
theory Xia_Arp_Invariant
  imports Xia_Arp_Table "HOL-Library.Multiset"
begin

text \<open>
  The invariant of the address table: one entry for each XID, exact counters, no more entries and waiting packets than
  the capacities allow, and no broadcast address for a known neighbour. Every operation keeps it and returns without a
  fault.
\<close>

section \<open>The invariant\<close>

definition queued :: "XARPEntry list \<Rightarrow> nat" where
  "queued aes = sum_list (map (\<lambda>ae. length (waiting ae)) aes)"

lemma queued_simps [simp]:
  "queued [] = 0" "queued (ae # aes) = length (waiting ae) + queued aes" "queued (aes @ bes) = queued aes + queued bes"
  by (simp_all add: queued_def)

text \<open>A known address is not the broadcast address, and the packets of an entry wait for its XID.\<close>

definition entry_ok :: "XARPEntry \<Rightarrow> bool" where
  "entry_ok ae \<longleftrightarrow> (aknown ae \<longrightarrow> \<not> is_broadcast (aeth ae)) \<and> (\<forall>p\<in>set (waiting ae). nexthop_neighbor_xid_anno p = axid ae)"

text \<open>
  The counters are exact, also while an entry or a packet is already counted that is not in the table yet: \<open>j\<close> entries
  and \<open>k\<close> packets.
\<close>

definition arp_counts :: "nat \<Rightarrow> nat \<Rightarrow> XARPTable \<Rightarrow> bool" where
  "arp_counts j k t \<longleftrightarrow>
     distinct (map axid (age t))
     \<and> entry_count t = of_nat (length (age t) + j)
     \<and> packet_count t = of_nat (queued (age t) + k)
     \<and> (\<forall>ae\<in>set (age t). entry_ok ae)"

definition arp_config :: "XARPTable \<Rightarrow> bool" where
  "arp_config t \<longleftrightarrow> packet_capacity t \<noteq> 0 \<and> packet_capacity t \<noteq> - 1 \<and> entry_capacity t \<noteq> - 1"

definition arp_room :: "nat \<Rightarrow> nat \<Rightarrow> XARPTable \<Rightarrow> bool" where
  "arp_room j k t \<longleftrightarrow> queued (age t) + k \<le> unat (packet_capacity t)
     \<and> (entry_capacity t \<noteq> 0 \<longrightarrow> length (age t) + j \<le> unat (entry_capacity t))"

definition arp_ok :: "XARPTable \<Rightarrow> bool" where
  "arp_ok t \<longleftrightarrow> arp_config t \<and> arp_counts 0 0 t \<and> arp_room 0 0 t"

definition same_config :: "XARPTable \<Rightarrow> XARPTable \<Rightarrow> bool" where
  "same_config t t1 \<longleftrightarrow> entry_capacity t1 = entry_capacity t \<and> packet_capacity t1 = packet_capacity t \<and> timeout_j t1 = timeout_j t"

lemma unat_of_nat_bound: "n < 2 ^ 32 \<Longrightarrow> unat (of_nat n :: u32) = n"
  by (simp add: unat_of_nat)

lemma unat_not_max: "x \<noteq> - 1 \<Longrightarrow> unat (x :: u32) + 1 < 2 ^ 32"
proof -
  assume "x \<noteq> - 1"
  then have "x < - 1" using word_n1_ge [of x] by (simp add: order_le_less)
  then have "unat x < unat (- 1 :: u32)" by (simp add: word_less_nat_alt)
  moreover have "unat (- 1 :: u32) = 2 ^ 32 - 1"
    by (simp add: unsigned_minus_1_eq_mask mask_eq_exp_minus_1)
  ultimately show ?thesis by simp
qed

text \<open>What the first loop leaves: the end of the age list, with exact counters.\<close>

definition slimmed :: "u32 \<Rightarrow> nat \<Rightarrow> nat \<Rightarrow> XARPTable \<Rightarrow> XARPTable \<Rightarrow> bool" where
  "slimmed now j k t t1 \<longleftrightarrow>
     (\<exists>n. age t1 = drop n (age t)
       \<and> (entry_capacity t = 0 \<or> length (age t) + j \<le> unat (entry_capacity t) \<longrightarrow>
            (\<forall>ae\<in>set (take n (age t)). expired now (timeout_j t) ae)))
     \<and> entry_count t1 = of_nat (length (age t1) + j) \<and> packet_count t1 = of_nat (queued (age t1) + k)
     \<and> same_config t t1
     \<and> (entry_capacity t \<noteq> 0 \<longrightarrow> age t1 = [] \<or> length (age t1) + j \<le> unat (entry_capacity t))"

lemma slimmed_step:
  assumes "slimmed now j k t' t1" "age t = ae # age t'" "same_config t' t"
    and "expired now (timeout_j t) ae \<or> entry_capacity t \<noteq> 0 \<and> unat (entry_capacity t) < length (age t) + j"
  shows "slimmed now j k t t1"
proof -
  obtain n where n: "age t1 = drop n (age t')"
    "entry_capacity t' = 0 \<or> length (age t') + j \<le> unat (entry_capacity t') \<longrightarrow>
       (\<forall>ae\<in>set (take n (age t')). expired now (timeout_j t') ae)"
    using assms(1) by (auto simp: slimmed_def)
  have "\<exists>n. age t1 = drop n (age t)
       \<and> (entry_capacity t = 0 \<or> length (age t) + j \<le> unat (entry_capacity t) \<longrightarrow>
            (\<forall>ae\<in>set (take n (age t)). expired now (timeout_j t) ae))"
    using n assms(2-4) by (intro exI [of _ "Suc n"]) (auto simp: same_config_def)
  with assms(1,3) show ?thesis unfolding slimmed_def same_config_def by auto
qed

lemma slim_entries_spec:
  assumes "entry_count t = of_nat (length (age t) + j)" "packet_count t = of_nat (queued (age t) + k)"
    and "entry_capacity t \<noteq> 0 \<Longrightarrow> length (age t) + j < 2 ^ 32"
  shows "slimmed now j k t (slim_entries now t)"
  using assms
proof (induction "age t" arbitrary: t)
  case Nil
  then show ?case
    by (auto simp: slim_entries.simps [of now t] slimmed_def same_config_def)
next
  case (Cons ae rest)
  let ?t = "t\<lparr>age := rest, entry_count := entry_count t - 1,
      packet_count := packet_count t - of_nat (length (waiting ae)),
      arp_drops := arp_drops t + of_nat (length (waiting ae))\<rparr>"
  let ?over = "entry_capacity t \<noteq> 0 \<and> entry_count t > entry_capacity t"
  have age: "age t = ae # rest" using Cons.hyps by simp
  have over: "?over \<longleftrightarrow> entry_capacity t \<noteq> 0 \<and> unat (entry_capacity t) < length (age t) + j"
    using Cons.prems(1,3) by (auto simp: word_less_nat_alt unat_of_nat_bound simp del: of_nat_add)
  show ?case
  proof (cases "expired now (timeout_j t) ae \<or> ?over")
    case True
    have "rest = age ?t" "entry_count ?t = of_nat (length (age ?t) + j)" "packet_count ?t = of_nat (queued (age ?t) + k)"
      "entry_capacity ?t \<noteq> 0 \<Longrightarrow> length (age ?t) + j < 2 ^ 32"
      using Cons.prems age by (auto simp: algebra_simps)
    from Cons.hyps(1) [OF this] have rest: "slimmed now j k ?t (slim_entries now ?t)" .
    have step: "slim_entries now t = slim_entries now ?t"
      using True by (subst slim_entries.simps) (simp add: age)
    have "age t = ae # age ?t" "same_config ?t t" by (simp_all add: age same_config_def)
    moreover have "expired now (timeout_j t) ae \<or> entry_capacity t \<noteq> 0 \<and> unat (entry_capacity t) < length (age t) + j"
      using True unfolding over .
    ultimately show ?thesis unfolding step by (rule slimmed_step [OF rest])
  next
    case False
    have "slim_entries now t = t" using False by (subst slim_entries.simps) (auto simp: age)
    with False over Cons.prems show ?thesis
      by (auto simp: slimmed_def same_config_def intro!: exI [of _ 0])
  qed
qed

lemma slim_queue_spec:
  assumes "cnt = of_nat (length q + m)" "length q + m < 2 ^ 32"
  shows "case slim_queue cap q cnt dropped of (q1, cnt1, _) \<Rightarrow>
    (\<exists>n. n \<le> length q + m - unat cap \<and> q1 = drop n q) \<and> cnt1 = of_nat (length q1 + m) \<and> (q1 = [] \<or> length q1 + m \<le> unat cap)"
  using assms
proof (induction cap q cnt dropped rule: slim_queue.induct)
  case (1 cap cnt dropped)
  then show ?case by (auto intro: exI [of _ 0])
next
  case (2 cap p ps cnt dropped)
  have less: "cap < cnt \<longleftrightarrow> unat cap < length (p # ps) + m"
    using 2(3) by (simp only: 2(2) word_less_nat_alt unat_of_nat_bound)
  show ?case
  proof (cases "cap < cnt")
    case True
    obtain q1 cnt1 d1 where q1: "slim_queue cap ps (cnt - 1) (dropped + 1) = (q1, cnt1, d1)"
      by (cases "slim_queue cap ps (cnt - 1) (dropped + 1)")
    have "cnt - 1 = of_nat (length ps + m)" "length ps + m < 2 ^ 32" using 2(2,3) by simp_all
    from 2(1) [OF True this, unfolded q1 prod.case] obtain n where n: "n \<le> length ps + m - unat cap" "q1 = drop n ps"
        "cnt1 = of_nat (length q1 + m)" "q1 = [] \<or> length q1 + m \<le> unat cap" by blast
    have "Suc n \<le> length (p # ps) + m - unat cap" "q1 = drop (Suc n) (p # ps)"
      using n(1,2) True less by simp_all
    with n(3,4) True q1 show ?thesis by auto
  next
    case False
    with less 2 show ?thesis by (auto intro: exI [of _ 0])
  qed
qed

text \<open>An entry that lost the oldest of its packets, \<open>b\<close> at most.\<close>

definition trimmed :: "nat \<Rightarrow> XARPEntry \<Rightarrow> XARPEntry \<Rightarrow> bool" where
  "trimmed b ae ae1 \<longleftrightarrow> (\<exists>n\<le>b. ae1 = ae\<lparr>waiting := drop n (waiting ae)\<rparr>)"

lemma trimmed_refl: "trimmed b ae ae"
  by (auto simp: trimmed_def intro: exI [of _ 0])

lemma trimmed_mono: "trimmed b ae ae1 \<Longrightarrow> b \<le> c \<Longrightarrow> trimmed c ae ae1"
  by (auto simp: trimmed_def intro: order_trans)

lemma trimmed_same:
  assumes "trimmed b ae ae1"
  shows "axid ae1 = axid ae" "aeth ae1 = aeth ae" "aknown ae1 = aknown ae"
    "live_at_j ae1 = live_at_j ae" "polled_at_j ae1 = polled_at_j ae"
  using assms by (auto simp: trimmed_def)

lemma slim_packets_spec:
  assumes "cap \<noteq> 0" "cnt = of_nat (queued aes + k)" "queued aes + k < 2 ^ 32" "k \<le> unat cap"
  shows "\<exists>aes1 cnt1 dropped1. slim_packets cap aes cnt dropped = Inr (aes1, cnt1, dropped1)
    \<and> list_all2 (trimmed (queued aes + k - unat cap)) aes aes1 \<and> cnt1 = of_nat (queued aes1 + k) \<and> queued aes1 + k \<le> unat cap"
  using assms
proof (induction aes arbitrary: cnt dropped k)
  case Nil
  then have "\<not> cap < cnt" by (simp add: word_less_nat_alt unat_of_nat_bound)
  with Nil show ?case by simp
next
  case (Cons ae aes)
  have less: "cap < cnt \<longleftrightarrow> unat cap < queued (ae # aes) + k"
    using Cons.prems(3) by (simp only: Cons.prems(2) word_less_nat_alt unat_of_nat_bound)
  show ?case
  proof (cases "cap < cnt")
    case False
    then show ?thesis
      using Cons.prems less by (auto simp: list_all2_same trimmed_refl)
  next
    case True
    obtain q cnt1 dropped1 where q: "slim_queue cap (waiting ae) cnt dropped = (q, cnt1, dropped1)"
      by (cases "slim_queue cap (waiting ae) cnt dropped") auto
    have "cnt = of_nat (length (waiting ae) + (queued aes + k))" "length (waiting ae) + (queued aes + k) < 2 ^ 32"
      using Cons.prems(2,3) by (simp_all add: add.assoc)
    from slim_queue_spec [OF this, of cap dropped, unfolded q prod.case]
    obtain n where n: "q = drop n (waiting ae)" "cnt1 = of_nat (length q + (queued aes + k))"
      "q = [] \<or> length q + (queued aes + k) \<le> unat cap" "n \<le> length (waiting ae) + (queued aes + k) - unat cap"
      by blast
    have trim: "trimmed (queued (ae # aes) + k - unat cap) ae (ae\<lparr>waiting := q\<rparr>)"
      using n(1,4) by (auto simp: trimmed_def add.assoc)
    have len: "length q \<le> length (waiting ae)" using n(1) by simp
    have "\<exists>aes1 cnt2 dropped2. slim_packets cap aes cnt1 dropped1 = Inr (aes1, cnt2, dropped2)
        \<and> list_all2 (trimmed (queued aes + (length q + k) - unat cap)) aes aes1
        \<and> cnt2 = of_nat (queued aes1 + (length q + k)) \<and> queued aes1 + (length q + k) \<le> unat cap"
    proof (rule Cons.IH)
      show "cnt1 = of_nat (queued aes + (length q + k))" using n(2) by (simp add: algebra_simps)
      show "length q + k \<le> unat cap" using n(3) Cons.prems(4) by auto
    qed (use Cons.prems len in auto)
    then obtain aes1 cnt2 dropped2 where r: "slim_packets cap aes cnt1 dropped1 = Inr (aes1, cnt2, dropped2)"
        "list_all2 (trimmed (queued aes + (length q + k) - unat cap)) aes aes1"
        "cnt2 = of_nat (queued aes1 + (length q + k))" "queued aes1 + (length q + k) \<le> unat cap" by blast
    have "list_all2 (trimmed (queued (ae # aes) + k - unat cap)) aes aes1"
      using r(2) by (rule list_all2_mono) (rule trimmed_mono, assumption, use len in simp)
    then show ?thesis using True Cons.prems(1) q trim r(1,3,4) by (auto simp: algebra_simps)
  qed
qed

lemma trimmed_axids: "list_all2 (trimmed b) aes bes \<Longrightarrow> map axid bes = map axid aes"
  by (induction rule: list_all2_induct) (simp_all add: trimmed_same)

lemma trimmed_entry_ok: "trimmed b ae ae1 \<Longrightarrow> entry_ok ae \<Longrightarrow> entry_ok ae1"
  using set_drop_subset by (fastforce simp: trimmed_def entry_ok_def)

lemma trimmed_known: "list_all2 (trimmed b) aes bes \<Longrightarrow> \<forall>ae\<in>set aes. entry_ok ae \<Longrightarrow> \<forall>ae\<in>set bes. entry_ok ae"
  by (induction rule: list_all2_induct) (auto intro: trimmed_entry_ok)

text \<open>
  \<^verbatim>\<open>slim\<close> makes room for what is already counted, and keeps an entry that is not expired unless there are too many
  entries.
\<close>

lemma slim_spec:
  assumes "arp_config t" "arp_counts j k t" "queued (age t) + k < 2 ^ 32"
    and "j \<le> 1" "k \<le> 1" "entry_capacity t \<noteq> 0 \<Longrightarrow> length (age t) + j < 2 ^ 32"
  shows "\<exists>t1 n. slim now t = Inr t1 \<and> same_config t t1 \<and> arp_counts j k t1 \<and> arp_room j k t1
    \<and> list_all2 (trimmed (queued (age t) + k - unat (packet_capacity t))) (drop n (age t)) (age t1)
    \<and> (entry_capacity t = 0 \<or> length (age t) + j \<le> unat (entry_capacity t) \<longrightarrow>
         (\<forall>ae\<in>set (take n (age t)). expired now (timeout_j t) ae))"
proof -
  define t1 where "t1 = slim_entries now t"
  have "slimmed now j k t t1"
    unfolding t1_def using assms by (intro slim_entries_spec) (auto simp: arp_counts_def)
  then obtain n where n: "age t1 = drop n (age t)"
    "entry_capacity t = 0 \<or> length (age t) + j \<le> unat (entry_capacity t) \<longrightarrow>
       (\<forall>ae\<in>set (take n (age t)). expired now (timeout_j t) ae)"
    and t1: "entry_count t1 = of_nat (length (age t1) + j)" "packet_count t1 = of_nat (queued (age t1) + k)"
      "same_config t t1" "entry_capacity t \<noteq> 0 \<longrightarrow> age t1 = [] \<or> length (age t1) + j \<le> unat (entry_capacity t)"
    by (auto simp: slimmed_def)
  have queued: "queued (age t) = queued (take n (age t)) + queued (age t1)"
    unfolding n(1) by (metis append_take_drop_id queued_simps(3))
  have cap: "packet_capacity t1 \<noteq> 0" using assms(1) t1(3) by (simp add: arp_config_def same_config_def)
  have "k \<le> unat (packet_capacity t1)"
    using cap assms(5) by (simp add: unat_gt_0 Suc_le_eq order.trans [of k 1])
  then obtain aes cnt dropped where slim: "slim_packets (packet_capacity t1) (age t1) (packet_count t1) (arp_drops t1) = Inr (aes, cnt, dropped)"
    "list_all2 (trimmed (queued (age t1) + k - unat (packet_capacity t1))) (age t1) aes" "cnt = of_nat (queued aes + k)" "queued aes + k \<le> unat (packet_capacity t1)"
    using slim_packets_spec [OF cap t1(2)] assms(3) queued by fastforce
  have len: "length aes = length (age t1)" using slim(2) by (simp add: list_all2_lengthD)
  have "distinct (map axid (age t1))"
    using assms(2) by (simp add: arp_counts_def n(1) drop_map [symmetric])
  moreover have "\<forall>ae\<in>set (age t1). entry_ok ae"
    using assms(2) by (auto simp: arp_counts_def n(1) dest: in_set_dropD)
  ultimately have "arp_counts j k (t1\<lparr>age := aes, packet_count := cnt, arp_drops := dropped\<rparr>)"
    using t1(1) slim trimmed_axids [OF slim(2)] trimmed_known [OF slim(2)] by (simp add: arp_counts_def len)
  moreover have "arp_room j k (t1\<lparr>age := aes, packet_count := cnt, arp_drops := dropped\<rparr>)"
    using slim(4) t1(3,4) len assms(4)
    by (auto simp: arp_room_def same_config_def unat_gt_0 Suc_le_eq order.trans [of j 1])
  moreover have "slim now t = Inr (t1\<lparr>age := aes, packet_count := cnt, arp_drops := dropped\<rparr>)"
    by (simp add: slim_def Let_def slim(1) flip: t1_def)
  moreover have "list_all2 (trimmed (queued (age t) + k - unat (packet_capacity t))) (age t1) aes"
    using slim(2) by (rule list_all2_mono) (rule trimmed_mono, assumption, use queued t1(3) in \<open>simp add: same_config_def\<close>)
  ultimately show ?thesis
    using n t1(3)
    by (intro exI [of _ "t1\<lparr>age := aes, packet_count := cnt, arp_drops := dropped\<rparr>"] exI [of _ n])
       (simp add: same_config_def)
qed

section \<open>Finding and replacing entries\<close>

lemma find_entry_SomeD: "find_entry x aes = Some ae \<Longrightarrow> ae \<in> set aes \<and> axid ae = x"
  by (auto simp: find_entry_def find_Some_iff)

lemma find_entry_None: "find_entry x aes = None \<longleftrightarrow> x \<notin> axid ` set aes"
  by (auto simp: find_entry_def find_None_iff)

lemma find_entry_simps [simp]:
  "find_entry x [] = None"
  "find_entry x (e # aes) = (if axid e = x then Some e else find_entry x aes)"
  by (simp_all add: find_entry_def)

lemma find_entry_append:
  "find_entry x (aes @ bes) = (case find_entry x aes of None \<Rightarrow> find_entry x bes | Some ae \<Rightarrow> Some ae)"
  by (induction aes) simp_all

text \<open>The place of an entry in the age list.\<close>

lemma entry_split:
  assumes "find_entry x aes = Some ae" "distinct (map axid aes)"
  obtains bs cs where "aes = bs @ ae # cs" "x \<notin> axid ` set bs" "x \<notin> axid ` set cs" "axid ae = x"
proof -
  from find_entry_SomeD [OF assms(1)] obtain bs cs where "aes = bs @ ae # cs" "axid ae = x" by (auto dest: split_list)
  with assms(2) that show ?thesis by auto
qed

text \<open>Replacing the entry: at its place, at the end, or behind older entries.\<close>

lemma other_axids:
  assumes "x \<notin> axid ` set bs"
  shows "map (\<lambda>e. if axid e = x then ae else e) bs = bs" "filter (\<lambda>e. axid e \<noteq> x) bs = bs"
    "takeWhile (\<lambda>e. axid e \<noteq> x) (bs @ e # cs) = (if axid e \<noteq> x then bs @ e # takeWhile (\<lambda>e. axid e \<noteq> x) cs else bs)"
    "dropWhile (\<lambda>e. axid e \<noteq> x) (bs @ e # cs) = (if axid e \<noteq> x then dropWhile (\<lambda>e. axid e \<noteq> x) cs else e # cs)"
  using assms by (induction bs) auto

lemma replace_entry:
  assumes "x \<notin> axid ` set bs" "x \<notin> axid ` set cs" "axid ae = x" "axid ae1 = x"
  shows "set_entry ae1 (bs @ ae # cs) = bs @ ae1 # cs"
    and "push_entry_back ae1 (bs @ ae # cs) = bs @ cs @ [ae1]"
    and "\<exists>ds es. cs = ds @ es \<and> reposition ae1 (bs @ ae # cs) = bs @ ds @ ae1 # es"
proof -
  show "set_entry ae1 (bs @ ae # cs) = bs @ ae1 # cs"
    using assms by (simp add: set_entry_def other_axids)
  show "push_entry_back ae1 (bs @ ae # cs) = bs @ cs @ [ae1]"
    using assms by (simp add: push_entry_back_def other_axids)
  show "\<exists>ds es. cs = ds @ es \<and> reposition ae1 (bs @ ae # cs) = bs @ ds @ ae1 # es"
    using assms
    by (intro exI [of _ "takeWhile (\<lambda>e. click_jiffies_less (live_at_j e) (live_at_j ae1)) cs"]
          exI [of _ "dropWhile (\<lambda>e. click_jiffies_less (live_at_j e) (live_at_j ae1)) cs"])
       (simp add: reposition_def Let_def other_axids)
qed

text \<open>A permutation of the entries with one of them replaced keeps what the invariant says of the others.\<close>

lemma arp_counts_replace:
  assumes "arp_counts j k t" "age t = bs @ ae # cs" "mset (age t1) = mset (bs @ ae1 # cs)"
    and "axid ae1 = axid ae" "entry_ok ae1"
    and "entry_count t1 = entry_count t" "packet_count t1 = of_nat (queued (bs @ ae1 # cs) + k1)"
  shows "arp_counts j k1 t1"
proof -
  have "mset (map axid (age t1)) = mset (map axid (age t))"
    unfolding mset_map assms(2,3) by (simp add: assms(4))
  then have "distinct (map axid (age t1)) \<longleftrightarrow> distinct (map axid (age t))" by (rule mset_eq_imp_distinct_iff)
  moreover have "length (age t1) = length (age t)" using mset_eq_length [OF assms(3)] assms(2) by simp
  moreover have "queued (age t1) = queued (bs @ ae1 # cs)"
    by (simp only: queued_def sum_mset_sum_list [symmetric] mset_map assms(3))
  moreover have "set (age t1) = set (bs @ ae1 # cs)" using assms(3) by (rule mset_eq_setD)
  ultimately show ?thesis using assms by (auto simp: arp_counts_def)
qed

lemma arp_counts_add:
  "arp_counts 1 k t \<Longrightarrow> axid ae \<notin> axid ` set (age t) \<Longrightarrow> waiting ae = [] \<Longrightarrow> \<not> aknown ae \<Longrightarrow>
    arp_counts 0 k (t\<lparr>age := age t @ [ae]\<rparr>)"
  by (auto simp: arp_counts_def entry_ok_def)

section \<open>Operations keep the invariant\<close>

lemma arp_okD:
  assumes "arp_ok t"
  shows "arp_config t" "arp_counts 0 0 t" "arp_room 0 0 t" "distinct (map axid (age t))"
    "queued (age t) + 1 < 2 ^ 32" "entry_capacity t \<noteq> 0 \<Longrightarrow> length (age t) + 1 < 2 ^ 32"
proof -
  show a: "arp_config t" "arp_counts 0 0 t" "arp_room 0 0 t" using assms by (simp_all add: arp_ok_def)
  then show "distinct (map axid (age t))" by (simp add: arp_counts_def)
  show "queued (age t) + 1 < 2 ^ 32"
    using a unat_not_max [of "packet_capacity t"] by (simp add: arp_config_def arp_room_def)
  show "entry_capacity t \<noteq> 0 \<Longrightarrow> length (age t) + 1 < 2 ^ 32"
    using a unat_not_max [of "entry_capacity t"] by (simp add: arp_config_def arp_room_def)
qed

lemma config_same: "same_config t t1 \<Longrightarrow> arp_config t1 \<longleftrightarrow> arp_config t"
  by (simp add: same_config_def arp_config_def)

lemma ensure_ok:
  assumes ok: "arp_ok t"
  shows "\<exists>t1 ae. ensure xid now t = Inr t1 \<and> arp_ok t1 \<and> same_config t t1 \<and> find_entry xid (age t1) = Some ae
    \<and> (case find_entry xid (age t) of Some e \<Rightarrow> ae = e | None \<Rightarrow> ae = XARPEntry_new xid now)"
proof (cases "find_entry xid (age t)")
  case (Some e)
  with ok show ?thesis by (simp add: ensure_def same_config_def)
next
  case None
  define t1 where "t1 = t\<lparr>entry_count := entry_count t + 1\<rparr>"
  note D = arp_okD [OF ok]
  have t1: "arp_config t1" "arp_counts 1 0 t1" "age t1 = age t" "same_config t t1"
    using D(1,2) by (simp_all add: t1_def arp_config_def arp_counts_def same_config_def)
  obtain t2 where t2: "(if entry_capacity t1 \<noteq> 0 \<and> entry_count t1 > entry_capacity t1 then slim now t1 else Inr t1) = Inr t2"
    "same_config t t2" "arp_counts 1 0 t2" "arp_room 1 0 t2" "set (map axid (age t2)) \<subseteq> set (map axid (age t))"
  proof (cases "entry_capacity t1 \<noteq> 0 \<and> entry_count t1 > entry_capacity t1")
    case True
    from slim_spec [OF t1(1,2), of now] D(5,6) obtain s n where s: "slim now t1 = Inr s" "same_config t1 s"
        "arp_counts 1 0 s" "arp_room 1 0 s"
        "list_all2 (trimmed (queued (age t1) + 0 - unat (packet_capacity t1))) (drop n (age t)) (age s)"
      using t1(3,4) by (auto simp: same_config_def)
    have "set (map axid (age s)) \<subseteq> set (map axid (age t))"
      unfolding trimmed_axids [OF s(5)] by (auto dest: in_set_dropD)
    with True s t1(4) show ?thesis by (intro that [of s]) (auto simp: same_config_def)
  next
    case False
    have "entry_capacity t1 \<noteq> 0 \<Longrightarrow> length (age t) + 1 \<le> unat (entry_capacity t1)"
    proof -
      assume cap: "entry_capacity t1 \<noteq> 0"
      have "unat (entry_count t1) = length (age t) + 1"
        using D(6) cap t1(2,3) unat_of_nat_bound [of "length (age t) + 1"]
        by (simp add: arp_counts_def t1_def add.commute)
      with False cap show ?thesis by (simp add: word_less_nat_alt)
    qed
    then have "arp_room 1 0 t1" using D(3) t1 by (simp add: arp_room_def same_config_def)
    with False t1 show ?thesis by (intro that [of t1]) auto
  qed
  have new: "xid \<notin> axid ` set (age t2)" using None t2(5) by (auto simp: find_entry_None)
  let ?t = "t2\<lparr>age := age t2 @ [XARPEntry_new xid now]\<rparr>"
  have "arp_counts 0 0 ?t"
    using t2(3) new by (intro arp_counts_add) (simp_all add: XARPEntry_new_def)
  moreover have "arp_room 0 0 ?t" using t2(4) by (simp add: arp_room_def XARPEntry_new_def)
  moreover have "same_config t ?t" using t2(2) by (simp add: same_config_def)
  moreover have "find_entry xid (age ?t) = Some (XARPEntry_new xid now)"
    using new by (simp add: find_entry_append find_entry_None [THEN iffD2] XARPEntry_new_def)
  moreover have "ensure xid now t = Inr ?t" using None t2(1) by (simp add: ensure_def Let_def flip: t1_def)
  ultimately show ?thesis using None D(1) by (auto simp: arp_ok_def config_same)
qed

lemma arp_insert_ok:
  assumes ok: "arp_ok t"
  shows "\<exists>ps t1 ae. arp_insert xid eth head now t = Inr (ps, t1) \<and> arp_ok t1 \<and> same_config t t1
    \<and> find_entry xid (age t1) = Some ae \<and> aeth ae = eth \<and> aknown ae = (\<not> is_broadcast eth) \<and> live_at_j ae = now
    \<and> (head \<longrightarrow> waiting ae = [] \<and> ps = (case find_entry xid (age t) of None \<Rightarrow> [] | Some e \<Rightarrow> waiting e))"
proof -
  obtain t1 ae where t1: "ensure xid now t = Inr t1" "arp_ok t1" "same_config t t1" "find_entry xid (age t1) = Some ae"
    and ae: "case find_entry xid (age t) of Some e \<Rightarrow> ae = e | None \<Rightarrow> ae = XARPEntry_new xid now"
    using ensure_ok [OF ok] by blast
  note D = arp_okD [OF t1(2)]
  obtain bs cs where split: "age t1 = bs @ ae # cs" "xid \<notin> axid ` set bs" "xid \<notin> axid ` set cs" "axid ae = xid"
    by (rule entry_split [OF t1(4) D(4)]) blast
  define ae1 where "ae1 = ae\<lparr>aeth := eth, aknown := \<not> is_broadcast eth, live_at_j := now, polled_at_j := now - CLICK_HZ\<rparr>"
  define ae2 where "ae2 = (if head then ae1\<lparr>waiting := []\<rparr> else ae1)"
  define t2 where "t2 = t1\<lparr>age := push_entry_back ae2 (age t1),
    packet_count := (if head then packet_count t1 - of_nat (length (waiting ae)) else packet_count t1)\<rparr>"
  have ae2: "axid ae2 = xid" "aeth ae2 = eth" "aknown ae2 = (\<not> is_broadcast eth)" "live_at_j ae2 = now"
    "waiting ae2 = (if head then [] else waiting ae)"
    by (simp_all add: ae2_def ae1_def split(4))
  have age: "age t2 = bs @ cs @ [ae2]"
    using replace_entry(2) [OF split(2-4) ae2(1)] by (simp add: t2_def split(1))
  have "arp_insert xid eth head now t = Inr (if head then waiting ae else [], t2)"
    by (cases head) (simp_all add: arp_insert_def t1 Let_def t2_def ae2_def ae1_def)
  moreover have "arp_counts 0 0 t2"
  proof (rule arp_counts_replace [OF D(2) split(1)])
    show "mset (age t2) = mset (bs @ ae2 # cs)" by (simp add: age)
    show "packet_count t2 = of_nat (queued (bs @ ae2 # cs) + 0)"
      using D(2) by (simp add: t2_def arp_counts_def split(1) ae2(5))
    have "entry_ok ae" using D(2) by (simp add: arp_counts_def split(1))
    then show "entry_ok ae2" by (auto simp: entry_ok_def ae2 split(4))
  qed (simp_all add: ae2 split(4) t2_def)
  moreover have "arp_room 0 0 t2"
    using D(3) by (auto simp: arp_room_def age split(1) ae2(5)) (simp_all add: t2_def split(1))
  moreover have "find_entry xid (age t2) = Some ae2"
    using split(2,3) by (simp add: age find_entry_append find_entry_None [THEN iffD2] ae2(1))
  moreover have "same_config t t2" using t1(3) by (simp add: same_config_def t2_def)
  moreover have "arp_config t2" using D(1) by (simp add: arp_config_def t2_def)
  moreover have "head \<longrightarrow> waiting ae = (case find_entry xid (age t) of None \<Rightarrow> [] | Some e \<Rightarrow> waiting e)"
    using ae by (auto simp: XARPEntry_new_def split: option.splits)
  ultimately show ?thesis using ae2 by (auto simp: arp_ok_def)
qed

text \<open>An entry at the lowest time is not expired, whatever the wrap of the times.\<close>

lemma not_expired_min: "\<not> expired now tmo (ae\<lparr>live_at_j := now - tmo\<rparr>)"
  by (simp add: expired_def click_jiffies_less_def)

lemma not_expired_live: "\<not> click_jiffies_less (live_at_j ae) (now - tmo) \<Longrightarrow> \<not> expired now tmo ae"
  by (simp add: expired_def click_jiffies_less_def algebra_simps)

lemma refresh_ok:
  assumes ok: "arp_ok t" and find: "find_entry xid (age t) = Some ae"
  shows "arp_ok (refresh now ae t)" "same_config t (refresh now ae t)"
    and "\<exists>ae1. find_entry xid (age (refresh now ae t)) = Some ae1 \<and> \<not> expired now (timeout_j t) ae1
      \<and> waiting ae1 = waiting ae \<and> polled_at_j ae1 = polled_at_j ae \<and> aknown ae1 = aknown ae \<and> aeth ae1 = aeth ae"
proof -
  let ?ae = "ae\<lparr>live_at_j := now - timeout_j t\<rparr>"
  note D = arp_okD [OF ok]
  obtain bs cs where split: "age t = bs @ ae # cs" "xid \<notin> axid ` set bs" "xid \<notin> axid ` set cs" "axid ae = xid"
    by (rule entry_split [OF find D(4)]) blast
  have "axid ?ae = xid" by (simp add: split(4))
  from replace_entry(3) [OF split(2-4) this] obtain ds es where
    rep: "cs = ds @ es" "reposition ?ae (age t) = bs @ ds @ ?ae # es" by (auto simp: split(1))
  have "arp_ok (refresh now ae t) \<and> same_config t (refresh now ae t)
    \<and> (\<exists>ae1. find_entry xid (age (refresh now ae t)) = Some ae1 \<and> \<not> expired now (timeout_j t) ae1
        \<and> waiting ae1 = waiting ae \<and> polled_at_j ae1 = polled_at_j ae \<and> aknown ae1 = aknown ae \<and> aeth ae1 = aeth ae)"
  proof (cases "timeout_j t \<noteq> 0 \<and> click_jiffies_less (live_at_j ae) (now - timeout_j t)")
    case True
    let ?t = "t\<lparr>age := reposition ?ae (age t)\<rparr>"
    have "arp_counts 0 0 ?t"
    proof (rule arp_counts_replace [OF D(2) split(1)])
      show "mset (age ?t) = mset (bs @ ?ae # cs)" by (simp add: rep)
      show "packet_count ?t = of_nat (queued (bs @ ?ae # cs) + 0)"
        using D(2) by (simp add: arp_counts_def split(1))
    qed (use D(2) in \<open>auto simp: arp_counts_def split(1) entry_ok_def\<close>)
    moreover have "queued (reposition ?ae (age t)) = queued (age t)" "length (reposition ?ae (age t)) = length (age t)"
      unfolding rep(2) by (simp_all add: split(1) rep(1))
    then have "arp_room 0 0 ?t" using D(3) by (simp add: arp_room_def)
    moreover have "find_entry xid (age ?t) = Some ?ae"
    proof -
      have "find_entry xid bs = None" "find_entry xid ds = None" using split(2,3) rep(1) by (auto simp: find_entry_None)
      then show ?thesis by (simp add: rep(2) find_entry_append split(4))
    qed
    ultimately show ?thesis
      using True D(1) not_expired_min [of now "timeout_j t" ae]
      by (simp add: refresh_def Let_def arp_ok_def arp_config_def same_config_def)
  next
    case False
    then have "\<not> expired now (timeout_j t) ae"
      using not_expired_live [of ae now "timeout_j t"] by (auto simp: expired_def)
    with False ok find show ?thesis by (auto simp: refresh_def Let_def same_config_def)
  qed
  then show "arp_ok (refresh now ae t)" "same_config t (refresh now ae t)"
    and "\<exists>ae1. find_entry xid (age (refresh now ae t)) = Some ae1 \<and> \<not> expired now (timeout_j t) ae1
      \<and> waiting ae1 = waiting ae \<and> polled_at_j ae1 = polled_at_j ae \<and> aknown ae1 = aknown ae \<and> aeth ae1 = aeth ae"
    by simp_all
qed

text \<open>The last step of a query: the packet goes to the end of the queue of the entry.\<close>

lemma enqueue_ok:
  fixes p :: packet and poll :: u32
  assumes "arp_config t" "arp_counts 0 1 t" "arp_room 0 1 t" "find_entry xid (age t) = Some ae"
    and "nexthop_neighbor_xid_anno p = xid"
  defines "ae1 \<equiv> ae\<lparr>waiting := waiting ae @ [p], polled_at_j := poll\<rparr>"
  shows "arp_ok (t\<lparr>age := set_entry ae1 (age t)\<rparr>)" "find_entry xid (set_entry ae1 (age t)) = Some ae1"
proof -
  let ?t = "t\<lparr>age := set_entry ae1 (age t)\<rparr>"
  have "distinct (map axid (age t))" using assms(2) by (simp add: arp_counts_def)
  from entry_split [OF assms(4) this] obtain bs cs where split: "age t = bs @ ae # cs" "xid \<notin> axid ` set bs"
      "xid \<notin> axid ` set cs" "axid ae = xid" by blast
  have ax: "axid ae1 = xid" by (simp add: ae1_def split(4))
  have age: "set_entry ae1 (age t) = bs @ ae1 # cs" unfolding split(1) by (rule replace_entry(1) [OF split(2-4) ax])
  have "arp_counts 0 0 ?t"
  proof (rule arp_counts_replace [OF assms(2) split(1)])
    show "packet_count ?t = of_nat (queued (bs @ ae1 # cs) + 0)"
      using assms(2) by (simp add: arp_counts_def split(1) ae1_def)
    show "mset (age ?t) = mset (bs @ ae1 # cs)" by (simp add: age)
  qed (use assms(2,5) in \<open>auto simp: ae1_def arp_counts_def split entry_ok_def\<close>)
  moreover have "queued (bs @ ae1 # cs) = queued (age t) + 1" "length (bs @ ae1 # cs) = length (age t)"
    by (simp_all add: split(1) ae1_def)
  then have "arp_room 0 0 ?t" using assms(3) by (simp add: arp_room_def age)
  ultimately show "arp_ok ?t" using assms(1) by (simp add: arp_ok_def arp_config_def)
  show "find_entry xid (set_entry ae1 (age t)) = Some ae1"
    using split(2) by (simp add: age find_entry_append find_entry_None [THEN iffD2] ax)
qed

lemma list_all2_find:
  "list_all2 (trimmed b) aes bes \<Longrightarrow> find_entry x aes = Some ae \<Longrightarrow> \<exists>ae1. find_entry x bes = Some ae1 \<and> trimmed b ae ae1"
  by (induction rule: list_all2_induct) (auto simp: trimmed_same split: if_splits)

text \<open>
  An entry that is not expired survives \<^verbatim>\<open>slim\<close> when there are not too many entries, and loses at most one packet when one
  more is counted than there is room for.
\<close>

lemma slim_keeps:
  fixes now :: u32
  assumes "arp_ok t" "find_entry xid (age t) = Some ae" "\<not> expired now (timeout_j t) ae"
  defines "t1 \<equiv> t\<lparr>packet_count := packet_count t + 1\<rparr>"
  shows "\<exists>t2 ae1. slim now t1 = Inr t2 \<and> same_config t t2 \<and> arp_counts 0 1 t2 \<and> arp_room 0 1 t2
    \<and> find_entry xid (age t2) = Some ae1 \<and> trimmed 1 ae ae1"
proof -
  note D = arp_okD [OF assms(1)]
  have t1: "arp_config t1" "arp_counts 0 1 t1" "age t1 = age t" "same_config t t1" "timeout_j t1 = timeout_j t"
    using D(1,2) by (simp_all add: t1_def arp_config_def arp_counts_def same_config_def)
  have few: "entry_capacity t1 = 0 \<or> length (age t1) + 0 \<le> unat (entry_capacity t1)"
    using D(3) t1(3,4) by (auto simp: arp_room_def same_config_def)
  have "queued (age t1) + 1 < 2 ^ 32" "entry_capacity t1 \<noteq> 0 \<Longrightarrow> length (age t1) + 0 < 2 ^ 32"
    using D(5,6) t1(3,4) by (simp_all add: same_config_def)
  from slim_spec [OF t1(1,2) this(1) _ _ this(2), of now] few obtain t2 n where t2: "slim now t1 = Inr t2" "same_config t1 t2"
      "arp_counts 0 1 t2" "arp_room 0 1 t2"
      "list_all2 (trimmed (queued (age t) + 1 - unat (packet_capacity t1))) (drop n (age t)) (age t2)"
      "\<forall>ae\<in>set (take n (age t)). expired now (timeout_j t) ae"
    unfolding t1(3,5) by auto
  have "find_entry xid (take n (age t)) = None"
  proof (rule ccontr)
    assume "find_entry xid (take n (age t)) \<noteq> None"
    then obtain e where e: "find_entry xid (take n (age t)) = Some e" by auto
    then have "find_entry xid (age t) = Some e"
      using find_entry_append [of xid "take n (age t)" "drop n (age t)"] by simp
    with assms(2,3) t2(6) find_entry_SomeD [OF e] show False by auto
  qed
  then have "find_entry xid (drop n (age t)) = Some ae"
    using assms(2) find_entry_append [of xid "take n (age t)" "drop n (age t)"] by simp
  from list_all2_find [OF t2(5) this] obtain ae1 where ae1: "find_entry xid (age t2) = Some ae1"
      "trimmed (queued (age t) + 1 - unat (packet_capacity t1)) ae ae1" by blast
  have "queued (age t) \<le> unat (packet_capacity t1)" using D(3) t1(4) by (simp add: arp_room_def same_config_def)
  then have "queued (age t) + 1 - unat (packet_capacity t1) \<le> 1" by linarith
  with ae1 t2 t1(4) show ?thesis using trimmed_mono by (fastforce simp: same_config_def)
qed

text \<open>The packets that wait for an XID, and whether a query for it may be sent again.\<close>

definition waiting_for :: "click_xia_xid \<Rightarrow> XARPTable \<Rightarrow> packet list" where
  "waiting_for xid t = (case find_entry xid (age t) of None \<Rightarrow> [] | Some ae \<Rightarrow> waiting ae)"

definition poll_due :: "click_xia_xid \<Rightarrow> u32 \<Rightarrow> XARPTable \<Rightarrow> bool" where
  "poll_due xid now t =
     (case find_entry xid (age t) of None \<Rightarrow> True | Some ae \<Rightarrow> \<not> click_jiffies_less now (polled_at_j ae + CLICK_HZ div 10))"

definition resolved :: "click_xia_xid \<Rightarrow> u32 \<Rightarrow> XARPTable \<Rightarrow> bool" where
  "resolved xid now t = (case find_entry xid (age t) of None \<Rightarrow> False | Some ae \<Rightarrow> known now (timeout_j t) ae)"

lemma new_entry_due: "\<not> click_jiffies_less now (now - CLICK_HZ + CLICK_HZ div 10)"
proof -
  have "now - (now - CLICK_HZ + CLICK_HZ div 10) = 900" by (simp add: CLICK_HZ_def)
  then show ?thesis by (simp add: click_jiffies_less_def)
qed

lemma append_query_ok:
  assumes ok: "arp_ok t" and p: "nexthop_neighbor_xid_anno p = xid"
  shows "\<exists>r t1. append_query xid p now t = Inr (r, t1) \<and> arp_ok t1 \<and> same_config t t1
    \<and> (if resolved xid now t then r = - EAGAIN
       else r = (if poll_due xid now t then 1 else 0) \<and> 
         (\<exists>n\<le>1. (packet_count t < packet_capacity t \<longrightarrow> n = 0) \<and> waiting_for xid t1 = drop n (waiting_for xid t) @ [p]))"
proof -
  obtain t1 ae where t1: "ensure xid now t = Inr t1" "arp_ok t1" "same_config t t1" "find_entry xid (age t1) = Some ae"
    and ae: "case find_entry xid (age t) of Some e \<Rightarrow> ae = e | None \<Rightarrow> ae = XARPEntry_new xid now"
    using ensure_ok [OF ok] by blast
  have kn: "known now (timeout_j t1) ae \<longleftrightarrow> resolved xid now t"
    using ae t1(3) by (auto simp: resolved_def same_config_def known_def XARPEntry_new_def split: option.splits)
  have old: "waiting ae = waiting_for xid t" "click_jiffies_less now (polled_at_j ae + CLICK_HZ div 10) \<longleftrightarrow> \<not> poll_due xid now t"
    using ae new_entry_due [of now] by (auto simp: waiting_for_def poll_due_def XARPEntry_new_def split: option.splits)
  show ?thesis
  proof (cases "known now (timeout_j t1) ae")
    case True
    then show ?thesis using kn t1 by (simp add: append_query_def)
  next
    case False
    define t2 where "t2 = refresh now ae t1"
    define t3 where "t3 = t2\<lparr>packet_count := packet_count t2 + 1\<rparr>"
    note R = refresh_ok [OF t1(2,4), of now, folded t2_def]
    obtain ae1 where ae1: "find_entry xid (age t2) = Some ae1" "\<not> expired now (timeout_j t2) ae1"
      "waiting ae1 = waiting ae" "polled_at_j ae1 = polled_at_j ae"
      using R(2,3) by (auto simp: same_config_def)
    obtain t4 ae4 where t4: "(if packet_capacity t3 \<noteq> 0 \<and> packet_count t3 > packet_capacity t3 then slim now t3 else Inr t3) = Inr t4"
      "same_config t2 t4" "arp_counts 0 1 t4" "arp_room 0 1 t4" "find_entry xid (age t4) = Some ae4"
      "trimmed 1 ae1 ae4" "packet_count t2 < packet_capacity t2 \<longrightarrow> ae4 = ae1"
    proof (cases "packet_capacity t3 \<noteq> 0 \<and> packet_count t3 > packet_capacity t3")
      case True
      moreover have "\<not> packet_count t2 < packet_capacity t2"
        using True inc_le [of "packet_count t2" "packet_capacity t2"] by (auto simp: t3_def dest: leD)
      ultimately show ?thesis using slim_keeps [OF R(1) ae1(1,2)] that by (auto simp: t3_def)
    next
      case False
      note D = arp_okD [OF R(1)]
      have "unat (packet_count t3) = queued (age t2) + 1"
        using D(2,5) unat_of_nat_bound [of "queued (age t2) + 1"] by (simp add: arp_counts_def t3_def add.commute)
      moreover have "packet_capacity t2 \<noteq> 0" using D(1) by (simp add: arp_config_def)
      ultimately have "arp_room 0 1 t3"
        using False D(3) by (simp add: arp_room_def t3_def word_less_nat_alt)
      moreover have "arp_counts 0 1 t3" using D(2) by (simp add: arp_counts_def t3_def)
      ultimately show ?thesis using False ae1(1) by (intro that [of t3 ae1]) (auto simp: same_config_def t3_def trimmed_refl)
    qed
    have conf: "arp_config t4" "same_config t t4"
      using t1(3) R(2) t4(2) arp_okD(1) [OF ok] by (auto simp: same_config_def arp_config_def)
    define poll where "poll = (\<not> click_jiffies_less now (polled_at_j ae4 + CLICK_HZ div 10))"
    define ae5 where "ae5 = ae4\<lparr>waiting := waiting ae4 @ [p], polled_at_j := (if poll then now else polled_at_j ae4)\<rparr>"
    define t5 where "t5 = t4\<lparr>age := set_entry ae5 (age t4)\<rparr>"
    have E: "arp_ok t5" "find_entry xid (age t5) = Some ae5"
      using enqueue_ok [OF conf(1) t4(3-5) p] by (simp_all add: t5_def ae5_def)
    have "append_query xid p now t = Inr (if poll then 1 else 0, t5)"
      unfolding append_query_def t1(1) bind_run_simps t1(4) option.case if_not_P [OF False] Let_def
        t2_def [symmetric] t3_def [symmetric] t4(1) t4(5)
      by (simp add: poll_def ae5_def t5_def)
    moreover have "same_config t t5" using conf(2) by (simp add: same_config_def t5_def)
    moreover obtain n where n: "n \<le> 1" "packet_count t < packet_capacity t \<longrightarrow> n = 0" "waiting ae4 = drop n (waiting_for xid t)"
    proof (cases "find_entry xid (age t)")
      case None
      then have "waiting_for xid t = []" by (simp add: waiting_for_def)
      moreover from this have "waiting ae4 = []" using t4(6) ae1(3) old(1) by (auto simp: trimmed_def)
      ultimately show ?thesis by (intro that [of 0]) simp_all
    next
      case (Some e)
      then have "t1 = t" using t1(1) by (simp add: ensure_def)
      then have c: "packet_count t2 = packet_count t" "packet_capacity t2 = packet_capacity t"
        by (simp_all add: t2_def refresh_def Let_def)
      obtain n where n: "n \<le> 1" "ae4 = ae1\<lparr>waiting := drop n (waiting ae1)\<rparr>" using t4(6) by (auto simp: trimmed_def)
      show ?thesis
      proof (cases "packet_count t < packet_capacity t")
        case True
        then show ?thesis using t4(7) c ae1(3) old(1) by (intro that [of 0]) simp_all
      next
        case False
        then show ?thesis using n ae1(3) old(1) by (intro that [of n]) simp_all
      qed
    qed
    then have "waiting_for xid t5 = drop n (waiting_for xid t) @ [p]" using E(2) by (simp add: waiting_for_def ae5_def)
    moreover have "poll = poll_due xid now t"
      using trimmed_same(5) [OF t4(6)] ae1(4) old(2) by (simp add: poll_def)
    ultimately show ?thesis
      using False kn E(1) n(1,2) by (intro exI [of _ "if poll then 1 else 0"] exI [of _ t5]) auto
  qed
qed

lemma arp_lookup_cases:
  "arp_lookup xid poll now t =
     (case find_entry xid (age t) of
        None \<Rightarrow> (- 1, None, t)
      | Some ae \<Rightarrow>
          if known now (timeout_j t) ae then
            (let polls = poll \<noteq> 0 \<and> \<not> click_jiffies_less now (live_at_j ae + poll)
               \<and> \<not> click_jiffies_less now (polled_at_j ae + CLICK_HZ div 10)
             in (if polls then 1 else 0, Some (aeth ae),
                 if polls then t\<lparr>age := set_entry (ae\<lparr>polled_at_j := now\<rparr>) (age t)\<rparr> else t))
          else (- 1, None, t))"
  by (auto simp: arp_lookup_def Let_def split: option.splits)

lemma poll_mark_ok:
  assumes ok: "arp_ok t" and find: "find_entry xid (age t) = Some ae"
  shows "arp_ok (t\<lparr>age := set_entry (ae\<lparr>polled_at_j := now\<rparr>) (age t)\<rparr>)"
proof -
  let ?ae = "ae\<lparr>polled_at_j := now\<rparr>" and ?t = "t\<lparr>age := set_entry (ae\<lparr>polled_at_j := now\<rparr>) (age t)\<rparr>"
  note D = arp_okD [OF ok]
  obtain bs cs where split: "age t = bs @ ae # cs" "xid \<notin> axid ` set bs" "xid \<notin> axid ` set cs" "axid ae = xid"
    by (rule entry_split [OF find D(4)]) blast
  have age: "set_entry ?ae (age t) = bs @ ?ae # cs" unfolding split(1) by (rule replace_entry(1)) (simp_all add: split)
  have "arp_counts 0 0 ?t"
  proof (rule arp_counts_replace [OF D(2) split(1)])
    show "mset (age ?t) = mset (bs @ ?ae # cs)" by (simp add: age)
    show "packet_count ?t = of_nat (queued (bs @ ?ae # cs) + 0)" using D(2) by (simp add: arp_counts_def split(1))
  qed (use D(2) in \<open>auto simp: arp_counts_def split(1) entry_ok_def\<close>)
  moreover have "queued (bs @ ?ae # cs) = queued (age t)" "length (bs @ ?ae # cs) = length (age t)"
    by (simp_all add: split(1))
  then have "arp_room 0 0 ?t" using D(3) by (simp add: arp_room_def age)
  ultimately show ?thesis using D(1) by (simp add: arp_ok_def arp_config_def)
qed

lemma arp_lookup_ok:
  assumes ok: "arp_ok t" and l: "arp_lookup xid poll now t = (r, e, t1)"
  shows "arp_ok t1" "same_config t t1"
    and "case e of None \<Rightarrow> r = - 1 \<and> t1 = t \<and> \<not> resolved xid now t
      | Some eth \<Rightarrow> r \<in> {0, 1} \<and> \<not> is_broadcast eth
          \<and> (\<exists>ae. find_entry xid (age t) = Some ae \<and> known now (timeout_j t) ae \<and> aeth ae = eth)"
proof -
  have "arp_ok t1 \<and> same_config t t1 \<and> (case e of
        None \<Rightarrow> r = - 1 \<and> t1 = t \<and> \<not> resolved xid now t
      | Some eth \<Rightarrow> r \<in> {0, 1} \<and> \<not> is_broadcast eth
          \<and> (\<exists>ae. find_entry xid (age t) = Some ae \<and> known now (timeout_j t) ae \<and> aeth ae = eth))"
  proof (cases "find_entry xid (age t)")
    case None
    with l ok show ?thesis by (auto simp: arp_lookup_cases same_config_def resolved_def)
  next
    case (Some ae)
    have "entry_ok ae" using find_entry_SomeD [OF Some] arp_okD(2) [OF ok] by (simp add: arp_counts_def)
    then have "known now (timeout_j t) ae \<Longrightarrow> \<not> is_broadcast (aeth ae)" by (simp add: entry_ok_def known_def)
    with l ok Some poll_mark_ok [OF ok Some, of now] show ?thesis
      by (auto simp: arp_lookup_cases same_config_def resolved_def Let_def split: if_splits)
  qed
  then show "arp_ok t1" "same_config t t1"
    and "case e of None \<Rightarrow> r = - 1 \<and> t1 = t \<and> \<not> resolved xid now t
      | Some eth \<Rightarrow> r \<in> {0, 1} \<and> \<not> is_broadcast eth
          \<and> (\<exists>ae. find_entry xid (age t) = Some ae \<and> known now (timeout_j t) ae \<and> aeth ae = eth)" by simp_all
qed

lemma run_timer_ok:
  assumes ok: "arp_ok t"
  shows "\<exists>t1. run_timer now t = Inr t1 \<and> arp_ok t1 \<and> same_config t t1"
proof -
  note D = arp_okD [OF ok]
  have "queued (age t) + 0 < 2 ^ 32" "entry_capacity t \<noteq> 0 \<Longrightarrow> length (age t) + 0 < 2 ^ 32" using D(5,6) by simp_all
  from slim_spec [OF D(1,2) this(1) _ _ this(2), of now] D(1) show ?thesis
    by (auto simp: run_timer_def arp_ok_def config_same)
qed

lemma arp_clear_ok: "arp_ok t \<Longrightarrow> arp_ok (arp_clear t) \<and> same_config t (arp_clear t)"
  by (simp add: arp_ok_def arp_clear_def arp_config_def arp_counts_def arp_room_def same_config_def)

end
