(* ===== verification/Xia_Arp.thy ===== *)
theory Xia_Arp
  imports Xia_Arp_Invariant Xia_Forwarding
begin

text \<open>
  Address resolution between neighbours: the querier and the responder (\<^verbatim>\<open>elements/xia/xarpquerier.{cc,hh}\<close>,
  \<^verbatim>\<open>elements/xia/xarpresponder.{cc,hh}\<close>) and the line card that joins them (\<^verbatim>\<open>XIALineCard\<close> in
  \<^verbatim>\<open>conf/xia_router_lib.click\<close>). Frames of the protocol are bytes; a data packet on its way to the network is a
  packet with its two Ethernet addresses.
\<close>

section \<open>Frames\<close>

definition ETHERTYPE_XARP :: u16 where
  "ETHERTYPE_XARP = 0x9990"

definition ETHERTYPE_XIP :: u16 where
  "ETHERTYPE_XIP = 0xC0DE"

definition XARPHRD_ETHER :: u16 where
  "XARPHRD_ETHER = 1"

definition XARPOP_REQUEST :: u16 where
  "XARPOP_REQUEST = 1"

definition XARPOP_REPLY :: u16 where
  "XARPOP_REPLY = 2"

datatype frame =
  XIP_frame (frame_dst: ether_address) (frame_src: ether_address) (frame_packet: packet)
| XARP_frame "u8 list"

definition bytes_at :: "nat \<Rightarrow> nat \<Rightarrow> u8 list \<Rightarrow> u8 list" where
  "bytes_at off n f = take n (drop off f)"

definition word_at :: "nat \<Rightarrow> u8 list \<Rightarrow> u16" where
  "word_at off f = ntohs (of_le_bytes (bytes_at off 2 f))"

text \<open>The two headers \<^verbatim>\<open>click_ether\<close> (14 bytes) and \<^verbatim>\<open>click_ether_xarp\<close> (68 bytes).\<close>

definition xarp_bytes ::
  "ether_address \<Rightarrow> ether_address \<Rightarrow> u16 \<Rightarrow> ether_address \<Rightarrow> u8 list \<Rightarrow> ether_address \<Rightarrow> u8 list \<Rightarrow> u8 list" where
  "xarp_bytes dhost shost op sha spa tha tpa =
     dhost @ shost @ le_bytes 2 (htons ETHERTYPE_XARP)
     @ le_bytes 2 (htons XARPHRD_ETHER) @ le_bytes 2 (htons ETHERTYPE_XIP) @ [6, 24] @ le_bytes 2 (htons op)
     @ sha @ spa @ tha @ tpa"

definition frame_bytes :: "frame \<Rightarrow> u8 list" where
  "frame_bytes f =
     (case f of
        XIP_frame d s p \<Rightarrow> d @ s @ le_bytes 2 (htons ETHERTYPE_XIP) @ hdr_bytes (phdr p) @ body p
      | XARP_frame bs \<Rightarrow> bs)"

section \<open>The querier\<close>

record XARPQuerier =
  xarpt :: XARPTable
  my_en :: ether_address
  my_xid :: click_xia_xid
  my_bcast_xid :: click_xia_xid
  poll_timeout_j :: u32
  broadcast_poll :: bool
  my_xid_configured :: bool
  xarp_queries :: u32
  querier_drops :: u32
  xarp_responses :: u32

definition seconds_j :: "u32 \<Rightarrow> u32" where
  "seconds_j sec = (if sec \<ge> 0xFFFFFFFF div CLICK_HZ then 0 else sec * CLICK_HZ)"

text \<open>The values of the keyword arguments, where they are given, and of the two arguments by position.\<close>

record querier_conf =
  c_capacity :: "u32 option"
  c_entry_capacity :: "u32 option"
  c_timeout :: "u32 option"
  c_broadcast :: "click_xia_xid option"
  c_poll_timeout :: "u32 option"
  c_broadcast_poll :: "bool option"
  c_xid :: click_xia_xid
  c_eth :: ether_address

definition default_bcast :: "click_xia_xid \<Rightarrow> click_xia_xid" where
  "default_bcast x = XID_parse (no_context (\<lambda>_. None)) BHID x"

definition XARPQuerier_configure :: "querier_conf \<Rightarrow> XARPQuerier \<Rightarrow> XARPQuerier" where
  "XARPQuerier_configure c q =
     q\<lparr>xarpt := XARPTable_configure (c_capacity c) (c_entry_capacity c) (c_timeout c) XARPTable_new,
       my_xid := c_xid c, my_en := c_eth c, my_xid_configured := True,
       my_bcast_xid := (case c_broadcast c of Some x \<Rightarrow> x | None \<Rightarrow> default_bcast (my_bcast_xid q)),
       broadcast_poll := (case c_broadcast_poll c of Some b \<Rightarrow> b | None \<Rightarrow> False),
       poll_timeout_j := seconds_j (case c_poll_timeout c of Some s \<Rightarrow> s | None \<Rightarrow> 60)\<rparr>"

text \<open>
  The querier has a table of its own. \<^verbatim>\<open>live_reconfigure\<close> reads the arguments into the members \<^verbatim>\<open>_my_xid\<close> and \<^verbatim>\<open>_my_en\<close>, compares the members with local
  variables that were never assigned, and then overwrites the members with these variables.
\<close>

definition XARPQuerier_live_reconfigure :: "querier_conf \<Rightarrow> XARPQuerier \<Rightarrow> XARPQuerier" where
  "XARPQuerier_live_reconfigure c q =
     (let t = (if XID_default \<noteq> c_xid c \<or> replicate 6 0 \<noteq> c_eth c then arp_clear (xarpt q) else xarpt q);
          t1 = (case c_capacity c of None \<Rightarrow> t | Some n \<Rightarrow> set_capacity n t);
          t2 = (case c_entry_capacity c of None \<Rightarrow> t1 | Some n \<Rightarrow> set_entry_capacity n t1);
          t3 = (case c_timeout c of None \<Rightarrow> t2 | Some s \<Rightarrow> set_timeout s t2)
      in q\<lparr>xarpt := t3, my_xid := XID_default, my_en := replicate 6 0, my_bcast_xid := default_bcast (my_bcast_xid q),
           broadcast_poll := (case c_broadcast_poll c of Some b \<Rightarrow> b | None \<Rightarrow> broadcast_poll q),
           poll_timeout_j := (case c_poll_timeout c of Some s \<Rightarrow> seconds_j s | None \<Rightarrow> poll_timeout_j q)\<rparr>)"

definition XARPQuerier_initialize :: "XARPQuerier \<Rightarrow> XARPQuerier" where
  "XARPQuerier_initialize q = q\<lparr>xarp_queries := 0, querier_drops := 0, xarp_responses := 0\<rparr>"

text \<open>\<open>dhost\<close> is the known address of the neighbour, for a query that only renews it.\<close>

definition send_query_for :: "packet \<Rightarrow> ether_address option \<Rightarrow> XARPQuerier \<Rightarrow> frame list \<times> XARPQuerier" where
  "send_query_for p dhost q =
     ([XARP_frame (xarp_bytes
         (case dhost of Some d \<Rightarrow> if broadcast_poll q then replicate 6 0xFF else d | None \<Rightarrow> replicate 6 0xFF)
         (my_en q) XARPOP_REQUEST (my_en q) (XID_data (my_xid q)) (replicate 6 0)
         (XID_data (nexthop_neighbor_xid_anno p)))],
      q\<lparr>xarp_queries := xarp_queries q + 1\<rparr>)"

text \<open>
  The lock of the table is released between the lookup and the query, and a query for an address that became known
  starts again; within one instant that would never end, which is the value \<^const>\<open>None\<close>.
\<close>

definition handle_xip :: "packet \<Rightarrow> u32 \<Rightarrow> XARPQuerier \<Rightarrow> (frame list \<times> XARPQuerier) run option" where
  "handle_xip p now q =
     (if \<not> my_xid_configured q then Some (Inr ([], q\<lparr>querier_drops := querier_drops q + 1\<rparr>))
      else
        let x = nexthop_neighbor_xid_anno p;
            (r, e, t) = arp_lookup x (poll_timeout_j q) now (xarpt q);
            q1 = q\<lparr>xarpt := t\<rparr>
        in case e of
             Some eth \<Rightarrow>
               if is_broadcast eth then Some (Inl Assert_failed)
               else
                 let (fs, q2) = (if r > 0 then send_query_for p (Some eth) q1 else ([], q1))
                 in Some (Inr (fs @ [XIP_frame eth (my_en q2) p], q2))
           | None \<Rightarrow>
               if XID_eq x (my_bcast_xid q) then Some (Inr ([XIP_frame (replicate 6 0xFF) (my_en q1) p], q1))
               else case append_query x p now t of
                 Inl f \<Rightarrow> Some (Inl f)
               | Inr (r, t1) \<Rightarrow>
                   let q2 = q\<lparr>xarpt := t1\<rparr> in
                   if r = - EAGAIN then None
                   else if r > 0 then Some (Inr (send_query_for p None q2)) else Some (Inr ([], q2)))"

fun handle_cached :: "packet list \<Rightarrow> u32 \<Rightarrow> XARPQuerier \<Rightarrow> (frame list \<times> XARPQuerier) run option" where
  "handle_cached [] now q = Some (Inr ([], q))"
| "handle_cached (p # ps) now q =
     (case handle_xip p now q of
        None \<Rightarrow> None
      | Some (Inl f) \<Rightarrow> Some (Inl f)
      | Some (Inr (fs, q1)) \<Rightarrow>
          map_option (\<lambda>r. bind_run r (\<lambda>(gs, q2). Inr (fs @ gs, q2))) (handle_cached ps now q1))"

definition handle_response :: "u8 list \<Rightarrow> u32 \<Rightarrow> XARPQuerier \<Rightarrow> (frame list \<times> XARPQuerier) run option" where
  "handle_response f now q =
     (if length f < 82 then Some (Inr ([], q))
      else
        let q1 = q\<lparr>xarp_responses := xarp_responses q + 1\<rparr>;
            xida = xid_of_bytes (bytes_at 28 24 f);
            ena = bytes_at 22 6 f
        in if word_at 12 f = ETHERTYPE_XARP \<and> word_at 14 f = XARPHRD_ETHER \<and> word_at 16 f = ETHERTYPE_XIP
              \<and> word_at 20 f = XARPOP_REPLY \<and> \<not> is_group ena
           then case arp_insert xida ena True now (xarpt q1) of
               Inl e \<Rightarrow> Some (Inl e)
             | Inr (cached, t) \<Rightarrow> handle_cached cached now (q1\<lparr>xarpt := t\<rparr>)
           else Some (Inr ([], q1)))"

section \<open>The responder\<close>

type_synonym XARPResponder = "(click_xia_xid \<times> ether_address) list"

definition responder_lookup :: "click_xia_xid \<Rightarrow> XARPResponder \<Rightarrow> ether_address option" where
  "responder_lookup xid v = map_option snd (find (\<lambda>(x, _). XID_eq xid x) v)"

definition make_response :: "ether_address \<Rightarrow> u8 list \<Rightarrow> ether_address \<Rightarrow> u8 list \<Rightarrow> u8 list" where
  "make_response target_eth txid src_eth sxid =
     xarp_bytes target_eth src_eth XARPOP_REPLY src_eth sxid target_eth txid"

text \<open>The response, or \<^const>\<open>None\<close> when the frame is passed to the second output.\<close>

definition responder_simple_action :: "u8 list \<Rightarrow> XARPResponder \<Rightarrow> u8 list option" where
  "responder_simple_action f v =
     (if length f \<ge> 82 \<and> word_at 12 f = ETHERTYPE_XARP \<and> word_at 14 f = XARPHRD_ETHER
         \<and> word_at 16 f = ETHERTYPE_XIP \<and> word_at 20 f = XARPOP_REQUEST
      then map_option (\<lambda>ena. make_response (bytes_at 22 6 f) (bytes_at 28 24 f) ena (bytes_at 58 24 f))
             (responder_lookup (xid_of_bytes (bytes_at 58 24 f)) v)
      else None)"

definition responder_remove :: "click_xia_xid \<Rightarrow> XARPResponder \<Rightarrow> bool \<times> XARPResponder" where
  "responder_remove xid v =
     (case dropWhile (\<lambda>(x, _). \<not> XID_eq x xid) v of
        [] \<Rightarrow> (False, v)
      | _ # rest \<Rightarrow> (True, takeWhile (\<lambda>(x, _). \<not> XID_eq x xid) v @ rest))"

section \<open>The line card\<close>

record line_card =
  card_querier :: XARPQuerier
  card_responder :: XARPResponder
  card_num :: int

datatype card_output = To_net frame | Up packet

text \<open>A packet from the host or router.\<close>

definition card_send :: "packet \<Rightarrow> u32 \<Rightarrow> line_card \<Rightarrow> (card_output list \<times> line_card) run option" where
  "card_send p now c =
     map_option (\<lambda>r. bind_run r (\<lambda>(fs, q). Inr (map To_net fs, c\<lparr>card_querier := q\<rparr>))) (handle_xip p now (card_querier c))"

text \<open>
  A frame from the network: the classifier looks at the Ethernet type and the operation. The annotations of a packet
  from a device are zero.
\<close>

definition card_receive :: "u8 list \<Rightarrow> u32 \<Rightarrow> line_card \<Rightarrow> (card_output list \<times> line_card) run option" where
  "card_receive f now c =
     (if bytes_at 12 2 f = [0x99, 0x90] \<and> bytes_at 20 2 f = [0, 1] then
        Some (Inr (case responder_simple_action f (card_responder c) of
           None \<Rightarrow> ([], c) | Some r \<Rightarrow> ([To_net (XARP_frame r)], c)))
      else if bytes_at 12 2 f = [0x99, 0x90] \<and> bytes_at 20 2 f = [0, 2] then
        map_option (\<lambda>r. bind_run r (\<lambda>(fs, q). Inr (map To_net fs, c\<lparr>card_querier := q\<rparr>)))
          (handle_response f now (card_querier c))
      else if bytes_at 12 2 f = [0xC0, 0xDE] then
        Some (bind_run (MarkXIAHeader_simple_action 0 (drop 14 f)) (\<lambda>(h, rest).
          Inr ([Up (XIAPaint_simple_action (card_num c)
            \<lparr>phdr = h, body = rest, next_path_anno = 0, paint_anno = 0, neighbor_anno = XID_default\<rparr>)], c)))
      else Some (Inr ([], c)))"

end
