(* ===== verification/Xia_Arp_Exchange.thy ===== *)
theory Xia_Arp_Exchange
  imports Xia_Arp
begin

text \<open>
  What address resolution achieves: the querier never faults and keeps the invariant of its table, a reply sends the
  packets that waited for it, in their order, and two line cards resolve an address with one query and one reply.
\<close>

section \<open>Frames of the protocol\<close>




section \<open>Safety of the querier\<close>

definition table_ok :: "XARPTable \<Rightarrow> XARPQuerier \<Rightarrow> bool" where
  "table_ok t0 q \<longleftrightarrow> arp_ok (xarpt q) \<and> same_config t0 (xarpt q)"

lemma table_okI: "table_ok t0 q \<Longrightarrow> arp_ok (xarpt q1) \<Longrightarrow> same_config (xarpt q) (xarpt q1) \<Longrightarrow> table_ok t0 q1"
  by (simp add: table_ok_def same_config_def)

lemma handle_xip_ok:
  assumes ok: "table_ok t0 q"
  shows "\<exists>fs q1. handle_xip p now q = Some (Inr (fs, q1)) \<and> table_ok t0 q1"
proof (cases "my_xid_configured q")
  case False
  with ok show ?thesis by (simp add: handle_xip_def table_ok_def)
next
  case True
  let ?x = "nexthop_neighbor_xid_anno p"
  have arp: "arp_ok (xarpt q)" using ok by (simp add: table_ok_def)
  obtain r e t where l: "arp_lookup ?x (poll_timeout_j q) now (xarpt q) = (r, e, t)" by (metis prod_cases3)
  note L = arp_lookup_ok [OF arp l]
  have t: "table_ok t0 (q\<lparr>xarpt := t\<rparr>)" using L(1,2) by (intro table_okI [OF ok]) simp_all
  show ?thesis
  proof (cases e)
    case (Some eth)
    with L(3) have "\<not> is_broadcast eth" by simp
    with True Some t show ?thesis
      by (cases "0 < r") (simp_all add: handle_xip_def l Let_def send_query_for_def table_ok_def)
  next
    case None
    then have "\<not> resolved ?x now t" using L(3) by auto
    with append_query_ok [OF L(1), of p ?x now] obtain r1 t1 where
      a: "append_query ?x p now t = Inr (r1, t1)" "arp_ok t1" "same_config t t1" and "r1 = 0 \<or> r1 = 1" by (auto split: if_splits)
    then have "r1 \<noteq> - EAGAIN" by (auto simp: EAGAIN_def)
    moreover have "table_ok t0 (q\<lparr>xarpt := t1\<rparr>)" using a(2,3) by (intro table_okI [OF t]) simp_all
    ultimately show ?thesis
      using True None a t by (auto simp: handle_xip_def l Let_def send_query_for_def table_ok_def)
  qed
qed

lemma handle_cached_ok:
  "table_ok t0 q \<Longrightarrow> \<exists>fs q1. handle_cached ps now q = Some (Inr (fs, q1)) \<and> table_ok t0 q1"
proof (induction ps arbitrary: q)
  case (Cons p ps)
  from handle_xip_ok [OF Cons.prems, of p now] obtain fs q1 where "handle_xip p now q = Some (Inr (fs, q1))" "table_ok t0 q1"
    by blast
  with Cons.IH [of q1] show ?case by auto
qed simp

lemma handle_response_ok:
  assumes ok: "table_ok t0 q"
  shows "\<exists>fs q1. handle_response f now q = Some (Inr (fs, q1)) \<and> table_ok t0 q1"
proof -
  have arp: "arp_ok (xarpt q)" using ok by (simp add: table_ok_def)
  obtain ps t where i: "arp_insert (xid_of_bytes (bytes_at 28 24 f)) (bytes_at 22 6 f) True now (xarpt q) = Inr (ps, t)"
      "arp_ok t" "same_config (xarpt q) t"
    using arp_insert_ok [OF arp] by blast
  have "table_ok t0 (q\<lparr>xarp_responses := xarp_responses q + 1, xarpt := t\<rparr>)"
    using i by (intro table_okI [OF ok]) simp_all
  from handle_cached_ok [OF this, of ps now] i show ?thesis using ok by (auto simp: handle_response_def Let_def table_ok_def)
qed

text \<open>The events of a querier: packets, frames, its timer and its handlers.\<close>

datatype arp_op =
  Send packet u32 | Receive "u8 list" u32 | Tick u32 | Insert click_xia_xid ether_address u32 | Delete click_xia_xid u32 | Clear

definition with_table :: "XARPQuerier \<Rightarrow> XARPTable run \<Rightarrow> (frame list \<times> XARPQuerier) run option" where
  "with_table q r = Some (bind_run r (\<lambda>t. Inr ([], q\<lparr>xarpt := t\<rparr>)))"

fun arp_step :: "arp_op \<Rightarrow> XARPQuerier \<Rightarrow> (frame list \<times> XARPQuerier) run option" where
  "arp_step (Send p now) q = handle_xip p now q"
| "arp_step (Receive f now) q = handle_response f now q"
| "arp_step (Tick now) q = with_table q (run_timer now (xarpt q))"
| "arp_step (Insert xid eth now) q = with_table q (bind_run (arp_insert xid eth False now (xarpt q)) (\<lambda>(_, t). Inr t))"
| "arp_step (Delete xid now) q = with_table q (bind_run (arp_insert xid make_broadcast False now (xarpt q)) (\<lambda>(_, t). Inr t))"
| "arp_step Clear q = with_table (q\<lparr>xarp_queries := 0, querier_drops := 0, xarp_responses := 0\<rparr>) (Inr (arp_clear (xarpt q)))"

definition arp_next :: "arp_op \<Rightarrow> XARPQuerier \<Rightarrow> XARPQuerier" where
  "arp_next op q = (case arp_step op q of Some (Inr (_, q1)) \<Rightarrow> q1 | _ \<Rightarrow> q)"

lemma arp_step_ok:
  assumes ok: "table_ok t0 q"
  shows "\<exists>fs q1. arp_step op q = Some (Inr (fs, q1)) \<and> table_ok t0 q1"
proof -
  have arp: "arp_ok (xarpt q)" using ok by (simp add: table_ok_def)
  have table: "table_ok t0 (q1\<lparr>xarpt := t\<rparr>)" if "arp_ok t" "same_config (xarpt q) t" for q1 t
    using that by (intro table_okI [OF ok]) simp_all
  show ?thesis
  proof (cases op)
    case (Insert xid eth now)
    with arp_insert_ok [OF arp, of xid eth False now] table show ?thesis by (auto simp: with_table_def)
  next
    case (Delete xid now)
    with arp_insert_ok [OF arp, of xid make_broadcast False now] table show ?thesis by (auto simp: with_table_def)
  next
    case (Tick now)
    with run_timer_ok [OF arp, of now] table show ?thesis by (auto simp: with_table_def)
  next
    case Clear
    with arp_clear_ok [OF arp] table show ?thesis by (auto simp: with_table_def)
  qed (simp_all add: handle_xip_ok [OF ok] handle_response_ok [OF ok])
qed

interpretation querier: invariant_system arp_next "table_ok t0" for t0
proof
  fix q op
  assume "table_ok t0 q"
  from arp_step_ok [OF this, of op] show "table_ok t0 (arp_next op q)" by (auto simp: arp_next_def)
qed

lemma configured_ok:
  assumes "case c_capacity c of None \<Rightarrow> True | Some n \<Rightarrow> n \<noteq> 0 \<and> n \<noteq> - 1"
    and "case c_entry_capacity c of None \<Rightarrow> True | Some n \<Rightarrow> n \<noteq> - 1"
  shows "table_ok (xarpt (XARPQuerier_configure c q)) (XARPQuerier_configure c q)"
  using assms
  by (auto simp: XARPQuerier_configure_def XARPTable_configure_def XARPTable_new_def set_timeout_def table_ok_def arp_ok_def
      arp_config_def arp_counts_def arp_room_def same_config_def split: option.splits)

lemma configured_capacities:
  "packet_capacity (xarpt (XARPQuerier_configure c q)) = (case c_capacity c of None \<Rightarrow> 2048 | Some n \<Rightarrow> n)"
  "entry_capacity (xarpt (XARPQuerier_configure c q)) = (case c_entry_capacity c of None \<Rightarrow> 0 | Some n \<Rightarrow> n)"
  by (simp_all add: XARPQuerier_configure_def XARPTable_configure_def XARPTable_new_def set_timeout_def split: option.splits)

text \<open>
  C8. The querier never faults and never hangs: after any sequence of packets, frames, timer ticks and handler calls,
  at any times, each further event is processed, the table has at most one entry for each XID, its counters are exact,
  and it holds no more waiting packets (2,048 by default) and, where a capacity is set, no more entries than
  configured. The packet capacity has to be neither zero nor the largest number.
\<close>

theorem querier_runs:
  assumes "case c_capacity c of None \<Rightarrow> True | Some n \<Rightarrow> n \<noteq> 0 \<and> n \<noteq> - 1"
    and "case c_entry_capacity c of None \<Rightarrow> True | Some n \<Rightarrow> n \<noteq> - 1"
    and "q1 = fold arp_next ops (XARPQuerier_configure c q)"
  shows "(\<exists>fs q2. arp_step op q1 = Some (Inr (fs, q2)))
    \<and> distinct (map axid (age (xarpt q1))) \<and> entry_count (xarpt q1) = of_nat (length (age (xarpt q1)))
    \<and> packet_count (xarpt q1) = of_nat (queued (age (xarpt q1)))
    \<and> queued (age (xarpt q1)) \<le> unat (case c_capacity c of None \<Rightarrow> 2048 | Some n \<Rightarrow> n)
    \<and> (case c_entry_capacity c of None \<Rightarrow> True | Some n \<Rightarrow> n = 0 \<or> length (age (xarpt q1)) \<le> unat n)"
proof -
  have ok: "table_ok (xarpt (XARPQuerier_configure c q)) q1"
    unfolding assms(3) by (rule querier.inv_fold) (rule configured_ok [OF assms(1,2)])
  then have arp: "arp_ok (xarpt q1)" and conf: "same_config (xarpt (XARPQuerier_configure c q)) (xarpt q1)"
    by (simp_all add: table_ok_def)
  show ?thesis
    using arp_step_ok [OF ok, of op] arp_okD [OF arp] conf
    by (auto simp: arp_counts_def arp_room_def same_config_def configured_capacities split: option.splits)
qed

definition sample_conf :: querier_conf where
  "sample_conf = \<lparr>c_capacity = None, c_entry_capacity = None, c_timeout = None, c_broadcast = Some (sample_host 255),
     c_poll_timeout = None, c_broadcast_poll = None, c_xid = sample_host 1, c_eth = [2, 0, 0, 0, 0, 1]\<rparr>"

definition fresh_querier :: XARPQuerier where
  "fresh_querier = \<lparr>xarpt = XARPTable_new, my_en = replicate 6 0, my_xid = XID_default, my_bcast_xid = XID_default,
     poll_timeout_j = 0, broadcast_poll = False, my_xid_configured = False, xarp_queries = 0, querier_drops = 0,
     xarp_responses = 0\<rparr>"

definition sample_events :: "arp_op list" where
  "sample_events = [Send (sample_packet (sample_host 2) 0) 7, Send (sample_packet (sample_host 2) 0) 8, Tick 400000]"

theorem querier_runs_witness:
  "queued (age (xarpt (fold arp_next sample_events (XARPQuerier_configure sample_conf fresh_querier)))) \<le> 2048"
proof -
  have c: "case c_capacity sample_conf of None \<Rightarrow> True | Some n \<Rightarrow> n \<noteq> 0 \<and> n \<noteq> - 1"
    "case c_entry_capacity sample_conf of None \<Rightarrow> True | Some n \<Rightarrow> n \<noteq> - 1"
    by (simp_all add: sample_conf_def)
  have "c_capacity sample_conf = None" by (simp add: sample_conf_def)
  with querier_runs [OF c refl, where q = fresh_querier and ops = sample_events] show ?thesis by simp
qed

section \<open>Replies\<close>








section \<open>Resolving an address\<close>



lemma xarp_classes:
  "le_bytes 2 (htons ETHERTYPE_XARP) = [0x99, 0x90]" "le_bytes 2 (htons ETHERTYPE_XIP) = [0xC0, 0xDE]"
  "le_bytes 2 (htons XARPOP_REQUEST) = [0, 1]" "le_bytes 2 (htons XARPOP_REPLY) = [0, 2]"
  by code_simp+



definition sample_card :: "u8 \<Rightarrow> line_card" where
  "sample_card b = \<lparr>card_querier = XARPQuerier_configure (sample_conf\<lparr>c_xid := sample_host b, c_eth := [2, 0, 0, 0, 0, b]\<rparr>) fresh_querier,
     card_responder = [(sample_host b, [2, 0, 0, 0, 0, b])], card_num = 0\<rparr>"





text \<open>
  C33. A data frame crosses the network: what one line card sends for a packet whose header is well formed and has at most 255
  nodes, another card passes up with the same header and payload, painted with the number of its interface.
\<close>

theorem frame_delivered:
  assumes "wf_hdr (phdr p)" "length (hnode (phdr p)) < 256" "length dhost = 6" "length shost = 6"
    and "- 32768 \<le> card_num c" "card_num c < 32768"
  shows "\<exists>q. card_receive (frame_bytes (XIP_frame dhost shost p)) now c = Some (Inr ([Up q], c))
    \<and> phdr q = phdr p \<and> body q = body p \<and> XIA_PAINT_ANNO q = card_num c"
proof -
  let ?f = "frame_bytes (XIP_frame dhost shost p)"
  have f: "bytes_at 12 2 ?f = [0xC0, 0xDE]" "drop 14 ?f = hdr_bytes (phdr p) @ body p"
    using assms(3,4) by (simp_all add: frame_bytes_def bytes_at_def xarp_classes)
  have n: "length (hnode (phdr p)) = unat (dnode (phdr p)) + unat (snode (phdr p))" "\<forall>m\<in>set (hnode (phdr p)). wf_node m"
    using assms(1) by (simp_all add: wf_hdr_def)
  have "length (hdr_bytes (phdr p)) = XIAHeader_hdr_size (unat (dnode (phdr p)) + unat (snode (phdr p)))"
    using n assms(2) length_nodes_bytes [OF n(2)] by (simp add: hdr_bytes_def XIAHeader_hdr_size_def length_le_bytes)
  then have "MarkXIAHeader_simple_action 0 (drop 14 ?f) = Inr (phdr p, body p)"
    unfolding f(2) MarkXIAHeader_simple_action_def by (simp add: hdr_of_bytes_hdr_bytes [OF assms(1)])
  then show ?thesis
    using f(1) sint_16_of_int [OF assms(5,6)]
    by (auto simp: card_receive_def XIAPaint_simple_action_def SET_XIA_PAINT_ANNO_def XIA_PAINT_ANNO_def)
qed

theorem frame_delivered_witness:
  "\<exists>q. card_receive (frame_bytes (XIP_frame [2, 0, 0, 0, 0, 2] [2, 0, 0, 0, 0, 1] (sample_packet (sample_host 7) 0))) 5 (sample_card 2)
      = Some (Inr ([Up q], sample_card 2)) \<and> phdr q = phdr (sample_packet (sample_host 7) 0)"
proof -
  have "wf_hdr (phdr (sample_packet (sample_host 7) 0))"
    by (simp add: wf_hdr_def wf_node_def wf_xid_def sample_packet_def sample_host_def CLICK_XIA_XID_ID_LEN_def
        CLICK_XIA_XID_EDGE_NUM_def Let_def)
  from frame_delivered [OF this, of "[2, 0, 0, 0, 0, 2]" "[2, 0, 0, 0, 0, 1]" "sample_card 2" 5] show ?thesis
    by (auto simp: sample_packet_def sample_card_def Let_def)
qed

section \<open>Long time limits\<close>

lemma long_timeout_negative:
  fixes sec :: u32
  assumes "2147484 \<le> sec" "sec < 4294967"
  shows "sint (sec * 1000) < 0"
proof -
  have s: "2147484 \<le> unat sec" "unat sec < 4294967" using assms by (simp_all add: word_le_nat_alt word_less_nat_alt)
  have "unat (1000 :: u32) = 1000" by simp
  with s have "unat (sec * 1000) = unat sec * 1000" using unat_mult_lem [of sec "1000 :: u32"] by simp
  with s have u: "2 ^ 31 \<le> unat (sec * 1000)" "unat (sec * 1000) < 2 ^ 32" by simp_all
  define w where "w = sec * 1000"
  have "2147483648 \<le> int (unat w)" "int (unat w) < 4294967296" using u unfolding w_def [symmetric] by (simp_all del: of_nat_unat)
  then have "uint w div 2 ^ 31 = 1" by (simp add: div_pos_geq)
  then have "bit (uint w) 31" by (simp add: bit_iff_odd)
  then have "bit w 31" by (simp add: bit_uint_iff)
  then show ?thesis using bit_last_iff [of w] by (simp add: w_def)
qed

text \<open>
  A time limit between 2,147,484 and 4,294,966 seconds is not one: its number of jiffies is compared as a negative
  number, so an address is unknown at the moment it is inserted. Shorter and longer limits are not affected.
\<close>

theorem long_timeout_expires:
  assumes "arp_ok t" "2147484 \<le> sec" "sec < 4294967"
  shows "\<exists>ps t1. arp_insert x eth head now (set_timeout sec t) = Inr (ps, t1)
    \<and> arp_lookup x poll now t1 = (- 1, None, t1)"
proof -
  have ok: "arp_ok (set_timeout sec t)"
    using assms(1) by (simp add: arp_ok_def set_timeout_def arp_config_def arp_counts_def arp_room_def)
  from arp_insert_ok [OF this, of x eth head now] obtain ps t1 ae where
    i: "arp_insert x eth head now (set_timeout sec t) = Inr (ps, t1)" "same_config (set_timeout sec t) t1"
      "find_entry x (age t1) = Some ae" "live_at_j ae = now" by blast
  have "\<not> (4294967 \<le> sec)" using assms(3) by simp
  then have tj: "timeout_j t1 = sec * 1000" using i(2) by (simp add: same_config_def set_timeout_def CLICK_HZ_def)
  have neg: "sint (sec * 1000) < 0" using long_timeout_negative [OF assms(2,3)] .
  then have "sec * 1000 \<noteq> 0" by auto
  with neg have "expired now (timeout_j t1) ae" by (simp add: tj expired_def click_jiffies_less_def i(4))
  with i show ?thesis by (auto simp: arp_lookup_def known_def)
qed

theorem long_timeout_expires_witness:
  "\<exists>ps t1. arp_insert (sample_host 2) [2, 0, 0, 0, 0, 2] False 9 (set_timeout 3000000 XARPTable_new) = Inr (ps, t1)
    \<and> arp_lookup (sample_host 2) 0 9 t1 = (- 1, None, t1)"
proof (rule long_timeout_expires)
  show "arp_ok XARPTable_new" by (simp add: XARPTable_new_def arp_ok_def arp_config_def arp_counts_def arp_room_def)
qed simp_all

end
