(* ===== verification/Xcache_Core.thy ===== *)
theory Xcache_Core
  imports Xia_Prelude "HOL-Library.List_Lexorder" "HOL-Library.Char_ord"
begin

text \<open>
  The content cache daemon (\<^verbatim>\<open>xcache\<close>): commands, metadata of content objects, slices with their eviction policy,
  and content stores (\<^verbatim>\<open>proto/xcache_cmd.proto\<close>, \<^verbatim>\<open>include/{meta,slice,policy,store,store_manager}.h\<close>,
  \<^verbatim>\<open>policies/fifo.h\<close>, \<^verbatim>\<open>stores/memht.h\<close>, \<^verbatim>\<open>src/{meta,slice,store_manager}.cc\<close>).
  Metadata and slices are shared through pointers, so the state has the lists of all allocated objects, and an
  address is a position in such a list. Nothing is ever freed. A \<^verbatim>\<open>std::map\<close> is an association list; where the
  order of a map is seen, the list is sorted by its keys. Strings are lists of bytes.
\<close>

section \<open>Commands\<close>

datatype requestType =
  XCACHE_STORE | XCACHE_NEWSLICE | XCACHE_GETCHUNK | XCACHE_TIMEOUT | XCACHE_CLEAR
| XCACHE_RESPONSE | XCACHE_ERROR | XCACHE_STATUS

record XcacheCommand =
  f_cmd :: "requestType option"
  f_contextId :: "int option"
  f_cid :: "string option"
  f_dag :: "string option"
  f_data :: "string option"
  f_ttl :: "int option"
  f_cacheSize :: "int option"
  f_cachePolicy :: "int option"

definition empty_command :: XcacheCommand where
  "empty_command = \<lparr>f_cmd = None, f_contextId = None, f_cid = None, f_dag = None, f_data = None, f_ttl = None,
     f_cacheSize = None, f_cachePolicy = None\<rparr>"

text \<open>Reading a field that is not set gives the default of its type, which for an enumeration is the first value.\<close>

definition field :: "'a \<Rightarrow> 'a option \<Rightarrow> 'a" where
  "field d f = (case f of None \<Rightarrow> d | Some x \<Rightarrow> x)"

lemma field_simps [simp]: "field d None = d" "field d (Some x) = x"
  by (simp_all add: field_def)

section \<open>Objects\<close>

text \<open>
  \<^verbatim>\<open>policy = fifo\<close> in the constructor of a slice assigns a derived object to a member of the base class: only the
  base part is copied, and the member keeps the virtual functions of the base class.
\<close>

datatype XcachePolicy = Base_policy | FifoPolicy

definition assign_to_base :: "XcachePolicy \<Rightarrow> XcachePolicy" where
  "assign_to_base p = Base_policy"

fun policy_store :: "XcachePolicy \<Rightarrow> int" where
  "policy_store Base_policy = 0"
| "policy_store FifoPolicy = 1"

fun policy_evict :: "XcachePolicy \<Rightarrow> nat option" where
  "policy_evict Base_policy = None"
| "policy_evict FifoPolicy = None"

record XcacheMeta =
  refCount :: u32
  len :: u64
  in_slices :: "(u32 \<times> nat) list"
  in_store :: "nat option"
  cid :: string

record XcacheSlice =
  slice_metas :: "(string \<times> nat) list"
  maxSize :: u64
  currentSize :: u64
  contextID :: int
  ttl :: u64
  slice_policy :: XcachePolicy

type_synonym MemHt = "(nat \<times> string) list"

record XcacheController =
  metaMap :: "(string \<times> nat) list"
  sliceMap :: "(int \<times> nat) list"
  storeVector :: "MemHt list"
  context_id :: int
  metas :: "XcacheMeta list"
  slices :: "XcacheSlice list"

definition new_controller :: XcacheController where
  "new_controller = \<lparr>metaMap = [], sliceMap = [], storeVector = [[]], context_id = 0, metas = [], slices = []\<rparr>"

section \<open>Metadata\<close>

text \<open>The constructor leaves the length as the memory it finds, \<open>junk\<close>.\<close>

definition XcacheMeta_new :: "u64 \<Rightarrow> XcacheCommand \<Rightarrow> XcacheMeta" where
  "XcacheMeta_new junk cmd =
     \<lparr>refCount = 0, len = junk, in_slices = [], in_store = None, cid = field [] (f_cid cmd)\<rparr>"

definition addedToSlice :: "XcacheSlice \<Rightarrow> nat \<Rightarrow> XcacheMeta \<Rightarrow> XcacheMeta" where
  "addedToSlice s sa m =
     m\<lparr>refCount := refCount m + 1, in_slices := AList.update (of_int (contextID s)) sa (in_slices m)\<rparr>"

definition removedFromSlice :: "XcacheMeta \<Rightarrow> XcacheMeta" where
  "removedFromSlice m = m\<lparr>refCount := refCount m - 1\<rparr>"

section \<open>Stores\<close>

definition MemHt_store :: "nat \<Rightarrow> string \<Rightarrow> MemHt \<Rightarrow> int \<times> MemHt" where
  "MemHt_store ma data h = (0, AList.update ma data h)"

text \<open>\<^verbatim>\<open>operator[]\<close> of a map inserts an empty string for a key that is not there.\<close>

definition MemHt_get :: "nat \<Rightarrow> MemHt \<Rightarrow> string \<times> MemHt" where
  "MemHt_get ma h = (case map_of h ma of Some d \<Rightarrow> (d, h) | None \<Rightarrow> ([], AList.update ma [] h))"

fun store_loop :: "nat \<Rightarrow> string \<Rightarrow> int \<Rightarrow> nat \<Rightarrow> MemHt list \<Rightarrow> int \<times> nat option \<times> MemHt list" where
  "store_loop ma data ret i [] = (ret, None, [])"
| "store_loop ma data ret i (h # hs) =
     (let (r, h1) = MemHt_store ma data h in
      if r \<ge> 0 then (r, Some i, h1 # hs)
      else let (r2, k, hs2) = store_loop ma data r (Suc i) hs in (r2, k, h1 # hs2))"

definition storeManager_store :: "nat \<Rightarrow> string \<Rightarrow> XcacheController \<Rightarrow> (int \<times> XcacheController) run" where
  "storeManager_store ma data st =
     bind_run (at (metas st) ma) (\<lambda>m.
       let (ret, k, hs) = store_loop ma data (- 1) 0 (storeVector st);
           m1 = (case k of None \<Rightarrow> m | Some i \<Rightarrow> m\<lparr>in_store := Some i\<rparr>)
       in Inr (ret, st\<lparr>storeVector := hs, metas := (metas st)[ma := m1]\<rparr>))"

definition meta_get :: "nat \<Rightarrow> XcacheController \<Rightarrow> (string \<times> XcacheController) run" where
  "meta_get ma st =
     bind_run (at (metas st) ma) (\<lambda>m.
       case in_store m of
         None \<Rightarrow> Inl Null_deref
       | Some i \<Rightarrow>
           bind_run (at (storeVector st) i) (\<lambda>h.
             let (d, h1) = MemHt_get ma h in Inr (d, st\<lparr>storeVector := (storeVector st)[i := h1]\<rparr>)))"

definition meta_status :: "nat \<Rightarrow> XcacheController \<Rightarrow> (string \<times> XcacheController) run" where
  "meta_status ma st =
     bind_run (at (metas st) ma) (\<lambda>m.
     bind_run (meta_get ma st) (\<lambda>(d, st1).
       Inr (''['' @ cid m @ ''] ref = '' @ dec_nat (unat (refCount m)) @ [CHR 0x0A, CHR 0x09]
         @ ''DATA: ['' @ d @ '']'' @ [CHR 0x0A], st1)))"

section \<open>Slices\<close>

definition XcacheSlice_new :: "int \<Rightarrow> XcacheSlice" where
  "XcacheSlice_new ctx = \<lparr>slice_metas = [], maxSize = 0, currentSize = 0, contextID = ctx, ttl = 0,
     slice_policy = assign_to_base FifoPolicy\<rparr>"

definition setTtl :: "int \<Rightarrow> XcacheSlice \<Rightarrow> XcacheSlice" where
  "setTtl t s = s\<lparr>ttl := ucast (of_int t :: u32)\<rparr>"

definition setSize :: "int \<Rightarrow> XcacheSlice \<Rightarrow> XcacheSlice" where
  "setSize n s = s\<lparr>maxSize := of_int n\<rparr>"

definition setPolicy :: "XcachePolicy \<Rightarrow> XcacheSlice \<Rightarrow> XcacheSlice" where
  "setPolicy p s = s\<lparr>slice_policy := assign_to_base p\<rparr>"

definition addMeta :: "nat \<Rightarrow> nat \<Rightarrow> XcacheController \<Rightarrow> XcacheController run" where
  "addMeta sa ma st =
     bind_run (at (slices st) sa) (\<lambda>s.
     bind_run (at (metas st) ma) (\<lambda>m.
       Inr (st\<lparr>slices := (slices st)[sa := s\<lparr>slice_metas := AList.update (cid m) ma (slice_metas s)\<rparr>],
               metas := (metas st)[ma := addedToSlice s sa m]\<rparr>)))"

definition hasRoom :: "XcacheSlice \<Rightarrow> XcacheMeta \<Rightarrow> bool" where
  "hasRoom s m \<longleftrightarrow> maxSize s - currentSize s \<ge> len m"

definition removeMeta :: "nat \<Rightarrow> nat option \<Rightarrow> XcacheController \<Rightarrow> XcacheController run" where
  "removeMeta sa toRemove st =
     (case toRemove of
        None \<Rightarrow> Inl Null_deref
      | Some ma \<Rightarrow>
          bind_run (at (slices st) sa) (\<lambda>s.
          bind_run (at (metas st) ma) (\<lambda>m.
            if map_of (slice_metas s) (cid m) = None then Inl Bad_erase
            else Inr (st\<lparr>slices := (slices st)[sa := s\<lparr>slice_metas := AList.delete (cid m) (slice_metas s)\<rparr>],
                         metas := (metas st)[ma := removedFromSlice m]\<rparr>))))"

lemma policy_evict_None [simp]: "policy_evict p = None"
  by (cases p) simp_all

lemma removeMeta_None [simp]: "removeMeta sa None st = Inl Null_deref"
  by (simp add: removeMeta_def)

text \<open>The loop ends: no policy has an object to evict, and removing a null pointer is a fault.\<close>

function makeRoom :: "nat \<Rightarrow> nat \<Rightarrow> XcacheController \<Rightarrow> XcacheController run" where
  "makeRoom sa ma st =
     bind_run (at (slices st) sa) (\<lambda>s.
     bind_run (at (metas st) ma) (\<lambda>m.
       if hasRoom s m then Inr st
       else bind_run (removeMeta sa (policy_evict (slice_policy s)) st) (makeRoom sa ma)))"
  by pat_completeness auto
termination by (relation "measure (\<lambda>_. 0)") simp_all

declare makeRoom.simps [simp del]

definition alreadyHasMeta :: "XcacheSlice \<Rightarrow> XcacheMeta \<Rightarrow> bool" where
  "alreadyHasMeta s m \<longleftrightarrow> map_of (slice_metas s) (cid m) \<noteq> None"

definition slice_store :: "nat \<Rightarrow> nat \<Rightarrow> XcacheController \<Rightarrow> (int \<times> XcacheController) run" where
  "slice_store sa ma st =
     bind_run (at (slices st) sa) (\<lambda>s.
     bind_run (at (metas st) ma) (\<lambda>m.
       if alreadyHasMeta s m then Inr (- 1, st)
       else
         bind_run (makeRoom sa ma st) (\<lambda>st1.
         bind_run (addMeta sa ma st1) (\<lambda>st2.
           Inr (policy_store (slice_policy s), st2)))))"

definition slice_search :: "nat \<Rightarrow> XcacheCommand \<Rightarrow> XcacheController \<Rightarrow> (string \<times> XcacheController) run" where
  "slice_search sa cmd st =
     bind_run (at (slices st) sa) (\<lambda>s.
       case map_of (slice_metas s) (field [] (f_cid cmd)) of
         Some ma \<Rightarrow> meta_get ma st
       | None \<Rightarrow> Inr ([], st))"

fun status_loop :: "(string \<times> nat) list \<Rightarrow> XcacheController \<Rightarrow> (string \<times> XcacheController) run" where
  "status_loop [] st = Inr ([], st)"
| "status_loop ((_, ma) # ms) st =
     bind_run (meta_status ma st) (\<lambda>(out, st1).
     bind_run (status_loop ms st1) (\<lambda>(outs, st2). Inr (out @ outs, st2)))"

definition slice_status :: "nat \<Rightarrow> XcacheController \<Rightarrow> (string \<times> XcacheController) run" where
  "slice_status sa st =
     bind_run (at (slices st) sa) (\<lambda>s.
     bind_run (status_loop (sort_key fst (slice_metas s)) st) (\<lambda>(outs, st1).
       Inr (''Slice ['' @ dec_int (contextID s) @ '']'' @ [CHR 0x0A] @ outs, st1)))"

end
