(* ===== verification/Xcache_Spec.thy ===== *)
theory Xcache_Spec
  imports Xcache_Controller
begin

text \<open>
  What the cache promises: a map from names to content, shared by all slices, and for each slice the set of the
  names it holds. The commands of the controller implement this specification, and keep the pointers between
  metadata, slices and stores intact.
\<close>

section \<open>The specification\<close>

record cache =
  members :: "int \<Rightarrow> (u64 \<times> string set) option"
  contents :: "string \<Rightarrow> string option"
  last_id :: int

definition cache_of :: "XcacheController \<Rightarrow> cache" where
  "cache_of st =
     \<lparr>members = (\<lambda>k. map_option (\<lambda>sa. (maxSize (slices st ! sa), fst ` set (slice_metas (slices st ! sa))))
        (map_of (sliceMap st) k)),
      contents = (\<lambda>n. Option.bind (map_of (metaMap st) n) (map_of (hd (storeVector st)))),
      last_id = context_id st\<rparr>"

text \<open>
  An object is refused by a slice that has it. The slice has no room for an object of which the length that was
  never set is greater than the size of the slice; then the command dereferences a null pointer.
\<close>

definition spec_store :: "(string \<Rightarrow> u64) \<Rightarrow> XcacheCommand \<Rightarrow> cache \<Rightarrow> int run \<times> cache" where
  "spec_store junk cmd c =
     (let k = field 0 (f_contextId cmd); n = field [] (f_cid cmd) in
      case members c k of
        None \<Rightarrow> (Inr (- 1), c)
      | Some (sz, ns) \<Rightarrow>
          if n \<in> ns then (Inr (- 1), c)
          else if sz < junk n then (Inl Null_deref, c)
          else (Inr OK_NO_RESPONSE, c\<lparr>members := (members c)(k \<mapsto> (sz, insert n ns)),
                 contents := (contents c)(n \<mapsto> field [] (f_data cmd))\<rparr>))"

definition spec_new :: "XcacheCommand \<Rightarrow> cache \<Rightarrow> (int \<times> XcacheCommand) run \<times> cache" where
  "spec_new cmd c =
     (if members c (field 0 (f_contextId cmd)) \<noteq> None then (Inr (- 1, empty_command), c)
      else if last_id c = 2147483647 then (Inl Signed_overflow, c)
      else let k = last_id c + 1 in
        (Inr (OK_SEND_RESPONSE, empty_command\<lparr>f_cmd := Some XCACHE_RESPONSE, f_contextId := Some k\<rparr>),
         c\<lparr>last_id := k, members := (members c)(k \<mapsto> (of_int (field 0 (f_cacheSize cmd)), {}))\<rparr>))"

definition cache_spec :: "(string \<Rightarrow> u64) \<Rightarrow> XcacheCommand \<Rightarrow> cache \<Rightarrow> (int \<times> XcacheCommand) run \<times> cache" where
  "cache_spec junk cmd c =
     (case field XCACHE_STORE (f_cmd cmd) of
        XCACHE_STORE \<Rightarrow> apfst (map_sum id (\<lambda>r. (r, empty_command))) (spec_store junk cmd c)
      | XCACHE_NEWSLICE \<Rightarrow> spec_new cmd c
      | XCACHE_GETCHUNK \<Rightarrow> (Inr (OK_SEND_RESPONSE, empty_command), c)
      | _ \<Rightarrow> (Inr (OK_NO_RESPONSE, empty_command), c))"

text \<open>A command on the controller; a fault leaves the state as it was.\<close>

definition command_step ::
  "(string \<Rightarrow> u64) \<Rightarrow> XcacheCommand \<Rightarrow> XcacheController \<Rightarrow> (int \<times> XcacheCommand) run \<times> XcacheController" where
  "command_step junk cmd st =
     (case handleCmd junk empty_command cmd st of
        Inl e \<Rightarrow> (Inl e, st)
      | Inr (ret, resp, st1) \<Rightarrow> (Inr (ret, resp), st1))"

section \<open>Pointers\<close>

definition holders :: "string \<Rightarrow> XcacheSlice list \<Rightarrow> nat" where
  "holders n ss = length (filter (\<lambda>s. n \<in> fst ` set (slice_metas s)) ss)"

text \<open>The metadata of the object at an address, with the content store \<open>h\<close> and all slices \<open>ss\<close>.\<close>

definition meta_ok :: "(string \<Rightarrow> u64) \<Rightarrow> MemHt \<Rightarrow> XcacheSlice list \<Rightarrow> nat \<Rightarrow> XcacheMeta \<Rightarrow> bool" where
  "meta_ok junk h ss a m \<longleftrightarrow> len m = junk (cid m) \<and> in_store m = (if a \<in> fst ` set h then Some 0 else None)
     \<and> refCount m = of_nat (holders (cid m) ss)"

definition slice_ok :: "MemHt \<Rightarrow> XcacheMeta list \<Rightarrow> XcacheSlice \<Rightarrow> bool" where
  "slice_ok h ms s \<longleftrightarrow> currentSize s = 0 \<and> slice_policy s = Base_policy
     \<and> (\<forall>(n, a)\<in>set (slice_metas s). a < length ms \<and> cid (ms ! a) = n \<and> a \<in> fst ` set h)"

definition controller_ok :: "(string \<Rightarrow> u64) \<Rightarrow> XcacheController \<Rightarrow> bool" where
  "controller_ok junk st \<longleftrightarrow>
     (\<exists>h. storeVector st = [h] \<and> fst ` set h \<subseteq> {..<length (metas st)}
       \<and> (\<forall>a<length (metas st). meta_ok junk h (slices st) a (metas st ! a))
       \<and> (\<forall>s\<in>set (slices st). slice_ok h (metas st) s))
     \<and> distinct (map cid (metas st))
     \<and> metaMap st = zip (map cid (metas st)) [0..<length (metas st)]
     \<and> sliceMap st = map (\<lambda>i. (int i + 1, i)) [0..<length (slices st)]
     \<and> context_id st = int (length (slices st))"

lemma controller_ok_new: "controller_ok junk new_controller"
  by (simp add: controller_ok_def new_controller_def)

lemma controller_okD:
  assumes "controller_ok junk st"
  shows "distinct (map cid (metas st))"
    and "metaMap st = zip (map cid (metas st)) [0..<length (metas st)]"
    and "sliceMap st = map (\<lambda>i. (int i + 1, i)) [0..<length (slices st)]"
    and "context_id st = int (length (slices st))"
  using assms by (simp_all add: controller_ok_def)

lemma controller_ok_storeE:
  assumes "controller_ok junk st"
  obtains h where "storeVector st = [h]" "fst ` set h \<subseteq> {..<length (metas st)}"
    "\<And>a. a < length (metas st) \<Longrightarrow> meta_ok junk h (slices st) a (metas st ! a)"
    "\<And>s. s \<in> set (slices st) \<Longrightarrow> slice_ok h (metas st) s"
  using assms by (auto simp: controller_ok_def)

lemma map_of_zip_upt:
  assumes "distinct xs"
  shows "map_of (zip xs [0..<length xs]) x = Some a \<longleftrightarrow> a < length xs \<and> xs ! a = x"
proof
  assume "map_of (zip xs [0..<length xs]) x = Some a"
  then have "(x, a) \<in> set (zip xs [0..<length xs])" by (rule map_of_SomeD)
  then show "a < length xs \<and> xs ! a = x" by (auto simp: set_zip)
next
  assume "a < length xs \<and> xs ! a = x"
  then show "map_of (zip xs [0..<length xs]) x = Some a"
    using map_of_zip_nth [of xs "[0..<length xs]" a] assms by auto
qed

lemma meta_found_iff:
  assumes "controller_ok junk st"
  shows "map_of (metaMap st) n = Some a \<longleftrightarrow> a < length (metas st) \<and> cid (metas st ! a) = n"
  unfolding controller_okD(2) [OF assms]
  using map_of_zip_upt [OF controller_okD(1) [OF assms], of n a] by auto

lemma meta_missing_iff:
  assumes "controller_ok junk st"
  shows "map_of (metaMap st) n = None \<longleftrightarrow> n \<notin> cid ` set (metas st)"
  unfolding controller_okD(2) [OF assms] by simp

lemma map_of_ids: "map_of (map (\<lambda>i. (int i + 1, i)) [0..<n]) k = Some sa \<longleftrightarrow> sa < n \<and> k = int sa + 1"
proof -
  have "distinct (map fst (map (\<lambda>i. (int i + 1, i)) [0..<n]))" by (simp add: comp_def distinct_map inj_on_def)
  from map_of_eq_Some_iff [OF this] show ?thesis by auto
qed

lemma slice_found_iff:
  assumes "controller_ok junk st"
  shows "map_of (sliceMap st) k = Some sa \<longleftrightarrow> sa < length (slices st) \<and> k = int sa + 1"
  unfolding controller_okD(3) [OF assms] by (rule map_of_ids)

section \<open>Storing\<close>

lemma find_meta_ok:
  assumes "controller_ok junk st" "find_meta junk cmd st = (ma, st1)"
  shows "controller_ok junk st1" "cache_of st1 = cache_of st"
    and "ma < length (metas st1)" "cid (metas st1 ! ma) = field [] (f_cid cmd)"
    and "slices st1 = slices st" "sliceMap st1 = sliceMap st"
proof -
  let ?n = "field [] (f_cid cmd)"
  have "controller_ok junk st1 \<and> cache_of st1 = cache_of st \<and> ma < length (metas st1) \<and> cid (metas st1 ! ma) = ?n
    \<and> slices st1 = slices st \<and> sliceMap st1 = sliceMap st"
  proof (cases "map_of (metaMap st) ?n")
    case (Some a)
    with assms meta_found_iff [OF assms(1), of ?n a] show ?thesis by (simp add: find_meta_def)
  next
    case None
    define m where "m = XcacheMeta_new (junk ?n) cmd"
    have n: "?n \<notin> cid ` set (metas st)" using None meta_missing_iff [OF assms(1)] by simp
    have new: "ma = length (metas st)" "st1 = st\<lparr>metas := metas st @ [m], metaMap := metaMap st @ [(?n, length (metas st))]\<rparr>"
      using assms(2) None by (auto simp: find_meta_def m_def alist_update_new map_of_eq_None_iff)
    obtain h where h: "storeVector st = [h]" "fst ` set h \<subseteq> {..<length (metas st)}"
      "\<And>a. a < length (metas st) \<Longrightarrow> meta_ok junk h (slices st) a (metas st ! a)"
      "\<And>s. s \<in> set (slices st) \<Longrightarrow> slice_ok h (metas st) s"
      by (rule controller_ok_storeE [OF assms(1)]) blast
    have cidm: "cid m = ?n" by (simp add: m_def XcacheMeta_new_def)
    have "?n \<notin> fst ` set (slice_metas s)" if "s \<in> set (slices st)" for s
    proof
      assume "?n \<in> fst ` set (slice_metas s)"
      then obtain a where "(?n, a) \<in> set (slice_metas s)" by auto
      with h(4) [OF that] have "a < length (metas st)" "cid (metas st ! a) = ?n" by (auto simp: slice_ok_def)
      with n show False by (metis image_eqI nth_mem)
    qed
    then have "holders ?n (slices st) = 0" by (simp add: holders_def filter_empty_conv)
    then have "meta_ok junk h (slices st) (length (metas st)) m"
      using h(2) by (auto simp: meta_ok_def m_def XcacheMeta_new_def)
    moreover have "slice_ok h (metas st @ [m]) s" if "s \<in> set (slices st)" for s
      using h(4) [OF that] by (auto simp: slice_ok_def nth_append)
    ultimately have ok: "controller_ok junk st1"
      unfolding controller_ok_def using h n controller_okD [OF assms(1)]
      by (intro conjI exI [of _ h]) (auto simp: new cidm nth_append less_Suc_eq)
    have "map_of h (length (metas st)) = None" using h(2) by (auto simp: map_of_eq_None_iff)
    then have "cache_of st1 = cache_of st"
      using None h(1) by (auto simp: cache_of_def new map_add_def fun_eq_iff split: option.splits)
    with ok show ?thesis by (simp add: new cidm)
  qed
  then show "controller_ok junk st1" "cache_of st1 = cache_of st"
    and "ma < length (metas st1)" "cid (metas st1 ! ma) = field [] (f_cid cmd)"
    and "slices st1 = slices st" "sliceMap st1 = sliceMap st" by simp_all
qed

text \<open>The state after an object at an address was put into a slice and its content into the store.\<close>

definition stored :: "nat \<Rightarrow> nat \<Rightarrow> string \<Rightarrow> XcacheController \<Rightarrow> XcacheController" where
  "stored sa ma data st =
     (let s = slices st ! sa; m = metas st ! ma in
      st\<lparr>slices := (slices st)[sa := s\<lparr>slice_metas := slice_metas s @ [(cid m, ma)]\<rparr>],
         metas := (metas st)[ma := (addedToSlice s sa m)\<lparr>in_store := Some 0\<rparr>],
         storeVector := [AList.update ma data (hd (storeVector st))]\<rparr>)"

lemma slice_store_then_manager:
  assumes ok: "controller_ok junk st" and sa: "sa < length (slices st)" and ma: "ma < length (metas st)"
  defines "s \<equiv> slices st ! sa" and "m \<equiv> metas st ! ma"
  shows "bind_run (slice_store sa ma st) (\<lambda>(ret, st2). if ret < 0 then Inr (- 1, st2) else storeManager_store ma data st2) =
    (if cid m \<in> fst ` set (slice_metas s) then Inr (- 1, st)
     else if maxSize s < junk (cid m) then Inl Null_deref
     else Inr (0, stored sa ma data st))"
proof -
  obtain h where h: "storeVector st = [h]"
      "\<And>a. a < length (metas st) \<Longrightarrow> meta_ok junk h (slices st) a (metas st ! a)"
      "\<And>s. s \<in> set (slices st) \<Longrightarrow> slice_ok h (metas st) s"
    by (rule controller_ok_storeE [OF ok]) blast
  have s: "currentSize s = 0" "slice_policy s = Base_policy" and m: "len m = junk (cid m)"
    using h(2) [OF ma] h(3) [of s] sa by (simp_all add: s_def m_def slice_ok_def meta_ok_def)
  have room: "makeRoom sa ma st = (if maxSize s < junk (cid m) then Inl Null_deref else Inr st)"
    using sa ma by (subst makeRoom.simps) (simp add: s_def [symmetric] m_def [symmetric] hasRoom_def s m not_less)
  show ?thesis
    using sa ma
    by (simp add: slice_store_def s_def [symmetric] m_def [symmetric] alreadyHasMeta_def map_of_eq_None_iff room s
        addMeta_def storeManager_store_def h(1) MemHt_store_def stored_def alist_update_new)
qed

lemma holders_add:
  assumes "sa < length ss" "n \<notin> fst ` set (slice_metas (ss ! sa))"
  shows "holders x (ss[sa := (ss ! sa)\<lparr>slice_metas := slice_metas (ss ! sa) @ [(n, a)]\<rparr>]) =
    (if x = n then Suc (holders x ss) else holders x ss)"
proof -
  define y where "y = ss ! sa"
  obtain as bs where ss: "ss = as @ y # bs" "length as = sa"
    using id_take_nth_drop [OF assms(1)] assms(1) by (metis length_take less_imp_le min_absorb2 y_def)
  from assms(2) show ?thesis by (simp add: y_def [symmetric]) (simp add: ss holders_def flip: ss(2))
qed

lemma slice_ok_frame:
  assumes "slice_ok h ms s" "length ms' = length ms" "\<And>a. a < length ms \<Longrightarrow> cid (ms' ! a) = cid (ms ! a)"
    and "fst ` set h \<subseteq> fst ` set h'"
  shows "slice_ok h' ms' s"
proof -
  have "a < length ms' \<and> cid (ms' ! a) = n \<and> a \<in> fst ` set h'" if "(n, a) \<in> set (slice_metas s)" for n a
  proof -
    have "a < length ms" "cid (ms ! a) = n" "a \<in> fst ` set h" using assms(1) that by (auto simp: slice_ok_def)
    with assms(2-4) show ?thesis by auto
  qed
  with assms(1) show ?thesis unfolding slice_ok_def by blast
qed

lemma slice_ok_add:
  "slice_ok h ms s \<Longrightarrow> a < length ms \<Longrightarrow> a \<in> fst ` set h \<Longrightarrow>
    slice_ok h ms (s\<lparr>slice_metas := slice_metas s @ [(cid (ms ! a), a)]\<rparr>)"
  by (auto simp: slice_ok_def)

lemma stored_ok:
  assumes ok: "controller_ok junk st" and sa: "sa < length (slices st)" and ma: "ma < length (metas st)"
    and new: "cid (metas st ! ma) \<notin> fst ` set (slice_metas (slices st ! sa))"
  shows "controller_ok junk (stored sa ma data st)"
proof -
  let ?st = "stored sa ma data st"
  obtain h where h: "storeVector st = [h]" "fst ` set h \<subseteq> {..<length (metas st)}"
      "\<And>a. a < length (metas st) \<Longrightarrow> meta_ok junk h (slices st) a (metas st ! a)"
      "\<And>s. s \<in> set (slices st) \<Longrightarrow> slice_ok h (metas st) s"
    by (rule controller_ok_storeE [OF ok]) blast
  have cids: "map cid (metas ?st) = map cid (metas st)"
    using ma by (simp add: stored_def Let_def map_update addedToSlice_def list_update_same_conv)
  then have nth: "cid (metas ?st ! a) = cid (metas st ! a)" if "a < length (metas st)" for a
    using that by (metis length_map nth_map)
  have keys: "fst ` set (AList.update ma data h) = insert ma (fst ` set h)" by (simp add: dom_update)
  have cid_eq: "cid (metas st ! a) = cid (metas st ! ma) \<longleftrightarrow> a = ma" if "a < length (metas st)" for a
    using that ma controller_okD(1) [OF ok] by (metis length_map nth_eq_iff_index_eq nth_map)
  have "meta_ok junk (AList.update ma data h) (slices ?st) a (metas ?st ! a)" if "a < length (metas st)" for a
    using h(3) [OF that] holders_add [OF sa new] cid_eq [OF that] keys ma
    by (auto simp: stored_def Let_def meta_ok_def addedToSlice_def nth_list_update)
  moreover have "slice_ok (AList.update ma data h) (metas ?st) s" if "s \<in> set (slices ?st)" for s
  proof -
    let ?s = "slices st ! sa"
    have s: "s \<in> insert (?s\<lparr>slice_metas := slice_metas ?s @ [(cid (metas ?st ! ma), ma)]\<rparr>) (set (slices st))"
      unfolding nth [OF ma] using that
      by (auto simp: stored_def Let_def dest!: set_update_subset_insert [THEN subsetD])
    have len: "length (metas ?st) = length (metas st)" by (simp add: stored_def Let_def)
    have frame: "slice_ok (AList.update ma data h) (metas ?st) x" if "x \<in> set (slices st)" for x
      by (rule slice_ok_frame [OF h(4) [OF that] len]) (auto simp: nth keys)
    with s slice_ok_add [OF frame [OF nth_mem, OF sa]] show ?thesis by (auto simp: len ma keys)
  qed
  ultimately show ?thesis
    unfolding controller_ok_def using h controller_okD [OF ok] cids keys ma
    by (intro conjI exI [of _ "AList.update ma data h"]) (auto simp: stored_def Let_def)
qed

lemma stored_cache:
  assumes ok: "controller_ok junk st" and sa: "sa < length (slices st)" and ma: "ma < length (metas st)"
  shows "cache_of (stored sa ma data st) =
    (cache_of st)\<lparr>members := (members (cache_of st))(int sa + 1 \<mapsto>
        (maxSize (slices st ! sa), insert (cid (metas st ! ma)) (fst ` set (slice_metas (slices st ! sa))))),
      contents := (contents (cache_of st))(cid (metas st ! ma) \<mapsto> data)\<rparr>"
proof -
  obtain h where h: "storeVector st = [h]" by (rule controller_ok_storeE [OF ok]) blast
  have id: "map_of (sliceMap st) (int sa + 1) = Some sa" using slice_found_iff [OF ok] sa by simp
  have other: "map_of (sliceMap st) k \<noteq> Some sa" if "k \<noteq> int sa + 1" for k
    using slice_found_iff [OF ok] that by simp
  have n: "map_of (metaMap st) (cid (metas st ! ma)) = Some ma" using meta_found_iff [OF ok] ma by simp
  have meta: "map_of (metaMap st) x \<noteq> Some ma" if "x \<noteq> cid (metas st ! ma)" for x
    using meta_found_iff [OF ok] that by auto
  have "members (cache_of (stored sa ma data st)) k = ((members (cache_of st))(int sa + 1 \<mapsto>
        (maxSize (slices st ! sa), insert (cid (metas st ! ma)) (fst ` set (slice_metas (slices st ! sa)))))) k" for k
    using sa other [of k]
    by (cases "map_of (sliceMap st) k") (auto simp: cache_of_def stored_def Let_def id)
  moreover have "contents (cache_of (stored sa ma data st)) x = ((contents (cache_of st))(cid (metas st ! ma) \<mapsto> data)) x" for x
    using meta [of x]
    by (cases "map_of (metaMap st) x") (auto simp: cache_of_def stored_def Let_def n h update_conv')
  moreover have "last_id (cache_of (stored sa ma data st)) = last_id (cache_of st)"
    by (simp add: cache_of_def stored_def Let_def)
  ultimately show ?thesis by (intro cache.equality) (simp_all add: fun_eq_iff)
qed

lemma controller_store_spec:
  assumes ok: "controller_ok junk st"
  shows "case controller_store junk cmd st of
      Inl e \<Rightarrow> spec_store junk cmd (cache_of st) = (Inl e, cache_of st)
    | Inr (ret, st1) \<Rightarrow> controller_ok junk st1 \<and> spec_store junk cmd (cache_of st) = (Inr ret, cache_of st1)"
proof -
  obtain ma st1 where f: "find_meta junk cmd st = (ma, st1)" by fastforce
  note found = find_meta_ok [OF ok f]
  let ?k = "field 0 (f_contextId cmd)"
  have mem: "members (cache_of st) ?k = map_option (\<lambda>sa. (maxSize (slices st1 ! sa), fst ` set (slice_metas (slices st1 ! sa))))
      (lookupSlice cmd st1)"
    by (simp add: cache_of_def lookupSlice_def found)
  show ?thesis
  proof (cases "lookupSlice cmd st1")
    case None
    with found mem show ?thesis by (simp add: controller_store_def f spec_store_def)
  next
    case (Some sa)
    then have sa: "sa < length (slices st1)" "?k = int sa + 1"
      using slice_found_iff [OF found(1)] by (simp_all add: lookupSlice_def)
    note store = slice_store_then_manager [OF found(1) sa(1) found(3), of "field [] (f_data cmd)"]
    show ?thesis
      using Some found mem sa stored_ok [OF found(1) sa(1) found(3)]
        stored_cache [OF found(1) sa(1) found(3), of "field [] (f_data cmd)"]
      by (simp add: controller_store_def f store spec_store_def Let_def OK_NO_RESPONSE_def)
  qed
qed

section \<open>The other commands\<close>

lemma holders_empty: "slice_metas s = [] \<Longrightarrow> holders n (ss @ [s]) = holders n ss"
  by (simp add: holders_def)

lemma newSlice_spec:
  assumes ok: "controller_ok junk st"
  shows "case newSlice empty_command cmd st of
      Inl e \<Rightarrow> spec_new cmd (cache_of st) = (Inl e, cache_of st)
    | Inr (ret, resp, st1) \<Rightarrow> controller_ok junk st1 \<and> spec_new cmd (cache_of st) = (Inr (ret, resp), cache_of st1)"
proof (cases "lookupSlice cmd st = None \<and> context_id st \<noteq> 2147483647")
  case False
  then show ?thesis
    using ok by (auto simp: newSlice_def spec_new_def cache_of_def lookupSlice_def)
next
  case True
  define s where "s = setSize (field 0 (f_cacheSize cmd)) (setTtl (field 0 (f_ttl cmd)) (XcacheSlice_new (context_id st + 1)))"
  define st1 where "st1 = st\<lparr>context_id := context_id st + 1, slices := slices st @ [s],
    sliceMap := sliceMap st @ [(context_id st + 1, length (slices st))]\<rparr>"
  obtain h where h: "storeVector st = [h]" "fst ` set h \<subseteq> {..<length (metas st)}"
      "\<And>a. a < length (metas st) \<Longrightarrow> meta_ok junk h (slices st) a (metas st ! a)"
      "\<And>s. s \<in> set (slices st) \<Longrightarrow> slice_ok h (metas st) s"
    by (rule controller_ok_storeE [OF ok]) blast
  have s: "slice_metas s = []" "contextID s = context_id st + 1" "maxSize s = of_int (field 0 (f_cacheSize cmd))"
      "slice_ok h (metas st) s"
    by (simp_all add: s_def setSize_def setTtl_def XcacheSlice_new_def slice_ok_def assign_to_base_def)
  have new: "context_id st + 1 \<notin> fst ` set (sliceMap st)"
    using controller_okD [OF ok] by auto
  have st1: "newSlice empty_command cmd st =
      Inr (OK_SEND_RESPONSE, empty_command\<lparr>f_cmd := Some XCACHE_RESPONSE, f_contextId := Some (context_id st + 1)\<rparr>, st1)"
    using True by (simp add: newSlice_def Let_def s(2) st1_def alist_update_new [OF new] flip: s_def)
  have "controller_ok junk st1"
    unfolding controller_ok_def using h s controller_okD [OF ok]
    by (intro conjI exI [of _ h]) (auto simp: st1_def meta_ok_def holders_empty)
  moreover have "cache_of st1 = (cache_of st)\<lparr>last_id := context_id st + 1,
      members := (members (cache_of st))(context_id st + 1 \<mapsto> (of_int (field 0 (f_cacheSize cmd)), {}))\<rparr>"
  proof -
    have none: "map_of (sliceMap st) (context_id st + 1) = None" using new by (simp add: map_of_eq_None_iff)
    have "members (cache_of st1) k = ((members (cache_of st))(context_id st + 1 \<mapsto> (of_int (field 0 (f_cacheSize cmd)), {}))) k" for k
    proof (cases "map_of (sliceMap st) k")
      case None
      then show ?thesis by (auto simp: cache_of_def st1_def map_add_def s nth_append)
    next
      case (Some sa)
      then have "sa < length (slices st)" using slice_found_iff [OF ok] by simp
      with Some none show ?thesis by (auto simp: cache_of_def st1_def map_add_def nth_append)
    qed
    then show ?thesis by (intro cache.equality) (auto simp: cache_of_def st1_def)
  qed
  ultimately show ?thesis
    using True by (simp add: st1 spec_new_def cache_of_def lookupSlice_def Let_def)
qed

text \<open>The status report finds the content of every object and changes nothing.\<close>

lemma meta_get_ok:
  assumes "controller_ok junk st" "s \<in> set (slices st)" "(n, a) \<in> set (slice_metas s)"
  shows "\<exists>d. contents (cache_of st) n = Some d \<and> meta_get a st = Inr (d, st) \<and> a < length (metas st)"
proof -
  obtain h where h: "storeVector st = [h]"
      "\<And>a. a < length (metas st) \<Longrightarrow> meta_ok junk h (slices st) a (metas st ! a)"
      "\<And>s. s \<in> set (slices st) \<Longrightarrow> slice_ok h (metas st) s"
    by (rule controller_ok_storeE [OF assms(1)]) blast
  have a: "a < length (metas st)" "cid (metas st ! a) = n" "a \<in> fst ` set h"
    using h(3) [OF assms(2)] assms(3) by (auto simp: slice_ok_def)
  then obtain d where d: "map_of h a = Some d" by (metis map_of_eq_None_iff not_None_eq)
  have "map_of (metaMap st) n = Some a" using meta_found_iff [OF assms(1)] a by simp
  then have "contents (cache_of st) n = Some d" by (simp add: cache_of_def h(1) d)
  moreover have "meta_get a st = Inr (d, st)"
    using h(2) [OF a(1)] a by (simp add: meta_get_def meta_ok_def h(1) MemHt_get_def d)
  ultimately show ?thesis using a by blast
qed

lemma status_loop_ok:
  "controller_ok junk st \<Longrightarrow> s \<in> set (slices st) \<Longrightarrow> set ms \<subseteq> set (slice_metas s) \<Longrightarrow> \<exists>out. status_loop ms st = Inr (out, st)"
proof (induction ms)
  case (Cons x ms)
  obtain n a where x: "x = (n, a)" by (cases x)
  from Cons x meta_get_ok [of junk st s n a] obtain d where "meta_get a st = Inr (d, st)" "a < length (metas st)" by auto
  with Cons x show ?case by (auto simp: meta_status_def)
qed simp

lemma controller_status_ok:
  assumes "controller_ok junk st"
  shows "\<exists>out. controller_status st = Inr (out, st)"
proof -
  have "\<exists>out. controller_status_loop ss st = Inr (out, st)" if "set ss \<subseteq> set (sliceMap st)" for ss
    using that
  proof (induction ss)
    case (Cons x ss)
    obtain k sa where x: "x = (k, sa)" by (cases x)
    with Cons.prems have sa: "sa < length (slices st)" using controller_okD(3) [OF assms] by auto
    from Cons x sa status_loop_ok [OF assms nth_mem [OF sa], of "sort_key fst (slice_metas (slices st ! sa))"]
    show ?case by (auto simp: slice_status_def)
  qed simp
  from this [of "sort_key fst (sliceMap st)"] show ?thesis by (auto simp: controller_status_def)
qed

interpretation xcache: refinement "command_step junk" "cache_spec junk" cache_of "controller_ok junk" "\<lambda>_. True" for junk
proof
  fix st cmd
  assume ok: "controller_ok junk st"
  have "cache_spec junk cmd (cache_of st) = map_prod id cache_of (command_step junk cmd st)
    \<and> controller_ok junk (snd (command_step junk cmd st))"
    using ok controller_store_spec [OF ok, of cmd] newSlice_spec [OF ok, of cmd] controller_status_ok [OF ok]
    by (cases "field XCACHE_STORE (f_cmd cmd)")
       (auto simp: cache_spec_def command_step_def handleCmd_def controller_search_def split: sum.splits)
  then show "cache_spec junk cmd (cache_of st) = map_prod id cache_of (command_step junk cmd st)"
    and "controller_ok junk (snd (command_step junk cmd st))" by simp_all
qed

section \<open>Properties\<close>

definition empty_cache :: cache where
  "empty_cache = \<lparr>members = \<lambda>_. None, contents = \<lambda>_. None, last_id = 0\<rparr>"

lemma cache_of_new: "cache_of new_controller = empty_cache"
  by (simp add: cache_of_def new_controller_def empty_cache_def)

text \<open>The states the daemon reaches by commands.\<close>

definition after_commands :: "(string \<Rightarrow> u64) \<Rightarrow> XcacheCommand list \<Rightarrow> XcacheController" where
  "after_commands junk cmds = snd (run_ops (command_step junk) cmds new_controller)"

lemma after_commands_ok: "controller_ok junk (after_commands junk cmds)"
  unfolding after_commands_def by (rule xcache.run_keeps [OF controller_ok_new]) (simp add: list_all_iff)

text \<open>
  C5. For every sequence of commands the controller answers as the specification does, and ends in the state the
  specification describes: content is shared by name between the slices, a slice refuses an object it has, the
  sizes of the objects in a slice are never added up, a request for a chunk is answered without content, and the only
  faults are the eviction from a slice whose size is smaller than the unset length of the object, and the
  overflow of the context identifiers.
\<close>

theorem xcache_commands_refine:
  "map_prod id cache_of (run_ops (command_step junk) cmds new_controller) =
     run_ops (cache_spec junk) cmds empty_cache"
  using xcache.run_sim [OF controller_ok_new, of cmds junk] by (simp add: cache_of_new list_all_iff)

lemma slice_search_ok:
  assumes ok: "controller_ok junk st" and sa: "lookupSlice q st = Some sa"
  shows "slice_search sa q st =
    Inr (case members (cache_of st) (field 0 (f_contextId q)) of
           None \<Rightarrow> []
         | Some (_, ns) \<Rightarrow> if field [] (f_cid q) \<in> ns then the (contents (cache_of st) (field [] (f_cid q))) else [], st)"
proof -
  let ?n = "field [] (f_cid q)" and ?s = "slices st ! sa"
  have len: "sa < length (slices st)" using sa slice_found_iff [OF ok] by (simp add: lookupSlice_def)
  have mem: "members (cache_of st) (field 0 (f_contextId q)) = Some (maxSize ?s, fst ` set (slice_metas ?s))"
    using sa by (simp add: cache_of_def lookupSlice_def)
  show ?thesis
  proof (cases "map_of (slice_metas ?s) ?n")
    case None
    then have "?n \<notin> fst ` set (slice_metas ?s)" by (simp add: map_of_eq_None_iff)
    with None show ?thesis using len mem by (simp add: slice_search_def)
  next
    case (Some a)
    then have "(?n, a) \<in> set (slice_metas ?s)" by (rule map_of_SomeD)
    then have "?n \<in> fst ` set (slice_metas ?s)" by (force intro: rev_image_eqI)
    moreover obtain d where "contents (cache_of st) ?n = Some d" "meta_get a st = Inr (d, st)"
      using meta_get_ok [OF ok nth_mem [OF len] \<open>(?n, a) \<in> _\<close>] by blast
    ultimately show ?thesis using Some len mem by (simp add: slice_search_def)
  qed
qed

text \<open>
  C26. After a chunk was stored, a search for its name finds exactly its content in the slice it was stored in and in
  every slice that had an object of this name before, and finds nothing in the other slices. The search changes
  nothing.
\<close>

theorem stored_chunk_found:
  assumes "controller_store junk cmd (after_commands junk cmds) = Inr (ret, st1)" "0 \<le> ret"
    and "lookupSlice q st1 = Some sa" "field [] (f_cid q) = field [] (f_cid cmd)"
  shows "slice_search sa q st1 =
    Inr (if field 0 (f_contextId q) = field 0 (f_contextId cmd) \<or>
            (\<exists>sz ns. members (cache_of (after_commands junk cmds)) (field 0 (f_contextId q)) = Some (sz, ns)
               \<and> field [] (f_cid cmd) \<in> ns)
         then field [] (f_data cmd) else [], st1)"
proof -
  let ?c = "cache_of (after_commands junk cmds)" and ?k = "field 0 (f_contextId cmd)" and ?n = "field [] (f_cid cmd)"
  have ok: "controller_ok junk st1" and spec: "spec_store junk cmd ?c = (Inr ret, cache_of st1)"
    using controller_store_spec [OF after_commands_ok [of junk cmds], of cmd] assms(1) by simp_all
  from spec assms(2) obtain sz ns where "members ?c ?k = Some (sz, ns)"
    and c1: "cache_of st1 = ?c\<lparr>members := (members ?c)(?k \<mapsto> (sz, insert ?n ns)), contents := (contents ?c)(?n \<mapsto> field [] (f_data cmd))\<rparr>"
    by (auto simp: spec_store_def Let_def split: option.splits if_splits)
  show ?thesis
    using slice_search_ok [OF ok assms(3)] assms(4) by (auto simp: c1 split: option.splits)
qed

definition make_slice :: XcacheCommand where
  "make_slice = empty_command\<lparr>f_cmd := Some XCACHE_NEWSLICE, f_cacheSize := Some 100\<rparr>"

definition store_in :: "int \<Rightarrow> string \<Rightarrow> XcacheCommand" where
  "store_in k d = empty_command\<lparr>f_cmd := Some XCACHE_STORE, f_contextId := Some k, f_cid := Some ''CID:TODO'', f_data := Some d\<rparr>"

lemmas evaluate_xcache = after_commands_def command_step_def handleCmd_def newSlice_def lookupSlice_def new_controller_def
  controller_store_def find_meta_def slice_store_def makeRoom.simps hasRoom_def alreadyHasMeta_def addMeta_def
  storeManager_store_def MemHt_store_def XcacheMeta_new_def XcacheSlice_new_def setSize_def setTtl_def
  addedToSlice_def assign_to_base_def make_slice_def store_in_def empty_command_def

theorem stored_chunk_found_witness:
  "\<exists>st1. controller_store (\<lambda>_. 0) (store_in 2 ''new'')
        (after_commands (\<lambda>_. 0) [make_slice, make_slice, make_slice, store_in 1 ''old'']) = Inr (0, st1)
    \<and> lookupSlice (store_in 1 []) st1 = Some 0 \<and> slice_search 0 (store_in 1 []) st1 = Inr (''new'', st1)"
proof -
  let ?cmds = "[make_slice, make_slice, make_slice, store_in 1 ''old'']"
  obtain st1 where st1: "controller_store (\<lambda>_. 0) (store_in 2 ''new'') (after_commands (\<lambda>_. 0) ?cmds) = Inr (0, st1)"
    "lookupSlice (store_in 1 []) st1 = Some 0"
    by (simp add: evaluate_xcache)
  have "\<exists>sz ns. members (cache_of (after_commands (\<lambda>_. 0) ?cmds)) 1 = Some (sz, ns) \<and> ''CID:TODO'' \<in> ns"
    by (simp add: cache_of_def evaluate_xcache)
  with stored_chunk_found [OF st1(1) _ st1(2)] st1 show ?thesis by (simp add: store_in_def)
qed

end
