(* ===== verification/Xcache_Api.thy ===== *)
theory Xcache_Api
  imports Xcache_Spec
begin

text \<open>
  The client library of the cache (\<^verbatim>\<open>xcache/api\<close>) and its conversation with the daemon. The parameters are those of
  the message format, \<open>ser\<close> and \<open>parse\<close>, and \<open>wr\<close>, the result of \<^verbatim>\<open>write\<close> for a message on the connected socket.
  A call returns its result and the messages it sent.
\<close>

section \<open>Calls\<close>

definition send_command :: "(XcacheCommand \<Rightarrow> string) \<Rightarrow> (string \<Rightarrow> int) \<Rightarrow> XcacheCommand \<Rightarrow> int \<times> string" where
  "send_command ser wr cmd = (wr (ser cmd), ser cmd)"

definition get_response_blocking ::
  "(string \<Rightarrow> bool \<times> XcacheCommand) \<Rightarrow> read_result list \<Rightarrow> XcacheCommand \<Rightarrow> (int \<times> XcacheCommand) run option" where
  "get_response_blocking parse rs cmd =
     map_option (\<lambda>r. bind_run r (\<lambda>(ret, buffer, _).
       if ret = 0 then Inr (- 1, cmd\<lparr>f_cmd := Some XCACHE_ERROR\<rparr>) else Inr (0, snd (parse buffer)))) (receive rs)"

definition alloc_command :: "int \<Rightarrow> int \<Rightarrow> int \<Rightarrow> XcacheCommand" where
  "alloc_command cache_size ttl_arg cache_policy =
     empty_command\<lparr>f_cmd := Some XCACHE_NEWSLICE, f_ttl := Some ttl_arg, f_cacheSize := Some cache_size,
       f_cachePolicy := Some cache_policy\<rparr>"

text \<open>The last component is the new \<^verbatim>\<open>contextId\<close> of the slice, \<^const>\<open>None\<close> where it is not assigned.\<close>

definition XcacheAllocateSlice ::
  "(XcacheCommand \<Rightarrow> string) \<Rightarrow> (string \<Rightarrow> bool \<times> XcacheCommand) \<Rightarrow> (string \<Rightarrow> int) \<Rightarrow> read_result list \<Rightarrow>
   int \<Rightarrow> int \<Rightarrow> int \<Rightarrow> (int \<times> u32 option) run option" where
  "XcacheAllocateSlice ser parse wr rs cache_size ttl_arg cache_policy =
     (let cmd = alloc_command cache_size ttl_arg cache_policy;
          (ret, _) = send_command ser wr cmd
      in if ret < 0 then Some (Inr (ret, None))
         else map_option (\<lambda>r. bind_run r (\<lambda>(ret2, cmd2).
                Inr (ret2, Some (if ret2 \<ge> 0 then of_int (field 0 (f_contextId cmd2)) else - 1))))
              (get_response_blocking parse rs cmd))"

text \<open>The context identifier is unsigned in the client and signed in a command.\<close>

definition get_command :: "u32 option \<Rightarrow> string \<Rightarrow> XcacheCommand" where
  "get_command sl addr =
     (let c = empty_command\<lparr>f_cmd := Some XCACHE_GETCHUNK, f_dag := Some addr\<rparr>
      in case sl of None \<Rightarrow> c | Some k \<Rightarrow> c\<lparr>f_contextId := Some (sint k)\<rparr>)"

definition XcacheGetChunk ::
  "(XcacheCommand \<Rightarrow> string) \<Rightarrow> (string \<Rightarrow> bool \<times> XcacheCommand) \<Rightarrow> (string \<Rightarrow> int) \<Rightarrow> read_result list \<Rightarrow>
   u32 option \<Rightarrow> string \<Rightarrow> (int \<times> string option) run option" where
  "XcacheGetChunk ser parse wr rs sl addr =
     (let cmd = get_command sl addr; (ret, _) = send_command ser wr cmd
      in if ret < 0 then Some (Inr (- 1, None))
         else map_option (\<lambda>r. bind_run r (\<lambda>(ret2, cmd2).
                Inr (if ret2 \<ge> 0 then (0, Some (field [] (f_data cmd2))) else (- 1, None))))
              (get_response_blocking parse rs cmd))"

definition put_command :: "u32 \<Rightarrow> string \<Rightarrow> XcacheCommand" where
  "put_command k d =
     empty_command\<lparr>f_cmd := Some XCACHE_STORE, f_contextId := Some (sint k), f_data := Some d,
       f_cid := Some ''CID:TODO''\<rparr>"

definition XcachePutChunk ::
  "(XcacheCommand \<Rightarrow> string) \<Rightarrow> (string \<Rightarrow> int) \<Rightarrow> u32 \<Rightarrow> string \<Rightarrow> int \<times> string" where
  "XcachePutChunk ser wr k d = send_command ser wr (put_command k d)"

section \<open>Files\<close>

definition DEFAULT_CHUNK_SIZE :: nat where
  "DEFAULT_CHUNK_SIZE = 2000"

definition XIA_MAXBUF :: nat where
  "XIA_MAXBUF = 15600"

text \<open>The name, a pointer and a length.\<close>

definition sizeof_xcacheChunk :: nat where
  "sizeof_xcacheChunk = 512 + 8 + 8"

definition chunk_size :: "u32 \<Rightarrow> nat" where
  "chunk_size chunkSize =
     (if chunkSize = 0 then DEFAULT_CHUNK_SIZE else min (unat chunkSize) XIA_MAXBUF)"

definition num_chunks :: "nat \<Rightarrow> nat \<Rightarrow> u32" where
  "num_chunks st_size chunkSize =
     of_nat (st_size div chunkSize) + (if st_size mod chunkSize \<noteq> 0 then 1 else 0)"

text \<open>
  \<open>rest\<close> is what is left of the file. \<^verbatim>\<open>feof\<close> becomes true with the first read that is shorter than a chunk. The
  entry \<open>i\<close> of the chunk list is written, and the list was allocated with \<^verbatim>\<open>calloc(numChunks, chunkSize)\<close>.
\<close>

function put_file_loop ::
  "(XcacheCommand \<Rightarrow> string) \<Rightarrow> (string \<Rightarrow> int) \<Rightarrow> u32 \<Rightarrow> nat \<Rightarrow> u32 \<Rightarrow> string \<Rightarrow> u32 \<Rightarrow> string list \<Rightarrow>
   (u32 \<times> string list) run" where
  "put_file_loop ser wr k chunkSize numChunks rest i sent =
     (let d = take chunkSize rest in
      if d = [] then Inr (i, sent)
      else if unat numChunks * chunkSize < (unat i + 1) * sizeof_xcacheChunk then Inl Buffer_overrun
      else
        let (rc, msg) = XcachePutChunk ser wr k d in
        if rc < 0 then Inr (i, sent)
        else if length d < chunkSize then Inr (i + 1, sent @ [msg])
        else put_file_loop ser wr k chunkSize numChunks (drop chunkSize rest) (i + 1) (sent @ [msg]))"
  by pat_completeness auto
termination by (relation "measure (\<lambda>(_, _, _, _, _, rest, _, _). length rest)") auto

declare put_file_loop.simps [simp del]

text \<open>The slice and the content of the named file, \<^const>\<open>None\<close> for a null pointer or a file that cannot be read.\<close>

definition XcachePutFile ::
  "(XcacheCommand \<Rightarrow> string) \<Rightarrow> (string \<Rightarrow> int) \<Rightarrow> u32 option \<Rightarrow> string option \<Rightarrow> u32 \<Rightarrow> (int \<times> string list) run" where
  "XcachePutFile ser wr sl fcontent chunkSize =
     (case (sl, fcontent) of
        (Some k, Some f) \<Rightarrow>
          let n = chunk_size chunkSize; numChunks = num_chunks (length f) n in
          bind_run (put_file_loop ser wr k n numChunks f 0 []) (\<lambda>(i, sent).
            Inr (if i \<noteq> numChunks then - 1 else sint i, sent))
      | _ \<Rightarrow> Inr (- 1, []))"

section \<open>Messages that arrive\<close>

text \<open>
  A message arrives unchanged when it is shorter than the receive buffer and has no zero byte; the message format
  reads back what it wrote.
\<close>

definition intact :: "(XcacheCommand \<Rightarrow> string) \<Rightarrow> (string \<Rightarrow> bool \<times> XcacheCommand) \<Rightarrow> XcacheCommand \<Rightarrow> bool" where
  "intact ser parse c \<longleftrightarrow>
     parse (ser c) = (True, c) \<and> ser c \<noteq> [] \<and> length (ser c) < 512 \<and> CHR 0x00 \<notin> set (ser c)"

lemma receive_message:
  assumes "msg \<noteq> []" "length msg < 512" "CHR 0x00 \<notin> set msg"
  shows "receive [seqpacket_read msg] = Some (Inr (int (length msg), msg, []))"
proof -
  let ?buf = "msg @ replicate (512 - length msg) (CHR 0x00)"
  have "takeWhile (\<lambda>c. c \<noteq> CHR 0x00) ?buf = msg"
    using assms by (subst takeWhile_append2) auto
  moreover have "CHR 0x00 \<in> set ?buf" using assms by simp
  ultimately have "append_cstr [] ?buf = Inr msg" by (simp add: append_cstr_def)
  then show ?thesis using assms by (simp add: receive_def seqpacket_read_def)
qed

lemma serve_intact:
  assumes "intact ser parse c"
  shows "serve ser parse junk [seqpacket_read (ser c)] st =
    Some (bind_run (handleCmd junk empty_command c st) (\<lambda>(ret, resp, st1).
      Inr (False, if ret = OK_SEND_RESPONSE then [ser resp] else [], st1)))"
  using assms by (simp add: serve_def intact_def receive_message)

lemma receive_long:
  assumes "512 \<le> length msg"
  shows "receive [seqpacket_read msg] = (if CHR 0x00 \<in> set (take 512 msg) then None else Some (Inl Buffer_overrun))"
proof -
  define d where "d = take 512 msg"
  have "length d = 512" "seqpacket_read msg = Bytes d" using assms by (auto simp: d_def seqpacket_read_def)
  then show ?thesis unfolding d_def [symmetric] by (simp add: receive_def append_cstr_def)
qed

lemma serve_long:
  "512 \<le> length msg \<Longrightarrow> serve ser parse junk [seqpacket_read msg] st =
     (if CHR 0x00 \<in> set (take 512 msg) then None else Some (Inl Buffer_overrun))"
  by (simp add: serve_def receive_long)

section \<open>A small file\<close>

lemma put_small_file:
  assumes "f \<noteq> []" "length f < n" "sizeof_xcacheChunk \<le> n" "0 \<le> wr (ser (put_command k f))"
  shows "put_file_loop ser wr k n (num_chunks (length f) n) f 0 [] = Inr (1, [ser (put_command k f)])"
proof -
  have "num_chunks (length f) n = 1" using assms by (simp add: num_chunks_def)
  with assms show ?thesis
    by (subst put_file_loop.simps) (simp add: XcachePutChunk_def send_command_def)
qed

lemma sint_context:
  assumes "0 \<le> k" "k \<le> 2147483647"
  shows "sint (of_int k :: u32) = k"
  using assms by (simp add: sint_sbintrunc' signed_take_bit_int_eq_self)

text \<open>The answer to a request for a slice, and the state with the new slice.\<close>

lemma newSlice_after:
  fixes n t p :: int
  assumes ok: "controller_ok junk st" and room: "context_id st < 2147483647"
  defines "k \<equiv> context_id st + 1" and "c \<equiv> alloc_command n t p"
  obtains st1 where
    "handleCmd junk empty_command c st =
       Inr (OK_SEND_RESPONSE, empty_command\<lparr>f_cmd := Some XCACHE_RESPONSE, f_contextId := Some k\<rparr>, st1)"
    "controller_ok junk st1" "members (cache_of st1) k = Some (of_int n, {})"
proof -
  have "lookupSlice c st = None"
  proof (cases "lookupSlice c st")
    case (Some sa)
    then show ?thesis
      using slice_found_iff [OF ok] by (simp add: lookupSlice_def c_def alloc_command_def empty_command_def)
  qed
  then have "members (cache_of st) (field 0 (f_contextId c)) = None" by (simp add: lookupSlice_def cache_of_def)
  moreover have "last_id (cache_of st) = context_id st" by (simp add: cache_of_def)
  ultimately have spec: "spec_new c (cache_of st) =
      (Inr (OK_SEND_RESPONSE, empty_command\<lparr>f_cmd := Some XCACHE_RESPONSE, f_contextId := Some k\<rparr>),
       (cache_of st)\<lparr>last_id := k, members := (members (cache_of st))(k \<mapsto> (of_int n, {}))\<rparr>)"
    using room by (simp add: spec_new_def k_def c_def alloc_command_def Let_def)
  have new: "handleCmd junk empty_command c st = newSlice empty_command c st"
    by (simp add: handleCmd_def c_def alloc_command_def)
  from newSlice_spec [OF ok, of c] spec obtain st1 where
      "newSlice empty_command c st =
         Inr (OK_SEND_RESPONSE, empty_command\<lparr>f_cmd := Some XCACHE_RESPONSE, f_contextId := Some k\<rparr>, st1)"
      "controller_ok junk st1"
      "cache_of st1 = (cache_of st)\<lparr>last_id := k, members := (members (cache_of st))(k \<mapsto> (of_int n, {}))\<rparr>"
    by (cases "newSlice empty_command c st") (auto split: prod.splits)
  then show ?thesis by (intro that [of st1]) (simp_all add: new)
qed

lemma store_after:
  fixes f :: string
  assumes ok: "controller_ok junk st" and mem: "members (cache_of st) k = Some (sz, {})"
    and k: "0 \<le> k" "k \<le> 2147483647" and room: "junk ''CID:TODO'' \<le> sz"
  defines "c \<equiv> put_command (of_int k) f"
  obtains st1 sa where "handleCmd junk empty_command c st = Inr (OK_NO_RESPONSE, empty_command, st1)"
    "lookupSlice c st1 = Some sa" "slice_search sa c st1 = Inr (f, st1)"
proof -
  have c: "field 0 (f_contextId c) = k" "field [] (f_cid c) = ''CID:TODO''" "field [] (f_data c) = f" "f_cmd c = Some XCACHE_STORE"
    by (simp_all add: c_def put_command_def sint_context [OF k])
  have "spec_store junk c (cache_of st) = (Inr OK_NO_RESPONSE, (cache_of st)\<lparr>members := (members (cache_of st))(k \<mapsto> (sz, {''CID:TODO''})),
      contents := (contents (cache_of st))(''CID:TODO'' \<mapsto> f)\<rparr>)"
    using room mem by (simp add: spec_store_def c Let_def not_less)
  with controller_store_spec [OF ok, of c] obtain st1 where st1: "controller_store junk c st = Inr (OK_NO_RESPONSE, st1)"
      "controller_ok junk st1" "cache_of st1 = (cache_of st)\<lparr>members := (members (cache_of st))(k \<mapsto> (sz, {''CID:TODO''})),
        contents := (contents (cache_of st))(''CID:TODO'' \<mapsto> f)\<rparr>"
    by (cases "controller_store junk c st") auto
  have "members (cache_of st1) k = Some (sz, {''CID:TODO''})" by (simp add: st1(3))
  then obtain sa where sa: "lookupSlice c st1 = Some sa" by (auto simp: cache_of_def lookupSlice_def c)
  show ?thesis
  proof (rule that)
    show "handleCmd junk empty_command c st = Inr (OK_NO_RESPONSE, empty_command, st1)"
      by (simp add: handleCmd_def c st1)
    show "slice_search sa c st1 = Inr (f, st1)"
      using slice_search_ok [OF st1(2) sa] by (simp add: c st1)
  qed (rule sa)
qed

text \<open>
  C25. A client that gets a slice and puts a file of less than a chunk into it finds the file in the cache: the daemon
  answers the request for a slice with a new identifier, the client takes it over, sends the file as one chunk and
  reports one chunk, and the search of the slice then gives the content of the file. The three messages have to be
  shorter than the receive buffer and free of zero bytes, and the unset length of the object must not exceed the
  size of the slice.
\<close>

theorem small_file_cached:
  fixes ser parse wr junk cmds size lifetime policy f cs
  defines "st \<equiv> after_commands junk cmds"
  defines "k \<equiv> context_id st + 1"
  defines "resp \<equiv> empty_command\<lparr>f_cmd := Some XCACHE_RESPONSE, f_contextId := Some k\<rparr>"
  defines "alloc \<equiv> alloc_command size lifetime policy"
  defines "put \<equiv> put_command (of_int k) f"
  assumes "context_id st < 2147483647" "f \<noteq> []" "length f < chunk_size cs" "sizeof_xcacheChunk \<le> chunk_size cs"
    and "\<forall>m. 0 \<le> wr m" "junk ''CID:TODO'' \<le> of_int size"
    and "intact ser parse alloc" "intact ser parse resp" "intact ser parse put"
  shows "\<exists>st1 st2 sa.
      serve ser parse junk [seqpacket_read (ser alloc)] st = Some (Inr (False, [ser resp], st1))
    \<and> XcacheAllocateSlice ser parse wr [seqpacket_read (ser resp)] size lifetime policy = Some (Inr (0, Some (of_int k)))
    \<and> XcachePutFile ser wr (Some (of_int k)) (Some f) cs = Inr (1, [ser put])
    \<and> serve ser parse junk [seqpacket_read (ser put)] st1 = Some (Inr (False, [], st2))
    \<and> lookupSlice put st2 = Some sa \<and> slice_search sa put st2 = Inr (f, st2)"
proof -
  have ok: "controller_ok junk st" unfolding st_def by (rule after_commands_ok)
  have k: "0 \<le> k" "k \<le> 2147483647" using controller_okD(4) [OF ok] assms(6) by (simp_all add: k_def)
  obtain st1 where st1: "handleCmd junk empty_command alloc st = Inr (OK_SEND_RESPONSE, resp, st1)"
      "controller_ok junk st1" "members (cache_of st1) k = Some (of_int size, {})"
    unfolding alloc_def resp_def k_def by (rule newSlice_after [OF ok assms(6)]) blast
  obtain st2 sa where st2: "handleCmd junk empty_command put st1 = Inr (OK_NO_RESPONSE, empty_command, st2)"
      "lookupSlice put st2 = Some sa" "slice_search sa put st2 = Inr (f, st2)"
    unfolding put_def by (rule store_after [OF st1(2,3) k assms(11)]) blast
  have reply: "receive [seqpacket_read (ser resp)] = Some (Inr (int (length (ser resp)), ser resp, []))"
    using assms(13) by (intro receive_message) (simp_all add: intact_def)
  have ctx: "field 0 (f_contextId resp) = k" by (simp add: resp_def)
  have "XcacheAllocateSlice ser parse wr [seqpacket_read (ser resp)] size lifetime policy = Some (Inr (0, Some (of_int k)))"
    using assms(10,13) ctx
    by (simp add: XcacheAllocateSlice_def Let_def send_command_def get_response_blocking_def reply not_less intact_def)
  moreover have "XcachePutFile ser wr (Some (of_int k)) (Some f) cs = Inr (1, [ser put])"
    using put_small_file [OF assms(7-9), of wr ser "of_int k"] assms(7-10)
    by (simp add: XcachePutFile_def Let_def put_def num_chunks_def)
  ultimately show ?thesis
    using st2 serve_intact [OF assms(12), of junk st] serve_intact [OF assms(14), of junk st1]
    by (intro exI [of _ st1] exI [of _ st2] exI [of _ sa]) (simp add: st1 OK_SEND_RESPONSE_def OK_NO_RESPONSE_def)
qed

text \<open>The wire format for values below 128 and short strings, and a parser that knows some commands.\<close>

definition wire_int :: "int \<Rightarrow> int option \<Rightarrow> string" where
  "wire_int tag v = (case v of None \<Rightarrow> [] | Some i \<Rightarrow> [char_of tag, char_of i])"

definition wire_str :: "int \<Rightarrow> string option \<Rightarrow> string" where
  "wire_str tag v = (case v of None \<Rightarrow> [] | Some s \<Rightarrow> [char_of tag, char_of (int (length s))] @ s)"

fun request_no :: "requestType \<Rightarrow> int" where
  "request_no XCACHE_STORE = 1"
| "request_no XCACHE_NEWSLICE = 2"
| "request_no XCACHE_GETCHUNK = 3"
| "request_no XCACHE_TIMEOUT = 4"
| "request_no XCACHE_CLEAR = 5"
| "request_no XCACHE_RESPONSE = 6"
| "request_no XCACHE_ERROR = 7"
| "request_no XCACHE_STATUS = 8"

definition wire :: "XcacheCommand \<Rightarrow> string" where
  "wire c = wire_int 0x08 (map_option request_no (f_cmd c)) @ wire_int 0x10 (f_contextId c) @ wire_str 0x1A (f_cid c)
     @ wire_str 0x22 (f_dag c) @ wire_str 0x2A (f_data c) @ wire_int 0x30 (f_ttl c) @ wire_int 0x38 (f_cacheSize c)
     @ wire_int 0x40 (f_cachePolicy c)"

definition unwire :: "XcacheCommand list \<Rightarrow> string \<Rightarrow> bool \<times> XcacheCommand" where
  "unwire cs s = (case filter (\<lambda>c. wire c = s) cs of [] \<Rightarrow> (False, empty_command) | c # _ \<Rightarrow> (True, c))"

lemmas wire_defs = wire_def wire_int_def wire_str_def empty_command_def alloc_command_def put_command_def unwire_def

definition sample_messages :: "XcacheCommand list" where
  "sample_messages = [alloc_command 100 60 1, empty_command\<lparr>f_cmd := Some XCACHE_RESPONSE, f_contextId := Some 1\<rparr>,
     put_command 1 ''chunk'']"

lemma sample_intact:
  "intact wire (unwire sample_messages) (alloc_command 100 60 1)"
  "intact wire (unwire sample_messages) (empty_command\<lparr>f_cmd := Some XCACHE_RESPONSE, f_contextId := Some 1\<rparr>)"
  "intact wire (unwire sample_messages) (put_command 1 ''chunk'')"
  by (simp_all add: intact_def sample_messages_def wire_defs char_of_def)

theorem small_file_cached_witness:
  "\<exists>st1 st2 sa.
      serve wire (unwire sample_messages) (\<lambda>_. 0) [seqpacket_read (wire (alloc_command 100 60 1))] new_controller =
        Some (Inr (False, [wire (empty_command\<lparr>f_cmd := Some XCACHE_RESPONSE, f_contextId := Some 1\<rparr>)], st1))
    \<and> XcacheAllocateSlice wire (unwire sample_messages) (\<lambda>m. int (length m))
        [seqpacket_read (wire (empty_command\<lparr>f_cmd := Some XCACHE_RESPONSE, f_contextId := Some 1\<rparr>))] 100 60 1 =
        Some (Inr (0, Some 1))
    \<and> XcachePutFile wire (\<lambda>m. int (length m)) (Some 1) (Some ''chunk'') 0 = Inr (1, [wire (put_command 1 ''chunk'')])
    \<and> serve wire (unwire sample_messages) (\<lambda>_. 0) [seqpacket_read (wire (put_command 1 ''chunk''))] st1 =
        Some (Inr (False, [], st2))
    \<and> lookupSlice (put_command 1 ''chunk'') st2 = Some sa
    \<and> slice_search sa (put_command 1 ''chunk'') st2 = Inr (''chunk'', st2)"
proof -
  have "after_commands (\<lambda>_. 0) [] = new_controller" by (simp add: after_commands_def)
  moreover have "context_id new_controller = 0" by (simp add: new_controller_def)
  moreover have "sizeof_xcacheChunk \<le> chunk_size 0" "length ''chunk'' < chunk_size 0"
    by (simp_all add: chunk_size_def sizeof_xcacheChunk_def DEFAULT_CHUNK_SIZE_def)
  ultimately show ?thesis
    using small_file_cached [where junk = "\<lambda>_. 0" and cmds = "[]" and f = "''chunk''" and cs = 0
        and wr = "\<lambda>m. int (length m)" and size = 100 and ser = wire and parse = "unwire sample_messages"
        and lifetime = 60 and policy = 1] sample_intact
    by simp
qed

section \<open>A file with a full chunk\<close>

lemma unat_next: "unat i < unat (num :: u32) \<Longrightarrow> unat (i + 1 :: u32) = unat i + 1"
  using unat_less_widths(3) [of num] by (simp add: unat_word_ariths)

lemma put_file_loop_fits:
  assumes "sizeof_xcacheChunk \<le> n" "\<forall>m. 0 \<le> wr m" "unat i * n + length rest \<le> unat num * n" "rest \<noteq> []"
  shows "\<exists>r ms. put_file_loop ser wr k n num rest i sent = Inr (r, sent @ ser (put_command k (take n rest)) # ms)"
  using assms
proof (induction "length rest" arbitrary: rest i sent rule: less_induct)
  case less
  have n: "0 < n" using less.prems(1) by (simp add: sizeof_xcacheChunk_def)
  have "0 < length rest" using less.prems(4) by simp
  then have "unat i * n < unat num * n" using less.prems(3) by linarith
  then have i: "unat i < unat num" by simp
  then have "(unat i + 1) * sizeof_xcacheChunk \<le> unat num * n" using less.prems(1) by (intro mult_le_mono) auto
  moreover have "unat (i + 1) = unat i + 1"
    using i by (rule unat_next)
  moreover have "\<exists>r ms. put_file_loop ser wr k n num (drop n rest) (i + 1) (sent @ [m]) = Inr (r, sent @ m # ms)"
    if "n \<le> length rest" for m
  proof (cases "drop n rest = []")
    case True
    then show ?thesis by (subst put_file_loop.simps) simp
  next
    case False
    with less n i that calculation show ?thesis
      using less.hyps [of "drop n rest" "i + 1" "sent @ [m]"] by (auto simp: algebra_simps)
  qed
  ultimately show ?case
    using less.prems n
    by (subst put_file_loop.simps) (auto simp: XcachePutChunk_def send_command_def not_less Let_def)
qed

lemma put_file_loop_overruns:
  assumes "n < sizeof_xcacheChunk" "0 < n" "\<forall>m. 0 \<le> wr m" "rest \<noteq> []"
    and "unat i * n + length rest \<le> unat num * n" "unat num * n < unat i * n + length rest + n"
  shows "put_file_loop ser wr k n num rest i sent = Inl Buffer_overrun"
  using assms
proof (induction "length rest" arbitrary: rest i sent rule: less_induct)
  case less
  have "0 < length rest" using less.prems(4) by simp
  then have "unat i * n < unat num * n" using less.prems(5) by linarith
  then have i: "unat i < unat num" by simp
  have last: "unat num * n < (unat i + 1) * sizeof_xcacheChunk" if "length rest \<le> n"
  proof -
    from that less.prems(6) have "unat num * n < (unat i + 2) * n" by (simp add: algebra_simps)
    then have "unat num < unat i + 2" unfolding mult_less_cancel2 by blast
    then have "unat num \<le> unat i + 1" by simp
    then have "unat num * n \<le> (unat i + 1) * n" by (intro mult_le_mono) auto
    also have "\<dots> < (unat i + 1) * sizeof_xcacheChunk" using less.prems(1) by (intro mult_strict_left_mono) auto
    finally show ?thesis .
  qed
  show ?case
  proof (cases "n < length rest")
    case True
    have "put_file_loop ser wr k n num (drop n rest) (i + 1) (sent @ [m]) = Inl Buffer_overrun" for m
      using less.prems True unat_next [OF i] by (intro less.hyps) (auto simp: algebra_simps)
    moreover have "\<not> wr m < 0" for m using less.prems(3) by (simp add: not_less)
    ultimately show ?thesis
      using True less.prems(2,4) by (subst put_file_loop.simps) (simp add: XcachePutChunk_def send_command_def Let_def)
  next
    case False
    with last less.prems(2,4) show ?thesis by (subst put_file_loop.simps) (simp add: Let_def)
  qed
qed

lemma num_chunks_bounds:
  assumes "0 < n" "L < 2 ^ 32"
  shows "L \<le> unat (num_chunks L n) * n" "unat (num_chunks L n) * n < L + n"
proof -
  let ?c = "L div n + (if L mod n \<noteq> 0 then 1 else 0)"
  have c: "?c \<le> L"
  proof (cases "n = 1")
    case False
    then have "L mod n \<noteq> 0 \<Longrightarrow> L div n < L" using assms by (intro div_less_dividend) (auto intro: gr0I)
    then show ?thesis by (simp add: Suc_le_eq)
  qed simp
  have "num_chunks L n = of_nat ?c" by (simp add: num_chunks_def)
  moreover have "?c < 2 ^ 32" using c assms(2) by linarith
  ultimately have u: "unat (num_chunks L n) = ?c" by (simp add: unat_of_nat del: of_nat_add)
  have "unat (num_chunks L n) * n = n * (L div n) + (if L mod n = 0 then 0 else n)"
    by (simp add: u algebra_simps)
  moreover have "L = n * (L div n) + L mod n" by simp
  moreover have "L mod n < n" using assms(1) by simp
  moreover have "l \<le> N \<and> N < l + n" if "N = q + (if r = 0 then 0 else n)" "l = q + r" "r < n" for N q r l :: nat
    using that by (cases "r = 0") auto
  ultimately show "L \<le> unat (num_chunks L n) * n" "unat (num_chunks L n) * n < L + n" by blast+
qed

text \<open>
  C34. The first chunk of a file that fills a chunk does not get into the cache. With a chunk size of less than the size of a
  chunk descriptor (528 bytes) the call writes behind the list of chunks. With a larger one it sends a first message of at
  least 512 bytes, of which the daemon reads the first 512 and the socket drops the rest: when these bytes have no zero
  byte, the daemon reads past its buffer, and when they have one, it does not, but waits for another message, without
  looking at the command. The message format has to keep the bytes of the content, and every write has to succeed.
\<close>

theorem full_chunk_not_cached:
  assumes "chunk_size cs \<le> length f" "length f < 2 ^ 32" "\<forall>m. 0 \<le> wr m"
    and "\<forall>c. length (field [] (f_data c)) \<le> length (ser c)"
  shows "if chunk_size cs < sizeof_xcacheChunk then XcachePutFile ser wr (Some k) (Some f) cs = Inl Buffer_overrun
    else \<exists>r msg ms. XcachePutFile ser wr (Some k) (Some f) cs = Inr (r, msg # ms) \<and> 512 \<le> length msg
      \<and> msg = ser (put_command k (take (chunk_size cs) f))
      \<and> serve ser parse junk [seqpacket_read msg] st =
          (if CHR 0x00 \<in> set (take 512 msg) then None else Some (Inl Buffer_overrun))"
proof -
  let ?n = "chunk_size cs" and ?num = "num_chunks (length f) (chunk_size cs)"
  have n: "0 < ?n" by (simp add: chunk_size_def DEFAULT_CHUNK_SIZE_def XIA_MAXBUF_def unat_gt_0)
  then have f: "f \<noteq> []" using assms(1) by auto
  note bounds = num_chunks_bounds [OF n assms(2)]
  show ?thesis
  proof (cases "?n < sizeof_xcacheChunk")
    case True
    then show ?thesis
      using put_file_loop_overruns [OF True n assms(3) f, of 0 ?num ser k "[]"] bounds
      by (simp add: XcachePutFile_def Let_def)
  next
    case False
    let ?msg = "ser (put_command k (take ?n f))"
    obtain r ms where "put_file_loop ser wr k ?n ?num f 0 [] = Inr (r, ?msg # ms)"
      using put_file_loop_fits [of ?n wr 0 f ?num ser k "[]"] False assms(3) bounds f by auto
    moreover have "512 \<le> length ?msg"
      using assms(4) [THEN spec, of "put_command k (take ?n f)"] assms(1) False
      by (simp add: put_command_def sizeof_xcacheChunk_def)
    ultimately show ?thesis
      using False serve_long [of ?msg ser parse junk st] by (simp add: XcachePutFile_def Let_def)
  qed
qed

lemma wire_keeps_data: "length (field [] (f_data c)) \<le> length (wire c)"
  by (cases "f_data c") (simp_all add: wire_def wire_str_def)

theorem full_chunk_not_cached_witness:
  "XcachePutFile wire (\<lambda>m. int (length m)) (Some 1) (Some ''chunk'') 4 = Inl Buffer_overrun
   \<and> (\<exists>r msg ms. XcachePutFile wire (\<lambda>m. int (length m)) (Some 1) (Some (replicate 600 (CHR ''x''))) 600 = Inr (r, msg # ms)
        \<and> serve wire (unwire sample_messages) (\<lambda>_. 0) [seqpacket_read msg] new_controller = Some (Inl Buffer_overrun))
   \<and> (\<exists>r msg ms. XcachePutFile wire (\<lambda>m. int (length m)) (Some 1) (Some (replicate 600 (CHR 0x00))) 600 = Inr (r, msg # ms)
        \<and> serve wire (unwire sample_messages) (\<lambda>_. 0) [seqpacket_read msg] new_controller = None)"
proof -
  have "chunk_size 4 = 4" by (simp add: chunk_size_def XIA_MAXBUF_def)
  then have 1: "XcachePutFile wire (\<lambda>m. int (length m)) (Some 1) (Some ''chunk'') 4 = Inl Buffer_overrun"
    using full_chunk_not_cached [of 4 "''chunk''" "\<lambda>m. int (length m)" wire 1] wire_keeps_data
    by (simp add: sizeof_xcacheChunk_def)
  have n: "chunk_size 600 = 600" by (simp add: chunk_size_def XIA_MAXBUF_def)
  then have 2: "\<exists>r msg ms. XcachePutFile wire (\<lambda>m. int (length m)) (Some 1) (Some (replicate 600 c)) 600 = Inr (r, msg # ms)
      \<and> msg = wire (put_command 1 (replicate 600 c))
      \<and> serve wire (unwire sample_messages) (\<lambda>_. 0) [seqpacket_read msg] new_controller =
          (if CHR 0x00 \<in> set (take 512 msg) then None else Some (Inl Buffer_overrun))" for c
    using full_chunk_not_cached [of 600 "replicate 600 c" "\<lambda>m. int (length m)" wire 1] wire_keeps_data
    by (simp add: sizeof_xcacheChunk_def)
  have "wire (put_command 1 (replicate 600 c)) = [char_of (8::int), char_of (1::int), char_of (0x10::int), char_of (1::int),
      char_of (0x1A::int), char_of (8::int)] @ ''CID:TODO'' @ [char_of (0x2A::int), char_of (600::int)] @ replicate 600 c" for c
    by (simp add: wire_defs)
  then have "CHR 0x00 \<in> set (take 512 (wire (put_command 1 (replicate 600 c)))) \<longleftrightarrow> c = CHR 0x00" for c
    by (auto simp: char_of_def)
  then show ?thesis using 1 2 [of "CHR ''x''"] 2 [of "CHR 0x00"] by auto
qed

end
