(* ===== verification/Std_Map.thy ===== *)
theory Std_Map
  imports Xia_Prelude "HOL-Library.RBT" "HOL-Library.List_Lexorder" "HOL-Library.Char_ord"
begin

text \<open>
  \<^verbatim>\<open>std::map\<close> with strings as keys: a search tree in the order of \<^verbatim>\<open>std::string\<close>, which compares characters as
  unsigned numbers. \<^verbatim>\<open>m[k]\<close> inserts a value-initialised entry where \<open>k\<close> is new, also when it is only read, and
  an iterator goes to the next greater key of the map as it is at that moment.
\<close>

type_synonym 'v smap = "(string, 'v) RBT.rbt"

definition smap_get :: "'v \<Rightarrow> string \<Rightarrow> 'v smap \<Rightarrow> 'v" where
  "smap_get d k m = (case RBT.lookup m k of None \<Rightarrow> d | Some v \<Rightarrow> v)"

definition smap_touch :: "'v \<Rightarrow> string \<Rightarrow> 'v smap \<Rightarrow> 'v smap" where
  "smap_touch d k m = (case RBT.lookup m k of None \<Rightarrow> RBT.insert k d m | Some v \<Rightarrow> m)"

definition smap_modify :: "'v \<Rightarrow> string \<Rightarrow> ('v \<Rightarrow> 'v) \<Rightarrow> 'v smap \<Rightarrow> 'v smap" where
  "smap_modify d k f m = RBT.insert k (f (smap_get d k m)) m"

definition smap_begin :: "'v smap \<Rightarrow> string option" where
  "smap_begin m = (case RBT.keys m of [] \<Rightarrow> None | k # ks \<Rightarrow> Some k)"

definition smap_after :: "string \<Rightarrow> 'v smap \<Rightarrow> string option" where
  "smap_after k m = find (\<lambda>l. k < l) (RBT.keys m)"

text \<open>
  The loop \<^verbatim>\<open>for (it = m.begin(); it != m.end(); it++)\<close> whose body may change \<open>m\<close>, a part of the state, by
  inserting entries.
\<close>

partial_function (option) for_keys ::
  "('s \<Rightarrow> 'v smap) \<Rightarrow> (string \<Rightarrow> 's \<Rightarrow> 's) \<Rightarrow> string option \<Rightarrow> 's \<Rightarrow> 's option" where
  "for_keys g f it s =
     (case it of
        None \<Rightarrow> Some s
      | Some k \<Rightarrow> for_keys g f (smap_after k (g (f k s))) (f k s))"

lemma smap_get_Some [simp]: "RBT.lookup m k = Some v \<Longrightarrow> smap_get d k m = v"
  by (simp add: smap_get_def)

lemma smap_get_None [simp]: "RBT.lookup m k = None \<Longrightarrow> smap_get d k m = d"
  by (simp add: smap_get_def)

lemma smap_touch_known [simp]: "RBT.lookup m k = Some v \<Longrightarrow> smap_touch d k m = m"
  by (simp add: smap_touch_def)

lemma lookup_touch: "RBT.lookup (smap_touch d k m) l = (if l = k then Some (smap_get d k m) else RBT.lookup m l)"
  by (auto simp: smap_touch_def split: option.splits)

lemma lookup_modify [simp]:
  "RBT.lookup (smap_modify d k f m) l = (if l = k then Some (f (smap_get d k m)) else RBT.lookup m l)"
  by (simp add: smap_modify_def)

lemma get_modify [simp]:
  "smap_get d l (smap_modify d k f m) = (if l = k then f (smap_get d k m) else smap_get d l m)"
  by (simp add: smap_get_def [of _ l])

lemma smap_eqI: "RBT.lookup m = RBT.lookup n \<Longrightarrow> RBT.entries m = RBT.entries n"
  by (simp add: RBT.entries_lookup)

lemma set_keys: "set (RBT.keys m) = dom (RBT.lookup m)"
  by (auto simp: RBT.lookup_keys)

lemma find_split:
  "sorted (xs @ k # ys) \<Longrightarrow> distinct (xs @ k # ys)
    \<Longrightarrow> find (\<lambda>l. k < l) (xs @ k # ys) = (case ys of [] \<Rightarrow> None | y # _ \<Rightarrow> Some (y :: 'a::linorder))"
proof (induction xs)
  case Nil
  then show ?case by (cases ys) auto
next
  case (Cons x xs)
  then show ?case by (auto simp: not_less)
qed

lemma smap_after_split:
  "RBT.keys m = xs @ k # ys \<Longrightarrow> smap_after k m = (case ys of [] \<Rightarrow> None | y # _ \<Rightarrow> Some y)"
  using find_split [of xs k ys] RBT.sorted_keys [of m] RBT.distinct_keys [of m]
  by (simp add: smap_after_def)

text \<open>Where the body leaves the keys of the map as they are, the loop visits each of them once, in order.\<close>

lemma for_keys_from:
  assumes step: "\<And>k s. k \<in> set ks \<Longrightarrow> P s \<Longrightarrow> P (f k s)"
    and keys: "\<And>s. P s \<Longrightarrow> RBT.keys (g s) = ks"
  shows "ks = xs @ ys \<Longrightarrow> P s \<Longrightarrow>
    for_keys g f (case ys of [] \<Rightarrow> None | y # _ \<Rightarrow> Some y) s = Some (fold f ys s)"
proof (induction ys arbitrary: xs s)
  case Nil
  show ?case by (subst for_keys.simps) simp
next
  case (Cons y ys)
  have P: "P (f y s)" by (rule step) (use Cons.prems in simp_all)
  have "smap_after y (g (f y s)) = (case ys of [] \<Rightarrow> None | y # _ \<Rightarrow> Some y)"
    by (rule smap_after_split [of _ xs]) (use keys [OF P] Cons.prems in simp)
  with Cons.IH [of "xs @ [y]" "f y s"] Cons.prems(1) P show ?case
    by (subst for_keys.simps) simp
qed

lemma for_keys_fold:
  assumes "\<And>k s. k \<in> set ks \<Longrightarrow> P s \<Longrightarrow> P (f k s)" "\<And>s. P s \<Longrightarrow> RBT.keys (g s) = ks" "P s"
  shows "for_keys g f (smap_begin (g s)) s = Some (fold f ks s)"
  using for_keys_from [of ks P f g "[]" ks s] assms by (simp add: smap_begin_def)

end
