(* ===== verification/Xrouted_State.thy ===== *)
theory Xrouted_State
  imports Std_Map
begin

text \<open>
  The state of the routing daemon (\<^verbatim>\<open>daemons/xrouted/xrouted.hh\<close>) and its computation of shortest paths
  (\<^verbatim>\<open>calcShortestPath\<close> of \<^verbatim>\<open>xrouted.cc\<close>). ADs and HIDs are the strings of the messages. The sockets and the address DAGs
  of the state, which are only handed to the socket library, are left out.
\<close>

section \<open>Tables\<close>

record RouteEntry =
  re_dest :: string
  re_nextHop :: string
  re_port :: int
  re_flags :: u32

record NeighborEntry =
  ne_AD :: string
  ne_HID :: string
  ne_cost :: int
  ne_port :: int

record NodeStateEntry =
  ns_dest :: string
  ns_seq :: int
  ns_num_neighbors :: int
  ns_neighbor_list :: "string list"
  ns_checked :: bool
  ns_cost :: int
  ns_prevNode :: string

record RouteState =
  myAD :: string
  myHID :: string
  dual_router :: int
  dual_router_AD :: string
  num_neighbors :: int
  lsa_seq :: int
  hello_seq :: int
  hello_lsa_ratio :: int
  calc_dijstra_ticks :: int
  ADrouteTable :: "RouteEntry smap"
  HIDrouteTable :: "RouteEntry smap"
  neighborTable :: "NeighborEntry smap"
  networkTable :: "NodeStateEntry smap"

definition CALC_DIJKSTRA_INTERVAL :: int where
  "CALC_DIJKSTRA_INTERVAL = 4"

definition MAX_HOP_COUNT :: nat where
  "MAX_HOP_COUNT = 50"

definition MAX_SEQNUM :: int where
  "MAX_SEQNUM = 100000"

text \<open>The entries that \<^verbatim>\<open>operator[]\<close> of a map makes for a new key.\<close>

definition route0 :: RouteEntry where
  "route0 = \<lparr>re_dest = [], re_nextHop = [], re_port = 0, re_flags = 0\<rparr>"

definition neighbor0 :: NeighborEntry where
  "neighbor0 = \<lparr>ne_AD = [], ne_HID = [], ne_cost = 0, ne_port = 0\<rparr>"

definition node0 :: NodeStateEntry where
  "node0 = \<lparr>ns_dest = [], ns_seq = 0, ns_num_neighbors = 0, ns_neighbor_list = [],
     ns_checked = False, ns_cost = 0, ns_prevNode = []\<rparr>"

section \<open>Shortest paths\<close>

definition infinite_cost :: int where
  "infinite_cost = 10000000"

definition abnormal :: "NodeStateEntry \<Rightarrow> bool" where
  "abnormal e \<longleftrightarrow> ns_num_neighbors e = 0 \<or> ns_dest e = []"

definition reset_nodes :: "NodeStateEntry smap \<Rightarrow> NodeStateEntry smap" where
  "reset_nodes nt = RBT.map (\<lambda>k e. e\<lparr>ns_checked := False, ns_cost := infinite_cost\<rparr>) nt"

definition reach_neighbor :: "string \<Rightarrow> string \<Rightarrow> NodeStateEntry smap \<Rightarrow> NodeStateEntry smap" where
  "reach_neighbor my tempAD nt =
     smap_modify node0 tempAD (\<lambda>e. e\<lparr>ns_cost := 1, ns_prevNode := my\<rparr>) nt"

definition start_nodes :: "string \<Rightarrow> NodeStateEntry smap \<Rightarrow> NodeStateEntry smap" where
  "start_nodes my nt =
     (let nt1 = smap_modify node0 my (\<lambda>e. e\<lparr>ns_checked := True, ns_cost := 0\<rparr>) nt
      in fold (reach_neighbor my) (ns_neighbor_list (smap_get node0 my nt1)) nt1)"

definition select_step ::
  "string \<times> NodeStateEntry \<Rightarrow> int \<times> string \<times> NodeStateEntry smap \<Rightarrow> int \<times> string \<times> NodeStateEntry smap" where
  "select_step it acc =
     (let tmpAD = ns_dest (snd it);
          (minCost, selectedAD, nt) = acc;
          nt1 = smap_touch node0 tmpAD nt;
          c = ns_cost (smap_get node0 tmpAD nt1)
      in if c < minCost then (c, tmpAD, nt1) else (minCost, selectedAD, nt1))"

definition select_node :: "NodeStateEntry smap \<Rightarrow> NodeStateEntry smap \<Rightarrow> string \<times> NodeStateEntry smap" where
  "select_node table nt = snd (fold select_step (RBT.entries table) (infinite_cost, [], nt))"

definition relax :: "string \<Rightarrow> string \<Rightarrow> NodeStateEntry smap \<Rightarrow> NodeStateEntry smap" where
  "relax selectedAD tempAD nt =
     (let nt1 = smap_touch node0 tempAD nt in
      if ns_checked (smap_get node0 tempAD nt1) then nt1
      else
        let nt2 = smap_touch node0 selectedAD nt1;
            c = ns_cost (smap_get node0 selectedAD nt2) + 1
        in if c < ns_cost (smap_get node0 tempAD nt2)
           then smap_modify node0 tempAD (\<lambda>e. e\<lparr>ns_cost := c, ns_prevNode := selectedAD\<rparr>) nt2
           else nt2)"

definition settle :: "string \<Rightarrow> NodeStateEntry smap \<Rightarrow> NodeStateEntry smap" where
  "settle selectedAD nt =
     (let nt1 = smap_modify node0 selectedAD (\<lambda>e. e\<lparr>ns_checked := True\<rparr>) nt
      in fold (relax selectedAD) (ns_neighbor_list (smap_get node0 selectedAD nt1)) nt1)"

text \<open>
  The loop answers whether it ended with an empty table; otherwise no node could be selected and
  \<^verbatim>\<open>calcShortestPath\<close> returns at once.
\<close>

partial_function (option) dijkstra_loop ::
  "NodeStateEntry smap \<Rightarrow> NodeStateEntry smap \<Rightarrow> (bool \<times> NodeStateEntry smap) option" where
  "dijkstra_loop table nt =
     (if RBT.is_empty table then Some (True, nt)
      else if fst (select_node table nt) = [] then Some (False, snd (select_node table nt))
      else dijkstra_loop (RBT.delete (fst (select_node table nt)) table)
             (settle (fst (select_node table nt)) (snd (select_node table nt))))"

text \<open>
  \<^verbatim>\<open>prevNode\<close> is followed until the node after this router, \<open>n\<close> hops at most; the result has the number of hops
  that were left.
\<close>

fun follow_prev :: "string \<Rightarrow> nat \<Rightarrow> string \<Rightarrow> NodeStateEntry smap \<Rightarrow> nat \<times> string \<times> NodeStateEntry smap" where
  "follow_prev my n tempAD2 nt =
     (let nt1 = smap_touch node0 tempAD2 nt in
      if ns_prevNode (smap_get node0 tempAD2 nt1) \<noteq> my \<and> 0 < n
      then follow_prev my (n - 1) (ns_prevNode (smap_get node0 tempAD2 nt1)) nt1
      else (n, tempAD2, nt1))"

declare follow_prev.simps [simp del]

definition set_next_hop :: "string \<Rightarrow> RouteState \<Rightarrow> RouteState" where
  "set_next_hop k s =
     (let tempAD1 = ns_dest (smap_get node0 k (networkTable s)) in
      if myAD s = tempAD1 then s
      else
        let (left, tempAD2, nt) = follow_prev (myAD s) MAX_HOP_COUNT tempAD1 (networkTable s);
            s1 = s\<lparr>networkTable := nt\<rparr>
        in if left = 0 then s1
           else
             let nb = smap_touch neighbor0 tempAD2 (neighborTable s1);
                 n = smap_get neighbor0 tempAD2 nb
             in s1\<lparr>neighborTable := nb,
                   ADrouteTable := smap_modify route0 tempAD1
                     (\<lambda>r. r\<lparr>re_dest := tempAD1, re_nextHop := ne_HID n, re_port := ne_port n\<rparr>)
                     (ADrouteTable s1)\<rparr>)"

text \<open>
  An entry without neighbours or without a name is erased by its iterator, and the loop then increments the
  erased iterator, which has no defined behaviour.
\<close>

definition calcShortestPath :: "RouteState \<Rightarrow> RouteState run option" where
  "calcShortestPath s =
     (if list_ex (\<lambda>e. abnormal (snd e)) (RBT.entries (networkTable s)) then Some (Inl Bad_erase)
      else
        let s1 = s\<lparr>ADrouteTable := RBT.empty\<rparr>;
            table = RBT.delete (myAD s) (networkTable s)
        in case dijkstra_loop table (start_nodes (myAD s) (reset_nodes (networkTable s))) of
             None \<Rightarrow> None
           | Some (False, nt) \<Rightarrow> Some (Inr (s1\<lparr>networkTable := nt\<rparr>))
           | Some (True, nt) \<Rightarrow>
               (case for_keys networkTable set_next_hop (smap_begin nt) (s1\<lparr>networkTable := nt\<rparr>) of
                  None \<Rightarrow> None
                | Some s2 \<Rightarrow> Some (Inr s2)))"

end
