(* ===== verification/Xrouted_Dijkstra.thy ===== *)
theory Xrouted_Dijkstra
  imports Xrouted_State
begin

text \<open>
  The search of \<^verbatim>\<open>calcShortestPath\<close> is Dijkstra's algorithm on links of cost one: the marks it leaves in the network
  table are the distances from this router and the nodes before the last on shortest paths.
\<close>

section \<open>The network as a graph\<close>

definition links :: "NodeStateEntry smap \<Rightarrow> (string \<times> string) set" where
  "links nt = {(a, b). \<exists>e. RBT.lookup nt a = Some e \<and> b \<in> set (ns_neighbor_list e)}"

definition known_ADs :: "NodeStateEntry smap \<Rightarrow> string set" where
  "known_ADs nt = dom (RBT.lookup nt)"

definition shortest :: "('a \<times> 'a) set \<Rightarrow> 'a \<Rightarrow> 'a \<Rightarrow> nat \<Rightarrow> bool" where
  "shortest E a b n \<longleftrightarrow> (a, b) \<in> E ^^ n \<and> (\<forall>m<n. (a, b) \<notin> E ^^ m)"

text \<open>The ADs that the computation takes to be reachable, those of a cost below ten million.\<close>

definition reached :: "('a \<times> 'a) set \<Rightarrow> 'a \<Rightarrow> 'a \<Rightarrow> bool" where
  "reached E a b \<longleftrightarrow> (\<exists>n. int n < infinite_cost \<and> (a, b) \<in> E ^^ n)"

text \<open>
  Every entry is filed under its own AD, has neighbours, and its neighbours have entries; so has this router.
\<close>

definition complete_net :: "string \<Rightarrow> NodeStateEntry smap \<Rightarrow> bool" where
  "complete_net my nt \<longleftrightarrow> my \<in> known_ADs nt \<and>
     (\<forall>k e. RBT.lookup nt k = Some e \<longrightarrow>
        ns_dest e = k \<and> \<not> abnormal e \<and> set (ns_neighbor_list e) \<subseteq> known_ADs nt)"

lemma shortest_self [simp]: "shortest E a a 0"
  by (simp add: shortest_def)

lemma shortest_0_iff [simp]: "shortest E a b 0 \<longleftrightarrow> b = a"
  by (auto simp: shortest_def)

lemma shortest_unique: "shortest E a b n \<Longrightarrow> shortest E a b m \<Longrightarrow> n = m"
  unfolding shortest_def by (metis linorder_neqE_nat)

lemma shortest_not_self: "shortest E a b (Suc n) \<Longrightarrow> b \<noteq> a"
  using shortest_unique [OF shortest_self, of E a "Suc n"] by auto

lemma shortest_le: "shortest E a b n \<Longrightarrow> (a, b) \<in> E ^^ m \<Longrightarrow> n \<le> m"
  unfolding shortest_def by (meson not_le)

lemma shortest_exists: "(a, b) \<in> E ^^ m \<Longrightarrow> \<exists>n \<le> m. shortest E a b n"
  using LeastI [of "\<lambda>n. (a, b) \<in> E ^^ n" m] Least_le [of "\<lambda>n. (a, b) \<in> E ^^ n" m]
    not_less_Least [of _ "\<lambda>n. (a, b) \<in> E ^^ n"]
  unfolding shortest_def by blast

text \<open>A path from a set to a point outside it leaves the set by an edge.\<close>

lemma leaving_edge:
  "(a, b) \<in> E ^^ n \<Longrightarrow> a \<in> S \<Longrightarrow> b \<notin> S
    \<Longrightarrow> \<exists>i x y. i < n \<and> (a, x) \<in> E ^^ i \<and> x \<in> S \<and> (x, y) \<in> E \<and> y \<notin> S"
proof (induction n arbitrary: b)
  case (Suc n)
  from Suc.prems(1) obtain c where c: "(a, c) \<in> E ^^ n" "(c, b) \<in> E" by auto
  show ?case
  proof (cases "c \<in> S")
    case True
    with c Suc.prems show ?thesis by blast
  next
    case False
    with Suc.IH [OF c(1) Suc.prems(2)] show ?thesis using less_SucI by blast
  qed
qed simp

section \<open>Frames\<close>

text \<open>The steps of the computation change only the marks of the entries.\<close>

definition marks_off :: "NodeStateEntry \<Rightarrow> NodeStateEntry" where
  "marks_off e = e\<lparr>ns_checked := False, ns_cost := 0, ns_prevNode := []\<rparr>"

definition same_net :: "NodeStateEntry smap \<Rightarrow> NodeStateEntry smap \<Rightarrow> bool" where
  "same_net nt nt' \<longleftrightarrow> (\<forall>k. map_option marks_off (RBT.lookup nt' k) = map_option marks_off (RBT.lookup nt k))"

lemma same_net_refl [simp]: "same_net nt nt"
  by (simp add: same_net_def)

lemma same_net_trans: "same_net a b \<Longrightarrow> same_net b c \<Longrightarrow> same_net a c"
  by (simp add: same_net_def)

lemma marks_off_update [simp]:
  "marks_off (e\<lparr>ns_cost := c, ns_prevNode := p\<rparr>) = marks_off e"
  "marks_off (e\<lparr>ns_checked := b\<rparr>) = marks_off e"
  "marks_off (e\<lparr>ns_checked := b, ns_cost := c\<rparr>) = marks_off e"
  by (simp_all add: marks_off_def)

lemma marks_off_eqD:
  "marks_off a = marks_off b \<Longrightarrow> ns_dest a = ns_dest b"
  "marks_off a = marks_off b \<Longrightarrow> ns_num_neighbors a = ns_num_neighbors b"
  "marks_off a = marks_off b \<Longrightarrow> ns_neighbor_list a = ns_neighbor_list b"
  by (cases a; cases b; simp add: marks_off_def)+

lemma same_net_known: "same_net nt nt' \<Longrightarrow> known_ADs nt' = known_ADs nt"
  unfolding same_net_def known_ADs_def dom_def by (metis option.map_disc_iff)

lemma same_net_lookup:
  assumes "same_net nt nt'" "RBT.lookup nt' k = Some e'"
  obtains e where "RBT.lookup nt k = Some e" "marks_off e' = marks_off e"
proof (cases "RBT.lookup nt k")
  case None
  with assms show ?thesis unfolding same_net_def by (metis option.distinct(1) option.map_disc_iff)
next
  case (Some e)
  with assms have "map_option marks_off (Some e') = map_option marks_off (Some e)"
    unfolding same_net_def by metis
  with Some that show ?thesis by simp
qed

lemma same_net_sym: "same_net nt nt' \<Longrightarrow> same_net nt' nt"
  by (simp add: same_net_def)

lemma links_mono: "same_net nt nt' \<Longrightarrow> links nt' \<subseteq> links nt"
proof
  fix l assume "same_net nt nt'" "l \<in> links nt'"
  then obtain a b e' where l: "l = (a, b)" "RBT.lookup nt' a = Some e'" "b \<in> set (ns_neighbor_list e')"
    by (auto simp: links_def)
  from \<open>same_net nt nt'\<close> l(2) obtain e where "RBT.lookup nt a = Some e" "marks_off e' = marks_off e"
    by (rule same_net_lookup)
  with l marks_off_eqD(3) [of e' e] show "l \<in> links nt" by (simp add: links_def)
qed

lemma same_net_links: "same_net nt nt' \<Longrightarrow> links nt' = links nt"
  using links_mono same_net_sym by blast

lemma same_net_complete: "same_net nt nt' \<Longrightarrow> complete_net my nt \<Longrightarrow> complete_net my nt'"
proof -
  assume s: "same_net nt nt'" and c: "complete_net my nt"
  have "ns_dest e' = k \<and> \<not> abnormal e' \<and> set (ns_neighbor_list e') \<subseteq> known_ADs nt"
    if "RBT.lookup nt' k = Some e'" for k e'
  proof -
    from s that obtain e where "RBT.lookup nt k = Some e" "marks_off e' = marks_off e"
      by (rule same_net_lookup)
    with c marks_off_eqD [of e' e] show ?thesis unfolding complete_net_def abnormal_def by metis
  qed
  with c same_net_known [OF s] show ?thesis by (simp add: complete_net_def)
qed

lemma same_net_modify:
  "k \<in> known_ADs nt \<Longrightarrow> (\<And>e. marks_off (f e) = marks_off e) \<Longrightarrow> same_net nt (smap_modify node0 k f nt)"
  by (auto simp: same_net_def known_ADs_def)

lemma known_touch [simp]: "k \<in> known_ADs nt \<Longrightarrow> smap_touch node0 k nt = nt"
  by (auto simp: known_ADs_def)

lemma known_lookup: "k \<in> known_ADs nt \<Longrightarrow> RBT.lookup nt k = Some (smap_get node0 k nt)"
  by (auto simp: known_ADs_def)

lemma known_modify [simp]: "k \<in> known_ADs nt \<Longrightarrow> known_ADs (smap_modify d k f nt) = known_ADs nt"
  by (auto simp: known_ADs_def split: if_splits)

lemma complete_netD:
  assumes "complete_net my nt" "k \<in> known_ADs nt"
  shows "ns_dest (smap_get node0 k nt) = k" "k \<noteq> []" "set (ns_neighbor_list (smap_get node0 k nt)) \<subseteq> known_ADs nt"
  using assms(1) known_lookup [OF assms(2)] unfolding complete_net_def abnormal_def by blast+

lemma links_iff: "a \<in> known_ADs nt \<Longrightarrow> (a, b) \<in> links nt \<longleftrightarrow> b \<in> set (ns_neighbor_list (smap_get node0 a nt))"
  by (auto simp: links_def known_ADs_def)

lemma link_known: "complete_net my nt \<Longrightarrow> (a, b) \<in> links nt \<Longrightarrow> b \<in> known_ADs nt"
  by (auto simp: complete_net_def links_def)

section \<open>Choosing and settling a node\<close>

abbreviation node_cost :: "NodeStateEntry smap \<Rightarrow> string \<Rightarrow> int" where
  "node_cost nt k \<equiv> ns_cost (smap_get node0 k nt)"

abbreviation node_prev :: "NodeStateEntry smap \<Rightarrow> string \<Rightarrow> string" where
  "node_prev nt k \<equiv> ns_prevNode (smap_get node0 k nt)"

abbreviation node_checked :: "NodeStateEntry smap \<Rightarrow> string \<Rightarrow> bool" where
  "node_checked nt k \<equiv> ns_checked (smap_get node0 k nt)"

lemma select_fold:
  assumes "\<forall>x\<in>set es. ns_dest (snd x) \<in> known_ADs nt"
  shows "\<exists>m' s'. fold select_step es (m, s, nt) = (m', s', nt) \<and> m' \<le> m
    \<and> (\<forall>x\<in>set es. m' \<le> node_cost nt (ns_dest (snd x)))
    \<and> (m' = m \<and> s' = s \<or> m' < m \<and> (\<exists>x\<in>set es. s' = ns_dest (snd x)) \<and> node_cost nt s' = m')"
  using assms
proof (induction es arbitrary: m s)
  case (Cons x es)
  let ?d = "ns_dest (snd x)"
  have step: "select_step x (m, s, nt)
      = (if node_cost nt ?d < m then (node_cost nt ?d, ?d, nt) else (m, s, nt))"
    using Cons.prems by (simp add: select_step_def Let_def)
  let ?c = "node_cost nt ?d"
  have es: "\<forall>x\<in>set es. ns_dest (snd x) \<in> known_ADs nt" using Cons.prems by simp
  show ?case
  proof (cases "?c < m")
    case True
    obtain m' s' where IH: "fold select_step es (?c, ?d, nt) = (m', s', nt)" "m' \<le> ?c"
        "\<forall>x\<in>set es. m' \<le> node_cost nt (ns_dest (snd x))"
        "m' = ?c \<and> s' = ?d \<or> m' < ?c \<and> (\<exists>x\<in>set es. s' = ns_dest (snd x)) \<and> node_cost nt s' = m'"
      using Cons.IH [OF es, of ?c ?d] by (elim exE conjE)
    have "m' < m \<and> (\<exists>y\<in>set (x # es). s' = ns_dest (snd y)) \<and> node_cost nt s' = m'"
      using IH(2,4) True by auto
    with IH(1-3) show ?thesis
      by (intro exI [of _ m'] exI [of _ s']) (simp add: step True del: set_simps, simp)
  next
    case False
    obtain m' s' where IH: "fold select_step es (m, s, nt) = (m', s', nt)" "m' \<le> m"
        "\<forall>x\<in>set es. m' \<le> node_cost nt (ns_dest (snd x))"
        "m' = m \<and> s' = s \<or> m' < m \<and> (\<exists>x\<in>set es. s' = ns_dest (snd x)) \<and> node_cost nt s' = m'"
      using Cons.IH [OF es, of m s] by (elim exE conjE)
    have "m' = m \<and> s' = s \<or> m' < m \<and> (\<exists>y\<in>set (x # es). s' = ns_dest (snd y)) \<and> node_cost nt s' = m'"
      using IH(4) by auto
    with IH(1-3) False show ?thesis
      by (intro exI [of _ m'] exI [of _ s']) (simp add: step del: set_simps, simp)
  qed
qed simp

lemma relax_fold:
  assumes "sel \<in> known_ADs nt" "node_checked nt sel" "set xs \<subseteq> known_ADs nt"
  shows "RBT.lookup (fold (relax sel) xs nt) k =
    map_option (\<lambda>e. if k \<in> set xs \<and> \<not> ns_checked e \<and> node_cost nt sel + 1 < ns_cost e
      then e\<lparr>ns_cost := node_cost nt sel + 1, ns_prevNode := sel\<rparr> else e) (RBT.lookup nt k)"
  using assms
proof (induction xs arbitrary: nt)
  case Nil
  show ?case by (simp add: option.map_ident)
next
  case (Cons x xs)
  let ?nt = "relax sel x nt"
  let ?c = "node_cost nt sel + 1"
  have nt: "?nt = (if \<not> node_checked nt x \<and> ?c < node_cost nt x
      then smap_modify node0 x (\<lambda>e. e\<lparr>ns_cost := ?c, ns_prevNode := sel\<rparr>) nt else nt)"
    using Cons.prems by (simp add: relax_def Let_def)
  obtain e where x: "RBT.lookup nt x = Some e"
    using Cons.prems by (auto simp: known_ADs_def)
  have same: "known_ADs ?nt = known_ADs nt" "smap_get node0 sel ?nt = smap_get node0 sel nt"
    using Cons.prems by (auto simp: nt)
  have "RBT.lookup (fold (relax sel) xs ?nt) k =
    map_option (\<lambda>e. if k \<in> set xs \<and> \<not> ns_checked e \<and> ?c < ns_cost e
      then e\<lparr>ns_cost := ?c, ns_prevNode := sel\<rparr> else e) (RBT.lookup ?nt k)"
    using Cons.IH [of ?nt, unfolded same] Cons.prems by simp
  also have "\<dots> = map_option (\<lambda>e. if k \<in> set (x # xs) \<and> \<not> ns_checked e \<and> ?c < ns_cost e
      then e\<lparr>ns_cost := ?c, ns_prevNode := sel\<rparr> else e) (RBT.lookup nt k)"
  proof (cases "k = x")
    case True
    then show ?thesis by (simp add: nt x)
  next
    case False
    then have "RBT.lookup ?nt k = RBT.lookup nt k" by (simp add: nt)
    with False show ?thesis by (simp cong: if_cong)
  qed
  finally show ?case by simp
qed

lemma settle_get:
  assumes "complete_net my nt" "sel \<in> known_ADs nt" "k \<in> known_ADs nt"
  shows "RBT.lookup (settle sel nt) k = Some
    (let e = smap_get node0 k nt in
     if k = sel then e\<lparr>ns_checked := True\<rparr>
     else if (sel, k) \<in> links nt \<and> \<not> ns_checked e \<and> node_cost nt sel + 1 < ns_cost e
       then e\<lparr>ns_cost := node_cost nt sel + 1, ns_prevNode := sel\<rparr> else e)"
proof -
  let ?nt = "smap_modify node0 sel (\<lambda>e. e\<lparr>ns_checked := True\<rparr>) nt"
  let ?xs = "ns_neighbor_list (smap_get node0 sel nt)"
  obtain e where e: "RBT.lookup nt k = Some e"
    using assms(3) by (auto simp: known_ADs_def)
  have "settle sel nt = fold (relax sel) ?xs ?nt"
    by (simp add: settle_def Let_def)
  then show ?thesis
    using relax_fold [of sel ?nt ?xs k] assms(2) complete_netD(3) [OF assms(1,2)] e
    by (cases "k = sel") (simp_all add: links_iff Let_def)
qed

section \<open>The invariant\<close>

text \<open>
  \<open>U\<close> are the nodes left in the table. The cost of a settled node is its distance; every other known cost
  comes from a settled node.
\<close>

definition dijkstra_inv :: "string \<Rightarrow> NodeStateEntry smap \<Rightarrow> string set \<Rightarrow> NodeStateEntry smap \<Rightarrow> bool" where
  "dijkstra_inv my nt0 U nt \<longleftrightarrow> same_net nt0 nt \<and> my \<notin> U \<and> U \<subseteq> known_ADs nt0
     \<and> (\<forall>k\<in>known_ADs nt0. node_checked nt k \<longleftrightarrow> k \<notin> U)
     \<and> (\<forall>k\<in>known_ADs nt0 - U - {my}. \<exists>n. shortest (links nt0) my k n \<and> node_cost nt k = int n \<and> int n < infinite_cost)
     \<and> (\<forall>k\<in>known_ADs nt0 - {my}. node_cost nt k = infinite_cost \<or>
          (\<exists>n. node_prev nt k \<in> known_ADs nt0 - U \<and> (node_prev nt k, k) \<in> links nt0
             \<and> shortest (links nt0) my (node_prev nt k) n \<and> node_cost nt k = int n + 1
             \<and> int n + 1 < infinite_cost))
     \<and> (\<forall>a\<in>known_ADs nt0 - U. \<forall>b n. (a, b) \<in> links nt0 \<and> b \<noteq> my \<and> shortest (links nt0) my a n
          \<longrightarrow> node_cost nt b \<le> int n + 1)"

lemma dijkstra_invD:
  assumes "dijkstra_inv my nt0 U nt"
  shows "same_net nt0 nt" "my \<notin> U" "U \<subseteq> known_ADs nt0"
    "k \<in> known_ADs nt0 \<Longrightarrow> node_checked nt k \<longleftrightarrow> k \<notin> U"
    "k \<in> known_ADs nt0 \<Longrightarrow> k \<notin> U \<Longrightarrow> k \<noteq> my \<Longrightarrow>
       \<exists>n. shortest (links nt0) my k n \<and> node_cost nt k = int n \<and> int n < infinite_cost"
    "k \<in> known_ADs nt0 \<Longrightarrow> k \<noteq> my \<Longrightarrow> node_cost nt k \<noteq> infinite_cost \<Longrightarrow>
       \<exists>n. node_prev nt k \<in> known_ADs nt0 - U \<and> (node_prev nt k, k) \<in> links nt0
         \<and> shortest (links nt0) my (node_prev nt k) n \<and> node_cost nt k = int n + 1
         \<and> int n + 1 < infinite_cost"
    "a \<in> known_ADs nt0 \<Longrightarrow> a \<notin> U \<Longrightarrow> (a, b) \<in> links nt0 \<Longrightarrow> b \<noteq> my \<Longrightarrow> shortest (links nt0) my a n \<Longrightarrow>
       node_cost nt b \<le> int n + 1"
  using assms unfolding dijkstra_inv_def by blast+

lemma dijkstra_invI:
  assumes "same_net nt0 nt" "my \<notin> U" "U \<subseteq> known_ADs nt0"
    and "\<And>k. k \<in> known_ADs nt0 \<Longrightarrow> node_checked nt k \<longleftrightarrow> k \<notin> U"
    and "\<And>k. k \<in> known_ADs nt0 \<Longrightarrow> k \<notin> U \<Longrightarrow> k \<noteq> my \<Longrightarrow>
       \<exists>n. shortest (links nt0) my k n \<and> node_cost nt k = int n \<and> int n < infinite_cost"
    and "\<And>k. k \<in> known_ADs nt0 \<Longrightarrow> k \<noteq> my \<Longrightarrow> node_cost nt k \<noteq> infinite_cost \<Longrightarrow>
       \<exists>n. node_prev nt k \<in> known_ADs nt0 - U \<and> (node_prev nt k, k) \<in> links nt0
         \<and> shortest (links nt0) my (node_prev nt k) n \<and> node_cost nt k = int n + 1
         \<and> int n + 1 < infinite_cost"
    and "\<And>a b n. a \<in> known_ADs nt0 \<Longrightarrow> a \<notin> U \<Longrightarrow> (a, b) \<in> links nt0 \<Longrightarrow> b \<noteq> my \<Longrightarrow>
       shortest (links nt0) my a n \<Longrightarrow> node_cost nt b \<le> int n + 1"
  shows "dijkstra_inv my nt0 U nt"
  unfolding dijkstra_inv_def
proof (intro conjI ballI allI impI)
  fix k assume "k \<in> known_ADs nt0 - {my}"
  with assms(6) [of k] show "node_cost nt k = infinite_cost \<or>
      (\<exists>n. node_prev nt k \<in> known_ADs nt0 - U \<and> (node_prev nt k, k) \<in> links nt0
         \<and> shortest (links nt0) my (node_prev nt k) n \<and> node_cost nt k = int n + 1
         \<and> int n + 1 < infinite_cost)" by auto
qed (use assms(1-5,7) in auto)

text \<open>A reachable node outside the settled ones is at least as far as one whose cost is known.\<close>

lemma frontier:
  assumes inv: "dijkstra_inv my nt0 U nt" and net: "complete_net my nt0"
    and u: "u \<in> U" "(my, u) \<in> links nt0 ^^ m"
  obtains y where "y \<in> U" "node_cost nt y \<le> int m"
proof -
  have my: "my \<in> known_ADs nt0 - U"
    using net dijkstra_invD(2) [OF inv] by (simp add: complete_net_def)
  have "u \<notin> known_ADs nt0 - U" using u(1) by simp
  from leaving_edge [OF u(2) my this]
  obtain i x y where e: "i < m" "(my, x) \<in> links nt0 ^^ i" "x \<in> known_ADs nt0 - U" "(x, y) \<in> links nt0"
      "y \<notin> known_ADs nt0 - U"
    by (elim exE conjE)
  from shortest_exists [OF e(2)] obtain n where n: "n \<le> i" "shortest (links nt0) my x n"
    by blast
  have y: "y \<in> U"
    using link_known [OF net e(4)] e(5) by blast
  then have "y \<noteq> my" using dijkstra_invD(2) [OF inv] by blast
  then have "node_cost nt y \<le> int n + 1"
    using dijkstra_invD(7) [OF inv _ _ e(4) _ n(2)] e(3) by blast
  with e(1) n(1) have "node_cost nt y \<le> int m" by linarith
  with y that show thesis by blast
qed

lemma least_cost_shortest:
  assumes inv: "dijkstra_inv my nt0 U nt" and net: "complete_net my nt0"
    and sel: "sel \<in> U" "node_cost nt sel < infinite_cost" "\<forall>u\<in>U. node_cost nt sel \<le> node_cost nt u"
  shows "\<exists>n. shortest (links nt0) my sel n \<and> node_cost nt sel = int n"
proof -
  have s: "sel \<in> known_ADs nt0" "sel \<noteq> my" "node_cost nt sel \<noteq> infinite_cost"
    using sel(1,2) dijkstra_invD(2,3) [OF inv] by auto
  obtain n where n: "(node_prev nt sel, sel) \<in> links nt0" "shortest (links nt0) my (node_prev nt sel) n"
      "node_cost nt sel = int n + 1"
    using dijkstra_invD(6) [OF inv s] by blast
  have path: "(my, sel) \<in> links nt0 ^^ Suc n"
    using n(1,2) unfolding shortest_def by auto
  have "(my, sel) \<notin> links nt0 ^^ m" if "m < Suc n" for m
  proof
    assume "(my, sel) \<in> links nt0 ^^ m"
    then obtain y where "y \<in> U" "node_cost nt y \<le> int m"
      by (rule frontier [OF inv net sel(1)])
    with sel(3) n(3) that show False by fastforce
  qed
  with path have "shortest (links nt0) my sel (Suc n)" by (simp add: shortest_def)
  with n(3) show ?thesis by (intro exI [of _ "Suc n"]) simp
qed

lemma settle_same:
  assumes "complete_net my nt" "sel \<in> known_ADs nt"
  shows "same_net nt (settle sel nt)"
proof -
  let ?nt = "smap_modify node0 sel (\<lambda>e. e\<lparr>ns_checked := True\<rparr>) nt"
  let ?xs = "ns_neighbor_list (smap_get node0 sel nt)"
  have m: "same_net nt ?nt"
    using assms(2) by (intro same_net_modify) simp_all
  have "map_option marks_off (RBT.lookup (fold (relax sel) ?xs ?nt) k) = map_option marks_off (RBT.lookup ?nt k)" for k
    by (subst relax_fold)
      (use assms(2) complete_netD(3) [OF assms] in \<open>simp_all add: option.map_comp o_def if_distrib cong: if_cong\<close>)
  then have "same_net ?nt (settle sel nt)"
    by (simp add: same_net_def settle_def Let_def)
  with m show ?thesis by (rule same_net_trans)
qed

lemma cost_le_infinite:
  "dijkstra_inv my nt0 U nt \<Longrightarrow> k \<in> known_ADs nt0 \<Longrightarrow> k \<noteq> my \<Longrightarrow> node_cost nt k \<le> infinite_cost"
  using dijkstra_invD(6) [of my nt0 U nt k] by fastforce

lemma dijkstra_step:
  assumes inv: "dijkstra_inv my nt0 U nt" and net: "complete_net my nt0"
    and sel: "sel \<in> U" "node_cost nt sel < infinite_cost" "\<forall>u\<in>U. node_cost nt sel \<le> node_cost nt u"
  shows "dijkstra_inv my nt0 (U - {sel}) (settle sel nt)"
proof -
  let ?nt = "settle sel nt"
  let ?c = "node_cost nt sel"
  let ?E = "links nt0"
  note D = dijkstra_invD [OF inv]
  have same: "known_ADs nt = known_ADs nt0" "links nt = ?E" "complete_net my nt"
    using D(1) net by (simp_all add: same_net_known same_net_links same_net_complete)
  have s: "sel \<in> known_ADs nt0" "sel \<noteq> my" using sel(1) D(2,3) by auto
  obtain n0 where n0: "shortest ?E my sel n0" "?c = int n0"
    using least_cost_shortest [OF inv net sel] by blast
  have path: "(my, b) \<in> ?E ^^ Suc n0" if "(sel, b) \<in> ?E" for b
    using n0(1) that by (auto simp: shortest_def)
  have get: "smap_get node0 k ?nt =
     (let e = smap_get node0 k nt in
      if k = sel then e\<lparr>ns_checked := True\<rparr>
      else if (sel, k) \<in> ?E \<and> k \<in> U \<and> ?c + 1 < ns_cost e
        then e\<lparr>ns_cost := ?c + 1, ns_prevNode := sel\<rparr> else e)" if k: "k \<in> known_ADs nt0" for k
    using settle_get [of my nt sel k] D(4) [OF k] k s(1) by (simp add: same Let_def)
  let ?upd = "\<lambda>k. (sel, k) \<in> ?E \<and> k \<in> U \<and> k \<noteq> sel \<and> ?c + 1 < node_cost nt k"
  have checked: "node_checked ?nt k \<longleftrightarrow> k \<notin> U - {sel}" if "k \<in> known_ADs nt0" for k
    using D(4) [OF that] by (simp add: get [OF that] Let_def)
  have cost: "node_cost ?nt k = (if ?upd k then ?c + 1 else node_cost nt k)"
    and prev: "node_prev ?nt k = (if ?upd k then sel else node_prev nt k)" if "k \<in> known_ADs nt0" for k
    by (simp_all add: get [OF that] Let_def)
  have 4: "\<exists>n. shortest ?E my k n \<and> node_cost ?nt k = int n \<and> int n < infinite_cost"
    if k: "k \<in> known_ADs nt0" "k \<notin> U - {sel}" "k \<noteq> my" for k
  proof (cases "k = sel")
    case True
    with n0 sel(2) show ?thesis by (simp add: cost [OF s(1)])
  next
    case False
    with k(2) have "k \<notin> U" by blast
    with D(5) [OF k(1) _ k(3)] show ?thesis by (simp add: cost [OF k(1)])
  qed
  have 5: "\<exists>n. node_prev ?nt k \<in> known_ADs nt0 - (U - {sel}) \<and> (node_prev ?nt k, k) \<in> ?E
      \<and> shortest ?E my (node_prev ?nt k) n \<and> node_cost ?nt k = int n + 1 \<and> int n + 1 < infinite_cost"
    if k: "k \<in> known_ADs nt0" "k \<noteq> my" and fin: "node_cost ?nt k \<noteq> infinite_cost" for k
  proof (cases "?upd k")
    case True
    with n0 s cost_le_infinite [OF inv k] show ?thesis
      by (intro exI [of _ n0]) (simp add: cost [OF k(1)] prev [OF k(1)])
  next
    case False
    with fin have "node_cost nt k \<noteq> infinite_cost" by (simp add: cost [OF k(1)])
    from D(6) [OF k this] show ?thesis unfolding cost [OF k(1)] prev [OF k(1)] if_not_P [OF False] by blast
  qed
  have 6: "node_cost ?nt b \<le> int n + 1"
    if a: "a \<in> known_ADs nt0" "a \<notin> U - {sel}" and e: "(a, b) \<in> ?E" "b \<noteq> my" "shortest ?E my a n" for a b n
  proof -
    have b: "b \<in> known_ADs nt0" using net e(1) by (rule link_known)
    show ?thesis
    proof (cases "a = sel")
      case False
      with D(7) [OF a(1) _ e] a(2) show ?thesis by (auto simp: cost [OF b])
    next
      case True
      have n: "n = n0" by (rule shortest_unique [OF e(3)]) (use n0(1) True in simp)
      consider "b \<in> U" "b \<noteq> sel" | "b = sel" | "b \<notin> U" by blast
      then show ?thesis
      proof cases
        case 3
        obtain m where m: "shortest ?E my b m" "node_cost nt b = int m"
          using D(5) [OF b 3 e(2)] by blast
        have "m \<le> Suc n0" using shortest_le [OF m(1) path] e(1) True by blast
        with 3 m(2) n show ?thesis by (simp add: cost [OF b])
      qed (use e(1) True n0(2) n in \<open>simp_all add: cost [OF b] cost [OF s(1)]\<close>)
    qed
  qed
  have 1: "same_net nt0 ?nt"
    using same_net_trans [OF D(1) settle_same [OF same(3)]] s(1) by (simp add: same)
  show ?thesis
    by (rule dijkstra_invI [OF 1 _ _ checked 4 5 6]) (use D(2,3) in auto)
qed

section \<open>The loop\<close>

lemma select_node_spec:
  assumes "\<forall>x\<in>set (RBT.entries table). ns_dest (snd x) = fst x" "dom (RBT.lookup table) \<subseteq> known_ADs nt"
  obtains (None) "select_node table nt = ([], nt)" "\<forall>u\<in>dom (RBT.lookup table). infinite_cost \<le> node_cost nt u"
  | (Sel) sel where "select_node table nt = (sel, nt)" "sel \<in> dom (RBT.lookup table)"
      "node_cost nt sel < infinite_cost" "\<forall>u\<in>dom (RBT.lookup table). node_cost nt sel \<le> node_cost nt u"
proof -
  let ?es = "RBT.entries table"
  have keys: "fst ` set ?es = dom (RBT.lookup table)"
    by (simp add: set_keys [symmetric] RBT.keys_def_alt)
  have dests: "\<forall>x\<in>set ?es. ns_dest (snd x) \<in> known_ADs nt"
    using assms unfolding keys [symmetric] by auto
  obtain m s where f: "fold select_step ?es (infinite_cost, [], nt) = (m, s, nt)"
      "\<forall>x\<in>set ?es. m \<le> node_cost nt (ns_dest (snd x))"
      "m = infinite_cost \<and> s = [] \<or>
       m < infinite_cost \<and> (\<exists>x\<in>set ?es. s = ns_dest (snd x)) \<and> node_cost nt s = m"
    using select_fold [OF dests, of infinite_cost "[]"] by (elim exE conjE)
  have least: "\<forall>u\<in>dom (RBT.lookup table). m \<le> node_cost nt u"
    using f(2) assms(1) unfolding keys [symmetric] by auto
  from f(3) show thesis
  proof (elim disjE conjE bexE)
    assume "m = infinite_cost" "s = []"
    with f(1) least show thesis by (intro None) (simp_all add: select_node_def)
  next
    fix x assume "m < infinite_cost" "x \<in> set ?es" "s = ns_dest (snd x)" "node_cost nt s = m"
    moreover from this assms(1) keys have "s \<in> dom (RBT.lookup table)" by force
    ultimately show thesis using f(1) least by (intro Sel [of s]) (simp_all add: select_node_def)
  qed
qed

lemma dijkstra_loop_ends:
  assumes net: "complete_net my nt0"
  shows "dijkstra_inv my nt0 U nt \<Longrightarrow> dom (RBT.lookup table) = U
    \<Longrightarrow> \<forall>x\<in>set (RBT.entries table). ns_dest (snd x) = fst x
    \<Longrightarrow> \<exists>b nt'. dijkstra_loop table nt = Some (b, nt') \<and> same_net nt0 nt'
      \<and> (if b then dijkstra_inv my nt0 {} nt' else \<exists>u\<in>known_ADs nt0. \<not> reached (links nt0) my u)"
proof (induction "card U" arbitrary: U nt table rule: less_induct)
  case less
  note inv = less.prems(1) and D = dijkstra_invD [OF less.prems(1)]
  show ?case
  proof (cases "U = {}")
    case True
    then have "RBT.is_empty table" using less.prems(2) by simp
    with True inv D(1) show ?thesis
      by (intro exI [of _ True] exI [of _ nt]) (subst dijkstra_loop.simps, simp)
  next
    case ne: False
    have "known_ADs nt = known_ADs nt0" using D(1) by (rule same_net_known)
    then have sub: "dom (RBT.lookup table) \<subseteq> known_ADs nt" using D(3) less.prems(2) by simp
    have loop: "dijkstra_loop table nt =
        (if fst (select_node table nt) = [] then Some (False, snd (select_node table nt))
         else dijkstra_loop (RBT.delete (fst (select_node table nt)) table)
           (settle (fst (select_node table nt)) (snd (select_node table nt))))"
      using ne less.prems(2) by (subst dijkstra_loop.simps) auto
    from less.prems(3) sub show ?thesis
    proof (cases rule: select_node_spec)
      case None
      from ne obtain u where u: "u \<in> U" by blast
      have "\<not> reached (links nt0) my u"
      proof
        assume "reached (links nt0) my u"
        then obtain m where m: "int m < infinite_cost" "(my, u) \<in> links nt0 ^^ m"
          unfolding reached_def by blast
        obtain y where y: "y \<in> U" "node_cost nt y \<le> int m"
          using frontier [OF inv net u m(2)] .
        from y(1) have "infinite_cost \<le> node_cost nt y"
          using None(2) unfolding less.prems(2) by (rule bspec [rotated])
        with y(2) m(1) show False by linarith
      qed
      with u D(1,3) None(1) show ?thesis by (auto simp: loop)
    next
      case (Sel sel)
      have sel: "sel \<in> U" using Sel(2) less.prems(2) by simp
      have "sel \<noteq> []" using complete_netD(2) [OF net] sel D(3) by blast
      then have "dijkstra_loop table nt = dijkstra_loop (RBT.delete sel table) (settle sel nt)"
        by (simp add: loop Sel(1))
      moreover have "dijkstra_inv my nt0 (U - {sel}) (settle sel nt)"
        using inv net sel Sel(3,4) less.prems(2) by (intro dijkstra_step) simp_all
      moreover have "card (U - {sel}) < card U"
        using sel less.prems(2) RBT.finite_dom_lookup [of table] by (intro psubset_card_mono) auto
      moreover have "\<forall>x\<in>set (RBT.entries (RBT.delete sel table)). ns_dest (snd x) = fst x"
        using less.prems(3) by (auto simp: RBT.lookup_in_tree [symmetric] restrict_map_def split: if_splits)
      ultimately show ?thesis
        using less.hyps [of "U - {sel}" "settle sel nt" "RBT.delete sel table"] less.prems(2) by auto
    qed
  qed
qed

section \<open>The start\<close>

lemma lookup_reset:
  "RBT.lookup (reset_nodes nt) k =
     map_option (\<lambda>e. e\<lparr>ns_checked := False, ns_cost := infinite_cost\<rparr>) (RBT.lookup nt k)"
  by (simp add: reset_nodes_def)

lemma reach_fold:
  "RBT.lookup (fold (reach_neighbor my) xs nt) k =
     (if k \<in> set xs then Some ((smap_get node0 k nt)\<lparr>ns_cost := 1, ns_prevNode := my\<rparr>) else RBT.lookup nt k)"
  by (induction xs arbitrary: nt) (auto simp: reach_neighbor_def)

lemma start_get:
  assumes "complete_net my nt" "k \<in> known_ADs nt"
  shows "RBT.lookup (start_nodes my (reset_nodes nt)) k = Some
    (let e = (smap_get node0 k nt)\<lparr>ns_checked := (k = my), ns_cost := if k = my then 0 else infinite_cost\<rparr>
     in if (my, k) \<in> links nt then e\<lparr>ns_cost := 1, ns_prevNode := my\<rparr> else e)"
proof -
  obtain e m where e: "RBT.lookup nt k = Some e" "RBT.lookup nt my = Some m"
    using assms by (auto simp: known_ADs_def complete_net_def)
  then have get: "smap_get node0 k (reset_nodes nt) = e\<lparr>ns_checked := False, ns_cost := infinite_cost\<rparr>"
      "smap_get node0 my (reset_nodes nt) = m\<lparr>ns_checked := False, ns_cost := infinite_cost\<rparr>"
    by (simp_all add: smap_get_def lookup_reset)
  have l: "(my, k) \<in> links nt \<longleftrightarrow> k \<in> set (ns_neighbor_list m)"
    using e by (simp add: links_def)
  show ?thesis
    using e l by (cases "k = my") (simp_all add: start_nodes_def Let_def reach_fold lookup_reset get)
qed

lemma start_unknown:
  assumes "complete_net my nt" "k \<notin> known_ADs nt"
  shows "RBT.lookup (start_nodes my (reset_nodes nt)) k = None"
proof -
  obtain m where m: "RBT.lookup nt my = Some m"
    using assms by (auto simp: known_ADs_def complete_net_def)
  then have get: "smap_get node0 my (reset_nodes nt) = m\<lparr>ns_checked := False, ns_cost := infinite_cost\<rparr>"
    by (simp add: smap_get_def lookup_reset)
  have "k \<notin> set (ns_neighbor_list m)" "k \<noteq> my" "RBT.lookup nt k = None"
    using assms m unfolding complete_net_def by (auto simp: known_ADs_def)
  then show ?thesis by (simp add: start_nodes_def Let_def reach_fold lookup_reset get)
qed

lemma start_same:
  assumes "complete_net my nt"
  shows "same_net nt (start_nodes my (reset_nodes nt))"
  unfolding same_net_def
proof
  fix k
  show "map_option marks_off (RBT.lookup (start_nodes my (reset_nodes nt)) k) =
      map_option marks_off (RBT.lookup nt k)"
  proof (cases "k \<in> known_ADs nt")
    case True
    then obtain e where "RBT.lookup nt k = Some e" by (auto simp: known_ADs_def)
    with start_get [OF assms True] show ?thesis by (simp add: Let_def marks_off_def)
  next
    case False
    with start_unknown [OF assms False] show ?thesis by (auto simp: known_ADs_def)
  qed
qed

lemma dijkstra_init:
  assumes "complete_net my nt"
  shows "dijkstra_inv my nt (known_ADs nt - {my}) (start_nodes my (reset_nodes nt))"
proof (rule dijkstra_invI)
  show "same_net nt (start_nodes my (reset_nodes nt))" using assms by (rule start_same)
next
  fix k assume k: "k \<in> known_ADs nt"
  show "node_checked (start_nodes my (reset_nodes nt)) k \<longleftrightarrow> k \<notin> known_ADs nt - {my}"
    using k start_get [OF assms k] by (simp add: Let_def)
  assume "k \<noteq> my" "node_cost (start_nodes my (reset_nodes nt)) k \<noteq> infinite_cost"
  then show "\<exists>n. node_prev (start_nodes my (reset_nodes nt)) k \<in> known_ADs nt - (known_ADs nt - {my})
      \<and> (node_prev (start_nodes my (reset_nodes nt)) k, k) \<in> links nt
      \<and> shortest (links nt) my (node_prev (start_nodes my (reset_nodes nt)) k) n
      \<and> node_cost (start_nodes my (reset_nodes nt)) k = int n + 1 \<and> int n + 1 < infinite_cost"
    using assms start_get [OF assms k]
    by (intro exI [of _ 0]) (simp add: Let_def complete_net_def infinite_cost_def split: if_splits)
next
  fix a b n
  assume a: "a \<in> known_ADs nt" "a \<notin> known_ADs nt - {my}" and ab: "(a, b) \<in> links nt" "b \<noteq> my"
    and n: "shortest (links nt) my a n"
  have b: "b \<in> known_ADs nt" using assms ab(1) by (rule link_known)
  show "node_cost (start_nodes my (reset_nodes nt)) b \<le> int n + 1"
    using a ab start_get [OF assms b] by (simp add: Let_def)
qed auto

end
