(* ===== verification/Xrouted_Paths.thy ===== *)
theory Xrouted_Paths
  imports Xrouted_Dijkstra
begin

text \<open>
  The routing daemon's computation of routes is correct: with every advertised AD reachable, the route to each of
  them leaves through a neighbour that is on a shortest path; with one that is not, there are no routes at all.
\<close>

section \<open>Next hops\<close>

lemma follow_prev_spec:
  assumes inv: "dijkstra_inv my nt0 {} nt" and net: "complete_net my nt0"
  shows "k \<in> known_ADs nt0 \<Longrightarrow> shortest (links nt0) my k (Suc n) \<Longrightarrow>
    \<exists>y. follow_prev my h k nt = (h - n, y, nt)
      \<and> (n \<le> h \<longrightarrow> (my, y) \<in> links nt0 \<and> (y, k) \<in> links nt0 ^^ n)"
proof (induction n arbitrary: k h)
  case (0 k h)
  note D = dijkstra_invD [OF inv]
  have k: "k \<noteq> my" using "0.prems"(2) by (rule shortest_not_self)
  obtain m where m: "shortest (links nt0) my k m" "node_cost nt k = int m" "int m < infinite_cost"
    using D(5) [OF "0.prems"(1)] k by blast
  have "m = 1" using shortest_unique [OF m(1)] "0.prems"(2) by simp
  moreover obtain n where n: "(node_prev nt k, k) \<in> links nt0" "shortest (links nt0) my (node_prev nt k) n"
      "node_cost nt k = int n + 1"
    using D(6) [OF "0.prems"(1) k] m(2,3) by auto
  ultimately have "node_prev nt k = my" using m(2) by simp
  moreover have "smap_touch node0 k nt = nt"
    using "0.prems"(1) same_net_known [OF D(1)] by simp
  ultimately show ?case using n(1) by (subst follow_prev.simps) simp
next
  case (Suc n k h)
  note D = dijkstra_invD [OF inv]
  have k: "k \<noteq> my" using Suc.prems(2) by (rule shortest_not_self)
  obtain m where m: "shortest (links nt0) my k m" "node_cost nt k = int m" "int m < infinite_cost"
    using D(5) [OF Suc.prems(1)] k by blast
  have "m = Suc (Suc n)" by (rule shortest_unique [OF m(1) Suc.prems(2)])
  moreover obtain n' where n': "node_prev nt k \<in> known_ADs nt0" "(node_prev nt k, k) \<in> links nt0"
      "shortest (links nt0) my (node_prev nt k) n'" "node_cost nt k = int n' + 1"
    using D(6) [OF Suc.prems(1) k] m(2,3) by auto
  ultimately have "n' = Suc n" using m(2) by simp
  with n'(3) have p: "shortest (links nt0) my (node_prev nt k) (Suc n)" by simp
  then have ne: "node_prev nt k \<noteq> my" by (rule shortest_not_self)
  have t: "smap_touch node0 k nt = nt"
    using Suc.prems(1) same_net_known [OF D(1)] by simp
  show ?case
  proof (cases h)
    case 0
    with t show ?thesis by (subst follow_prev.simps) simp
  next
    case (Suc h')
    obtain y where y: "follow_prev my h' (node_prev nt k) nt = (h' - n, y, nt)"
        "n \<le> h' \<longrightarrow> (my, y) \<in> links nt0 \<and> (y, node_prev nt k) \<in> links nt0 ^^ n"
      using Suc.IH [OF n'(1) p, of h'] by blast
    with Suc t ne n'(2) show ?thesis
      by (subst follow_prev.simps) (auto intro!: exI [of _ y])
  qed
qed

text \<open>The nodes of all routes are known, so that following them inserts nothing.\<close>

definition route_via :: "NeighborEntry smap \<Rightarrow> string \<Rightarrow> NodeStateEntry smap \<Rightarrow> string \<Rightarrow> RouteEntry option" where
  "route_via nb my nt k =
     (let (left, h, _) = follow_prev my MAX_HOP_COUNT k nt in
      if k = my \<or> left = 0 then None
      else Some \<lparr>re_dest = k, re_nextHop = ne_HID (smap_get neighbor0 h nb), re_port = ne_port (smap_get neighbor0 h nb),
        re_flags = 0\<rparr>)"

definition follows_inside :: "NeighborEntry smap \<Rightarrow> string \<Rightarrow> NodeStateEntry smap \<Rightarrow> string \<Rightarrow> bool" where
  "follows_inside nb my nt k \<longleftrightarrow> ns_dest (smap_get node0 k nt) = k \<and>
     (k \<noteq> my \<longrightarrow> (\<exists>left h. follow_prev my MAX_HOP_COUNT k nt = (left, h, nt)
        \<and> (0 < left \<longrightarrow> h \<in> dom (RBT.lookup nb))))"

lemma set_next_hop_inside:
  assumes "follows_inside (neighborTable s) (myAD s) (networkTable s) k" "RBT.lookup (ADrouteTable s) k = None"
  shows "\<exists>rt. set_next_hop k s = s\<lparr>ADrouteTable := rt\<rparr>
    \<and> RBT.lookup rt = (RBT.lookup (ADrouteTable s))
        (k := route_via (neighborTable s) (myAD s) (networkTable s) k)"
proof (cases "k = myAD s")
  case True
  with assms show ?thesis
    by (intro exI [of _ "ADrouteTable s"])
      (auto simp: set_next_hop_def follows_inside_def route_via_def split: prod.splits)
next
  case False
  with assms(1) obtain left h where f: "follow_prev (myAD s) MAX_HOP_COUNT k (networkTable s) = (left, h, networkTable s)"
      "0 < left \<longrightarrow> h \<in> dom (RBT.lookup (neighborTable s))" "ns_dest (smap_get node0 k (networkTable s)) = k"
    by (auto simp: follows_inside_def)
  show ?thesis
  proof (cases "left = 0")
    case True
    with False f assms(2) show ?thesis
      by (intro exI [of _ "ADrouteTable s"]) (auto simp: set_next_hop_def route_via_def Let_def)
  next
    case False
    then obtain n where "RBT.lookup (neighborTable s) h = Some n" using f(2) by auto
    with False \<open>k \<noteq> myAD s\<close> f assms(2) show ?thesis
      by (intro exI [of _ "smap_modify route0 k (\<lambda>r. r\<lparr>re_dest := k, re_nextHop := ne_HID n, re_port := ne_port n\<rparr>) (ADrouteTable s)"])
        (auto simp: set_next_hop_def route_via_def Let_def route0_def)
  qed
qed

lemma set_next_hops:
  assumes "\<forall>k\<in>set ks. follows_inside (neighborTable s) (myAD s) (networkTable s) k" "distinct ks"
    "\<forall>k\<in>set ks. RBT.lookup (ADrouteTable s) k = None"
  shows "\<exists>rt. fold set_next_hop ks s = s\<lparr>ADrouteTable := rt\<rparr>
    \<and> (\<forall>k. RBT.lookup rt k = (if k \<in> set ks then route_via (neighborTable s) (myAD s) (networkTable s) k
         else RBT.lookup (ADrouteTable s) k))"
  using assms
proof (induction ks arbitrary: s)
  case Nil
  show ?case by (intro exI [of _ "ADrouteTable s"]) simp
next
  case (Cons k ks)
  obtain rt where rt: "set_next_hop k s = s\<lparr>ADrouteTable := rt\<rparr>"
      "RBT.lookup rt = (RBT.lookup (ADrouteTable s))(k := route_via (neighborTable s) (myAD s) (networkTable s) k)"
    using set_next_hop_inside [of s k] Cons.prems by auto
  let ?s = "s\<lparr>ADrouteTable := rt\<rparr>"
  have "\<forall>k\<in>set ks. follows_inside (neighborTable ?s) (myAD ?s) (networkTable ?s) k" "distinct ks"
      "\<forall>k\<in>set ks. RBT.lookup (ADrouteTable ?s) k = None"
    using Cons.prems rt(2) by auto
  from Cons.IH [OF this] obtain rt' where rt': "fold set_next_hop ks ?s = ?s\<lparr>ADrouteTable := rt'\<rparr>"
      "\<forall>k'. RBT.lookup rt' k' = (if k' \<in> set ks then route_via (neighborTable s) (myAD s) (networkTable s) k'
         else RBT.lookup rt k')" by auto
  with rt Cons.prems(2) show ?case by (intro exI [of _ rt']) auto
qed

section \<open>A network of three ADs in a row\<close>

definition sample_node :: "string \<Rightarrow> string list \<Rightarrow> NodeStateEntry" where
  "sample_node d ns = \<lparr>ns_dest = d, ns_seq = 1, ns_num_neighbors = int (length ns), ns_neighbor_list = ns,
     ns_checked = False, ns_cost = 0, ns_prevNode = []\<rparr>"

definition sample_net :: "NodeStateEntry smap" where
  "sample_net =
     RBT.insert ''AD:1'' (sample_node ''AD:1'' [''AD:2''])
    (RBT.insert ''AD:2'' (sample_node ''AD:2'' [''AD:1'', ''AD:3''])
    (RBT.insert ''AD:3'' (sample_node ''AD:3'' [''AD:2'']) RBT.empty))"

definition sample_state :: "NodeStateEntry smap \<Rightarrow> RouteState" where
  "sample_state nt = \<lparr>myAD = ''AD:1'', myHID = ''HID:1'', dual_router = 0, dual_router_AD = ''NULL'', num_neighbors = 1,
     lsa_seq = 5, hello_seq = 0, hello_lsa_ratio = 3, calc_dijstra_ticks = 0, ADrouteTable = RBT.empty,
     HIDrouteTable = RBT.empty,
     neighborTable = RBT.insert ''AD:2'' \<lparr>ne_AD = ''AD:2'', ne_HID = ''HID:2'', ne_cost = 1, ne_port = 7\<rparr> RBT.empty,
     networkTable = nt\<rparr>"

lemma sample_state_sel [simp]:
  "myAD (sample_state nt) = ''AD:1''" "networkTable (sample_state nt) = nt"
  "RBT.lookup (neighborTable (sample_state nt)) =
     [''AD:2'' \<mapsto> \<lparr>ne_AD = ''AD:2'', ne_HID = ''HID:2'', ne_cost = 1, ne_port = 7\<rparr>]"
  by (simp_all add: sample_state_def)

lemma sample_links:
  "links sample_net = {(''AD:1'', ''AD:2''), (''AD:2'', ''AD:1''), (''AD:2'', ''AD:3''), (''AD:3'', ''AD:2'')}"
  by (auto simp: links_def sample_net_def sample_node_def split: if_splits)

lemma sample_known: "known_ADs sample_net = {''AD:1'', ''AD:2'', ''AD:3''}"
  by (auto simp: known_ADs_def sample_net_def)

lemma sample_complete: "complete_net ''AD:1'' sample_net"
  unfolding complete_net_def sample_known
  by (auto simp: sample_net_def sample_node_def abnormal_def split: if_splits)

lemma sample_reached: "\<forall>d\<in>known_ADs sample_net. reached (links sample_net) ''AD:1'' d"
proof -
  have "(''AD:1'', ''AD:1'') \<in> links sample_net ^^ 0" "(''AD:1'', ''AD:2'') \<in> links sample_net ^^ 1"
      "(''AD:1'', ''AD:3'') \<in> links sample_net ^^ 2"
    by (auto simp: sample_links numeral_2_eq_2)
  then show ?thesis unfolding sample_known reached_def infinite_cost_def
    by (auto intro: exI [of _ 0] exI [of _ 1] exI [of _ 2])
qed

lemma sample_shortest: "shortest (links sample_net) ''AD:1'' ''AD:3'' (Suc 1)"
  unfolding shortest_def by (auto simp: sample_links less_Suc_eq)

section \<open>The routes\<close>

lemma complete_not_abnormal:
  "complete_net my nt \<Longrightarrow> \<not> list_ex (\<lambda>e. abnormal (snd e)) (RBT.entries nt)"
  by (auto simp: complete_net_def list_ex_iff RBT.lookup_in_tree [symmetric])

lemma complete_table:
  "complete_net my nt \<Longrightarrow> dom (RBT.lookup (RBT.delete my nt)) = known_ADs nt - {my}"
  "complete_net my nt \<Longrightarrow> \<forall>x\<in>set (RBT.entries (RBT.delete my nt)). ns_dest (snd x) = fst x"
  by (auto simp: complete_net_def known_ADs_def RBT.lookup_in_tree [symmetric] restrict_map_def split: if_splits)

lemma follows_inside_all:
  assumes inv: "dijkstra_inv my nt0 {} nt" and net: "complete_net my nt0"
    and nb: "\<forall>h. (my, h) \<in> links nt0 \<longrightarrow> h \<in> dom (RBT.lookup nb)" and k: "k \<in> known_ADs nt0"
  shows "follows_inside nb my nt k"
proof -
  note D = dijkstra_invD [OF inv]
  have "ns_dest (smap_get node0 k nt) = k"
    using complete_netD(1) [OF same_net_complete [OF D(1) net]] k same_net_known [OF D(1)] by simp
  moreover have "\<exists>left h. follow_prev my MAX_HOP_COUNT k nt = (left, h, nt)
        \<and> (0 < left \<longrightarrow> h \<in> dom (RBT.lookup nb))" if ne: "k \<noteq> my"
  proof -
    obtain m where m: "shortest (links nt0) my k m" using D(5) [OF k _ ne] by blast
    obtain n where "m = Suc n" using m ne by (cases m) auto
    with m obtain y where "follow_prev my MAX_HOP_COUNT k nt = (MAX_HOP_COUNT - n, y, nt)"
        "n \<le> MAX_HOP_COUNT \<longrightarrow> (my, y) \<in> links nt0"
      using follow_prev_spec [OF inv net k, of n MAX_HOP_COUNT] by blast
    with nb show ?thesis by auto
  qed
  ultimately show ?thesis by (simp add: follows_inside_def)
qed

lemma calc_complete:
  assumes net: "complete_net (myAD s) (networkTable s)"
  obtains (Stuck) nt where "calcShortestPath s = Some (Inr (s\<lparr>ADrouteTable := RBT.empty, networkTable := nt\<rparr>))"
      "same_net (networkTable s) nt" "\<exists>u\<in>known_ADs (networkTable s). \<not> reached (links (networkTable s)) (myAD s) u"
  | (Done) nt where "dijkstra_inv (myAD s) (networkTable s) {} nt"
      "calcShortestPath s =
        (case for_keys networkTable set_next_hop (smap_begin nt) (s\<lparr>ADrouteTable := RBT.empty, networkTable := nt\<rparr>) of
           None \<Rightarrow> None | Some s2 \<Rightarrow> Some (Inr s2))"
proof -
  obtain b nt where l: "dijkstra_loop (RBT.delete (myAD s) (networkTable s))
        (start_nodes (myAD s) (reset_nodes (networkTable s))) = Some (b, nt)"
      "same_net (networkTable s) nt"
      "if b then dijkstra_inv (myAD s) (networkTable s) {} nt
       else \<exists>u\<in>known_ADs (networkTable s). \<not> reached (links (networkTable s)) (myAD s) u"
    using dijkstra_loop_ends [OF net dijkstra_init [OF net] complete_table [OF net]] by blast
  then show thesis
    using Stuck [of nt] Done [of nt] complete_not_abnormal [OF net]
    by (cases b) (simp_all add: calcShortestPath_def)
qed

lemma calc_paths:
  assumes "complete_net (myAD s) (networkTable s)"
    and "\<forall>h. (myAD s, h) \<in> links (networkTable s) \<longrightarrow> h \<in> dom (RBT.lookup (neighborTable s))"
    and "\<forall>d\<in>known_ADs (networkTable s). reached (links (networkTable s)) (myAD s) d"
  shows "\<exists>s'. calcShortestPath s = Some (Inr s') \<and> neighborTable s' = neighborTable s
    \<and> same_net (networkTable s) (networkTable s')
    \<and> (\<forall>d\<in>known_ADs (networkTable s). \<forall>n. shortest (links (networkTable s)) (myAD s) d (Suc n) \<longrightarrow>
         (if n < MAX_HOP_COUNT
          then \<exists>h e. (myAD s, h) \<in> links (networkTable s) \<and> (h, d) \<in> links (networkTable s) ^^ n
            \<and> RBT.lookup (neighborTable s) h = Some e
            \<and> RBT.lookup (ADrouteTable s') d
                = Some \<lparr>re_dest = d, re_nextHop = ne_HID e, re_port = ne_port e, re_flags = 0\<rparr>
          else RBT.lookup (ADrouteTable s') d = None))
    \<and> (\<forall>d. d = myAD s \<or> d \<notin> known_ADs (networkTable s) \<longrightarrow> RBT.lookup (ADrouteTable s') d = None)"
  using assms(1)
proof (cases rule: calc_complete)
  case (Stuck nt)
  with assms(3) show ?thesis by blast
next
  case (Done nt)
  let ?nt = "networkTable s" and ?my = "myAD s"
  let ?s = "s\<lparr>ADrouteTable := RBT.empty, networkTable := nt\<rparr>"
  have same: "same_net ?nt nt" "known_ADs nt = known_ADs ?nt"
    using dijkstra_invD(1) [OF Done(1)] by (simp_all add: same_net_known)
  have inside: "\<forall>k\<in>set (RBT.keys nt). follows_inside (neighborTable s) ?my nt k"
    using follows_inside_all [OF Done(1) assms(1,2)] same(2) by (simp add: set_keys known_ADs_def)
  obtain rt where rt: "fold set_next_hop (RBT.keys nt) ?s = ?s\<lparr>ADrouteTable := rt\<rparr>"
      "\<forall>k. RBT.lookup rt k = (if k \<in> known_ADs nt then route_via (neighborTable s) ?my nt k else None)"
    using set_next_hops [of "RBT.keys nt" ?s] inside by (auto simp: RBT.distinct_keys set_keys known_ADs_def)
  have "for_keys networkTable set_next_hop (smap_begin (networkTable ?s)) ?s = Some (fold set_next_hop (RBT.keys nt) ?s)"
  proof (rule for_keys_fold [where P = "\<lambda>t :: RouteState. networkTable t = nt \<and> neighborTable t = neighborTable s \<and> myAD t = ?my"])
    fix k and t :: RouteState
    assume "k \<in> set (RBT.keys nt)" "networkTable t = nt \<and> neighborTable t = neighborTable s \<and> myAD t = ?my"
    with inside show "networkTable (set_next_hop k t) = nt \<and> neighborTable (set_next_hop k t) = neighborTable s
        \<and> myAD (set_next_hop k t) = ?my"
      by (auto simp: set_next_hop_def follows_inside_def Let_def)
  qed simp_all
  with Done(2) rt(1) have calc: "calcShortestPath s = Some (Inr (?s\<lparr>ADrouteTable := rt\<rparr>))" by simp
  have routes: "if n < MAX_HOP_COUNT
      then \<exists>h e. (?my, h) \<in> links ?nt \<and> (h, d) \<in> links ?nt ^^ n \<and> RBT.lookup (neighborTable s) h = Some e
        \<and> RBT.lookup rt d = Some \<lparr>re_dest = d, re_nextHop = ne_HID e, re_port = ne_port e, re_flags = 0\<rparr>
      else RBT.lookup rt d = None"
    if d: "d \<in> known_ADs ?nt" "shortest (links ?nt) ?my d (Suc n)" for d n
  proof -
    obtain y where y: "follow_prev ?my MAX_HOP_COUNT d nt = (MAX_HOP_COUNT - n, y, nt)"
        "n \<le> MAX_HOP_COUNT \<longrightarrow> (?my, y) \<in> links ?nt \<and> (y, d) \<in> links ?nt ^^ n"
      using follow_prev_spec [OF Done(1) assms(1) d] by blast
    have "d \<noteq> ?my" using d(2) by (rule shortest_not_self)
    moreover obtain e where "RBT.lookup (neighborTable s) y = Some e" if "n < MAX_HOP_COUNT"
      using y(2) assms(2) by fastforce
    ultimately show ?thesis
      using y d(1) same(2) rt(2) by (auto simp: route_via_def)
  qed
  have none: "RBT.lookup rt d = None" if "d = ?my \<or> d \<notin> known_ADs ?nt" for d
    using that rt(2) same(2) by (auto simp: route_via_def split: prod.splits)
  show ?thesis
  proof (intro exI [of _ "?s\<lparr>ADrouteTable := rt\<rparr>"] conjI ballI allI impI)
    fix d n assume "d \<in> known_ADs ?nt" "shortest (links ?nt) ?my d (Suc n)"
    from routes [OF this] show "if n < MAX_HOP_COUNT
      then \<exists>h e. (?my, h) \<in> links ?nt \<and> (h, d) \<in> links ?nt ^^ n \<and> RBT.lookup (neighborTable s) h = Some e
        \<and> RBT.lookup (ADrouteTable (?s\<lparr>ADrouteTable := rt\<rparr>)) d
            = Some \<lparr>re_dest = d, re_nextHop = ne_HID e, re_port = ne_port e, re_flags = 0\<rparr>
      else RBT.lookup (ADrouteTable (?s\<lparr>ADrouteTable := rt\<rparr>)) d = None"
      by (simp cong: if_cong)
  qed (simp_all add: calc same(1) none)
qed

text \<open>
  C6. The routes are shortest paths. When every neighbour in the network table has an entry of its own, this
  router's neighbours are in its neighbour table and every AD can be reached, \<^verbatim>\<open>calcShortestPath\<close> returns, and
  the route to an AD that is \<open>n + 1\<close> hops away names the HID and the port of a neighbour that is \<open>n\<close> hops away
  from it, for up to 50 hops. There is no route to an AD that is further away, to this router's own AD, or to an AD
  without an entry.
\<close>

theorem calc_shortest_paths:
  assumes "complete_net (myAD s) (networkTable s)"
    and "\<forall>h. (myAD s, h) \<in> links (networkTable s) \<longrightarrow> h \<in> dom (RBT.lookup (neighborTable s))"
    and "\<forall>d\<in>known_ADs (networkTable s). reached (links (networkTable s)) (myAD s) d"
  shows "\<exists>s'. calcShortestPath s = Some (Inr s') \<and> neighborTable s' = neighborTable s
    \<and> same_net (networkTable s) (networkTable s')
    \<and> (\<forall>d\<in>known_ADs (networkTable s). \<forall>n. shortest (links (networkTable s)) (myAD s) d (Suc n) \<longrightarrow>
         (if n < MAX_HOP_COUNT
          then \<exists>h e. (myAD s, h) \<in> links (networkTable s) \<and> (h, d) \<in> links (networkTable s) ^^ n
            \<and> RBT.lookup (neighborTable s) h = Some e
            \<and> RBT.lookup (ADrouteTable s') d
                = Some \<lparr>re_dest = d, re_nextHop = ne_HID e, re_port = ne_port e, re_flags = 0\<rparr>
          else RBT.lookup (ADrouteTable s') d = None))
    \<and> (\<forall>d. d = myAD s \<or> d \<notin> known_ADs (networkTable s) \<longrightarrow> RBT.lookup (ADrouteTable s') d = None)"
  using assms by (rule calc_paths)

theorem calc_shortest_paths_witness:
  "\<exists>s'. calcShortestPath (sample_state sample_net) = Some (Inr s')
    \<and> RBT.lookup (ADrouteTable s') ''AD:3''
        = Some \<lparr>re_dest = ''AD:3'', re_nextHop = ''HID:2'', re_port = 7, re_flags = 0\<rparr>"
proof -
  have h: "\<forall>h. (''AD:1'', h) \<in> links sample_net \<longrightarrow>
      h \<in> dom [''AD:2'' \<mapsto> \<lparr>ne_AD = ''AD:2'', ne_HID = ''HID:2'', ne_cost = 1, ne_port = 7\<rparr>]"
    by (simp add: sample_links)
  obtain s' where s': "calcShortestPath (sample_state sample_net) = Some (Inr s')"
      "\<forall>d\<in>known_ADs sample_net. \<forall>n. shortest (links sample_net) ''AD:1'' d (Suc n) \<longrightarrow>
         (if n < MAX_HOP_COUNT
          then \<exists>h e. (''AD:1'', h) \<in> links sample_net \<and> (h, d) \<in> links sample_net ^^ n
            \<and> [''AD:2'' \<mapsto> \<lparr>ne_AD = ''AD:2'', ne_HID = ''HID:2'', ne_cost = 1, ne_port = 7\<rparr>] h = Some e
            \<and> RBT.lookup (ADrouteTable s') d
                = Some \<lparr>re_dest = d, re_nextHop = ne_HID e, re_port = ne_port e, re_flags = 0\<rparr>
          else RBT.lookup (ADrouteTable s') d = None)"
    using calc_shortest_paths [of "sample_state sample_net", unfolded sample_state_sel, OF sample_complete h sample_reached]
    by (elim exE conjE)
  with sample_shortest have "RBT.lookup (ADrouteTable s') ''AD:3''
      = Some \<lparr>re_dest = ''AD:3'', re_nextHop = ''HID:2'', re_port = 7, re_flags = 0\<rparr>"
    by (auto simp: sample_known MAX_HOP_COUNT_def split: if_splits)
  with s'(1) show ?thesis by blast
qed

text \<open>
  C35. One unreachable AD leaves the router without any AD route: when every neighbour in the network table has an
  entry but some AD cannot be reached, \<^verbatim>\<open>calcShortestPath\<close> returns with an empty AD route table, also for the ADs that
  can be reached.
\<close>

theorem unreachable_empties_routes:
  assumes "complete_net (myAD s) (networkTable s)"
    and "d \<in> known_ADs (networkTable s)" "\<not> reached (links (networkTable s)) (myAD s) d"
  shows "\<exists>s'. calcShortestPath s = Some (Inr s') \<and> ADrouteTable s' = RBT.empty
    \<and> same_net (networkTable s) (networkTable s')"
  using assms(1)
proof (cases rule: calc_complete)
  case (Stuck nt)
  then show ?thesis by (intro exI) (auto simp: Stuck(1))
next
  case (Done nt)
  have my: "reached (links (networkTable s)) (myAD s) (myAD s)"
    unfolding reached_def by (intro exI [of _ 0]) (simp add: infinite_cost_def)
  with assms(3) have "d \<noteq> myAD s" by blast
  then have "reached (links (networkTable s)) (myAD s) d"
    using dijkstra_invD(5) [OF Done(1) assms(2)] unfolding reached_def shortest_def by blast
  with assms(3) show ?thesis by blast
qed

theorem unreachable_empties_routes_witness:
  "\<exists>s'. calcShortestPath (sample_state (RBT.insert ''AD:9'' (sample_node ''AD:9'' [''AD:1'']) sample_net)) = Some (Inr s')
    \<and> ADrouteTable s' = RBT.empty"
proof -
  let ?nt = "RBT.insert ''AD:9'' (sample_node ''AD:9'' [''AD:1'']) sample_net"
  have k: "known_ADs ?nt = insert ''AD:9'' (known_ADs sample_net)" by (auto simp: known_ADs_def)
  have c: "complete_net ''AD:1'' ?nt"
    unfolding complete_net_def k sample_known
    by (auto simp: sample_net_def sample_node_def abnormal_def split: if_splits)
  have "b \<noteq> ''AD:9''" if "(a, b) \<in> links ?nt" for a b
    using that by (auto simp: links_def sample_net_def sample_node_def split: if_splits)
  then have "(''AD:1'', ''AD:9'') \<notin> links ?nt ^^ n" for n by (cases n) auto
  then have "\<not> reached (links ?nt) ''AD:1'' ''AD:9''" by (simp add: reached_def)
  with c k show ?thesis
    using unreachable_empties_routes [of "sample_state ?nt" "''AD:9''"] by auto
qed

end
