(* ===== verification/Xrouted_Ends.thy ===== *)
theory Xrouted_Ends
  imports Xrouted_Paths
begin

text \<open>
  The computation of routes returns on every table whose entries are filed under their own ADs, also where
  neighbours have no entries. It then makes such entries, without a name, and the next computation erases one of
  them and goes on from the erased iterator.
\<close>

section \<open>Loops over a map that grows\<close>

lemma for_keys_returns:
  assumes step: "\<And>k s. P s \<Longrightarrow> k \<in> dom (RBT.lookup (g s)) \<Longrightarrow> P (f k s)"
    and bound: "\<And>s. P s \<Longrightarrow> dom (RBT.lookup (g s)) \<subseteq> F" and fin: "finite F"
  shows "P s \<Longrightarrow> (\<And>k. it = Some k \<Longrightarrow> k \<in> dom (RBT.lookup (g s))) \<Longrightarrow> \<exists>s'. for_keys g f it s = Some s' \<and> P s'"
proof (induction "card {l \<in> F. \<exists>k. it = Some k \<and> k \<le> l}" arbitrary: it s rule: less_induct)
  case less
  show ?case
  proof (cases it)
    case None
    with less.prems show ?thesis by (subst for_keys.simps) simp
  next
    case (Some k)
    let ?s = "f k s"
    let ?it = "smap_after k (g ?s)"
    have k: "k \<in> dom (RBT.lookup (g s))" using less.prems Some by simp
    have P: "P ?s" using less.prems(1) k by (rule step)
    have it: "l \<in> dom (RBT.lookup (g ?s)) \<and> k < l" if "?it = Some l" for l
      using that unfolding smap_after_def find_Some_iff set_keys [symmetric] by auto
    have "card {l \<in> F. \<exists>k. ?it = Some k \<and> k \<le> l} < card {l \<in> F. \<exists>k. it = Some k \<and> k \<le> l}"
    proof (rule psubset_card_mono)
      have "k \<in> F" using k bound [OF less.prems(1)] by blast
      moreover have "k < l" if "?it = Some l'" "l' \<le> l" for l l'
        using it [OF that(1)] that(2) by (blast intro: less_le_trans)
      ultimately show "{l \<in> F. \<exists>k. ?it = Some k \<and> k \<le> l} \<subset> {l \<in> F. \<exists>k. it = Some k \<and> k \<le> l}"
        unfolding Some by (intro psubsetI) (auto simp: set_eq_iff intro: order_less_imp_le)
    qed (simp add: fin)
    from less.hyps [OF this P] it Some show ?thesis by (subst for_keys.simps) auto
  qed
qed

lemma smap_begin_dom: "smap_begin m = Some k \<Longrightarrow> k \<in> dom (RBT.lookup m)"
  unfolding smap_begin_def set_keys [symmetric] by (auto split: list.splits)

section \<open>Names\<close>

text \<open>The names a table can lead to, and the AD an entry was made for.\<close>

definition names :: "NodeStateEntry smap \<Rightarrow> string set" where
  "names nt = {[]} \<union> dom (RBT.lookup nt) \<union> (\<Union>e\<in>ran (RBT.lookup nt). {ns_dest e, ns_prevNode e})"

definition dest_at :: "string \<Rightarrow> string \<Rightarrow> NodeStateEntry smap \<Rightarrow> bool" where
  "dest_at k d nt \<longleftrightarrow> (\<exists>e. RBT.lookup nt k = Some e \<and> ns_dest e = d)"

lemma finite_names: "finite (names nt)"
  by (simp add: names_def RBT.finite_dom_lookup finite_ran)

lemma names_get: "ns_dest (smap_get node0 k nt) \<in> names nt" "ns_prevNode (smap_get node0 k nt) \<in> names nt"
  by (cases "RBT.lookup nt k"; auto simp: names_def node0_def ran_def)+

lemma names_touch: "k \<in> names nt \<Longrightarrow> names (smap_touch node0 k nt) \<subseteq> names nt"
  by (cases "RBT.lookup nt k") (auto simp: names_def smap_touch_def node0_def ran_def split: if_splits)

lemma dest_at_touch [intro]: "dest_at k d nt \<Longrightarrow> dest_at k d (smap_touch node0 l nt)"
  by (auto simp: dest_at_def lookup_touch)

lemma dest_at_modify [intro]:
  "dest_at k d nt \<Longrightarrow> (\<And>e. ns_dest (f e) = ns_dest e) \<Longrightarrow> dest_at k d (smap_modify node0 l f nt)"
  by (auto simp: dest_at_def)

lemma dest_at_relax [intro]: "dest_at k d nt \<Longrightarrow> dest_at k d (relax sel l nt)"
  by (auto simp: relax_def Let_def intro!: dest_at_modify dest_at_touch)

lemma dest_at_fold: "(\<And>x nt. dest_at k d nt \<Longrightarrow> dest_at k d (f x nt)) \<Longrightarrow> dest_at k d nt \<Longrightarrow> dest_at k d (fold f xs nt)"
  by (induction xs arbitrary: nt) auto

lemma dest_at_settle [intro]: "dest_at k d nt \<Longrightarrow> dest_at k d (settle sel nt)"
  unfolding settle_def Let_def by (intro dest_at_fold dest_at_relax dest_at_modify) simp_all

lemma select_fold_any:
  "\<exists>m' s' nt'. fold select_step es (m, s, nt) = (m', s', nt') \<and> (s' = s \<or> s' \<in> (ns_dest \<circ> snd) ` set es)
     \<and> (dest_at k d nt \<longrightarrow> dest_at k d nt')"
proof (induction es arbitrary: m s nt)
  case (Cons x es)
  let ?nt = "smap_touch node0 (ns_dest (snd x)) nt"
  obtain m1 s1 where x: "select_step x (m, s, nt) = (m1, s1, ?nt)" "s1 = s \<or> s1 = ns_dest (snd x)"
    by (cases "ns_cost (smap_get node0 (ns_dest (snd x)) ?nt) < m") (simp_all add: select_step_def Let_def)
  with Cons.IH [of m1 s1 ?nt] show ?case by auto
qed simp

lemma dijkstra_loop_returns:
  assumes "\<forall>x\<in>set (RBT.entries table). ns_dest (snd x) = fst x"
  shows "\<exists>b nt'. dijkstra_loop table nt = Some (b, nt') \<and> (dest_at k d nt \<longrightarrow> dest_at k d nt')"
  using assms
proof (induction "card (dom (RBT.lookup table))" arbitrary: table nt rule: less_induct)
  case less
  obtain m sel nt1 where f: "fold select_step (RBT.entries table) (infinite_cost, [], nt) = (m, sel, nt1)"
      "sel = [] \<or> sel \<in> (ns_dest \<circ> snd) ` set (RBT.entries table)" "dest_at k d nt \<longrightarrow> dest_at k d nt1"
    using select_fold_any [of "RBT.entries table" infinite_cost "[]" nt k d] by (elim exE conjE)
  then have sel: "select_node table nt = (sel, nt1)" by (simp add: select_node_def)
  show ?case
  proof (cases "RBT.is_empty table \<or> sel = []")
    case True
    with sel f(3) show ?thesis by (subst dijkstra_loop.simps) auto
  next
    case False
    then have "sel \<in> dom (RBT.lookup table)"
      using f(2) less.prems by (auto simp: RBT.lookup_in_tree [symmetric])
    then have "card (dom (RBT.lookup (RBT.delete sel table))) < card (dom (RBT.lookup table))"
      by (intro psubset_card_mono) (auto simp: RBT.finite_dom_lookup)
    moreover have "\<forall>x\<in>set (RBT.entries (RBT.delete sel table)). ns_dest (snd x) = fst x"
      using less.prems by (auto simp: RBT.lookup_in_tree [symmetric] restrict_map_def split: if_splits)
    ultimately obtain b nt' where "dijkstra_loop (RBT.delete sel table) (settle sel nt1) = Some (b, nt')"
        "dest_at k d (settle sel nt1) \<longrightarrow> dest_at k d nt'"
      using less.hyps by blast
    with False sel f(3) show ?thesis by (subst dijkstra_loop.simps) auto
  qed
qed

lemma follow_prev_names:
  "names nt \<subseteq> F \<Longrightarrow> t \<in> names nt \<Longrightarrow> dest_at k d nt \<Longrightarrow>
     \<exists>l y nt'. follow_prev my n t nt = (l, y, nt') \<and> names nt' \<subseteq> F \<and> dest_at k d nt'"
proof (induction n arbitrary: t nt)
  case 0
  then show ?case using names_touch [of t nt] by (subst follow_prev.simps) (auto simp: Let_def)
next
  case (Suc n)
  let ?nt = "smap_touch node0 t nt"
  have "names ?nt \<subseteq> F" "dest_at k d ?nt" using Suc.prems names_touch [of t nt] by auto
  then show ?case
    using Suc.IH [of ?nt "ns_prevNode (smap_get node0 t ?nt)"] names_get(2) [of t ?nt]
    by (subst follow_prev.simps) (auto simp: Let_def)
qed

lemma set_next_hop_network:
  "networkTable (set_next_hop l s) =
     (let d = ns_dest (smap_get node0 l (networkTable s)) in
      if myAD s = d then networkTable s
      else snd (snd (follow_prev (myAD s) MAX_HOP_COUNT d (networkTable s))))"
  by (simp add: set_next_hop_def Let_def split: prod.splits)

lemma set_next_hop_names:
  "names (networkTable s) \<subseteq> F \<Longrightarrow> dest_at k d (networkTable s)
    \<Longrightarrow> names (networkTable (set_next_hop l s)) \<subseteq> F \<and> dest_at k d (networkTable (set_next_hop l s))"
  using follow_prev_names [of "networkTable s" F "ns_dest (smap_get node0 l (networkTable s))" k d "myAD s" MAX_HOP_COUNT]
    names_get(1) [of l "networkTable s"]
  by (auto simp: set_next_hop_network Let_def)

lemma next_hops_return:
  assumes "dest_at k d (networkTable s)"
  shows "\<exists>s'. for_keys networkTable set_next_hop (smap_begin (networkTable s)) s = Some s' \<and> dest_at k d (networkTable s')"
proof -
  let ?P = "\<lambda>t. names (networkTable t) \<subseteq> names (networkTable s) \<and> dest_at k d (networkTable t)"
  have "\<exists>s'. for_keys networkTable set_next_hop (smap_begin (networkTable s)) s = Some s' \<and> ?P s'"
  proof (rule for_keys_returns [where F = "names (networkTable s)"])
    show "dom (RBT.lookup (networkTable t)) \<subseteq> names (networkTable s)" if "?P t" for t :: RouteState
      using that by (auto simp: names_def)
  qed (use assms in \<open>auto simp: finite_names dest: smap_begin_dom intro: set_next_hop_names [THEN conjunct2]
      set_next_hop_names [THEN conjunct1, THEN subsetD]\<close>)
  then show ?thesis by blast
qed

section \<open>Every computation returns\<close>

definition filed :: "NodeStateEntry smap \<Rightarrow> bool" where
  "filed nt \<longleftrightarrow> (\<forall>k e. RBT.lookup nt k = Some e \<longrightarrow> ns_dest e = k \<or> ns_dest e = [])"

lemma filed_table:
  assumes "filed nt" "\<not> list_ex (\<lambda>e. abnormal (snd e)) (RBT.entries nt)"
  shows "\<forall>x\<in>set (RBT.entries (RBT.delete my nt)). ns_dest (snd x) = fst x"
proof
  fix x assume "x \<in> set (RBT.entries (RBT.delete my nt))"
  then have x: "RBT.lookup nt (fst x) = Some (snd x)"
    using RBT.lookup_in_tree [of "RBT.delete my nt" "fst x" "snd x"] by (simp add: restrict_map_def split: if_splits)
  then have "x \<in> set (RBT.entries nt)" by (simp add: RBT.lookup_in_tree)
  with assms(2) have "ns_dest (snd x) \<noteq> []" by (auto simp: list_ex_iff abnormal_def)
  with assms(1) x show "ns_dest (snd x) = fst x" unfolding filed_def by blast
qed

lemma get_reset [simp]:
  "ns_neighbor_list (smap_get node0 k (reset_nodes nt)) = ns_neighbor_list (smap_get node0 k nt)"
  "ns_dest (smap_get node0 k (reset_nodes nt)) = ns_dest (smap_get node0 k nt)"
  by (cases "RBT.lookup nt k"; simp add: lookup_reset smap_get_def)+

lemma dest_at_start:
  assumes "RBT.lookup nt b = None" "b = my \<or> b \<in> set (ns_neighbor_list (smap_get node0 my nt))"
  shows "dest_at b [] (start_nodes my (reset_nodes nt))"
proof -
  have "ns_dest (smap_get node0 b nt) = []" using assms(1) by (simp add: node0_def)
  with assms(2) show ?thesis
    by (auto simp: dest_at_def start_nodes_def Let_def reach_fold)
qed

text \<open>
  C22. Every computation of routes ends: when each entry of the network table is filed under its own AD or has no
  name, \<^verbatim>\<open>calcShortestPath\<close> returns or uses an erased iterator. Neither its search, which may lead to ADs without
  entries, nor the loop over a table that grows under it runs for ever.
\<close>

theorem calcShortestPath_ends:
  assumes "filed (networkTable s)"
  shows "\<exists>r. calcShortestPath s = Some r"
proof (cases "list_ex (\<lambda>e. abnormal (snd e)) (RBT.entries (networkTable s))")
  case True
  then show ?thesis by (simp add: calcShortestPath_def)
next
  case False
  let ?start = "start_nodes (myAD s) (reset_nodes (networkTable s))"
  have my: "RBT.lookup ?start (myAD s) \<noteq> None"
    by (simp add: start_nodes_def Let_def reach_fold)
  then obtain d where d: "dest_at (myAD s) d ?start" by (auto simp: dest_at_def)
  with dijkstra_loop_returns [OF filed_table [OF assms False]] obtain b nt
    where l: "dijkstra_loop (RBT.delete (myAD s) (networkTable s)) ?start = Some (b, nt)" "dest_at (myAD s) d nt"
    by blast
  then show ?thesis
    using next_hops_return [of "myAD s" d "s\<lparr>ADrouteTable := RBT.empty, networkTable := nt\<rparr>"] False
    by (cases b) (auto simp: calcShortestPath_def)
qed

theorem calcShortestPath_ends_witness: "\<exists>r. calcShortestPath (sample_state sample_net) = Some r"
proof -
  have "filed (networkTable (sample_state sample_net))"
    by (auto simp: filed_def sample_net_def sample_node_def split: if_splits)
  then show ?thesis by (rule calcShortestPath_ends)
qed

text \<open>
  C36. A neighbour without an entry of its own breaks the next computation: when this router, or one of its
  neighbours, is not in the network table, \<^verbatim>\<open>calcShortestPath\<close> returns and leaves an entry without a name behind, and
  unless an advertisement replaces that entry the next run uses an erased iterator.
\<close>

theorem missing_neighbor_breaks_next:
  assumes "filed (networkTable s)" "\<not> list_ex (\<lambda>e. abnormal (snd e)) (RBT.entries (networkTable s))"
    and "RBT.lookup (networkTable s) b = None"
    and "b = myAD s \<or> b \<in> set (ns_neighbor_list (smap_get node0 (myAD s) (networkTable s)))"
  shows "\<exists>s'. calcShortestPath s = Some (Inr s') \<and> calcShortestPath s' = Some (Inl Bad_erase)"
proof -
  let ?start = "start_nodes (myAD s) (reset_nodes (networkTable s))"
  have "dest_at b [] ?start" using assms(3,4) by (rule dest_at_start)
  with dijkstra_loop_returns [OF filed_table [OF assms(1,2)]] obtain c nt
    where l: "dijkstra_loop (RBT.delete (myAD s) (networkTable s)) ?start = Some (c, nt)" "dest_at b [] nt"
    by blast
  obtain s' where s': "calcShortestPath s = Some (Inr s')" "dest_at b [] (networkTable s')"
    using next_hops_return [of b "[]" "s\<lparr>ADrouteTable := RBT.empty, networkTable := nt\<rparr>"] assms(2) l
    by (cases c) (auto simp: calcShortestPath_def)
  then have "list_ex (\<lambda>e. abnormal (snd e)) (RBT.entries (networkTable s'))"
    by (force simp: dest_at_def RBT.lookup_in_tree list_ex_iff abnormal_def)
  with s'(1) show ?thesis by (simp add: calcShortestPath_def)
qed

theorem missing_neighbor_breaks_next_witness:
  "\<exists>s'. calcShortestPath (sample_state (RBT.insert ''AD:1'' (sample_node ''AD:1'' [''AD:2'']) RBT.empty)) = Some (Inr s')
    \<and> calcShortestPath s' = Some (Inl Bad_erase)"
proof -
  let ?nt = "RBT.insert ''AD:1'' (sample_node ''AD:1'' [''AD:2'']) RBT.empty"
  have "filed ?nt" by (simp add: filed_def sample_node_def)
  moreover have "\<not> list_ex (\<lambda>e. abnormal (snd e)) (RBT.entries ?nt)"
    by (auto simp: list_ex_iff RBT.lookup_in_tree [symmetric] abnormal_def sample_node_def split: if_splits)
  ultimately show ?thesis
    using missing_neighbor_breaks_next [of "sample_state ?nt" "''AD:2''"] by (simp add: sample_node_def)
qed

end
