(* ===== verification/Control_Socket.thy ===== *)
theory Control_Socket
  imports Xia_Confparse
begin

text \<open>
  Click's ControlSocket (\<^verbatim>\<open>elements/userlevel/controlsocket.cc\<close>), through which the daemons read and write the
  handlers of the router's elements: the connection with its two buffers, the commands, and the event handler that
  takes in what has arrived and answers one command. The configurations of XIA open it with
  \<^verbatim>\<open>ControlSocket(tcp, 7777)\<close>, without a proxy and not read-only.

  The router it runs in is a parameter: its elements, their handlers, and what a handler does to the router's
  state.
\<close>

section \<open>The router\<close>

text \<open>What a handler reports: the code of a \<^verbatim>\<open>cserr\<close> annotation (200 where there is none), counts and messages.\<close>

record reports =
  error_code :: int
  nerrors :: nat
  nwarnings :: nat
  messages :: "string list"

record 'r handler =
  read_visible :: bool
  write_visible :: bool
  writable :: bool
  call_read :: "string \<Rightarrow> 'r \<Rightarrow> (string \<times> reports \<times> 'r) run"
  call_write :: "string \<Rightarrow> 'r \<Rightarrow> (int \<times> reports \<times> 'r) run"

text \<open>An element is its index; the root element is \<^const>\<open>None\<close>.\<close>

record 'r click_router =
  nelements :: nat
  find_element :: "string \<Rightarrow> nat option"
  handler_of :: "nat option \<Rightarrow> string \<Rightarrow> 'r handler option"
  llrpc :: "string \<Rightarrow> string \<Rightarrow> 'r \<Rightarrow> int \<times> string \<times> 'r"

definition visible :: "'r handler \<Rightarrow> bool" where
  "visible h \<longleftrightarrow> read_visible h \<or> write_visible h"

section \<open>Connections\<close>

record connection =
  in_text :: string
  inpos :: nat
  out_text :: string
  outpos :: nat
  in_closed :: bool
  out_closed :: bool

abbreviation CSERR_OK :: int where "CSERR_OK \<equiv> 200"
abbreviation CSERR_OK_HANDLER_WARNING :: int where "CSERR_OK_HANDLER_WARNING \<equiv> 220"
abbreviation CSERR_SYNTAX :: int where "CSERR_SYNTAX \<equiv> 500"
abbreviation CSERR_UNIMPLEMENTED :: int where "CSERR_UNIMPLEMENTED \<equiv> 501"
abbreviation CSERR_NO_SUCH_ELEMENT :: int where "CSERR_NO_SUCH_ELEMENT \<equiv> 510"
abbreviation CSERR_NO_SUCH_HANDLER :: int where "CSERR_NO_SUCH_HANDLER \<equiv> 511"
abbreviation CSERR_HANDLER_ERROR :: int where "CSERR_HANDLER_ERROR \<equiv> 520"
abbreviation CSERR_DATA_TOO_BIG :: int where "CSERR_DATA_TOO_BIG \<equiv> 521"
abbreviation CSERR_PERMISSION :: int where "CSERR_PERMISSION \<equiv> 530"
abbreviation CSERR_UNSPECIFIED :: int where "CSERR_UNSPECIFIED \<equiv> 590"

definition LARGEST_HANDLER_WRITE :: nat where
  "LARGEST_HANDLER_WRITE = 65536"

abbreviation CRLF :: string where "CRLF \<equiv> [CHR 0x0D, CHR 0x0A]"

definition octal3 :: "nat \<Rightarrow> string" where
  "octal3 n = [hex_digit (n div 64 mod 8), hex_digit (n div 8 mod 8), hex_digit (n mod 8)]"

definition printable_char :: "char \<Rightarrow> string" where
  "printable_char c =
     (let n = of_char c :: nat in
      if 32 \<le> n \<and> n < 127 then [c]
      else if n < 32 then [CHR ''^'', char_of (n + 64)]
      else CHR 0x5C # octal3 n)"

definition printable_text :: "string \<Rightarrow> string" where
  "printable_text s = concat (map printable_char s)"

text \<open>\<^verbatim>\<open>message\<close> always answers \<^verbatim>\<open>ANY_ERR\<close>, which is \<open>- 1\<close>.\<close>

definition conn_message :: "int \<Rightarrow> string \<Rightarrow> bool \<Rightarrow> connection \<Rightarrow> connection run" where
  "conn_message code msg continuation c =
     (if code < 100 \<or> 999 < code then Inl Assert_failed
      else Inr (if out_closed c then c
        else c\<lparr>out_text := out_text c @ dec_int code @ [if continuation then CHR ''-'' else CHR '' ''] @
          printable_text msg @ CRLF\<rparr>))"

fun transfer_loop :: "int \<Rightarrow> string list \<Rightarrow> connection \<Rightarrow> connection run" where
  "transfer_loop code [] c = Inr c"
| "transfer_loop code (m # ms) c = bind_run (conn_message code m (ms \<noteq> []) c) (transfer_loop code ms)"

definition transfer_messages :: "int \<Rightarrow> string \<Rightarrow> reports \<Rightarrow> connection \<Rightarrow> connection run" where
  "transfer_messages default_code msg errh c =
     (let code = (if error_code errh = CSERR_OK then default_code else error_code errh) in
      bind_run
        (if msg = [] then Inr c
         else if messages errh = [] then conn_message code msg False c
         else conn_message code (msg @ '':'') True c)
        (transfer_loop code (messages errh)))"

definition contract :: "string \<Rightarrow> nat \<Rightarrow> string \<times> nat" where
  "contract sa pos =
     (if pos = length sa then ([], 0)
      else if 8192 < pos then (drop pos sa, 0)
      else (sa, pos))"

text \<open>A command's answer: negative for an error, zero, or one where more input is needed.\<close>

type_synonym 'r answer = "(int \<times> connection \<times> 'r) run"

definition replies :: "int \<Rightarrow> 'r \<Rightarrow> connection run \<Rightarrow> 'r answer" where
  "replies code r m = bind_run m (\<lambda>c. Inr (code, c, r))"

definition read_insufficient :: "connection \<Rightarrow> (int \<times> connection) run" where
  "read_insufficient c =
     (if in_closed c then bind_run (conn_message CSERR_SYNTAX ''Not enough data'' False c) (\<lambda>c. Inr (- 1, c))
      else Inr (1, c))"

definition conn_read :: "nat \<Rightarrow> connection \<Rightarrow> (int \<times> string \<times> connection) run" where
  "conn_read len c =
     (if length (in_text c) < inpos c + len
      then bind_run (read_insufficient c) (\<lambda>(code, c). Inr (code, [], c))
      else Inr (0, take len (drop (inpos c) (in_text c)), c\<lparr>inpos := inpos c + len\<rparr>))"

section \<open>Commands\<close>

definition before_dot :: "string \<Rightarrow> string" where
  "before_dot n = takeWhile (\<lambda>c. c \<noteq> CHR ''.'') n"

definition canonical_handler_name :: "string \<Rightarrow> string" where
  "canonical_handler_name n =
     (let dot = length (before_dot n) in
      if dot = 0 \<or> dot = 1 \<and> hd n = CHR ''0'' then drop (dot + 1) n else n)"

definition quoted :: "string \<Rightarrow> string" where
  "quoted s = CHR 0x27 # s @ [CHR 0x27]"

text \<open>A handler that is not found is reported on the connection.\<close>

definition parse_handler ::
  "'r click_router \<Rightarrow> string \<Rightarrow> connection \<Rightarrow> ('r handler option \<times> connection) run" where
  "parse_handler rtr full_name c =
     (let canonical_name = canonical_handler_name full_name;
          dot = length (before_dot canonical_name);
          ename = before_dot canonical_name;
          named = dot < length canonical_name;
          e = (if \<not> named then Some None
               else case find_element rtr ename of
                 Some i \<Rightarrow> Some (Some i)
               | None \<Rightarrow>
                   (case cp_integer_int ename of
                      Some num \<Rightarrow> if 0 < num \<and> num \<le> int (nelements rtr) then Some (Some (nat (num - 1))) else None
                    | None \<Rightarrow> None));
          hname = (if named then drop (dot + 1) canonical_name else canonical_name)
      in case e of
           None \<Rightarrow> bind_run (conn_message CSERR_NO_SUCH_ELEMENT (''No element named '' @ quoted ename) False c)
             (\<lambda>c. Inr (None, c))
         | Some el \<Rightarrow>
             (case handler_of rtr el hname of
                Some h \<Rightarrow> if visible h then Inr (Some h, c)
                  else bind_run (conn_message CSERR_NO_SUCH_HANDLER (''No handler named '' @ quoted full_name) False c)
                    (\<lambda>c. Inr (None, c))
              | None \<Rightarrow> bind_run (conn_message CSERR_NO_SUCH_HANDLER (''No handler named '' @ quoted full_name) False c)
                    (\<lambda>c. Inr (None, c))))"

definition read_command :: "'r click_router \<Rightarrow> string \<Rightarrow> string \<Rightarrow> connection \<Rightarrow> 'r \<Rightarrow> 'r answer" where
  "read_command rtr handlername param c r =
     bind_run (parse_handler rtr handlername c) (\<lambda>(h, c).
       case h of
         None \<Rightarrow> Inr (- 1, c, r)
       | Some h \<Rightarrow>
           if \<not> read_visible h
           then replies (- 1) r (conn_message CSERR_PERMISSION (''Handler '' @ quoted handlername @ '' write-only'') False c)
           else bind_run (call_read h param r) (\<lambda>(data, errh, r1).
             if 0 < nerrors errh
             then replies (- 1) r1
               (transfer_messages CSERR_UNSPECIFIED (''Read handler '' @ quoted handlername @ '' error'') errh c)
             else replies 0 r1
               (bind_run (conn_message CSERR_OK (''Read handler '' @ quoted handlername @ '' OK'') False c) (\<lambda>c.
                  Inr (c\<lparr>out_text := out_text c @ ''DATA '' @ dec_nat (length data) @ CRLF @ data\<rparr>)))))"

definition write_code :: "int \<Rightarrow> reports \<Rightarrow> int" where
  "write_code result errh =
     (if error_code errh = CSERR_OK then
        (if 0 < nerrors errh \<or> result < 0 then CSERR_HANDLER_ERROR
         else if 0 < nwarnings errh then CSERR_OK_HANDLER_WARNING
         else CSERR_OK)
      else error_code errh)"

definition write_msg :: "int \<Rightarrow> string \<Rightarrow> string" where
  "write_msg code handlername =
     (if code = CSERR_OK then ''Write handler '' @ quoted handlername @ '' OK''
      else if code = CSERR_OK_HANDLER_WARNING then ''Write handler '' @ quoted handlername @ '' OK with warnings''
      else if code = CSERR_HANDLER_ERROR then ''Write handler '' @ quoted handlername @ '' error''
      else [])"

definition write_command :: "'r click_router \<Rightarrow> string \<Rightarrow> string \<Rightarrow> connection \<Rightarrow> 'r \<Rightarrow> 'r answer" where
  "write_command rtr handlername data c r =
     bind_run (parse_handler rtr handlername c) (\<lambda>(h, c).
       case h of
         None \<Rightarrow> Inr (- 1, c, r)
       | Some h \<Rightarrow>
           if \<not> writable h
           then replies (- 1) r (conn_message CSERR_PERMISSION (''Handler '' @ quoted handlername @ '' read-only'') False c)
           else if LARGEST_HANDLER_WRITE < length data
           then replies (- 1) r
             (conn_message CSERR_DATA_TOO_BIG (''Data too large for write handler '' @ quoted handlername) False c)
           else bind_run (call_write h data r) (\<lambda>(result, errh, r1).
             let code = write_code result errh
             in replies 0 r1 (transfer_messages code (write_msg code handlername) errh c)))"

definition check_command :: "'r click_router \<Rightarrow> string \<Rightarrow> bool \<Rightarrow> connection \<Rightarrow> 'r \<Rightarrow> 'r answer" where
  "check_command rtr hname write c r =
     bind_run (parse_handler rtr hname c) (\<lambda>(h, c).
       case h of
         None \<Rightarrow> Inr (0, c, r)
       | Some h \<Rightarrow>
           replies 0 r
             (if visible h \<and> (if write then write_visible h else read_visible h)
              then conn_message CSERR_OK ((if write then ''Write'' else ''Read'') @ '' handler '' @ quoted hname @ '' OK'') False c
              else if visible h
              then conn_message CSERR_NO_SUCH_HANDLER
                (''Handler '' @ quoted hname @ (if write then '' not writable'' else '' not readable'')) False c
              else conn_message CSERR_NO_SUCH_HANDLER
                (''No '' @ (if write then ''write'' else ''read'') @ '' handler named '' @ quoted hname) False c))"

definition llrpc_command :: "'r click_router \<Rightarrow> string \<Rightarrow> string \<Rightarrow> connection \<Rightarrow> 'r \<Rightarrow> 'r answer" where
  "llrpc_command rtr llrpcname data c r =
     (let (code, text, r1) = llrpc rtr llrpcname data r
      in Inr (code, if out_closed c then c else c\<lparr>out_text := out_text c @ text\<rparr>, r1))"

section \<open>Command lines\<close>

function words_of :: "string \<Rightarrow> string list" where
  "words_of s =
     (let t = dropWhile isspace s in
      if t = [] then []
      else takeWhile (\<lambda>c. \<not> isspace c) t # words_of (dropWhile (\<lambda>c. \<not> isspace c) t))"
  by pat_completeness auto
termination
proof (relation "measure length")
  fix s t :: string assume t: "t = dropWhile isspace s" "t \<noteq> []"
  then have "\<not> isspace (hd t)" by (simp add: hd_dropWhile)
  with t(2) have "length (dropWhile (\<lambda>c. \<not> isspace c) t) < length t"
    by (cases t) (simp_all add: less_Suc_eq_le length_dropWhile_le)
  also have "length t \<le> length s" by (simp add: t(1) length_dropWhile_le)
  finally show "(dropWhile (\<lambda>c. \<not> isspace c) t, s) \<in> measure length" by simp
qed simp

declare words_of.simps [simp del]

definition rstrip :: "string \<Rightarrow> string" where
  "rstrip s = rev (dropWhile isspace (rev s))"

text \<open>The text from the third word to the end of the last.\<close>

definition skip_word :: "string \<Rightarrow> string" where
  "skip_word s = dropWhile (\<lambda>c. \<not> isspace c) (dropWhile isspace s)"

definition line_args :: "string \<Rightarrow> string" where
  "line_args line = rstrip (dropWhile isspace (skip_word (skip_word line)))"

definition toupper :: "char \<Rightarrow> char" where
  "toupper c = (if 97 \<le> (of_char c :: nat) \<and> (of_char c :: nat) \<le> 122 then char_of ((of_char c :: nat) - 32) else c)"

text \<open>
  The text up to the line \<open>until\<close> and the text behind that line; nothing where the line has not arrived.
\<close>

function until_line :: "string \<Rightarrow> string \<Rightarrow> (string \<times> string) option" where
  "until_line until s =
     (let line = takeWhile (\<lambda>c. c \<noteq> CHR 0x0A \<and> c \<noteq> CHR 0x0D) s;
          end_of = drop (length line) s;
          nl = (if take 2 end_of = CRLF then 2 else 1)
      in if end_of = [] then None
         else if rstrip line = until then Some ([], drop nl end_of)
         else map_option (\<lambda>(d, rest). (line @ take nl end_of @ d, rest)) (until_line until (drop nl end_of)))"
  by pat_completeness auto
termination
  by (relation "measure (\<lambda>(u, s). length s)") auto

declare until_line.simps [simp del]

fun help_lines :: "string list \<Rightarrow> connection \<Rightarrow> connection run" where
  "help_lines [] c = Inr c"
| "help_lines (m # ms) c = bind_run (conn_message CSERR_OK m (ms \<noteq> []) c) (help_lines ms)"

definition help_text :: "string list" where
  "help_text =
    [''Commands supported:'',
     ''READ handler [arg...]   call read handler, return DATA'',
     ''READDATA handler len    call read handler with len data bytes, return DATA'',
     ''READUNTIL handler term  call read handler, take data until term, return DATA'',
     ''WRITE handler [arg...]  call write handler'',
     ''WRITEDATA handler len   call write handler, pass len data bytes'',
     ''WRITEUNTIL handler term call write handler, take data until term'',
     ''CHECKREAD handler       check if read handler is valid'',
     ''CHECKWRITE handler      check if write handler is valid'',
     ''LLRPC elt#number [len]  call LLRPC, pass len data bytes, return DATA'',
     ''QUIT                    close connection'']"

definition wrong_arguments :: "connection \<Rightarrow> 'r \<Rightarrow> 'r answer" where
  "wrong_arguments c r = replies (- 1) r (conn_message CSERR_SYNTAX ''Wrong number of arguments'' False c)"

definition call_handler ::
  "bool \<Rightarrow> 'r click_router \<Rightarrow> string \<Rightarrow> string \<Rightarrow> connection \<Rightarrow> 'r \<Rightarrow> 'r answer" where
  "call_handler is_read rtr name data c r =
     (if is_read then read_command rtr name data c r else write_command rtr name data c r)"

definition plain_command :: "'r click_router \<Rightarrow> string \<Rightarrow> bool \<Rightarrow> connection \<Rightarrow> 'r \<Rightarrow> 'r answer" where
  "plain_command rtr line is_read c r =
     (let words = words_of line in
      if length words < 2 then wrong_arguments c r
      else call_handler is_read rtr (words ! 1) (if 2 < length words then line_args line else []) c r)"

text \<open>
  The message about a bad length passes the command's name as the argument \<open>continuation\<close>: a pointer, which is
  true. Its text has the format's \<open>%s\<close>.
\<close>

definition data_command :: "'r click_router \<Rightarrow> string \<Rightarrow> bool \<Rightarrow> connection \<Rightarrow> 'r \<Rightarrow> 'r answer" where
  "data_command rtr line is_read c r =
     (let words = words_of line in
      if length words \<noteq> 3 then wrong_arguments c r
      else case cp_integer_int (words ! 2) of
        None \<Rightarrow> replies (- 1) r (conn_message CSERR_SYNTAX (''Syntax error in '' @ quoted ''%s'') True c)
      | Some datalen \<Rightarrow>
          if datalen < 0 then replies (- 1) r (conn_message CSERR_SYNTAX (''Syntax error in '' @ quoted ''%s'') True c)
          else bind_run (conn_read (nat datalen) c) (\<lambda>(code, data, c).
            if code \<noteq> 0 then Inr (code, c, r)
            else call_handler is_read rtr (words ! 1) data c r))"

definition until_command :: "'r click_router \<Rightarrow> string \<Rightarrow> bool \<Rightarrow> connection \<Rightarrow> 'r \<Rightarrow> 'r answer" where
  "until_command rtr line is_read c r =
     (let words = words_of line in
      if length words < 2 then wrong_arguments c r
      else
        case until_line (if 2 < length words then line_args line else []) (drop (inpos c) (in_text c)) of
          None \<Rightarrow> bind_run (read_insufficient c) (\<lambda>(code, c). Inr (code, c, r))
        | Some (data, rest) \<Rightarrow>
            call_handler is_read rtr (words ! 1) data (c\<lparr>inpos := length (in_text c) - length rest\<rparr>) r)"

definition llrpc_line :: "'r click_router \<Rightarrow> string \<Rightarrow> connection \<Rightarrow> 'r \<Rightarrow> 'r answer" where
  "llrpc_line rtr line c r =
     (let words = words_of line in
      if length words \<noteq> 2 \<and> length words \<noteq> 3 then wrong_arguments c r
      else case (if length words = 3 then cp_integer_int (words ! 2) else Some 0) of
        None \<Rightarrow> replies (- 1) r (conn_message CSERR_SYNTAX (''Syntax error in '' @ quoted ''llrpc'') False c)
      | Some datalen \<Rightarrow>
          if datalen < 0 then replies (- 1) r (conn_message CSERR_SYNTAX (''Syntax error in '' @ quoted ''llrpc'') False c)
          else bind_run (conn_read (nat datalen) c) (\<lambda>(code, data, c).
            if code \<noteq> 0 then Inr (code, c, r)
            else llrpc_command rtr (words ! 1) data c r))"

definition quit_command :: "string \<Rightarrow> connection \<Rightarrow> 'r \<Rightarrow> 'r answer" where
  "quit_command line c r =
     replies 0 r
       (bind_run (if length (words_of line) \<noteq> 1 then conn_message CSERR_SYNTAX ''Bad command syntax'' False c else Inr c) (\<lambda>c.
        bind_run (conn_message CSERR_OK ''Goodbye!'' False c) (\<lambda>c.
          Inr (c\<lparr>in_closed := True, in_text := [], inpos := 0\<rparr>))))"

definition parse_command :: "'r click_router \<Rightarrow> string \<Rightarrow> connection \<Rightarrow> 'r \<Rightarrow> 'r answer" where
  "parse_command rtr line c r =
     (let words = words_of line in
      if words = [] then Inr (0, c, r)
      else
        let command = map toupper (hd words) in
        if command \<in> {''READ'', ''GET''} then plain_command rtr line True c r
        else if command \<in> {''WRITE'', ''SET''} then plain_command rtr line False c r
        else if command = ''READDATA'' then data_command rtr line True c r
        else if command \<in> {''WRITEDATA'', ''SETDATA''} then data_command rtr line False c r
        else if command = ''READUNTIL'' then until_command rtr line True c r
        else if command = ''WRITEUNTIL'' then until_command rtr line False c r
        else if command \<in> {''CHECKREAD'', ''CHECKWRITE''} then
          (if length words \<noteq> 2 then wrong_arguments c r
           else check_command rtr (words ! 1) (command = ''CHECKWRITE'') c r)
        else if command = ''LLRPC'' then llrpc_line rtr line c r
        else if command \<in> {''CLOSE'', ''QUIT''} then quit_command line c r
        else if command = ''HELP'' then replies 0 r (help_lines help_text c)
        else replies (- 1) r
          (conn_message CSERR_UNIMPLEMENTED (''Command '' @ quoted command @ '' unimplemented'') False c))"

section \<open>Events\<close>

definition initialize_connection :: connection where
  "initialize_connection = \<lparr>in_text = [], inpos = 0, out_text = ''Click::ControlSocket/1.3'' @ CRLF, outpos = 0,
     in_closed = False, out_closed = False\<rparr>"

text \<open>What \<^verbatim>\<open>read\<close> on the socket gives: up to 2,048 bytes, the end of the stream or an error, or nothing yet.\<close>

datatype net_input = Arrived string | Ended | Nothing

definition take_in :: "net_input \<Rightarrow> connection \<Rightarrow> connection" where
  "take_in a c =
     (if in_closed c then c
      else case a of
        Arrived s \<Rightarrow> c\<lparr>in_text := in_text c @ s\<rparr>
      | Ended \<Rightarrow> c\<lparr>in_closed := True\<rparr>
      | Nothing \<Rightarrow> c)"

text \<open>One command, where a whole line has arrived; the flag says that the connection waits for more input.\<close>

definition run_command :: "'r click_router \<Rightarrow> connection \<Rightarrow> 'r \<Rightarrow> (bool \<times> connection \<times> 'r) run" where
  "run_command rtr c r =
     (if in_text c = [] then Inr (False, c, r)
      else
        let text = drop (inpos c) (in_text c);
            len = length (takeWhile (\<lambda>x. x \<noteq> CHR 0x0D \<and> x \<noteq> CHR 0x0A) text)
        in if len < length text \<or> in_closed c then
             let len1 = (if take 2 (drop len text) = CRLF then len + 2 else if len < length text then len + 1 else len);
                 oldpos = inpos c
             in bind_run (parse_command rtr (take len1 text) (c\<lparr>inpos := inpos c + len1\<rparr>) r) (\<lambda>(code, c, r).
                  if 0 < code then Inr (True, c\<lparr>inpos := oldpos\<rparr>, r)
                  else
                    let (t, p) = contract (in_text c) (inpos c)
                    in Inr (False, c\<lparr>in_text := t, inpos := p\<rparr>, r))
           else Inr (True, c, r))"

text \<open>
  The kernel takes the first \<open>accepts\<close> bytes of the output, all of it for \<^const>\<open>None\<close>, and then no more: either
  for now, or because the client has closed the connection (\<open>broken\<close>).
\<close>

definition flush_write :: "nat option \<Rightarrow> bool \<Rightarrow> connection \<Rightarrow> string \<times> connection" where
  "flush_write accepts broken c =
     (if out_closed c then ([], c)
      else
        let rest = drop (outpos c) (out_text c);
            sent = (case accepts of None \<Rightarrow> rest | Some n \<Rightarrow> take n rest);
            (t, p) = contract (out_text c) (outpos c + length sent)
        in (sent, c\<lparr>out_closed := broken \<and> length sent < length (out_text c) - outpos c, out_text := t, outpos := p\<rparr>))"

text \<open>
  \<^verbatim>\<open>selected\<close> on a connection: what is sent, and the connection unless it is closed.
\<close>

definition selected ::
  "'r click_router \<Rightarrow> net_input \<Rightarrow> nat option \<Rightarrow> bool \<Rightarrow> connection \<Rightarrow> 'r \<Rightarrow> (string \<times> connection option \<times> 'r) run" where
  "selected rtr a accepts broken c r =
     bind_run (run_command rtr (take_in a c) r) (\<lambda>(blocked, c, r).
       let (sent, c) = flush_write accepts broken c in
       Inr (sent,
         if in_closed c \<and> in_text c = [] \<and> out_text c = [] \<or> out_closed c then None else Some c,
         r))"

end
