(* ===== verification/Control_Client.thy ===== *)
theory Control_Client
  imports Xia_Route_Table
begin

text \<open>
  The daemons' client of Click's ControlSocket (\<^verbatim>\<open>daemons/common/csclient.cc\<close>). The TCP connection it talks over is a
  parameter: what writing, reading, connecting and closing give. A read that blocks for ever is \<^const>\<open>None\<close>, and so
  is a call of the client that does not return.
\<close>

datatype err_t =
  no_err | sys_err | init_err | reinit_err | no_element | no_handler | handler_no_perm | handler_err
| handler_bad_format | click_err | too_short

text \<open>
  \<^verbatim>\<open>read\<close> gives the bytes it has put into the buffer, none at the end of the stream, or it fails.
\<close>

record 'c tcp =
  tcp_connect :: "u32 \<Rightarrow> u16 \<Rightarrow> 'c \<Rightarrow> bool \<times> 'c"
  tcp_write :: "string \<Rightarrow> 'c \<Rightarrow> int \<times> 'c"
  tcp_read :: "nat \<Rightarrow> 'c \<Rightarrow> (string option \<times> 'c) option"
  tcp_close :: "'c \<Rightarrow> int \<times> 'c"

record 'c ControlSocketClient =
  cs_init :: bool
  cs_conn :: 'c

section \<open>Replies\<close>

definition MAX_LINE_SZ :: nat where
  "MAX_LINE_SZ = 1024"

function readline_loop :: "'c tcp \<Rightarrow> string \<Rightarrow> 'c \<Rightarrow> (err_t \<times> string \<times> 'c) option" where
  "readline_loop t buf s =
     (case tcp_read t 1 s of
        None \<Rightarrow> None
      | Some (Some [c], s1) \<Rightarrow>
          if MAX_LINE_SZ < length (buf @ [c]) then Some (click_err, buf @ [c], s1)
          else if c \<noteq> CHR 0x0A then readline_loop t (buf @ [c]) s1
          else Some (no_err, buf @ [c], s1)
      | Some (_, s1) \<Rightarrow> Some (sys_err, buf, s1))"
  by pat_completeness auto
termination
  by (relation "measure (\<lambda>(t, buf, s). Suc MAX_LINE_SZ - length buf)") (auto simp: MAX_LINE_SZ_def)

declare readline_loop.simps [simp del]

definition readline :: "'c tcp \<Rightarrow> 'c \<Rightarrow> (err_t \<times> string \<times> 'c) option" where
  "readline t s = readline_loop t [] s"

definition get_resp_code :: "string \<Rightarrow> int" where
  "get_resp_code line = (if length line < 3 then - 1 else atoi (take 3 line))"

definition get_data_len :: "string \<Rightarrow> int" where
  "get_data_len line =
     (let rest = dropWhile (\<lambda>c. \<not> isdigit c) line in if rest = [] then - 1 else atoi rest)"

definition handle_err_code :: "int \<Rightarrow> err_t" where
  "handle_err_code code =
     (if code = 500 \<or> code = 501 then click_err
      else if code = 510 then no_element
      else if code = 511 then no_handler
      else if code = 520 then handler_err
      else if code = 530 then handler_no_perm
      else click_err)"

text \<open>Lines of a reply, up to one that is not continued.\<close>

partial_function (option) reply_loop :: "'c tcp \<Rightarrow> 'c \<Rightarrow> (err_t \<times> string \<times> 'c) option" where
  "reply_loop t s =
     Option.bind (readline t s) (\<lambda>(err, line, s1).
       if err \<noteq> no_err then Some (err, line, s1)
       else if length line < 4 then Some (click_err, line, s1)
       else if line ! 3 = CHR ''-'' then reply_loop t s1
       else Some (no_err, line, s1))"

partial_function (option) read_data :: "'c tcp \<Rightarrow> nat \<Rightarrow> string \<Rightarrow> 'c \<Rightarrow> (err_t \<times> string \<times> 'c) option" where
  "read_data t num buf s =
     (if num \<le> length buf then Some (no_err, take num buf, s)
      else Option.bind (tcp_read t (num - length buf) s) (\<lambda>(bytes, s1).
        case bytes of None \<Rightarrow> Some (sys_err, [], s1) | Some cs \<Rightarrow> read_data t num (buf @ cs) s1))"

definition handler_name :: "string \<Rightarrow> string \<Rightarrow> string" where
  "handler_name el h = (if el = [] then h else el @ ''.'' @ h)"

definition newline :: string where
  "newline = [CHR 0x0A]"

section \<open>Reading and writing handlers\<close>

text \<open>A short write counts as an error of the system; \<open>k\<close> goes on after a whole one.\<close>

definition send_all ::
  "'c tcp \<Rightarrow> string \<Rightarrow> 'c \<Rightarrow> ('c \<Rightarrow> (err_t \<times> string \<times> 'c) option) \<Rightarrow> (err_t \<times> string \<times> 'c) option" where
  "send_all t text s k =
     (let (res, s1) = tcp_write t text s in if res \<noteq> int (length text) then Some (sys_err, [], s1) else k s1)"

text \<open>
  The error of the second \<^verbatim>\<open>readline\<close> is compared with zero and never found; what was read of the line is used.
\<close>

definition cs_read_conn :: "'c tcp \<Rightarrow> string \<Rightarrow> string \<Rightarrow> 'c \<Rightarrow> (err_t \<times> string \<times> 'c) option" where
  "cs_read_conn t el h s =
     send_all t (''READ '' @ handler_name el h @ newline) s (\<lambda>s.
       Option.bind (reply_loop t s) (\<lambda>(err, line, s).
         if err \<noteq> no_err then Some (err, [], s)
         else
           let code = get_resp_code line in
           if code \<noteq> 200 \<and> code \<noteq> 220 then Some (handle_err_code code, [], s)
           else Option.bind (readline t s) (\<lambda>(_, line, s).
             let num = get_data_len line in
             if num < 0 then Some (click_err, [], s)
             else if num = 0 then Some (no_err, [], s)
             else read_data t (nat num) [] s)))"

definition cs_write_conn :: "'c tcp \<Rightarrow> string \<Rightarrow> string \<Rightarrow> string \<Rightarrow> 'c \<Rightarrow> (err_t \<times> string \<times> 'c) option" where
  "cs_write_conn t el h data s =
     send_all t (''WRITEDATA '' @ handler_name el h @ '' '' @ take 9 (dec_nat (length data)) @ newline) s (\<lambda>s.
       send_all t data s (\<lambda>s.
         Option.bind (reply_loop t s) (\<lambda>(err, line, s).
           if err \<noteq> no_err then Some (err, [], s)
           else
             let code = get_resp_code line in
             if code \<noteq> 200 \<and> code \<noteq> 220 then Some (handle_err_code code, [], s)
             else Some (no_err, [], s))))"

text \<open>A call is made only on a configured client.\<close>

definition check_init ::
  "'c ControlSocketClient \<Rightarrow> ('c \<Rightarrow> (err_t \<times> 'x \<times> 'c) option) \<Rightarrow> 'x \<Rightarrow> (err_t \<times> 'x \<times> 'c ControlSocketClient) option" where
  "check_init cs k x =
     (if \<not> cs_init cs then Some (init_err, x, cs)
      else map_option (\<lambda>(err, y, s). (err, y, cs\<lparr>cs_conn := s\<rparr>)) (k (cs_conn cs)))"

definition cs_read ::
  "'c tcp \<Rightarrow> string \<Rightarrow> string \<Rightarrow> 'c ControlSocketClient \<Rightarrow> (err_t \<times> string \<times> 'c ControlSocketClient) option" where
  "cs_read t el h cs = check_init cs (cs_read_conn t el h) []"

definition cs_write ::
  "'c tcp \<Rightarrow> string \<Rightarrow> string \<Rightarrow> string \<Rightarrow> 'c ControlSocketClient \<Rightarrow> (err_t \<times> string \<times> 'c ControlSocketClient) option" where
  "cs_write t el h data cs = check_init cs (cs_write_conn t el h data) []"

text \<open>The variant that fills a buffer of \<open>bufsz\<close> characters.\<close>

definition cs_read_buf ::
  "'c tcp \<Rightarrow> string \<Rightarrow> string \<Rightarrow> nat \<Rightarrow> 'c ControlSocketClient \<Rightarrow> (err_t \<times> string \<times> 'c ControlSocketClient) option" where
  "cs_read_buf t el h bufsz cs =
     Option.bind (cs_read t el h cs) (\<lambda>(err, resp, cs).
       if err \<noteq> no_err then Some (err, [], cs)
       else Some (if bufsz < length resp then too_short else no_err, take bufsz resp, cs))"

section \<open>Connecting\<close>

text \<open>
  The version of the banner is between the first slash and the next dot, and behind that dot; both numbers are read with
  \<^verbatim>\<open>atoi\<close>. The positions are kept in 32-bit variables, so a character that is missing has the position
  \<open>- 1\<close>, which is not the 64-bit \<^verbatim>\<open>npos\<close> it is compared with: the tests for a bad format never hold, and the number is
  read from the start of the line.
\<close>

definition find_char :: "char \<Rightarrow> nat \<Rightarrow> string \<Rightarrow> u32" where
  "find_char c pos s =
     (let n = pos + length (takeWhile (\<lambda>d. d \<noteq> c) (drop pos s)) in if n < length s then of_nat n else - 1)"

definition good_banner :: "string \<Rightarrow> bool" where
  "good_banner buf =
     (let slash = find_char (CHR ''/'') 0 buf;
          dot = find_char (CHR ''.'') (unat (slash + 1)) buf
      in atoi (take (unat (dot - slash - 1)) (drop (unat (slash + 1)) buf)) = 1 \<and> 0 \<le> atoi (drop (unat (dot + 1)) buf))"

text \<open>A line without a slash and a dot is taken for version 1.\<close>

lemma good_banner_unformatted: "good_banner ''1''"
proof -
  have "unat (- 1 :: u32) = 4294967295" by (simp add: unsigned_minus_1_eq_mask mask_eq_exp_minus_1)
  then show ?thesis by (simp add: good_banner_def find_char_def atoi_def isspace_def isdigit_def Let_def)
qed

lemma good_banner_click: "good_banner ''Click/1.3''" "\<not> good_banner ''Click/2.0''"
  by (simp_all add: good_banner_def find_char_def atoi_def isspace_def isdigit_def Let_def)

definition cs_configure ::
  "'c tcp \<Rightarrow> u32 \<Rightarrow> u16 \<Rightarrow> 'c ControlSocketClient \<Rightarrow> (err_t \<times> 'c ControlSocketClient) option" where
  "cs_configure t host_ip port cs =
     (if cs_init cs then Some (reinit_err, cs)
      else
        let (ok, s) = tcp_connect t host_ip port (cs_conn cs) in
        if \<not> ok then Some (sys_err, cs\<lparr>cs_conn := s\<rparr>)
        else Option.bind (readline t s) (\<lambda>(err, buf, s).
          if err \<noteq> no_err then Some (err, cs\<lparr>cs_conn := snd (tcp_close t s)\<rparr>)
          else if \<not> good_banner buf then Some (click_err, cs\<lparr>cs_conn := snd (tcp_close t s)\<rparr>)
          else Some (no_err, cs\<lparr>cs_init := True, cs_conn := s\<rparr>)))"

definition cs_close :: "'c tcp \<Rightarrow> 'c ControlSocketClient \<Rightarrow> err_t \<times> 'c ControlSocketClient" where
  "cs_close t cs =
     (if \<not> cs_init cs then (init_err, cs)
      else
        let (res, s) = tcp_close t (cs_conn cs)
        in (if res < 1 then sys_err else no_err, cs\<lparr>cs_init := False, cs_conn := s\<rparr>))"

section \<open>Lists of elements and handlers\<close>

text \<open>Pieces before each terminator; a last piece without one is kept unless it is empty.\<close>

function cs_split :: "string \<Rightarrow> char \<Rightarrow> string list" where
  "cs_split s terminator =
     (if s = [] then []
      else
        let piece = takeWhile (\<lambda>c. c \<noteq> terminator) s
        in piece # cs_split (drop (Suc (length piece)) s) terminator)"
  by pat_completeness auto
termination
  by (relation "measure (\<lambda>(s, c). length s)") auto

declare cs_split.simps [simp del]

definition get_config_el_names ::
  "'c tcp \<Rightarrow> 'c ControlSocketClient \<Rightarrow> (err_t \<times> string list \<times> 'c ControlSocketClient) option" where
  "get_config_el_names t cs =
     Option.bind (cs_read t [] ''list'' cs) (\<lambda>(err, resp, cs).
       if err \<noteq> no_err then Some (err, [], cs)
       else
         let first = takeWhile (\<lambda>c. c \<noteq> CHR 0x0A) resp;
             rest = (if CHR 0x0A \<in> set resp then drop (Suc (length first)) resp else resp);
             els = cs_split rest (CHR 0x0A)
         in Some (if int (length els) = atoi first then no_err else handler_bad_format, els, cs))"

definition get_string_vec ::
  "'c tcp \<Rightarrow> string \<Rightarrow> string \<Rightarrow> 'c ControlSocketClient \<Rightarrow> (err_t \<times> string list \<times> 'c ControlSocketClient) option" where
  "get_string_vec t el h cs =
     Option.bind (cs_read t el h cs) (\<lambda>(err, resp, cs).
       if err \<noteq> no_err then Some (err, [], cs) else Some (no_err, cs_split resp (CHR 0x0A), cs))"

record handler_info_t =
  element_name :: string
  handler_name_of :: string
  can_read :: bool
  can_write :: bool

definition cs_trim :: "string \<Rightarrow> string" where
  "cs_trim s = rev (dropWhile isspace (rev (dropWhile isspace s)))"

definition lower_is :: "char \<Rightarrow> char \<Rightarrow> bool" where
  "lower_is c l \<longleftrightarrow> c = l \<or> (of_char c :: nat) + 32 = of_char l"

definition handler_line :: "string \<Rightarrow> string \<Rightarrow> handler_info_t option" where
  "handler_line el s =
     (let name = takeWhile (\<lambda>c. \<not> isspace c) s;
          flags = takeWhile (\<lambda>c. \<not> isspace c) (dropWhile isspace (drop (length name) s))
      in if name = s then None
         else Some \<lparr>element_name = el, handler_name_of = cs_trim name,
           can_read = list_ex (\<lambda>c. lower_is c (CHR ''r'')) flags,
           can_write = list_ex (\<lambda>c. lower_is c (CHR ''w'')) flags\<rparr>)"

definition get_el_handlers ::
  "'c tcp \<Rightarrow> string \<Rightarrow> 'c ControlSocketClient \<Rightarrow> (err_t \<times> handler_info_t list \<times> 'c ControlSocketClient) option" where
  "get_el_handlers t el cs =
     Option.bind (cs_read t el ''handlers'' cs) (\<lambda>(err, buf, cs).
       if err \<noteq> no_err then Some (err, [], cs)
       else
         let infos = map (handler_line el) (cs_split buf (CHR 0x0A)) in
         if None \<in> set infos then Some (click_err, [], cs) else Some (no_err, map the infos, cs))"

definition check_handler_workaround ::
  "'c tcp \<Rightarrow> string \<Rightarrow> string \<Rightarrow> bool \<Rightarrow> 'c ControlSocketClient \<Rightarrow> (err_t \<times> bool \<times> 'c ControlSocketClient) option" where
  "check_handler_workaround t el h is_write cs =
     Option.bind (get_el_handlers t el cs) (\<lambda>(err, v, cs).
       if err \<noteq> no_err then Some (err, False, cs)
       else case find (\<lambda>i. handler_name_of i = h) v of
         Some i \<Rightarrow> Some (no_err, if is_write then can_write i else can_read i, cs)
       | None \<Rightarrow> Some (no_err, False, cs))"

definition check_handler ::
  "'c tcp \<Rightarrow> string \<Rightarrow> string \<Rightarrow> bool \<Rightarrow> 'c ControlSocketClient \<Rightarrow> (err_t \<times> bool \<times> 'c ControlSocketClient) option" where
  "check_handler t el h is_write cs =
     (if \<not> cs_init cs then Some (init_err, False, cs)
      else
        let name = handler_name el h;
            cmd = (if is_write then ''CHECKWRITE '' else ''CHECKREAD '') @ name @ newline;
            (res, s) = tcp_write t cmd (cs_conn cs)
        in if res \<noteq> int (length cmd) then Some (sys_err, False, cs\<lparr>cs_conn := s\<rparr>)
           else Option.bind (reply_loop t s) (\<lambda>(err, line, s).
             let cs = cs\<lparr>cs_conn := s\<rparr>; code = get_resp_code line in
             if err \<noteq> no_err then Some (err, False, cs)
             else if code = 200 \<or> code = 220 then Some (no_err, True, cs)
             else if code = 510 \<or> code = 511 \<or> code = 520 \<or> code = 530 then Some (no_err, False, cs)
             else if code = 501 \<and> el \<noteq> [] then check_handler_workaround t el name is_write cs
             else Some (handle_err_code code, False, cs)))"

end
