(* ===== verification/Control_Tables.thy ===== *)
theory Control_Tables
  imports Control_Socket Control_Client Xia_Route_Spec
begin

text \<open>
  The router that the control socket of an XIA node serves, as far as the daemons use it: the route tables of the
  principal types with the handlers that \<^verbatim>\<open>XIAXIDRouteTable::add_handlers\<close> adds. The state of the router is the route
  table of each element, and \<open>why\<close> is the text of the error that a refused call reports. A
  read handler takes no parameters.
\<close>

type_synonym route_tables = "string \<Rightarrow> XIAXIDRouteTable"

definition no_reports :: reports where
  "no_reports = \<lparr>error_code = CSERR_OK, nerrors = 0, nwarnings = 0, messages = []\<rparr>"

definition refusal :: "string \<Rightarrow> reports" where
  "refusal why = \<lparr>error_code = CSERR_OK, nerrors = 1, nwarnings = 0, messages = [why]\<rparr>"

definition write_hook ::
  "string \<Rightarrow> string \<Rightarrow> (string \<Rightarrow> XIAXIDRouteTable \<Rightarrow> bool \<times> XIAXIDRouteTable) \<Rightarrow> route_tables handler" where
  "write_hook why el f =
     \<lparr>read_visible = False, write_visible = True, writable = True, call_read = (\<lambda>_ _. Inl Null_deref),
      call_write = (\<lambda>data ts.
        let (ok, t) = f data (ts el)
        in Inr (if ok then 0 else - 1, if ok then no_reports else refusal why, ts(el := t)))\<rparr>"

definition read_hook :: "string \<Rightarrow> string \<Rightarrow> (XIAXIDRouteTable \<Rightarrow> string run) \<Rightarrow> route_tables handler" where
  "read_hook why el f =
     \<lparr>read_visible = True, write_visible = False, writable = False,
      call_read = (\<lambda>param ts.
        if param \<noteq> [] then Inr ([], refusal why, ts)
        else bind_run (f (ts el)) (\<lambda>s. Inr (s, no_reports, ts))),
      call_write = (\<lambda>_ _. Inl Null_deref)\<rparr>"

definition enabled_hook :: "string \<Rightarrow> string \<Rightarrow> route_tables handler" where
  "enabled_hook why el =
     (read_hook why el (\<lambda>t. Inr (read_handler t)))
       \<lparr>write_visible := True, writable := True,
        call_write := (\<lambda>data ts. Inr (0, no_reports, ts(el := write_handler data (ts el))))\<rparr>"

definition table_handler :: "name_ctx \<Rightarrow> string \<Rightarrow> string \<Rightarrow> string \<Rightarrow> route_tables handler option" where
  "table_handler ctx why el h =
     (if h = ''add'' then Some (write_hook why el (set_handler ctx True))
      else if h = ''set'' then Some (write_hook why el (set_handler ctx False))
      else if h = ''add4'' then Some (write_hook why el (set_handler4 ctx True))
      else if h = ''set4'' then Some (write_hook why el (set_handler4 ctx False))
      else if h = ''remove'' then Some (write_hook why el (remove_handler ctx))
      else if h = ''list'' then Some (read_hook why el list_routes_handler)
      else if h = ''enabled'' then Some (enabled_hook why el)
      else None)"

fun index_of :: "string \<Rightarrow> string list \<Rightarrow> nat option" where
  "index_of x [] = None"
| "index_of x (y # ys) = (if x = y then Some 0 else map_option Suc (index_of x ys))"

definition table_router :: "name_ctx \<Rightarrow> string \<Rightarrow> string list \<Rightarrow> route_tables click_router" where
  "table_router ctx why els =
     \<lparr>nelements = length els, find_element = (\<lambda>n. index_of n els),
      handler_of = (\<lambda>e h. case e of None \<Rightarrow> None | Some i \<Rightarrow> table_handler ctx why (els ! i) h),
      llrpc = (\<lambda>_ _ ts. (- 1, [], ts))\<rparr>"

lemma index_of_Some: "x \<in> set xs \<Longrightarrow> \<exists>i. index_of x xs = Some i \<and> xs ! i = x"
  by (induction xs) auto

lemma table_router_handler:
  "el \<in> set els \<Longrightarrow> \<exists>i. find_element (table_router ctx why els) el = Some i
     \<and> handler_of (table_router ctx why els) (Some i) h = table_handler ctx why el h"
  using index_of_Some [of el els] by (auto simp: table_router_def)

end
