(* ===== verification/Control_Exchange.thy ===== *)
theory Control_Exchange
  imports Control_Tables "HOL-Library.Sublist"
begin

text \<open>
  The client and the server of the control protocol together: a handler call of the client runs that handler of the
  router, with the data the client gave, exactly once, and brings back what the handler answered, however the
  connection cuts the bytes of the request into pieces.
\<close>

section \<open>Numbers in the protocol\<close>

definition digits_value :: "string \<Rightarrow> int" where
  "digits_value ds = foldl (\<lambda>a c. 10 * a + (int (of_char c) - 48)) 0 ds"

lemma digits_value_dec_nat: "digits_value (dec_nat n) = int n"
proof (induction n rule: dec_nat.induct)
  case (1 n)
  show ?case
  proof (cases "n < 10")
    case True
    then show ?thesis by (subst dec_nat.simps) (simp add: digits_value_def of_char_hex_digit)
  next
    case False
    with 1 have IH: "digits_value (dec_nat (n div 10)) = int (n div 10)" by simp
    have "digits_value (dec_nat n) = 10 * digits_value (dec_nat (n div 10)) + int (n mod 10)"
      using False by (subst dec_nat.simps) (simp add: digits_value_def of_char_hex_digit)
    with IH show ?thesis by presburger
  qed
qed

lemma digit_not_space: "isdigit c \<Longrightarrow> \<not> isspace c"
  by (auto simp: isdigit_def isspace_def)

lemma atoi_digits:
  assumes "\<And>c. c \<in> set ds \<Longrightarrow> isdigit c" "ds \<noteq> []" "s = [] \<or> \<not> isdigit (hd s)"
  shows "atoi (ds @ s) = digits_value ds" "atoi (CHR ''-'' # ds @ s) = - digits_value ds"
proof -
  have hd: "isdigit (hd ds)" using assms(1,2) by simp
  then have sign: "hd ds \<noteq> CHR ''-''" "hd ds \<noteq> CHR ''+''" "\<not> isspace (hd ds)"
    by (auto simp: isdigit_def digit_not_space)
  have dw: "dropWhile isspace (ds @ s) = ds @ s"
    using assms(2) sign(3) by (cases ds) simp_all
  have "takeWhile isdigit s = []" using assms(3) by (cases s) auto
  note ends = this assms(1,2)
  show "atoi (ds @ s) = digits_value ds"
    using dw sign ends by (simp add: atoi_def Let_def digits_value_def)
  have "\<not> isspace (CHR ''-'')" by (simp add: isspace_def)
  then show "atoi (CHR ''-'' # ds @ s) = - digits_value ds"
    using ends by (simp add: atoi_def Let_def digits_value_def)
qed

lemma atoi_dec_nat [simp]: "s = [] \<or> \<not> isdigit (hd s) \<Longrightarrow> atoi (dec_nat n @ s) = int n"
  using atoi_digits(1) [of "dec_nat n" s] by (simp add: isdigit_dec_nat digits_value_dec_nat)

lemma atoi_dec_int: "s = [] \<or> \<not> isdigit (hd s) \<Longrightarrow> atoi (dec_int i @ s) = i"
  using atoi_digits [of "dec_nat (nat \<bar>i\<bar>)" s] by (auto simp: dec_int_def isdigit_dec_nat digits_value_dec_nat)

lemma length_dec_nat: "n < 10 ^ k \<Longrightarrow> 0 < k \<Longrightarrow> length (dec_nat n) \<le> k"
proof (induction n arbitrary: k rule: dec_nat.induct)
  case (1 n)
  show ?case
  proof (cases "n < 10")
    case True
    with "1.prems" show ?thesis by (subst dec_nat.simps) simp
  next
    case False
    then obtain j where j: "k = Suc j" and "0 < j"
      using "1.prems" by (cases k; cases "k - 1") auto
    have "n div 10 < 10 ^ j"
      using "1.prems" by (simp add: j less_mult_imp_div_less mult.commute)
    with "1.IH" [OF False _ \<open>0 < j\<close>] show ?thesis
      using False by (subst dec_nat.simps) (simp add: j)
  qed
qed

section \<open>The connection\<close>

record 'r link =
  server_conn :: "connection option"
  router_state :: 'r
  unread :: string

text \<open>
  The server takes in one piece; a server that fails is gone, and so is the connection.
\<close>

definition serve_piece :: "'r click_router \<Rightarrow> string \<Rightarrow> 'r link \<Rightarrow> 'r link" where
  "serve_piece rtr piece l =
     (case server_conn l of
        None \<Rightarrow> l
      | Some c \<Rightarrow>
          (case selected rtr (Arrived piece) None False c (router_state l) of
             Inl _ \<Rightarrow> l\<lparr>server_conn := None\<rparr>
           | Inr (sent, c1, r1) \<Rightarrow> \<lparr>server_conn = c1, router_state = r1, unread = unread l @ sent\<rparr>))"

text \<open>
  The connection: each write of the client reaches the server at once, in the pieces \<open>pieces\<close> cuts it into. One \<^verbatim>\<open>read\<close> of the
  server that takes in the end of one write and the start of the next is not modelled.
\<close>

definition link_tcp :: "'r click_router \<Rightarrow> (string \<Rightarrow> string list) \<Rightarrow> 'r link tcp" where
  "link_tcp rtr pieces =
     \<lparr>tcp_connect = (\<lambda>_ _ l. (True, l\<lparr>server_conn := Some initialize_connection\<rparr>)),
      tcp_write = (\<lambda>text l. (int (length text), fold (serve_piece rtr) (pieces text) l)),
      tcp_read = (\<lambda>n l. if unread l = [] \<and> server_conn l \<noteq> None then None
        else Some (Some (take n (unread l)), l\<lparr>unread := drop n (unread l)\<rparr>)),
      tcp_close = (\<lambda>l. (0, l\<lparr>server_conn := None\<rparr>))\<rparr>"

text \<open>Pieces are not empty, hold at most the 2,048 bytes the server reads at once, and make up the text.\<close>

definition cuts :: "(string \<Rightarrow> string list) \<Rightarrow> bool" where
  "cuts pieces \<longleftrightarrow> (\<forall>text. concat (pieces text) = text
     \<and> (\<forall>p\<in>set (pieces text). p \<noteq> [] \<and> length p \<le> 2048))"

definition holding :: "string \<Rightarrow> connection" where
  "holding p = \<lparr>in_text = p, inpos = 0, out_text = [], outpos = 0, in_closed = False, out_closed = False\<rparr>"

definition idle :: "'r link \<Rightarrow> bool" where
  "idle l \<longleftrightarrow> server_conn l = Some (holding []) \<and> unread l = []"

section \<open>The server on one request\<close>

lemma words_of_space [simp]: "isspace c \<Longrightarrow> words_of (c # s) = words_of s"
  by (subst (1 2) words_of.simps) simp

lemma words_of_word [simp]:
  assumes "w \<noteq> []" "\<forall>c\<in>set w. \<not> isspace c" "s = [] \<or> isspace (hd s)"
  shows "words_of (w @ s) = w # words_of s"
proof -
  have "dropWhile isspace (w @ s) = w @ s" using assms(1,2) by (cases w) simp_all
  moreover have "takeWhile (\<lambda>c. \<not> isspace c) s = []" "dropWhile (\<lambda>c. \<not> isspace c) s = s"
    using assms(3) by (cases s; simp)+
  ultimately show ?thesis using assms(1,2) by (subst words_of.simps) (simp add: Let_def)
qed

lemma words_of_Nil [simp]: "words_of [] = []"
  by (simp add: words_of.simps)

text \<open>Names of elements and handlers are made of visible characters.\<close>

definition visible_char :: "char \<Rightarrow> bool" where
  "visible_char c \<longleftrightarrow> 33 \<le> (of_char c :: nat) \<and> (of_char c :: nat) \<le> 126"

definition plain_name :: "string \<Rightarrow> bool" where
  "plain_name s \<longleftrightarrow> s \<noteq> [] \<and> list_all visible_char s"

lemma visible_charD: "visible_char c \<Longrightarrow> \<not> isspace c" "visible_char c \<Longrightarrow> c \<noteq> CHR 0x0A"
    "visible_char c \<Longrightarrow> c \<noteq> CHR 0x0D" "visible_char c \<Longrightarrow> printable_char c = [c]"
  by (auto simp: visible_char_def isspace_def printable_char_def)

lemma plain_nameD:
  assumes "plain_name s"
  shows "s \<noteq> []" "\<forall>c\<in>set s. \<not> isspace c" "CHR 0x0A \<notin> set s" "CHR 0x0D \<notin> set s"
  using assms visible_charD unfolding plain_name_def list_all_iff by blast+

lemma printable_append [simp]: "printable_text (s @ t) = printable_text s @ printable_text t" "printable_text [] = []"
  by (simp_all add: printable_text_def)

lemma printable_visible: "\<forall>c\<in>set s. visible_char c \<or> c = CHR '' '' \<Longrightarrow> printable_text s = s"
proof (induction s)
  case (Cons c s)
  moreover have "printable_char (CHR '' '') = '' ''" by (simp add: printable_char_def)
  ultimately show ?case using visible_charD(4) by (auto simp: printable_text_def)
qed simp

lemma of_char_hex_digit8: "n < 8 \<Longrightarrow> 48 \<le> (of_char (hex_digit n) :: nat)"
  by (simp add: of_char_hex_digit)

lemma printable_char_range: "x \<in> set (printable_char c) \<Longrightarrow> 32 \<le> (of_char x :: nat)"
  by (auto simp: printable_char_def octal3_def Let_def of_char_hex_digit split: if_splits)

lemma printable_no_newline: "CHR 0x0A \<notin> set (printable_text s)"
proof
  assume "CHR 0x0A \<in> set (printable_text s)"
  then obtain c where "CHR 0x0A \<in> set (printable_char c)" by (auto simp: printable_text_def)
  from printable_char_range [OF this] show False by simp
qed

lemma waiting_sel [simp]:
  "in_text (holding p) = p" "inpos (holding p) = 0" "out_text (holding p) = []" "outpos (holding p) = 0"
  "\<not> in_closed (holding p)" "\<not> out_closed (holding p)"
  by (simp_all add: holding_def)

lemma run_partial_line:
  assumes "p \<noteq> []" "CHR 0x0A \<notin> set p" "CHR 0x0D \<notin> set p"
  shows "run_command rtr (holding p) r = Inr (True, holding p, r)"
proof -
  have tw: "takeWhile (\<lambda>x. x \<noteq> CHR 0x0D \<and> x \<noteq> CHR 0x0A) p = p"
    using assms(2,3) by (auto simp: takeWhile_eq_all_conv)
  show ?thesis using assms(1) by (simp add: run_command_def Let_def tw)
qed

lemma run_whole_line:
  assumes "CHR 0x0A \<notin> set line" "CHR 0x0D \<notin> set line"
  shows "run_command rtr (holding (line @ newline @ d)) r =
    bind_run (parse_command rtr (line @ newline) ((holding (line @ newline @ d))\<lparr>inpos := Suc (length line)\<rparr>) r)
      (\<lambda>(code, c, r).
        if 0 < code then Inr (True, c\<lparr>inpos := 0\<rparr>, r)
        else let (t, p) = contract (in_text c) (inpos c) in Inr (False, c\<lparr>in_text := t, inpos := p\<rparr>, r))"
proof -
  have tw: "takeWhile (\<lambda>x. x \<noteq> CHR 0x0D \<and> x \<noteq> CHR 0x0A) (line @ CHR 0x0A # d) = line"
    using assms by (subst takeWhile_append2) auto
  show ?thesis by (simp add: run_command_def Let_def newline_def tw)
qed

text \<open>A request has no effect before it is complete.\<close>

lemma serve_waiting:
  assumes "server_conn l = Some (holding p)"
    and "run_command rtr (holding (p @ piece)) (router_state l) = Inr (b, (holding q)\<lparr>out_text := reply\<rparr>, r1)"
  shows "serve_piece rtr piece l = \<lparr>server_conn = Some (holding q), router_state = r1, unread = unread l @ reply\<rparr>"
proof -
  have "take_in (Arrived piece) (holding p) = holding (p @ piece)"
    by (simp add: take_in_def holding_def)
  with assms show ?thesis
    by (simp add: serve_piece_def selected_def flush_write_def Let_def contract_def holding_def)
qed

lemma serve_request:
  assumes pre: "\<And>p. strict_prefix p req \<Longrightarrow> p \<noteq> [] \<Longrightarrow> run_command rtr (holding p) r = Inr (True, holding p, r)"
    and whole: "run_command rtr (holding req) r = Inr (False, (holding [])\<lparr>out_text := reply\<rparr>, r1)"
  shows "server_conn l = Some (holding p) \<Longrightarrow> router_state l = r \<Longrightarrow> strict_prefix p req
    \<Longrightarrow> p @ concat ps = req \<Longrightarrow> \<forall>x\<in>set ps. x \<noteq> []
    \<Longrightarrow> fold (serve_piece rtr) ps l = \<lparr>server_conn = Some (holding []), router_state = r1, unread = unread l @ reply\<rparr>"
proof (induction ps arbitrary: p l)
  case Nil
  then show ?case by simp
next
  case (Cons x ps)
  show ?case
  proof (cases "concat ps = []")
    case True
    then have ps: "ps = []" using Cons.prems(5) by (cases ps) auto
    with Cons.prems whole have "serve_piece rtr x l =
        \<lparr>server_conn = Some (holding []), router_state = r1, unread = unread l @ reply\<rparr>"
      by (intro serve_waiting [where b = False and p = p]) simp_all
    with ps show ?thesis by simp
  next
    case False
    then have sp: "strict_prefix (p @ x) req" using Cons.prems(4) by (auto simp: strict_prefix_def prefix_def)
    have "serve_piece rtr x l = \<lparr>server_conn = Some (holding (p @ x)), router_state = r, unread = unread l @ []\<rparr>"
      using Cons.prems pre [OF sp] by (intro serve_waiting [where b = True and p = p]) (auto simp: holding_def)
    with Cons.IH [of "serve_piece rtr x l" "p @ x"] sp Cons.prems show ?thesis by simp
  qed
qed

section \<open>Replies\<close>

fun reply_text :: "int \<Rightarrow> string list \<Rightarrow> string" where
  "reply_text code [] = []"
| "reply_text code (m # ms) =
     dec_int code @ (if ms = [] then CHR '' '' else CHR ''-'') # printable_text m @ CRLF @ reply_text code ms"

lemma message_ok:
  "100 \<le> code \<Longrightarrow> code \<le> 999 \<Longrightarrow> \<not> out_closed c \<Longrightarrow> conn_message code m b c =
     Inr (c\<lparr>out_text := out_text c @ dec_int code @ (if b then CHR ''-'' else CHR '' '') # printable_text m @ CRLF\<rparr>)"
  by (simp add: conn_message_def)

lemma transfer_loop_ok:
  "100 \<le> code \<Longrightarrow> code \<le> 999 \<Longrightarrow> \<not> out_closed c \<Longrightarrow>
     transfer_loop code ms c = Inr (c\<lparr>out_text := out_text c @ reply_text code ms\<rparr>)"
  by (induction ms arbitrary: c) (simp_all add: message_ok)

lemma transfer_messages_ok:
  assumes "100 \<le> code" "code \<le> 999" "\<not> out_closed c" "error_code errh = CSERR_OK" "msg \<noteq> []"
  shows "transfer_messages code msg errh c =
    Inr (c\<lparr>out_text := out_text c @
      reply_text code ((if messages errh = [] then msg else msg @ '':'') # messages errh)\<rparr>)"
  using assms by (simp add: transfer_messages_def Let_def message_ok transfer_loop_ok)

text \<open>The client reads a line of at most 1,024 characters.\<close>

lemma tcp_read_link:
  "unread l = c # cs \<Longrightarrow> tcp_read (link_tcp rtr pieces) 1 l = Some (Some [c], l\<lparr>unread := cs\<rparr>)"
  by (simp add: link_tcp_def)

lemma readline_loop_link:
  "unread l = line @ CHR 0x0A # rest \<Longrightarrow> CHR 0x0A \<notin> set line \<Longrightarrow> length buf + length line < MAX_LINE_SZ
    \<Longrightarrow> readline_loop (link_tcp rtr pieces) buf l = Some (no_err, buf @ line @ newline, l\<lparr>unread := rest\<rparr>)"
proof (induction line arbitrary: buf l)
  case Nil
  then show ?case by (subst readline_loop.simps) (simp add: tcp_read_link [simplified] newline_def)
next
  case (Cons c line)
  with Cons.IH [of "l\<lparr>unread := line @ CHR 0x0A # rest\<rparr>" "buf @ [c]"] show ?case
    by (subst readline_loop.simps) (auto simp: tcp_read_link [simplified])
qed

lemma readline_link:
  "unread l = line @ newline @ rest \<Longrightarrow> CHR 0x0A \<notin> set line \<Longrightarrow> length line < MAX_LINE_SZ
    \<Longrightarrow> readline (link_tcp rtr pieces) l = Some (no_err, line @ newline, l\<lparr>unread := rest\<rparr>)"
  using readline_loop_link [of l line rest "[]" rtr pieces] by (simp add: readline_def newline_def)

definition code_ok :: "int \<Rightarrow> bool" where
  "code_ok code \<longleftrightarrow> length (dec_int code) = 3 \<and> 0 \<le> code"

definition short_line :: "string \<Rightarrow> bool" where
  "short_line m \<longleftrightarrow> length (printable_text m) \<le> 1018"

lemma dec_int_no_newline: "CHR 0x0A \<notin> set (dec_int i)"
  using isdigit_dec_nat [of "CHR 0x0A"] by (auto simp: dec_int_def isdigit_def)

lemma reply_loop_link:
  assumes "code_ok code"
  shows "ms \<noteq> [] \<Longrightarrow> list_all short_line ms \<Longrightarrow> unread l = reply_text code ms @ rest \<Longrightarrow>
    \<exists>line. reply_loop (link_tcp rtr pieces) l = Some (no_err, line, l\<lparr>unread := rest\<rparr>) \<and> get_resp_code line = code"
proof (induction ms arbitrary: l)
  case (Cons m ms)
  let ?line = "dec_int code @ (if ms = [] then CHR '' '' else CHR ''-'') # printable_text m @ [CHR 0x0D]"
  let ?rest = "reply_text code ms @ rest"
  have len: "length (dec_int code) = 3" using assms by (simp add: code_ok_def)
  have "readline (link_tcp rtr pieces) l = Some (no_err, ?line @ newline, l\<lparr>unread := ?rest\<rparr>)"
    using Cons.prems dec_int_no_newline printable_no_newline len
    by (intro readline_link) (auto simp: newline_def short_line_def MAX_LINE_SZ_def)
  then have step: "reply_loop (link_tcp rtr pieces) l =
      (if ms = [] then Some (no_err, ?line @ newline, l\<lparr>unread := ?rest\<rparr>)
       else reply_loop (link_tcp rtr pieces) (l\<lparr>unread := ?rest\<rparr>))"
    using len by (subst reply_loop.simps) (simp add: nth_append newline_def)
  show ?case
  proof (cases "ms = []")
    case True
    have "get_resp_code (?line @ newline) = code"
      using assms len atoi_dec_int [of "[]" code] by (simp add: get_resp_code_def)
    with step True show ?thesis by (intro exI [of _ "?line @ newline"]) simp
  next
    case False
    with step Cons.IH [of "l\<lparr>unread := ?rest\<rparr>"] Cons.prems show ?thesis by simp
  qed
qed simp

section \<open>Writing a handler\<close>

definition has_handler :: "'r click_router \<Rightarrow> string \<Rightarrow> string \<Rightarrow> 'r handler \<Rightarrow> bool" where
  "has_handler rtr el h H \<longleftrightarrow> plain_name el \<and> plain_name h \<and> CHR ''.'' \<notin> set el \<and> el \<noteq> ''0'' \<and>
     (\<exists>i. find_element rtr el = Some i \<and> handler_of rtr (Some i) h = Some H) \<and> visible H
     \<and> length el + length h < 900"

lemma parse_has_handler:
  assumes "has_handler rtr el h H"
  shows "parse_handler rtr (handler_name el h) c = Inr (Some H, c)"
proof -
  obtain i where i: "find_element rtr el = Some i" "handler_of rtr (Some i) h = Some H"
    using assms by (auto simp: has_handler_def)
  have el: "el \<noteq> []" "CHR ''.'' \<notin> set el" "el \<noteq> ''0''" "visible H"
    using assms by (auto simp: has_handler_def plain_name_def)
  then have b: "before_dot (el @ CHR ''.'' # h) = el"
    unfolding before_dot_def by (subst takeWhile_append2) auto
  have "canonical_handler_name (el @ CHR ''.'' # h) = el @ CHR ''.'' # h"
  proof -
    have "length el \<noteq> 1 \<or> hd (el @ CHR ''.'' # h) \<noteq> CHR ''0''"
      using el(1,3) by (cases el) auto
    with el(1) show ?thesis unfolding canonical_handler_name_def b Let_def by auto
  qed
  with b i el show ?thesis
    by (simp add: parse_handler_def handler_name_def Let_def)
qed

lemma handler_name_plain: "has_handler rtr el h H \<Longrightarrow> plain_name (handler_name el h)"
  by (auto simp: has_handler_def handler_name_def plain_name_def visible_char_def)

definition write_line :: "string \<Rightarrow> nat \<Rightarrow> string" where
  "write_line name n = ''WRITEDATA '' @ name @ '' '' @ dec_nat n"

lemma digit_plain: "isdigit c \<Longrightarrow> visible_char c"
  by (auto simp: isdigit_def visible_char_def)

lemma dec_nat_plain: "plain_name (dec_nat n)"
  using isdigit_dec_nat digit_plain by (auto simp: plain_name_def list_all_iff)

lemma write_line_words:
  assumes "plain_name name"
  shows "words_of (write_line name n @ newline) = [''WRITEDATA'', name, dec_nat n]"
    and "CHR 0x0A \<notin> set (write_line name n)" "CHR 0x0D \<notin> set (write_line name n)"
proof -
  note p = plain_nameD [OF assms] plain_nameD [OF dec_nat_plain [of n]]
  have w: "words_of (''WRITEDATA'' @ '' '' @ s) = ''WRITEDATA'' # words_of s" for s
    by (subst words_of_word) (auto simp: isspace_def)
  have "words_of (name @ '' '' @ s) = name # words_of s" for s
    using p(1,2) by (subst words_of_word) (auto simp: isspace_def)
  moreover have "words_of (dec_nat n @ newline) = [dec_nat n]"
    using p(5,6) by (subst words_of_word) (auto simp: isspace_def newline_def)
  ultimately show "words_of (write_line name n @ newline) = [''WRITEDATA'', name, dec_nat n]"
    using w [of "name @ '' '' @ dec_nat n @ newline"] by (simp add: write_line_def)
  show "CHR 0x0A \<notin> set (write_line name n)" "CHR 0x0D \<notin> set (write_line name n)"
    using p by (auto simp: write_line_def)
qed

lemma toupper_commands [simp]:
  "map toupper ''WRITEDATA'' = ''WRITEDATA''" "map toupper ''READ'' = ''READ''"
  by (simp_all add: toupper_def)

lemma parse_write:
  assumes "plain_name name" "n < 2 ^ 31"
  shows "parse_command rtr (write_line name n @ newline) c r =
    bind_run (conn_read n c) (\<lambda>(code, data, c). if code \<noteq> 0 then Inr (code, c, r) else write_command rtr name data c r)"
  using assms toupper_commands(1)
  by (simp add: parse_command_def data_command_def write_line_words Let_def cp_integer_int_dec_nat call_handler_def
      cong: if_cong del: list.map)

definition write_reply :: "int \<Rightarrow> reports \<Rightarrow> string \<Rightarrow> string list" where
  "write_reply code errh name =
     (if messages errh = [] then write_msg code name else write_msg code name @ '':'') # messages errh"

lemma write_code_cases:
  "error_code errh = CSERR_OK \<Longrightarrow> write_code result errh \<in> {CSERR_OK, CSERR_OK_HANDLER_WARNING, CSERR_HANDLER_ERROR}"
  by (simp add: write_code_def)

lemma write_command_ok:
  assumes "has_handler rtr el h H" "writable H" "length data \<le> LARGEST_HANDLER_WRITE" "\<not> out_closed c"
    and "call_write H data r = Inr (result, errh, r1)" "error_code errh = CSERR_OK"
  shows "write_command rtr (handler_name el h) data c r =
    Inr (0, c\<lparr>out_text := out_text c @ reply_text (write_code result errh)
      (write_reply (write_code result errh) errh (handler_name el h))\<rparr>, r1)"
proof -
  have c: "100 \<le> write_code result errh" "write_code result errh \<le> 999" "write_msg (write_code result errh) n \<noteq> []" for n
    using write_code_cases [OF assms(6), of result] by (auto simp: write_msg_def)
  show ?thesis
    using assms parse_has_handler [OF assms(1)]
    by (simp add: write_command_def replies_def write_reply_def Let_def transfer_messages_ok [OF c(1,2) _ assms(6) c(3)])
qed

lemma strict_prefix_request:
  assumes "strict_prefix p (line @ newline @ data)" "CHR 0x0A \<notin> set line"
  obtains "CHR 0x0A \<notin> set p" "set p \<subseteq> set line" | d where "p = line @ newline @ d" "length d < length data"
proof -
  obtain t where t: "line @ newline @ data = p @ t" "t \<noteq> []"
    using assms(1) by (auto simp: strict_prefix_def prefix_def)
  show thesis
  proof (cases "length p \<le> length line")
    case True
    then have "p = take (length p) line" using t(1) by (metis append_eq_append_conv_if append_take_drop_id)
    then have "set p \<subseteq> set line" by (metis set_take_subset)
    with assms(2) that(1) show thesis by blast
  next
    case False
    then obtain d where d: "p = line @ newline @ d"
      using t(1) by (auto simp: append_eq_append_conv2 newline_def Cons_eq_append_conv)
    with t have "length d < length data" by (auto simp: newline_def)
    with d that(2) show thesis by blast
  qed
qed

lemma conn_read_short:
  "\<not> in_closed c \<Longrightarrow> length (in_text c) < inpos c + n \<Longrightarrow> conn_read n c = Inr (1, [], c)"
  by (simp add: conn_read_def read_insufficient_def)

lemma write_request:
  assumes H: "has_handler rtr el h H" "writable H" "length data \<le> LARGEST_HANDLER_WRITE"
    and w: "call_write H data r = Inr (result, errh, r1)" "error_code errh = CSERR_OK"
    and l: "server_conn l = Some (holding [])" "router_state l = r"
    and ps: "concat ps = write_line (handler_name el h) (length data) @ newline @ data" "\<forall>x\<in>set ps. x \<noteq> []"
  shows "fold (serve_piece rtr) ps l = \<lparr>server_conn = Some (holding []), router_state = r1,
    unread = unread l @ reply_text (write_code result errh)
      (write_reply (write_code result errh) errh (handler_name el h))\<rparr>"
proof (rule serve_request [OF _ _ l(1) l(2)])
  let ?line = "write_line (handler_name el h) (length data)"
  note plain = handler_name_plain [OF H(1)]
  note line = write_line_words(2,3) [OF plain, of "length data"]
  have n: "length data < 2 ^ 31" using H(3) by (simp add: LARGEST_HANDLER_WRITE_def)
  let ?req = "?line @ newline @ data"
  show "strict_prefix [] ?req" by (simp add: newline_def strict_prefix_def)
  show "[] @ concat ps = ?req" "\<forall>x\<in>set ps. x \<noteq> []" using ps by simp_all
  show "run_command rtr (holding p) r = Inr (True, holding p, r)" if "strict_prefix p ?req" "p \<noteq> []" for p
    using that(1) line(1)
  proof (cases rule: strict_prefix_request)
    case 1
    with line(2) that(2) show ?thesis by (intro run_partial_line) auto
  next
    case (2 d)
    have "conn_read (length data) ((holding (?line @ newline @ d))\<lparr>inpos := Suc (length ?line)\<rparr>)
        = Inr (1, [], (holding (?line @ newline @ d))\<lparr>inpos := Suc (length ?line)\<rparr>)"
      using 2(2) by (intro conn_read_short) (simp_all add: newline_def)
    then show ?thesis
      unfolding 2(1) run_whole_line [OF line] parse_write [OF plain n] by (simp add: holding_def)
  qed
  show "run_command rtr (holding ?req) r = Inr (False, (holding [])\<lparr>out_text := reply_text (write_code result errh)
      (write_reply (write_code result errh) errh (handler_name el h))\<rparr>, r1)"
    unfolding run_whole_line [OF line] parse_write [OF plain n]
    by (simp add: conn_read_def newline_def write_command_ok [OF H _ w] contract_def holding_def)
qed

definition text_char :: "char \<Rightarrow> bool" where
  "text_char c \<longleftrightarrow> visible_char c \<or> c = CHR '' ''"

lemma quoted_text: "plain_name name \<Longrightarrow> \<forall>c\<in>set (quoted name). text_char c"
  by (auto simp: quoted_def plain_name_def list_all_iff text_char_def visible_char_def)

lemma text_chars:
  "\<forall>c\<in>set ''Write handler ''. text_char c" "\<forall>c\<in>set '' OK''. text_char c" "\<forall>c\<in>set '' OK with warnings''. text_char c"
  "\<forall>c\<in>set '' error''. text_char c" "\<forall>c\<in>set ''Read handler ''. text_char c" "text_char (CHR '':'')"
  by (simp_all add: text_char_def visible_char_def)

lemma short_text: "\<forall>c\<in>set s. text_char c \<Longrightarrow> length s \<le> 1018 \<Longrightarrow> short_line s"
  using printable_visible [of s] by (simp add: short_line_def text_char_def)

lemma write_msg_text: "plain_name name \<Longrightarrow> \<forall>c\<in>set (write_msg code name). text_char c"
  using quoted_text [of name] text_chars(1-4) unfolding write_msg_def by (simp only: set_append ball_Un set_simps split: if_split) simp

lemma length_write_msg: "length (write_msg code name) \<le> length name + 33"
  by (simp add: write_msg_def quoted_def)

lemma has_handler_length: "has_handler rtr el h H \<Longrightarrow> length (handler_name el h) \<le> 900"
  by (simp add: has_handler_def handler_name_def)

lemma write_reply_short:
  assumes "has_handler rtr el h H" "list_all short_line (messages errh)"
  shows "list_all short_line (write_reply code errh (handler_name el h))"
proof -
  note name = handler_name_plain [OF assms(1)] has_handler_length [OF assms(1)]
  have "short_line (write_msg code (handler_name el h))" "short_line (write_msg code (handler_name el h) @ '':'')"
    using write_msg_text [OF name(1), of code] length_write_msg [of code "handler_name el h"] name(2) text_chars(6)
    by (auto intro!: short_text)
  with assms(2) show ?thesis by (simp add: write_reply_def)
qed

lemma codes_ok: "code_ok CSERR_OK" "code_ok CSERR_OK_HANDLER_WARNING" "code_ok CSERR_HANDLER_ERROR"
  by (simp_all add: code_ok_def dec_int_def dec_nat.simps hex_digit_def)

lemma tcp_write_link [simp]:
  "tcp_write (link_tcp rtr pieces) text l = (int (length text), fold (serve_piece rtr) (pieces text) l)"
  by (simp add: link_tcp_def)

lemma cs_write_link:
  assumes "cuts pieces" "idle l" "has_handler rtr el h H" "writable H" "length data \<le> LARGEST_HANDLER_WRITE"
    and "call_write H data (router_state l) = Inr (result, errh, r1)" "error_code errh = CSERR_OK"
    and "list_all short_line (messages errh)"
  shows "cs_write_conn (link_tcp rtr pieces) el h data l =
    Some (if 0 < nerrors errh \<or> result < 0 then handler_err else no_err, [], l\<lparr>router_state := r1\<rparr>)"
proof -
  let ?name = "handler_name el h" and ?t = "link_tcp rtr pieces"
  let ?cmd = "write_line ?name (length data) @ newline"
  let ?code = "write_code result errh"
  let ?reply = "write_reply ?code errh ?name"
  let ?l = "\<lparr>server_conn = Some (holding []), router_state = r1, unread = reply_text ?code ?reply\<rparr>"
  have n: "take 9 (dec_nat (length data)) = dec_nat (length data)"
    using length_dec_nat [of "length data" 9] assms(5) by (simp add: LARGEST_HANDLER_WRITE_def)
  have "fold (serve_piece rtr) (pieces ?cmd @ pieces data) l = ?l"
    using assms(1,2) by (subst write_request [OF assms(3-7)]) (auto simp: idle_def cuts_def)
  then have fed: "fold (serve_piece rtr) (pieces data) (fold (serve_piece rtr) (pieces ?cmd) l) = ?l" by simp
  have ok: "code_ok ?code" using write_code_cases [OF assms(7), of result] codes_ok by auto
  obtain line where line: "reply_loop ?t ?l = Some (no_err, line, ?l\<lparr>unread := []\<rparr>)" "get_resp_code line = ?code"
    using reply_loop_link [OF ok, of ?reply ?l "[]" rtr pieces] write_reply_short [OF assms(3,8)]
    by (auto simp: write_reply_def)
  have cmd: "''WRITEDATA '' @ ?name @ '' '' @ take 9 (dec_nat (length data)) @ newline = ?cmd"
    by (simp add: n write_line_def)
  have "?l\<lparr>unread := []\<rparr> = l\<lparr>router_state := r1\<rparr>" using assms(2) by (cases l) (simp add: idle_def)
  with line assms(7) show ?thesis
    unfolding cs_write_conn_def cmd send_all_def tcp_write_link
    by (simp add: fed write_code_def handle_err_code_def)
qed

text \<open>
  C15. A write of the client runs the handler exactly once, with the client's data. On an idle connection to a router that
  has the handler \<open>h\<close> of the element \<open>el\<close>, writing up to 65,536 bytes calls it with these bytes, leaves the connection
  idle, and answers \<^verbatim>\<open>no_err\<close> unless the handler has failed or reported an error, and \<^verbatim>\<open>handler_err\<close> then. The client
  writes the command line and the data one after the other, and it does not matter into which pieces the connection cuts each of
  these two writes; messages of the handler have to fit into lines of 1,024 characters.
\<close>

theorem client_write_runs_handler:
  assumes "cuts pieces" "idle l" "has_handler rtr el h H" "writable H" "length data \<le> LARGEST_HANDLER_WRITE"
    and "call_write H data (router_state l) = Inr (result, errh, r1)" "error_code errh = CSERR_OK"
    and "list_all short_line (messages errh)"
  shows "cs_write_conn (link_tcp rtr pieces) el h data l =
    Some (if 0 < nerrors errh \<or> result < 0 then handler_err else no_err, [], l\<lparr>router_state := r1\<rparr>)"
  using assms by (rule cs_write_link)

definition whole :: "string \<Rightarrow> string list" where
  "whole text = (if text = [] then [] else if length text \<le> 2048 then [text] else map (\<lambda>c. [c]) text)"

definition sample_tables :: "route_tables click_router" where
  "sample_tables = table_router (no_context (\<lambda>_. None)) ''invalid route'' [''r/rt_AD'', ''r/rt_HID'']"

definition sample_link :: "route_tables \<Rightarrow> route_tables link" where
  "sample_link ts = \<lparr>server_conn = Some (holding []), router_state = ts, unread = []\<rparr>"

lemma cuts_whole: "cuts whole"
  by (auto simp: cuts_def whole_def)

lemma idle_sample: "idle (sample_link ts)"
  by (simp add: idle_def sample_link_def)

lemma sample_has_handler:
  assumes "table_handler (no_context (\<lambda>_. None)) ''invalid route'' ''r/rt_AD'' h = Some H" "visible H"
    "plain_name h" "length h < 800"
  shows "has_handler sample_tables ''r/rt_AD'' h H"
  using assms table_router_handler [of "''r/rt_AD''" "[''r/rt_AD'', ''r/rt_HID'']" "no_context (\<lambda>_. None)" "''invalid route''" h]
  by (auto simp: has_handler_def sample_tables_def plain_name_def visible_char_def)

theorem client_write_runs_handler_witness:
  "\<exists>ts1. cs_write_conn (link_tcp sample_tables whole) ''r/rt_AD'' ''remove'' ''-'' (sample_link (\<lambda>_. empty_table))
    = Some (no_err, [], sample_link ts1) \<and> ts1 ''r/rt_AD'' = empty_table\<lparr>rtdata := no_route\<rparr>"
proof -
  let ?H = "write_hook ''invalid route'' ''r/rt_AD'' (remove_handler (no_context (\<lambda>_. None)))"
  have H: "has_handler sample_tables ''r/rt_AD'' ''remove'' ?H"
    by (intro sample_has_handler) (simp_all add: table_handler_def visible_def write_hook_def plain_name_def visible_char_def)
  have c: "call_write ?H ''-'' (router_state (sample_link (\<lambda>_. empty_table)))
      = Inr (0, no_reports, (\<lambda>_. empty_table)(''r/rt_AD'' := empty_table\<lparr>rtdata := no_route\<rparr>))"
    by (simp add: write_hook_def remove_handler_def sample_link_def)
  show ?thesis
    using client_write_runs_handler [OF cuts_whole idle_sample H _ _ c]
    by (intro exI [of _ "(\<lambda>_. empty_table)(''r/rt_AD'' := empty_table\<lparr>rtdata := no_route\<rparr>)"])
      (simp add: write_hook_def LARGEST_HANDLER_WRITE_def no_reports_def sample_link_def)
qed

section \<open>Reading a handler\<close>

definition read_line :: "string \<Rightarrow> string" where
  "read_line name = ''READ '' @ name"

definition read_msg :: "string \<Rightarrow> string" where
  "read_msg name = ''Read handler '' @ quoted name @ '' OK''"

lemma read_line_words:
  assumes "plain_name name"
  shows "words_of (read_line name @ newline) = [''READ'', name]"
    and "CHR 0x0A \<notin> set (read_line name)" "CHR 0x0D \<notin> set (read_line name)"
proof -
  note p = plain_nameD [OF assms]
  have "words_of (''READ'' @ '' '' @ s) = ''READ'' # words_of s" for s
    by (subst words_of_word) (auto simp: isspace_def)
  moreover have "words_of (name @ newline) = [name]"
    using p(1,2) by (subst words_of_word) (auto simp: isspace_def newline_def)
  ultimately show "words_of (read_line name @ newline) = [''READ'', name]"
    by (simp add: read_line_def)
  show "CHR 0x0A \<notin> set (read_line name)" "CHR 0x0D \<notin> set (read_line name)"
    using p by (auto simp: read_line_def)
qed

lemma parse_read:
  "plain_name name \<Longrightarrow> parse_command rtr (read_line name @ newline) c r = read_command rtr name [] c r"
  using toupper_commands(2)
  by (simp add: parse_command_def plain_command_def read_line_words Let_def call_handler_def del: list.map)

lemma read_command_ok:
  assumes "has_handler rtr el h H" "read_visible H" "\<not> out_closed c"
    and "call_read H [] r = Inr (data, errh, r1)" "nerrors errh = 0"
  shows "read_command rtr (handler_name el h) [] c r =
    Inr (0, c\<lparr>out_text := out_text c @ reply_text CSERR_OK [read_msg (handler_name el h)] @
      ''DATA '' @ dec_nat (length data) @ CRLF @ data\<rparr>, r1)"
  using assms by (simp add: read_command_def parse_has_handler [OF assms(1)] replies_def message_ok read_msg_def)

lemma read_request:
  assumes H: "has_handler rtr el h H" "read_visible H"
    and w: "call_read H [] r = Inr (data, errh, r1)" "nerrors errh = 0"
    and l: "server_conn l = Some (holding [])" "router_state l = r"
    and ps: "concat ps = read_line (handler_name el h) @ newline" "\<forall>x\<in>set ps. x \<noteq> []"
  shows "fold (serve_piece rtr) ps l = \<lparr>server_conn = Some (holding []), router_state = r1,
    unread = unread l @ reply_text CSERR_OK [read_msg (handler_name el h)] @
      ''DATA '' @ dec_nat (length data) @ CRLF @ data\<rparr>"
proof (rule serve_request [OF _ _ l(1) l(2)])
  let ?line = "read_line (handler_name el h)"
  note plain = handler_name_plain [OF H(1)]
  note line = read_line_words(2,3) [OF plain]
  let ?req = "?line @ newline @ []"
  show "strict_prefix [] ?req" by (simp add: newline_def strict_prefix_def)
  show "[] @ concat ps = ?req" "\<forall>x\<in>set ps. x \<noteq> []" using ps by simp_all
  show "run_command rtr (holding p) r = Inr (True, holding p, r)" if "strict_prefix p ?req" "p \<noteq> []" for p
    using that(1) line(1)
  proof (cases rule: strict_prefix_request)
    case 1
    with line(2) that(2) show ?thesis by (intro run_partial_line) auto
  qed simp
  show "run_command rtr (holding ?req) r = Inr (False, (holding [])\<lparr>out_text :=
      reply_text CSERR_OK [read_msg (handler_name el h)] @ ''DATA '' @ dec_nat (length data) @ CRLF @ data\<rparr>, r1)"
    unfolding run_whole_line [OF line] parse_read [OF plain]
    by (simp add: newline_def read_command_ok [OF H _ w] contract_def holding_def del: reply_text.simps)
qed

lemma get_data_len_line: "get_data_len (''DATA '' @ dec_nat n @ s) = int n" if "s = [] \<or> \<not> isdigit (hd s)"
proof -
  have "dropWhile (\<lambda>c. \<not> isdigit c) (dec_nat n @ s) = dec_nat n @ s"
    using isdigit_dec_nat [of "hd (dec_nat n)" n] dec_nat_not_Nil [of n] by (cases "dec_nat n") auto
  then have "dropWhile (\<lambda>c. \<not> isdigit c) (''DATA '' @ dec_nat n @ s) = dec_nat n @ s"
    by (simp add: isdigit_def)
  with that show ?thesis by (simp add: get_data_len_def del: append.simps)
qed

lemma read_data_link:
  assumes "unread l = data @ rest" "data \<noteq> []"
  shows "read_data (link_tcp rtr pieces) (length data) [] l = Some (no_err, data, l\<lparr>unread := rest\<rparr>)"
proof -
  have "tcp_read (link_tcp rtr pieces) (length data) l = Some (Some data, l\<lparr>unread := rest\<rparr>)"
    using assms by (simp add: link_tcp_def)
  with assms(2) show ?thesis
    by (subst read_data.simps, simp) (subst read_data.simps, simp)
qed

lemma read_msg_short: "has_handler rtr el h H \<Longrightarrow> short_line (read_msg (handler_name el h))"
proof -
  assume H: "has_handler rtr el h H"
  have "\<forall>c\<in>set (read_msg (handler_name el h)). text_char c"
    using quoted_text [OF handler_name_plain [OF H]] text_chars(2,5) unfolding read_msg_def by (simp only: set_append ball_Un)
  moreover have "length (read_msg (handler_name el h)) \<le> 1018"
    using has_handler_length [OF H] by (simp add: read_msg_def quoted_def)
  ultimately show "short_line (read_msg (handler_name el h))" by (rule short_text)
qed

lemma cs_read_link:
  assumes "cuts pieces" "idle l" "has_handler rtr el h H" "read_visible H"
    and "call_read H [] (router_state l) = Inr (data, errh, r1)" "nerrors errh = 0" "length data < 2 ^ 31"
  shows "cs_read_conn (link_tcp rtr pieces) el h l = Some (no_err, data, l\<lparr>router_state := r1\<rparr>)"
proof -
  let ?name = "handler_name el h" and ?t = "link_tcp rtr pieces"
  let ?rest = "''DATA '' @ dec_nat (length data) @ CRLF @ data"
  let ?l = "\<lambda>u. \<lparr>server_conn = Some (holding []), router_state = r1, unread = u\<rparr>"
  have cmd: "''READ '' @ ?name @ newline = read_line ?name @ newline" by (simp add: read_line_def)
  have fed: "fold (serve_piece rtr) (pieces (read_line ?name @ newline)) l
      = ?l (reply_text CSERR_OK [read_msg ?name] @ ?rest)"
    using assms(1,2) by (subst read_request [OF assms(3-6)]) (auto simp: idle_def cuts_def)
  obtain line where line: "reply_loop ?t (?l (reply_text CSERR_OK [read_msg ?name] @ ?rest)) = Some (no_err, line, ?l ?rest)"
      "get_resp_code line = CSERR_OK"
    using reply_loop_link [OF codes_ok(1), of "[read_msg ?name]" "?l (reply_text CSERR_OK [read_msg ?name] @ ?rest)" ?rest rtr pieces]
      read_msg_short [OF assms(3)] by (auto simp del: reply_text.simps)
  have dl: "readline ?t (?l ?rest) = Some (no_err, ''DATA '' @ dec_nat (length data) @ [CHR 0x0D] @ newline, ?l data)"
  proof -
    have "length (dec_nat (length data)) \<le> 10" using length_dec_nat [of "length data" 10] assms(7) by simp
    moreover have "CHR 0x0A \<notin> set (dec_nat (length data))" using plain_nameD(3) [OF dec_nat_plain] .
    ultimately show ?thesis
      using readline_link [of "?l ?rest" "''DATA '' @ dec_nat (length data) @ [CHR 0x0D]" data rtr pieces]
      by (simp add: newline_def MAX_LINE_SZ_def)
  qed
  have num: "get_data_len (''DATA '' @ dec_nat (length data) @ [CHR 0x0D] @ newline) = int (length data)"
    using get_data_len_line [of "CHR 0x0D # newline" "length data"] by (simp add: isdigit_def)
  have "?l [] = l\<lparr>router_state := r1\<rparr>" using assms(2) by (cases l) (simp add: idle_def)
  moreover have "cs_read_conn ?t el h l = (if data = [] then Some (no_err, [], ?l data) else read_data ?t (length data) [] (?l data))"
    unfolding cs_read_conn_def cmd send_all_def tcp_write_link
    by (simp add: fed line dl num Let_def del: reply_text.simps append.simps)
  ultimately show ?thesis
    using read_data_link [of "?l data" data "[]" rtr pieces] by (cases "data = []") simp_all
qed

text \<open>
  C16. A read of the client returns what the handler returned: on an idle connection to a router that has the handler
  \<open>h\<close> of the element \<open>el\<close>, the client gets exactly the bytes the handler gave, any bytes up to the range of \<^verbatim>\<open>int\<close>, and
  the connection is idle again, however it cuts the request.
\<close>

theorem client_read_returns_data:
  assumes "cuts pieces" "idle l" "has_handler rtr el h H" "read_visible H"
    and "call_read H [] (router_state l) = Inr (data, errh, r1)" "nerrors errh = 0" "length data < 2 ^ 31"
  shows "cs_read_conn (link_tcp rtr pieces) el h l = Some (no_err, data, l\<lparr>router_state := r1\<rparr>)"
  using assms by (rule cs_read_link)

theorem client_read_returns_data_witness:
  "cs_read_conn (link_tcp sample_tables whole) ''r/rt_AD'' ''enabled'' (sample_link (\<lambda>_. empty_table))
    = Some (no_err, ''1'', sample_link (\<lambda>_. empty_table))"
proof -
  let ?H = "enabled_hook ''invalid route'' ''r/rt_AD''"
  let ?ts = "\<lambda>_ :: string. empty_table"
  have H: "has_handler sample_tables ''r/rt_AD'' ''enabled'' ?H"
    by (intro sample_has_handler)
      (simp_all add: table_handler_def visible_def enabled_hook_def read_hook_def plain_name_def visible_char_def)
  have "dec_int 1 = ''1''" by (simp add: dec_int_def dec_nat.simps hex_digit_def)
  then have c: "call_read ?H [] (router_state (sample_link ?ts)) = Inr (''1'', no_reports, ?ts)"
    by (simp add: enabled_hook_def read_hook_def read_handler_def get_enabled_def sample_link_def empty_table_def)
  show ?thesis
    using client_read_returns_data [OF cuts_whole idle_sample H _ c]
    by (simp add: enabled_hook_def read_hook_def no_reports_def sample_link_def)
qed

section \<open>Replies that do not end\<close>

lemma reply_loop_continued:
  assumes "unread l = line @ newline" "CHR 0x0A \<notin> set line" "length line < MAX_LINE_SZ" "3 < length line"
    "line ! 3 = CHR ''-''" "server_conn l \<noteq> None"
  shows "reply_loop (link_tcp rtr pieces) l = None"
proof -
  let ?t = "link_tcp rtr pieces" and ?l = "l\<lparr>unread := []\<rparr>"
  have "readline ?t ?l = None"
    using assms(6) by (subst readline_def, subst readline_loop.simps) (simp add: link_tcp_def)
  then have "reply_loop ?t ?l = None" by (subst reply_loop.simps) simp
  with readline_link [of l line "[]" rtr pieces] assms show ?thesis
    by (subst reply_loop.simps) (simp add: nth_append)
qed

text \<open>
  C37. The reply to a bad length does not end. When the length in a \<^verbatim>\<open>WRITEDATA\<close> command is not a number, the server
  writes one line, \<^verbatim>\<open>500-Syntax error in '%s'\<close>, whose dash announces another one; it then waits for the next command,
  and a client that follows the protocol waits for the rest of the reply for ever.
\<close>

theorem bad_length_reply_open:
  assumes "idle l" "plain_name name" "plain_name len" "cp_integer_int len = None"
  shows "\<exists>l'. serve_piece rtr (''WRITEDATA '' @ name @ '' '' @ len @ newline) l = l' \<and> server_conn l' = Some (holding [])
    \<and> unread l' = ''500-Syntax error in '' @ quoted ''%s'' @ CRLF
    \<and> reply_loop (link_tcp rtr pieces) l' = None"
proof -
  let ?line = "''WRITEDATA '' @ name @ '' '' @ len"
  let ?reply = "''500-Syntax error in '' @ quoted ''%s'' @ CRLF"
  note p = plain_nameD [OF assms(2)] plain_nameD [OF assms(3)]
  have "words_of (''WRITEDATA'' @ '' '' @ s) = ''WRITEDATA'' # words_of s" for s
    by (subst words_of_word) (auto simp: isspace_def)
  moreover have "words_of (name @ '' '' @ s) = name # words_of s" for s
    using p(1,2) by (subst words_of_word) (auto simp: isspace_def)
  moreover have "words_of (len @ newline) = [len]"
    using p(5,6) by (subst words_of_word) (auto simp: isspace_def newline_def)
  ultimately have w: "words_of (?line @ newline) = [''WRITEDATA'', name, len]" by simp
  have line: "CHR 0x0A \<notin> set ?line" "CHR 0x0D \<notin> set ?line" using p by auto
  have msg: "dec_int CSERR_SYNTAX @ CHR ''-'' # printable_text (''Syntax error in '' @ quoted ''%s'') @ CRLF = ?reply"
    by (simp add: dec_int_def dec_nat.simps hex_digit_def quoted_def printable_text_def printable_char_def)
  have m: "conn_message CSERR_SYNTAX (''Syntax error in '' @ quoted ''%s'') True c = Inr (c\<lparr>out_text := out_text c @ ?reply\<rparr>)"
    if "\<not> out_closed c" for c
    unfolding msg [symmetric] using message_ok [of CSERR_SYNTAX c _ True] that by simp
  have "parse_command rtr (?line @ newline) c r = replies (- 1) r (conn_message CSERR_SYNTAX (''Syntax error in '' @ quoted ''%s'') True c)"
    for c and r :: 'a
    unfolding parse_command_def data_command_def w Let_def using toupper_commands(1) assms(4) by simp
  with m have "parse_command rtr (?line @ newline) c r = Inr (- 1, c\<lparr>out_text := out_text c @ ?reply\<rparr>, r)"
    if "\<not> out_closed c" for c and r :: 'a
    using that by (simp only: replies_def bind_run_simps not_False_eq_True)
  then have run: "run_command rtr (holding (?line @ newline @ [])) (router_state l)
      = Inr (False, (holding [])\<lparr>out_text := ?reply\<rparr>, router_state l)"
    unfolding run_whole_line [OF line] by (simp add: newline_def contract_def holding_def)
  have l': "serve_piece rtr (?line @ newline) l
      = \<lparr>server_conn = Some (holding []), router_state = router_state l, unread = unread l @ ?reply\<rparr>"
    using assms(1) run by (intro serve_waiting [where b = False and p = "[]"]) (simp_all add: idle_def)
  moreover have "reply_loop (link_tcp rtr pieces) (serve_piece rtr (?line @ newline) l) = None"
    using assms(1) l'
    by (intro reply_loop_continued [where line = "''500-Syntax error in '' @ quoted ''%s'' @ [CHR 0x0D]"])
      (simp_all add: idle_def newline_def quoted_def MAX_LINE_SZ_def)
  ultimately show ?thesis using assms(1) by (simp add: idle_def)
qed

theorem bad_length_reply_open_witness:
  "reply_loop (link_tcp sample_tables whole) (serve_piece sample_tables (''WRITEDATA r/rt_AD.set4 x'' @ newline) (sample_link (\<lambda>_. empty_table))) = None"
proof -
  have "plain_name ''r/rt_AD.set4''" "plain_name ''x''" by (simp_all add: plain_name_def visible_char_def)
  moreover have "cp_integer_int ''x'' = None" by code_simp
  ultimately show ?thesis
    using bad_length_reply_open [OF idle_sample, of "''r/rt_AD.set4''" "''x''" sample_tables "\<lambda>_. empty_table" whole] by simp
qed

text \<open>
  C38. A connection that ends inside the data of a reply is not noticed: when the server is gone and fewer bytes than
  announced have arrived, the client's loop reads nothing again and again and never returns.
\<close>

theorem lost_data_never_returns:
  assumes "server_conn l = None" "length buf + length (unread l) < num"
  shows "read_data (link_tcp rtr pieces) num buf l = None"
proof -
  have "read_data t num buf l = Some y \<Longrightarrow>
      t = link_tcp rtr pieces \<longrightarrow> server_conn l = None \<longrightarrow> \<not> length buf + length (unread l) < num" for t y
  proof (rule read_data.raw_induct [where P = "\<lambda>t num buf l y. t = link_tcp rtr pieces \<longrightarrow> server_conn l = None \<longrightarrow>
      \<not> length buf + length (unread l) < num"], intro impI notI)
    fix rec t num buf and l :: "'a link" and y
    assume IH: "\<And>t num buf l y. rec t num buf l = Some y \<Longrightarrow>
        t = link_tcp rtr pieces \<longrightarrow> server_conn l = None \<longrightarrow> \<not> length buf + length (unread l) < num"
      and body: "(if num \<le> length buf then Some (no_err, take num buf, l)
        else Option.bind (tcp_read t (num - length buf) l) (\<lambda>(bytes, s1).
          case bytes of None \<Rightarrow> Some (sys_err, [], s1) | Some cs \<Rightarrow> rec t num (buf @ cs) s1)) = Some y"
      and t: "t = link_tcp rtr pieces" and gone: "server_conn l = None" and short: "length buf + length (unread l) < num"
    let ?l = "l\<lparr>unread := drop (num - length buf) (unread l)\<rparr>"
    have "rec t num (buf @ unread l) ?l = Some y"
      using body gone short by (simp add: t link_tcp_def)
    from IH [OF this] t gone short show False by simp
  qed
  with assms show ?thesis by (cases "read_data (link_tcp rtr pieces) num buf l") auto
qed

theorem lost_data_never_returns_witness:
  "read_data (link_tcp sample_tables whole) 10 [] ((sample_link (\<lambda>_. empty_table))\<lparr>server_conn := None, unread := ''AD:1''\<rparr>) = None"
  by (rule lost_data_never_returns) simp_all

end
