(* ===== verification/Xia_Router.thy ===== *)
theory Xia_Router
  imports Control_Exchange
begin

text \<open>
  The daemons' interface to the route tables of Click (\<^verbatim>\<open>daemons/common/XIARouter.cc\<close>): routes are written to the
  handlers of the element \<^verbatim>\<open>rt_<type>\<close> of a router and read from its list. The resolver of host names is an argument.
\<close>

section \<open>Operations\<close>

abbreviation (input) XR_OK :: int where "XR_OK \<equiv> 0"
abbreviation (input) XR_NOT_CONNECTED :: int where "XR_NOT_CONNECTED \<equiv> - 1"
abbreviation (input) XR_ALREADY_CONNECTED :: int where "XR_ALREADY_CONNECTED \<equiv> - 2"
abbreviation (input) XR_CLICK_ERROR :: int where "XR_CLICK_ERROR \<equiv> - 3"
abbreviation (input) XR_ROUTER_NOT_SET :: int where "XR_ROUTER_NOT_SET \<equiv> - 7"
abbreviation (input) XR_BAD_HOSTNAME :: int where "XR_BAD_HOSTNAME \<equiv> - 8"
abbreviation (input) XR_INVALID_XID :: int where "XR_INVALID_XID \<equiv> - 9"

record 'c XIARouter =
  xr_connected :: bool
  xr_router :: string
  xr_cserr :: err_t
  xr_cs :: "'c ControlSocketClient"

record XIARouteEntry =
  xre_xid :: string
  xre_nextHop :: string
  xre_port :: u16
  xre_flags :: u64

definition XIARouter_new :: "'c \<Rightarrow> string \<Rightarrow> 'c XIARouter" where
  "XIARouter_new c rtr =
     \<lparr>xr_connected = False, xr_router = rtr, xr_cserr = no_err, xr_cs = \<lparr>cs_init = False, cs_conn = c\<rparr>\<rparr>"

definition setRouter :: "string \<Rightarrow> 'c XIARouter \<Rightarrow> 'c XIARouter" where
  "setRouter r x = x\<lparr>xr_router := r\<rparr>"

definition xr_connect ::
  "'c tcp \<Rightarrow> (string \<Rightarrow> u32 option) \<Rightarrow> string \<Rightarrow> u16 \<Rightarrow> 'c XIARouter \<Rightarrow> (int \<times> 'c XIARouter) option" where
  "xr_connect t resolve clickHost controlPort x =
     (if xr_connected x then Some (XR_ALREADY_CONNECTED, x)
      else case resolve clickHost of
        None \<Rightarrow> Some (XR_BAD_HOSTNAME, x)
      | Some addr \<Rightarrow>
          map_option (\<lambda>(err, cs).
            let x1 = x\<lparr>xr_cserr := err, xr_cs := cs\<rparr>
            in if err \<noteq> no_err then (XR_NOT_CONNECTED, x1) else (XR_OK, x1\<lparr>xr_connected := True\<rparr>))
          (cs_configure t addr controlPort (xr_cs x)))"

definition xr_close :: "'c tcp \<Rightarrow> 'c XIARouter \<Rightarrow> 'c XIARouter" where
  "xr_close t x =
     (if xr_connected x
      then let (err, cs) = cs_close t (xr_cs x) in x\<lparr>xr_cserr := err, xr_cs := cs, xr_connected := False\<rparr>
      else x\<lparr>xr_connected := False\<rparr>)"

definition xr_version :: "'c tcp \<Rightarrow> 'c XIARouter \<Rightarrow> (int \<times> string \<times> 'c XIARouter) option" where
  "xr_version t x =
     (if \<not> xr_connected x then Some (XR_NOT_CONNECTED, [], x)
      else map_option (\<lambda>(err, ver, cs).
        (if err = no_err then XR_OK else XR_CLICK_ERROR, ver, x\<lparr>xr_cserr := err, xr_cs := cs\<rparr>))
      (cs_read t [] ''version'' (xr_cs x)))"

text \<open>The part of a name before \<^verbatim>\<open>/xrc\<close>, where it has one.\<close>

fun before_xrc :: "string \<Rightarrow> string option" where
  "before_xrc [] = None"
| "before_xrc (c # cs) =
     (if take 4 (c # cs) = ''/xrc'' then Some [] else map_option (Cons c) (before_xrc cs))"

definition listRouters :: "'c tcp \<Rightarrow> 'c XIARouter \<Rightarrow> (int \<times> string list \<times> 'c XIARouter) option" where
  "listRouters t x =
     (if \<not> xr_connected x then Some (XR_NOT_CONNECTED, [], x)
      else map_option (\<lambda>(err, els, cs).
        let x1 = x\<lparr>xr_cserr := err, xr_cs := cs\<rparr>
        in if err \<noteq> no_err then (XR_CLICK_ERROR, [], x1) else (0, List.map_filter before_xrc els, x1))
      (get_config_el_names t (xr_cs x)))"

text \<open>
  A field of a line from \<open>start\<close> to the next comma, and where the field after it starts. Positions are kept in
  32-bit variables: where there is no comma the field goes to the end, and the next one starts at 0 again.
\<close>

definition comma_field :: "string \<Rightarrow> nat \<Rightarrow> string \<times> nat" where
  "comma_field line start =
     (let field = takeWhile (\<lambda>c. c \<noteq> CHR '','') (drop start line)
      in (field, if start + length field < length line then start + length field + 1 else 0))"

definition route_entry :: "string \<Rightarrow> XIARouteEntry" where
  "route_entry line =
     (let (xid, p1) = comma_field line 0;
          (port, p2) = comma_field line p1;
          (nextHop, p3) = comma_field line p2
      in \<lparr>xre_xid = xid, xre_nextHop = nextHop, xre_port = of_int (atoi port), xre_flags = of_int (atoi (drop p3 line))\<rparr>)"

definition table_name :: "'c XIARouter \<Rightarrow> string \<Rightarrow> string" where
  "table_name x xidtype = xr_router x @ ''/xrc/n/proc/rt_'' @ xidtype"

text \<open>The number of entries and the entries, or an error and none: the caller's vector is then left as it was.\<close>

definition getRoutes :: "'c tcp \<Rightarrow> string \<Rightarrow> 'c XIARouter \<Rightarrow> (int \<times> XIARouteEntry list \<times> 'c XIARouter) option" where
  "getRoutes t xidtype x =
     (if \<not> xr_connected x then Some (XR_NOT_CONNECTED, [], x)
      else if xidtype = [] then Some (XR_INVALID_XID, [], x)
      else if xr_router x = [] then Some (XR_ROUTER_NOT_SET, [], x)
      else map_option (\<lambda>(err, result, cs).
        let x1 = x\<lparr>xr_cserr := err, xr_cs := cs\<rparr>;
            xrt = map route_entry (cs_split result (CHR 0x0A))
        in if err \<noteq> no_err then (XR_CLICK_ERROR, [], x1) else (int (length xrt), xrt, x1))
      (cs_read t (table_name x xidtype) ''list'' (xr_cs x)))"

text \<open>\<^verbatim>\<open>sizeof\<close> of a \<^verbatim>\<open>std::string\<close>, which bounds the type's name.\<close>

definition sizeof_string :: nat where
  "sizeof_string = 32"

definition route_entry_text :: "string \<Rightarrow> string \<Rightarrow> int \<Rightarrow> string \<Rightarrow> u64 \<Rightarrow> string" where
  "route_entry_text cmd xid port next flags =
     (if cmd = ''remove'' then xid
      else xid @ '','' @ dec_int port @ '','' @ next @ '','' @ dec_int (sint (ucast flags :: u32)))"

definition updateRoute ::
  "'c tcp \<Rightarrow> string \<Rightarrow> string \<Rightarrow> int \<Rightarrow> string \<Rightarrow> u64 \<Rightarrow> 'c XIARouter \<Rightarrow> (int \<times> 'c XIARouter) option" where
  "updateRoute t cmd xid port next flags x =
     (let xidtype = takeWhile (\<lambda>c. c \<noteq> CHR '':'') xid in
      if \<not> xr_connected x then Some (XR_NOT_CONNECTED, x)
      else if xid = [] then Some (XR_INVALID_XID, x)
      else if next \<noteq> [] \<and> CHR '':'' \<notin> set next then Some (XR_INVALID_XID, x)
      else if CHR '':'' \<notin> set xid \<or> sizeof_string \<le> length xidtype then Some (XR_INVALID_XID, x)
      else if xr_router x = [] then Some (XR_ROUTER_NOT_SET, x)
      else
        let mutableXID = (if take 1 (drop (length xidtype + 1) xid) = ''-'' then ''-'' else xid)
        in map_option (\<lambda>(err, _, cs).
             (if err \<noteq> no_err then XR_CLICK_ERROR else XR_OK, x\<lparr>xr_cserr := err, xr_cs := cs\<rparr>))
           (cs_write t (table_name x xidtype) cmd (route_entry_text cmd mutableXID port next flags) (xr_cs x)))"

definition addRoute ::
  "'c tcp \<Rightarrow> string \<Rightarrow> int \<Rightarrow> string \<Rightarrow> u64 \<Rightarrow> 'c XIARouter \<Rightarrow> (int \<times> 'c XIARouter) option" where
  "addRoute t xid port next flags x = updateRoute t ''add4'' xid port next flags x"

definition setRoute ::
  "'c tcp \<Rightarrow> string \<Rightarrow> int \<Rightarrow> string \<Rightarrow> u64 \<Rightarrow> 'c XIARouter \<Rightarrow> (int \<times> 'c XIARouter) option" where
  "setRoute t xid port next flags x = updateRoute t ''set4'' xid port next flags x"

definition delRoute :: "'c tcp \<Rightarrow> string \<Rightarrow> 'c XIARouter \<Rightarrow> (int \<times> 'c XIARouter) option" where
  "delRoute t xid x = updateRoute t ''remove'' xid 0 [] 0 x"

fun cserror :: "err_t \<Rightarrow> string" where
  "cserror no_err = ''no error''"
| "cserror sys_err = ''O/S or networking error, check errno for more information''"
| "cserror init_err = ''tried to perform operation on an unconfigured ControlSocketClient''"
| "cserror reinit_err = ''tried to re-configure the client before close()ing it''"
| "cserror no_element = ''specified element does not exist''"
| "cserror no_handler = ''specified handler does not exist''"
| "cserror handler_no_perm = ''router denied access to the specified handler''"
| "cserror handler_err = ''handler returned an error''"
| "cserror handler_bad_format = ''bad format in calling handler''"
| "cserror click_err = ''unexpected response or error from the router''"
| "cserror too_short = ''user buffer was too short''"

section \<open>A router that is connected to its tables\<close>

definition tables_of :: "route_tables link XIARouter \<Rightarrow> route_tables" where
  "tables_of x = router_state (cs_conn (xr_cs x))"

definition with_tables :: "err_t \<Rightarrow> route_tables \<Rightarrow> route_tables link XIARouter \<Rightarrow> route_tables link XIARouter" where
  "with_tables err ts x =
     x\<lparr>xr_cserr := err, xr_cs := (xr_cs x)\<lparr>cs_conn := (cs_conn (xr_cs x))\<lparr>router_state := ts\<rparr>\<rparr>\<rparr>"

definition ready :: "route_tables link XIARouter \<Rightarrow> bool" where
  "ready x \<longleftrightarrow> xr_connected x \<and> cs_init (xr_cs x) \<and> idle (cs_conn (xr_cs x))
     \<and> plain_name (xr_router x) \<and> CHR ''.'' \<notin> set (xr_router x) \<and> length (xr_router x) \<le> 800"

abbreviation click_link ::
  "string \<Rightarrow> string list \<Rightarrow> (string \<Rightarrow> string list) \<Rightarrow> route_tables link tcp" where
  "click_link why els pieces \<equiv> link_tcp (table_router (no_context (\<lambda>_. None)) why els) pieces"

lemma ready_with_tables [simp]:
  "ready (with_tables err ts x) = ready x" "tables_of (with_tables err ts x) = ts"
  "table_name (with_tables err ts x) ty = table_name x ty"
  by (simp_all add: ready_def with_tables_def tables_of_def idle_def table_name_def)

lemma type_name_chars:
  assumes "known_type (ntohl t)"
  shows "type_name t \<noteq> []" "list_all visible_char (type_name t)" "CHR ''.'' \<notin> set (type_name t)" "CHR '':'' \<notin> set (type_name t)"
  using assms by (auto simp: known_type_def type_name_def visible_char_def)

lemma table_has_handler:
  assumes "ready x" "table_name x ty \<in> set els" "list_all visible_char ty" "CHR ''.'' \<notin> set ty" "length ty \<le> 32"
    and "table_handler ctx why (table_name x ty) h = Some H" "visible H" "plain_name h" "length h \<le> 10"
  shows "has_handler (table_router ctx why els) (table_name x ty) h H"
proof -
  obtain i where i: "find_element (table_router ctx why els) (table_name x ty) = Some i"
      "handler_of (table_router ctx why els) (Some i) h = Some H"
    using table_router_handler [OF assms(2), of ctx why h] assms(6) by auto
  have "plain_name (table_name x ty)" "CHR ''.'' \<notin> set (table_name x ty)" "table_name x ty \<noteq> ''0''"
      "length (table_name x ty) \<le> 850"
    using assms(1,3,4,5) by (auto simp: ready_def table_name_def plain_name_def visible_char_def)
  with i assms(7-9) show ?thesis by (auto simp: has_handler_def)
qed

lemma updateRoute_link:
  assumes x: "cuts pieces" "ready x" and xid: "CHR '':'' \<notin> set ty" "ty \<noteq> []" "list_all visible_char ty" "CHR ''.'' \<notin> set ty"
      "length ty < sizeof_string"
    and el: "table_name x ty \<in> set els" and nxt: "next = [] \<or> CHR '':'' \<in> set next"
    and H: "table_handler (no_context (\<lambda>_. None)) why (table_name x ty) cmd = Some (write_hook why (table_name x ty) f)"
      "plain_name cmd" "length cmd \<le> 10"
    and data: "data = route_entry_text cmd (if take 1 name = ''-'' then ''-'' else ty @ '':'' @ name) port next flags"
      "length data \<le> LARGEST_HANDLER_WRITE"
    and f: "f data (tables_of x (table_name x ty)) = (ok, t')" "short_line why"
  shows "updateRoute (click_link why els pieces) cmd (ty @ '':'' @ name) port next flags x =
    Some (if ok then XR_OK else XR_CLICK_ERROR,
      with_tables (if ok then no_err else handler_err) ((tables_of x)(table_name x ty := t')) x)"
proof -
  let ?el = "table_name x ty" and ?H = "write_hook why (table_name x ty) f"
  let ?err = "if ok then no_err else handler_err"
  have tw: "takeWhile (\<lambda>c. c \<noteq> CHR '':'') (ty @ CHR '':'' # name) = ty"
    using xid(1) by (subst takeWhile_append2) auto
  have HH: "has_handler (table_router (no_context (\<lambda>_. None)) why els) ?el cmd ?H"
    using xid(5) by (intro table_has_handler [OF x(2) el xid(3,4) _ H(1) _ H(2,3)])
      (simp_all add: visible_def write_hook_def sizeof_string_def)
  have c: "call_write ?H data (router_state (cs_conn (xr_cs x))) =
      Inr (if ok then 0 else - 1, if ok then no_reports else refusal why, (tables_of x)(?el := t'))"
    using f by (simp add: write_hook_def tables_of_def)
  have "cs_write_conn (click_link why els pieces) ?el cmd data (cs_conn (xr_cs x)) =
      Some (?err, [], (cs_conn (xr_cs x))\<lparr>router_state := (tables_of x)(?el := t')\<rparr>)"
    using cs_write_link [OF x(1) _ HH _ data(2) c] x(2) f(2)
    by (simp add: ready_def write_hook_def no_reports_def refusal_def split: if_splits)
  then have w: "cs_write (click_link why els pieces) ?el cmd data (xr_cs x) =
      Some (?err, [], (xr_cs x)\<lparr>cs_conn := (cs_conn (xr_cs x))\<lparr>router_state := (tables_of x)(?el := t')\<rparr>\<rparr>)"
    using x(2) by (simp add: cs_write_def check_init_def ready_def)
  have r: "xr_connected x" "xr_router x \<noteq> []" using x(2) by (auto simp: ready_def plain_name_def)
  show ?thesis
    using r xid(2,5) nxt w unfolding data(1)
    by (auto simp: updateRoute_def Let_def tw with_tables_def)
qed

section \<open>Routes that are set\<close>

definition type_table :: "'c XIARouter \<Rightarrow> click_xia_xid \<Rightarrow> string" where
  "type_table x d = table_name x (type_name (xid_type d))"

definition nexthop_string :: "XIARouteData \<Rightarrow> string" where
  "nexthop_string r = (case rnexthop r of None \<Rightarrow> [] | Some h \<Rightarrow> print_xid h)"

lemma length_print_xid: "canonical_xid d \<Longrightarrow> length (print_xid d) \<le> 46"
  using type_name_known [of "xid_type d"]
  by (simp add: canonical_xid_def print_xid_def wf_xid_def CLICK_XIA_XID_ID_LEN_def)

lemma length_dec_int: "- (2 ^ 31) \<le> i \<Longrightarrow> i < 2 ^ 31 \<Longrightarrow> length (dec_int i) \<le> 11"
proof (cases "i < 0")
  case True
  moreover assume "- (2 ^ 31) \<le> i"
  ultimately show ?thesis using length_dec_nat [of "nat (- i)" 10] by (simp add: dec_int_def nat_less_iff)
next
  case False
  moreover assume "i < 2 ^ 31"
  ultimately show ?thesis using length_dec_nat [of "nat i" 10] by (simp add: dec_int_def nat_less_iff)
qed

lemma flags_text:
  assumes "unat (f :: u32) < 2 ^ 31"
  shows "dec_int (sint (ucast (ucast f :: u64) :: u32)) = dec_nat (unat f)"
proof -
  have "(ucast (ucast f :: u64) :: u32) = f" by (intro bit_word_eqI) (simp add: bit_simps)
  moreover have "sint f = int (unat f)"
    using sint_u32_of_nat [OF assms] by simp
  ultimately show ?thesis by (simp add: dec_int_def)
qed

lemma route_entry_text_printed:
  assumes "unat (rflags r) < 2 ^ 31" "cmd \<noteq> ''remove''"
  shows "route_entry_text cmd (print_xid d) (rport r) (nexthop_string r) (ucast (rflags r)) = route_text print_xid (To d) r"
  using assms flags_text by (simp add: route_entry_text_def route_text_def key_text_def nexthop_string_def)

lemma route_text_length:
  assumes "canonical_xid d" "route_ok canonical_xid r"
  shows "length (route_text print_xid (To d) r) \<le> 120"
proof -
  have "length (dec_nat (unat (rflags r))) \<le> 10"
    using length_dec_nat [of "unat (rflags r)" 10] unat_less_widths(3) [of "rflags r"] by simp
  with assms length_print_xid [OF assms(1)] length_dec_int [of "rport r"] show ?thesis
    by (auto simp: route_text_def key_text_def route_ok_def split: option.splits dest!: length_print_xid)
qed

lemma hex_no_dash: "take 1 (id_hex bs) \<noteq> ''-''"
proof
  assume "take 1 (id_hex bs) = ''-''"
  then have "CHR ''-'' \<in> set (id_hex bs)" by (cases "id_hex bs") auto
  then show False using id_hex_isxdigit [of "CHR ''-''" bs] by (simp add: isxdigit_def isdigit_def)
qed

definition mode_command :: "bool \<Rightarrow> string" where
  "mode_command add_mode = (if add_mode then ''add4'' else ''set4'')"

lemma writeRoute_link:
  assumes "cuts pieces" "ready x" "canonical_xid d" "route_ok canonical_xid r" "unat (rflags r) < 2 ^ 31"
    and "type_table x d \<in> set els" "short_line why"
    and tk: "tk \<longleftrightarrow> add_mode \<and> routes_of (tables_of x (type_table x d)) (To d) \<noteq> None"
  shows "updateRoute (click_link why els pieces) (mode_command add_mode) (print_xid d) (rport r) (nexthop_string r) (ucast (rflags r)) x =
    Some (if \<not> tk then XR_OK else XR_CLICK_ERROR, with_tables (if \<not> tk then no_err else handler_err)
      ((tables_of x)(type_table x d := (if tk then id else store_route d r) (tables_of x (type_table x d)))) x)"
proof -
  have k: "known_type (ntohl (xid_type d))" using assms(3) by (simp add: canonical_xid_def)
  note ty = type_name_chars [OF k]
  let ?el = "table_name x (type_name (xid_type d))" and ?ctx = "no_context (\<lambda>_. None)" and ?cmd = "mode_command add_mode"
  have pr: "print_xid d = type_name (xid_type d) @ '':'' @ id_hex (xid_id d)" by (simp add: print_xid_def)
  have f: "set_handler4 ?ctx add_mode (route_text print_xid (To d) r) (tables_of x ?el) =
      (\<not> tk, (if tk then id else store_route d r) (tables_of x ?el))"
    using assms(3,4) tk by (auto simp: canonical_field.set_handler4_printed key_ok_def taken_def type_table_def)
  have nh: "nexthop_string r = [] \<or> CHR '':'' \<in> set (nexthop_string r)"
    by (auto simp: nexthop_string_def print_xid_def split: option.splits)
  have data: "route_text print_xid (To d) r = route_entry_text ?cmd
      (if take 1 (id_hex (xid_id d)) = ''-'' then ''-'' else type_name (xid_type d) @ '':'' @ id_hex (xid_id d))
      (rport r) (nexthop_string r) (ucast (rflags r))"
    using route_entry_text_printed [OF assms(5), of ?cmd d] hex_no_dash pr by (simp add: mode_command_def)
  have len: "length (route_text print_xid (To d) r) \<le> LARGEST_HANDLER_WRITE"
    using route_text_length [OF assms(3,4)] by (simp add: LARGEST_HANDLER_WRITE_def)
  have H: "table_handler ?ctx why ?el ?cmd = Some (write_hook why ?el (set_handler4 ?ctx add_mode))"
    by (simp add: table_handler_def mode_command_def)
  show ?thesis
    unfolding pr type_table_def
    using assms(6) type_name_known [OF k]
    by (intro updateRoute_link [OF assms(1,2) ty(4,1,2,3) _ _ nh H _ _ data len f assms(7)])
      (simp_all add: type_table_def mode_command_def plain_name_def visible_char_def sizeof_string_def)
qed

text \<open>
  C10. A daemon that sets a route has it in the table of Click. Through the client, the control socket and the parser of
  the handler \<^verbatim>\<open>set4\<close>, \<^verbatim>\<open>XIARouter::setRoute\<close> with the printed XIDs of a destination and a next hop succeeds and stores
  exactly this port, next hop and flags for the destination in the table of its type; no other table and no other route
  changes, and the connection can be used again. Flags have to be below \<open>2\<^sup>3\<^sup>1\<close>, since they are printed as a signed number.
\<close>

theorem setRoute_installs_route:
  assumes "cuts pieces" "ready x" "canonical_xid d" "route_ok canonical_xid r" "unat (rflags r) < 2 ^ 31"
    and "type_table x d \<in> set els" "short_line why"
  shows "\<exists>x1. setRoute (click_link why els pieces) (print_xid d) (rport r) (nexthop_string r) (ucast (rflags r)) x =
      Some (XR_OK, x1)
    \<and> ready x1
    \<and> routes_of (tables_of x1 (type_table x d)) = (routes_of (tables_of x (type_table x d)))(To d \<mapsto> r)
    \<and> (\<forall>el. el \<noteq> type_table x d \<longrightarrow> tables_of x1 el = tables_of x el)"
  using assms(2) writeRoute_link [OF assms, of False False] by (simp add: setRoute_def mode_command_def)

definition sample_XIARouter :: "route_tables link XIARouter" where
  "sample_XIARouter =
     \<lparr>xr_connected = True, xr_router = ''router0'', xr_cserr = no_err,
      xr_cs = \<lparr>cs_init = True, cs_conn = sample_link (\<lambda>_. empty_table)\<rparr>\<rparr>"

lemma sample_ready: "ready sample_XIARouter" "tables_of sample_XIARouter = (\<lambda>_. empty_table)"
    "table_name sample_XIARouter ''HID'' = ''router0/xrc/n/proc/rt_HID''"
  using idle_sample
  by (simp_all add: ready_def sample_XIARouter_def tables_of_def sample_link_def plain_name_def visible_char_def table_name_def)

lemma sample_type_table: "type_table sample_XIARouter (sample_host b) = ''router0/xrc/n/proc/rt_HID''"
  using sample_ready(3) by (simp add: type_table_def sample_host_def type_name_def xid_type_defs)

theorem setRoute_installs_route_witness:
  "\<exists>x1. setRoute (click_link ''bad'' [''router0/xrc/n/proc/rt_HID''] whole) (print_xid (sample_host 7)) 2
      (print_xid (sample_host 8)) 0xffff sample_XIARouter = Some (XR_OK, x1)
    \<and> routes_of (tables_of x1 ''router0/xrc/n/proc/rt_HID'') (To (sample_host 7)) =
      Some \<lparr>rport = 2, rflags = 0xffff, rnexthop = Some (sample_host 8)\<rparr>"
proof -
  let ?r = "\<lparr>rport = 2, rflags = 0xffff, rnexthop = Some (sample_host 8)\<rparr>"
  have "route_ok canonical_xid ?r" "unat (rflags ?r) < 2 ^ 31" "short_line ''bad''"
    by (simp_all add: route_ok_def short_line_def printable_text_def printable_char_def)
  then show ?thesis
    using setRoute_installs_route [OF cuts_whole sample_ready(1) canonical_sample, of ?r 7
        "[''router0/xrc/n/proc/rt_HID'']" "''bad''"]
    by (auto simp: sample_type_table nexthop_string_def)
qed

section \<open>Routes that are listed\<close>

lemma cs_split_lines: "cs_split s (CHR 0x0A) = lines_of s"
  by (induction s rule: lines_of.induct) (subst cs_split.simps, subst lines_of.simps, simp add: Let_def)

lemma comma_field_at:
  assumes "CHR '','' \<notin> set f"
  shows "comma_field (pre @ f @ CHR '','' # rest) (length pre) = (f, length pre + length f + 1)"
proof -
  have "takeWhile (\<lambda>c. c \<noteq> CHR '','') (f @ CHR '','' # rest) = f"
    using assms by (subst takeWhile_append2) auto
  then show ?thesis by (simp add: comma_field_def Let_def)
qed

definition listed_entry :: "route_key \<Rightarrow> XIARouteData \<Rightarrow> XIARouteEntry" where
  "listed_entry k r =
     \<lparr>xre_xid = key_text print_xid k, xre_nextHop = nexthop_string r, xre_port = of_int (rport r), xre_flags = ucast (rflags r)\<rparr>"

lemma route_entry_printed:
  assumes "key_ok canonical_xid k" "route_ok canonical_xid r"
  shows "route_entry (route_text print_xid k r) = listed_entry k r"
proof -
  let ?k = "key_text print_xid k" and ?p = "dec_int (rport r)" and ?n = "nexthop_string r" and ?f = "dec_nat (unat (rflags r))"
  have c: "CHR '','' \<notin> set ?k" "CHR '','' \<notin> set ?n" "CHR '','' \<notin> set ?p"
    using canonical_field.route_fields [OF assms] plain_field_dec_int [of "rport r"]
    by (auto simp: plain_field_def nexthop_string_def)
  have t: "route_text print_xid k r = ?k @ CHR '','' # ?p @ CHR '','' # ?n @ CHR '','' # ?f"
    by (simp add: route_text_def nexthop_string_def)
  have "comma_field (route_text print_xid k r) 0 = (?k, length ?k + 1)"
      "comma_field (route_text print_xid k r) (length ?k + 1) = (?p, length ?k + length ?p + 2)"
      "comma_field (route_text print_xid k r) (length ?k + length ?p + 2) = (?n, length ?k + length ?p + length ?n + 3)"
    using comma_field_at [OF c(1), of "[]" "?p @ CHR '','' # ?n @ CHR '','' # ?f"]
      comma_field_at [OF c(3), of "?k @ '',''" "?n @ CHR '','' # ?f"]
      comma_field_at [OF c(2), of "?k @ '','' @ ?p @ '',''" ?f]
    by (simp_all add: t)
  moreover have "drop (length ?k + length ?p + length ?n + 3) (route_text print_xid k r) = ?f"
    using append_eq_conv_conj [of "?k @ '','' @ ?p @ '','' @ ?n @ '',''" ?f "route_text print_xid k r"]
    by (simp add: t add.assoc eval_nat_numeral del: drop_Suc_Cons drop_append)
  moreover have "atoi ?p = rport r" "atoi ?f = int (unat (rflags r))"
    using atoi_dec_int [of "[]"] atoi_dec_nat [of "[]"] by simp_all
  moreover have "(of_nat (unat (rflags r)) :: u64) = ucast (rflags r)" by simp
  ultimately show ?thesis by (simp add: route_entry_def listed_entry_def)
qed

lemma route_text_default_length: "route_ok canonical_xid r \<Longrightarrow> length (route_text print_xid Default_route r) \<le> 120"
  using route_text_length [OF canonical_sample [of 0], of r]
  by (simp add: route_text_def key_text_def print_xid_def [of "sample_host 0"])

lemma length_concat_lines:
  "\<forall>l\<in>set ls. length l \<le> n \<Longrightarrow> length (concat (map (\<lambda>l. l @ [c]) ls)) \<le> Suc n * length ls"
  by (induction ls) auto

definition listable :: "XIARouteData \<Rightarrow> bool" where
  "listable r \<longleftrightarrow> route_ok canonical_xid r \<and> unat (rflags r) < 2 ^ 31"

lemma list_routes_lines:
  assumes "\<forall>(d, r)\<in>set (rts t). canonical_xid d \<and> route_ok canonical_xid r" "route_ok canonical_xid (rtdata t)"
  shows "\<exists>s. list_routes_handler t = Inr s
    \<and> lines_of s = route_text print_xid Default_route (rtdata t) # map (\<lambda>(d, r). route_text print_xid (To d) r) (rts t)
    \<and> length s \<le> 121 * (length (rts t) + 1)"
proof -
  let ?ls = "route_text print_xid Default_route (rtdata t) # map (\<lambda>(d, r). route_text print_xid (To d) r) (rts t)"
  let ?s = "concat (map (\<lambda>l. l @ [CHR 0x0A]) ?ls)"
  have "list_routes_handler t = Inr ?s"
    using assms canonical_field.route_line_printed [OF assms(2), of Default_route]
    by (simp add: list_routes_handler_def canonical_field.list_routes_loop_printed key_text_def)
  moreover have "\<forall>l\<in>set ?ls. CHR 0x0A \<notin> set l"
    using assms canonical_field.route_text_no_newline by (fastforce simp: key_ok_def)
  then have "lines_of ?s = ?ls" by (rule lines_of_concat)
  moreover have "\<forall>l\<in>set ?ls. length l \<le> 120"
    using assms route_text_length [of _] route_text_default_length by fastforce
  then have "length ?s \<le> Suc 120 * length ?ls" by (rule length_concat_lines)
  ultimately show ?thesis by (intro exI [of _ ?s]) simp
qed

lemma getRoutes_link:
  assumes "cuts pieces" "ready x" "canonical_xid d" "type_table x d \<in> set els" "t = tables_of x (type_table x d)"
    and "\<forall>(e, r)\<in>set (rts t). canonical_xid e \<and> listable r" "listable (rtdata t)" "length (rts t) < 2 ^ 24"
  shows "getRoutes (click_link why els pieces) (type_name (xid_type d)) x =
    Some (int (length (rts t)) + 1,
      listed_entry Default_route (rtdata t) # map (\<lambda>(e, r). listed_entry (To e) r) (rts t),
      with_tables no_err (tables_of x) x)"
proof -
  let ?ty = "type_name (xid_type d)" and ?el = "type_table x d" and ?H = "read_hook why (type_table x d) list_routes_handler"
  have k: "known_type (ntohl (xid_type d))" using assms(3) by (simp add: canonical_xid_def)
  note ty = type_name_chars [OF k]
  have ok: "\<forall>(e, r)\<in>set (rts t). canonical_xid e \<and> route_ok canonical_xid r" "route_ok canonical_xid (rtdata t)"
    using assms(6,7) by (auto simp: listable_def)
  obtain s where s: "list_routes_handler t = Inr s" "length s \<le> 121 * (length (rts t) + 1)"
      "lines_of s = route_text print_xid Default_route (rtdata t) # map (\<lambda>(d, r). route_text print_xid (To d) r) (rts t)"
    using list_routes_lines [OF ok] by blast
  have HH: "has_handler (table_router (no_context (\<lambda>_. None)) why els) ?el ''list'' ?H"
    using assms(4) type_name_known [OF k] unfolding type_table_def
    by (intro table_has_handler [OF assms(2) _ ty(2,3)])
      (simp_all add: table_handler_def visible_def read_hook_def plain_name_def visible_char_def)
  have c: "call_read ?H [] (router_state (cs_conn (xr_cs x))) = Inr (s, no_reports, tables_of x)"
    using s(1) assms(5) by (simp add: read_hook_def tables_of_def)
  have "cs_read_conn (click_link why els pieces) ?el ''list'' (cs_conn (xr_cs x)) =
      Some (no_err, s, (cs_conn (xr_cs x))\<lparr>router_state := tables_of x\<rparr>)"
    using cs_read_link [OF assms(1) _ HH _ c] assms(2,8) s(2) by (simp add: ready_def read_hook_def no_reports_def)
  then have rd: "cs_read (click_link why els pieces) ?el ''list'' (xr_cs x) =
      Some (no_err, s, (xr_cs x)\<lparr>cs_conn := (cs_conn (xr_cs x))\<lparr>router_state := tables_of x\<rparr>\<rparr>)"
    using assms(2) by (simp add: cs_read_def check_init_def ready_def)
  have es: "map route_entry (lines_of s) =
      listed_entry Default_route (rtdata t) # map (\<lambda>(e, r). listed_entry (To e) r) (rts t)"
    using ok s(3) by (auto simp: route_entry_printed key_ok_def)
  have len: "length (lines_of s) = length (rts t) + 1" using s(3) by simp
  have r: "xr_connected x" "xr_router x \<noteq> []" using assms(2) by (auto simp: ready_def plain_name_def)
  show ?thesis
    using r ty(1) rd by (simp add: getRoutes_def type_table_def cs_split_lines es len with_tables_def)
qed

text \<open>
  C17. A daemon reads every route of a table: \<^verbatim>\<open>XIARouter::getRoutes\<close> gives the default route and then one entry for each
  route, in the order of the table, with the XID, the next hop and the flags of the route, and changes nothing. The port
  of an entry is the port of the route modulo \<open>2\<^sup>1\<^sup>6\<close>: the negative ports of special routes are not given back.
\<close>

theorem getRoutes_lists_table:
  assumes "cuts pieces" "ready x" "canonical_xid d" "type_table x d \<in> set els" "t = tables_of x (type_table x d)"
    and "\<forall>(e, r)\<in>set (rts t). canonical_xid e \<and> listable r" "listable (rtdata t)" "length (rts t) < 2 ^ 24"
  shows "getRoutes (click_link why els pieces) (type_name (xid_type d)) x =
    Some (int (length (rts t)) + 1,
      listed_entry Default_route (rtdata t) # map (\<lambda>(e, r). listed_entry (To e) r) (rts t),
      with_tables no_err (tables_of x) x)"
  using assms by (rule getRoutes_link)

theorem getRoutes_lists_table_witness:
  "getRoutes (click_link ''bad'' [''router0/xrc/n/proc/rt_HID''] whole) ''HID''
      (with_tables no_err (\<lambda>_. store_route (sample_host 7) \<lparr>rport = - 2, rflags = 5, rnexthop = None\<rparr> empty_table) sample_XIARouter) =
    Some (2,
      [\<lparr>xre_xid = ''-'', xre_nextHop = [], xre_port = 0xffff, xre_flags = 0\<rparr>,
       \<lparr>xre_xid = print_xid (sample_host 7), xre_nextHop = [], xre_port = 0xfffe, xre_flags = 5\<rparr>],
      with_tables no_err (\<lambda>_. store_route (sample_host 7) \<lparr>rport = - 2, rflags = 5, rnexthop = None\<rparr> empty_table) sample_XIARouter)"
proof -
  let ?t = "store_route (sample_host 7) \<lparr>rport = - 2, rflags = 5, rnexthop = None\<rparr> empty_table"
  let ?x = "with_tables no_err (\<lambda>_. ?t) sample_XIARouter"
  have el: "type_table ?x (sample_host 7) = ''router0/xrc/n/proc/rt_HID''"
    using sample_type_table [of 7] by (simp add: type_table_def)
  have ty: "type_name (xid_type (sample_host 7)) = ''HID''"
    by (simp add: sample_host_def type_name_def xid_type_defs)
  have again: "with_tables no_err (tables_of ?x) ?x = ?x" by (simp add: with_tables_def tables_of_def)
  have rd: "ready ?x" using sample_ready(1) by simp
  show ?thesis
    using getRoutes_lists_table [OF cuts_whole rd canonical_sample, of 7 "[''router0/xrc/n/proc/rt_HID'']" ?t "''bad''"]
    unfolding el ty again
    by (simp add: listable_def route_ok_def listed_entry_def key_text_def nexthop_string_def store_route_def
        empty_table_def no_route_def)
qed

end
