(* ===== verification/Spec2Isabelle.thy ===== *)
theory Spec2Isabelle
  imports Xia_Path_Re Xia_Ext_Header Xia_Route_Engine_Ends Xia_Fast_Path Xia_Arp_Exchange Xcache_Api
    Xrouted_Ends Xia_Router
begin

text \<open>
  Verification of the XIA prototype with its content cache. Paths below are relative to \<^verbatim>\<open>src/\<close>, and \<^verbatim>\<open>click\<close> stands
  for \<^verbatim>\<open>click-2.0.1\<close>.

  \<^bold>\<open>The program.\<close> A host or router of the eXpressive Internet Architecture runs a Click configuration
  (\<^verbatim>\<open>click/conf/xia_router_lib.click\<close>). Addresses are acyclic graphs of typed identifiers (XIDs), and a packet carries
  two of them. A frame enters through a line card, which resolves neighbour addresses; the routing process takes the
  packet along the edges of its destination graph through one route table for each type of identifier; what it cannot
  forward becomes a control message to the sender. Beside the router run the cache daemon \<^verbatim>\<open>xcache\<close>, which stores
  content objects in slices for the applications that use its client library, and the routing daemon \<^verbatim>\<open>xrouted\<close>, which
  computes routes between ADs and writes them into the router's tables through Click's control socket.

  \<^bold>\<open>Conventions.\<close> A C or C++ statement that would dereference null, leave an array, overrun a buffer, fail an assertion
  or divide by zero gives a value \<open>Inl\<close> of a fault (\<open>fault + 'a\<close>, abbreviated \<open>'a run\<close>); a loop that may not end is a
  \<^theory_text>\<open>partial_function (option)\<close> or takes fuel, and \<^const>\<open>None\<close> says that it did not return. Machine integers are words of
  their width. Memory that is allocated and not cleared is an argument (\<open>junk\<close>). Elements are functions from a packet
  and their state to the packets they push, with port numbers, and the new state. The text of an XID can be a name;
  the name database is an argument (\<open>ctx\<close>), as is the reverse lookup.

  \<^bold>\<open>Theories and what they show.\<close>
  \<^item> \<^verbatim>\<open>Xia_Prelude\<close>: words, byte orders, faults, and three interfaces: \<open>byte_codec\<close> for encodings, \<open>invariant_system\<close> for
    what every event keeps, \<open>refinement\<close> for operations that implement a specification. Every locale is interpreted on
    the definitions of the components.
  \<^item> \<^verbatim>\<open>Xia_Xid\<close> (\<^verbatim>\<open>click/lib/xid.cc\<close>, \<^verbatim>\<open>xidpair.cc\<close>): identifiers, comparison, hashing, and when printing stays inside
    its buffer. \<^verbatim>\<open>Xia_Confparse\<close> (\<^verbatim>\<open>click/lib/confparse.cc\<close>, \<^verbatim>\<open>args.cc\<close>): words, quotes, integers, XIDs in text; printing
    and parsing are inverse.
  \<^item> \<^verbatim>\<open>Xia_Path\<close>, \<^verbatim>\<open>Xia_Path_Valid\<close>, \<^verbatim>\<open>Xia_Path_Nodes\<close>, \<^verbatim>\<open>Xia_Path_Text\<close>, \<^verbatim>\<open>Xia_Path_Re\<close>, \<^verbatim>\<open>Xia_Path_Print\<close>
    (\<^verbatim>\<open>click/lib/xiapath.cc\<close>): the graph of an address. The topological ordering succeeds exactly on acyclic graphs;
    \<^verbatim>\<open>is_valid\<close> decides a declarative notion of validity; editing keeps the rest of the graph; the packet form and both text
    forms are round trips; printing ends.
  \<^item> \<^verbatim>\<open>Xia_Header\<close> (\<^verbatim>\<open>click/lib/xiaheader.cc\<close>) and \<^verbatim>\<open>Xia_Ext_Header\<close> (\<^verbatim>\<open>xiaextheader.cc\<close>, \<^verbatim>\<open>xiacontentheader.cc\<close>,
    \<^verbatim>\<open>xiatransportheader.cc\<close>): headers as bytes and as paths, round trips, and the lengths at which they break.
  \<^item> \<^verbatim>\<open>Xia_Packet\<close>, \<^verbatim>\<open>Xia_Route_Table\<close>, \<^verbatim>\<open>Xia_Route_Spec\<close>, \<^verbatim>\<open>Xia_Route_Forward\<close>
    (\<^verbatim>\<open>click/elements/xia/xiaxidroutetable.cc\<close>): the text handlers refine a partial map, the printed table can be reloaded, a
    written route is the one packets take, neighbours are learned, and every sequence of handlers and packets keeps one
    route for each XID.
  \<^item> \<^verbatim>\<open>Xia_Forwarding\<close>, \<^verbatim>\<open>Xia_Routing_Process\<close>, \<^verbatim>\<open>Xia_Routing_Fallback\<close>, \<^verbatim>\<open>Xia_Built_Packets\<close> (the forwarding elements
    and \<^verbatim>\<open>XIAPacketRoute\<close>): routing ends, with a result or a fault, when the destination nodes of the header have
    no cycle, however they are numbered, in particular for every header built from valid paths; it takes the first usable edge
    when the edges before it have a route that discards, falls back or has no meaning; of the header, only the hop limit and the
    marks of progress change; two ways in which it fails are shown.
  \<^item> \<^verbatim>\<open>Xia_Xcmp\<close>, \<^verbatim>\<open>Xia_Xcmp_Messages\<close>, \<^verbatim>\<open>Xia_Xcmp_Redirect\<close>, \<^verbatim>\<open>Xia_Route_Engine\<close>, \<^verbatim>\<open>Xia_Route_Engine_Ends\<close>
    (\<^verbatim>\<open>xcmp.cc\<close>, \<^verbatim>\<open>RouteEngine\<close>): control messages, their checksum and addresses, who answers whom, and a redirect from the
    route table that notices it to the table it changes at the sender; the engine with all reports a packet gives rise to ends,
    with a result or a fault, for packets with valid addresses, and its output and state stay well-formed. Reports and replies of
    1500 bytes or more stop the router.
  \<^item> \<^verbatim>\<open>Xia_Fast_Path\<close> (\<^verbatim>\<open>xiafastpath.cc\<close>): the cache of forwarding decisions refines a table with one line for each bucket.
  \<^item> \<^verbatim>\<open>Xia_Arp_Table\<close>, \<^verbatim>\<open>Xia_Arp\<close>, \<^verbatim>\<open>Xia_Arp_Invariant\<close>, \<^verbatim>\<open>Xia_Arp_Exchange\<close> (\<^verbatim>\<open>xarptable.cc\<close>, \<^verbatim>\<open>xarpquerier.cc\<close>,
    \<^verbatim>\<open>xarpresponder.cc\<close>, \<^verbatim>\<open>XIALineCard\<close>): the querier runs without a fault and keeps exact counters; two line cards resolve
    an address, and the reply releases the packets that wait for it, of which the oldest is dropped when the queue was full; a
    frame arrives as it was sent.
  \<^item> \<^verbatim>\<open>Xcache_Core\<close>, \<^verbatim>\<open>Xcache_Controller\<close>, \<^verbatim>\<open>Xcache_Spec\<close>, \<^verbatim>\<open>Xcache_Api\<close> (\<^verbatim>\<open>xcache/\<close>): the commands of the daemon refine a
    map from names to content with a set of names for each slice; a small file put by the client library is found; the
    cases that overrun a buffer are shown. The serialisation of commands (protocol buffers) and the hash of content are
    arguments with named hypotheses.
  \<^item> \<^verbatim>\<open>Std_Map\<close>, \<^verbatim>\<open>Xrouted_State\<close>, \<^verbatim>\<open>Xrouted_Dijkstra\<close>, \<^verbatim>\<open>Xrouted_Paths\<close>, \<^verbatim>\<open>Xrouted_Ends\<close> (\<^verbatim>\<open>daemons/xrouted\<close>): maps
    with strings as keys, the tables of the routing daemon and its computation of routes, which gives shortest paths; it ends
    on every table whose entries are filed under their own ADs, and the two ways in which it goes wrong are shown.
  \<^item> \<^verbatim>\<open>Control_Socket\<close> (\<^verbatim>\<open>click/elements/userlevel/controlsocket.cc\<close>), \<^verbatim>\<open>Control_Client\<close>
    (\<^verbatim>\<open>daemons/common/csclient.cc\<close>), \<^verbatim>\<open>Control_Tables\<close>, \<^verbatim>\<open>Control_Exchange\<close>: the control protocol. A call of the client runs the
    named handler of the router once, with the client's data, and brings back its answer, for every way the connection cuts
    each write; two replies that never end are shown.
  \<^item> \<^verbatim>\<open>Xia_Router\<close> (\<^verbatim>\<open>daemons/common/XIARouter.cc\<close>): the calls with which daemons read and write the route tables of
    Click. A route that is set is stored in the table of its type, and a table is read back, through client, control socket
    and handlers.

  \<^bold>\<open>Bounds and fuel.\<close> The routing process takes a number of rounds; five for each destination node and five more suffice,
  and a header has at most 255 nodes, so that 1,280 rounds are enough for every packet and every report in the routing engine. Paths of at most 128 nodes are what the seven-bit edge index can hold. The receive
  loops of the cache take the results of \<^verbatim>\<open>read\<close> as a list and give \<^const>\<open>None\<close> when it is used up.

  \<^bold>\<open>Not modelled.\<close> The Click core (packets in memory, the scheduler, the element graph) and its elements outside
  \<^verbatim>\<open>elements/xia\<close> other than the control socket, because the XIA elements only call them; of the control socket, the listening
  socket, proxies and the effect of \<^verbatim>\<open>LLRPC\<close> commands. The transport element
  \<^verbatim>\<open>xtransport.cc\<close>, the element \<^verbatim>\<open>xroute.cc\<close> and the sockets library \<^verbatim>\<open>api/xsocket\<close>, whose behaviour is timers, operating
  system sockets and generated protocol buffers. The messages and the event loop of \<^verbatim>\<open>xrouted\<close>, the other daemons under
  \<^verbatim>\<open>daemons\<close>, the applications, the experiments and the copies of BIND and of network drivers, which are separate programs.
\<close>

end
